(* ===== verification/Prelude.thy ===== *)
theory Prelude
  imports Complex_Main "HOL-Library.Sublist" "HOL-Library.Char_ord" "HOL-Library.List_Lexorder"
    "HOL-Library.Code_Target_Nat"
begin

text \<open>
  Shared vocabulary of the development: Rust strings as byte lists with the
  standard-library operations the sources call on them, results as sums, SQL's
  three truth values, and the list lemmas the component proofs share.

  A Rust \<open>str\<close> is a sequence of UTF-8 bytes. It is modelled as a
  \<open>string\<close> (a list of 8-bit \<open>char\<close>s): \<open>str::len\<close> is \<open>length\<close>, the ordering of
  \<open>String\<close> is the lexicographic one on bytes, and a count of \<open>char\<close>s skips the
  UTF-8 continuation bytes.
\<close>

named_theorems str_defs \<open>definitions of the string operations\<close>
named_theorems tri_simps \<open>evaluation rules of three-valued logic\<close>

section \<open>Results\<close>

text \<open>
  \<open>Result<T, E>\<close> is the sum \<open>'e + 'a\<close>: \<open>Inl\<close> is \<open>Err\<close>, \<open>Inr\<close> is \<open>Ok\<close>.
  The operator \<open>?\<close> is \<open>bind_r\<close>.
\<close>

type_synonym ('a, 'e) result = "'e + 'a"

fun bind_r :: "('a, 'e) result \<Rightarrow> ('a \<Rightarrow> ('b, 'e) result) \<Rightarrow> ('b, 'e) result" where
  "bind_r (Inl e) f = Inl e"
| "bind_r (Inr a) f = f a"

fun is_ok :: "('a, 'e) result \<Rightarrow> bool" where
  "is_ok (Inl _) = False"
| "is_ok (Inr _) = True"

fun map_err :: "('e \<Rightarrow> 'f) \<Rightarrow> ('a, 'e) result \<Rightarrow> ('a, 'f) result" where
  "map_err f (Inl e) = Inl (f e)"
| "map_err f (Inr a) = Inr a"

definition unwrap_or :: "'a option \<Rightarrow> 'a \<Rightarrow> 'a" where
  "unwrap_or o' d = (case o' of Some a \<Rightarrow> a | None \<Rightarrow> d)"

text \<open>\<open>iter().try_for_each(f)\<close>: the first error stops the walk.\<close>

fun try_for_each :: "('a \<Rightarrow> (unit, 'e) result) \<Rightarrow> 'a list \<Rightarrow> (unit, 'e) result" where
  "try_for_each f [] = Inr ()"
| "try_for_each f (x # xs) = bind_r (f x) (\<lambda>_. try_for_each f xs)"

lemma bind_r_eq_Inr [simp]:
  "bind_r r f = Inr b \<longleftrightarrow> (\<exists>a. r = Inr a \<and> f a = Inr b)"
  by (cases r) auto

lemma bind_r_split_Inr: "Inr b = bind_r r f \<longleftrightarrow> (\<exists>a. r = Inr a \<and> f a = Inr b)"
  by (metis bind_r_eq_Inr)

lemma is_ok_iff: "is_ok r \<longleftrightarrow> (\<exists>a. r = Inr a)"
  by (cases r) auto

lemma map_err_eq_Inr [simp]: "map_err f r = Inr a \<longleftrightarrow> r = Inr a"
  by (cases r) auto

lemma try_for_each_ok:
  "try_for_each f xs = Inr () \<longleftrightarrow> (\<forall>x \<in> set xs. f x = Inr ())"
  by (induction xs) auto

lemma bind_r_eq_Inl: "bind_r r f = Inl e \<longleftrightarrow> r = Inl e \<or> (\<exists>a. r = Inr a \<and> f a = Inl e)"
  by (cases r) auto

lemma map_err_eq_Inl: "map_err f r = Inl e \<longleftrightarrow> (\<exists>e'. r = Inl e' \<and> e = f e')"
  by (cases r) auto

lemmas result_Inl = bind_r_eq_Inl map_err_eq_Inl

lemma try_for_each_err: "try_for_each f xs = Inl e \<Longrightarrow> \<exists>x \<in> set xs. f x = Inl e"
  by (induction xs) (auto simp: result_Inl)

lemma try_for_each_cong [fundef_cong]:
  "xs = ys \<Longrightarrow> (\<And>x. x \<in> set ys \<Longrightarrow> f x = g x) \<Longrightarrow> try_for_each f xs = try_for_each g ys"
  by (induction xs arbitrary: ys) auto

section \<open>Strings\<close>

abbreviation dquote :: char where "dquote \<equiv> CHR 0x22"
abbreviation backslash :: char where "backslash \<equiv> CHR 0x5C"

text \<open>\<open>parts.join(sep)\<close>.\<close>

fun join :: "string \<Rightarrow> string list \<Rightarrow> string" where
  "join sep [] = []"
| "join sep [x] = x"
| "join sep (x # y # ys) = x @ sep @ join sep (y # ys)"

text \<open>\<open>s.replace(c, rep)\<close> for a one-byte pattern.\<close>

definition replace_char :: "char \<Rightarrow> string \<Rightarrow> string \<Rightarrow> string" where
  "replace_char c rep s = concat (map (\<lambda>x. if x = c then rep else [x]) s)"

definition starts_with :: "string \<Rightarrow> string \<Rightarrow> bool" where
  "starts_with s p = prefix p s"

definition ends_with :: "string \<Rightarrow> string \<Rightarrow> bool" where
  "ends_with s p = suffix p s"

fun str_contains :: "string \<Rightarrow> string \<Rightarrow> bool" where
  "str_contains [] p = (p = [])"
| "str_contains (c # s) p = (prefix p (c # s) \<or> str_contains s p)"

text \<open>\<open>s.trim_start_matches(c)\<close>.\<close>

definition trim_start_matches :: "char \<Rightarrow> string \<Rightarrow> string" where
  "trim_start_matches c s = dropWhile (\<lambda>x. x = c) s"

definition byte :: "char \<Rightarrow> nat" where
  "byte c = of_char c"

definition ascii_lower :: "char \<Rightarrow> char" where
  "ascii_lower c = (if 65 \<le> byte c \<and> byte c \<le> 90 then char_of (byte c + 32) else c)"

definition ascii_upper :: "char \<Rightarrow> char" where
  "ascii_upper c = (if 97 \<le> byte c \<and> byte c \<le> 122 then char_of (byte c - 32) else c)"

definition is_ascii_alphabetic :: "char \<Rightarrow> bool" where
  "is_ascii_alphabetic c = (65 \<le> byte c \<and> byte c \<le> 90 \<or> 97 \<le> byte c \<and> byte c \<le> 122)"

definition is_ascii_alphanumeric :: "char \<Rightarrow> bool" where
  "is_ascii_alphanumeric c = (is_ascii_alphabetic c \<or> 48 \<le> byte c \<and> byte c \<le> 57)"

definition is_digit :: "char \<Rightarrow> bool" where
  "is_digit c = (48 \<le> byte c \<and> byte c \<le> 57)"

text \<open>\<open>s.parse::<uN>()\<close>: an optional plus sign and at least one decimal digit, below $2^N$.\<close>

definition digits_value :: "string \<Rightarrow> nat" where
  "digits_value s = foldl (\<lambda>n c. n * 10 + (byte c - 48)) 0 s"

definition parse_unsigned :: "nat \<Rightarrow> string \<Rightarrow> nat option" where
  "parse_unsigned w s =
     (let d = (if s \<noteq> [] \<and> hd s = CHR ''+'' then tl s else s)
      in if d \<noteq> [] \<and> list_all is_digit d \<and> digits_value d < 2 ^ w then Some (digits_value d) else None)"

text \<open>\<open>s.parse::<i64>()\<close>.\<close>

definition parse_i64 :: "string \<Rightarrow> int option" where
  "parse_i64 s =
     (case s of
        [] \<Rightarrow> None
      | c # ds \<Rightarrow>
          if c = CHR ''-''
          then if ds \<noteq> [] \<and> (\<forall>d \<in> set ds. is_digit d) \<and> digits_value ds \<le> 2 ^ 63 then Some (- int (digits_value ds)) else None
          else Option.bind (parse_unsigned 63 s) (\<lambda>n. Some (int n)))"

definition to_ascii_lowercase :: "string \<Rightarrow> string" where
  "to_ascii_lowercase s = map ascii_lower s"

definition to_ascii_uppercase :: "string \<Rightarrow> string" where
  "to_ascii_uppercase s = map ascii_upper s"

text \<open>\<open>s.chars().count()\<close>: the bytes that are not UTF-8 continuation bytes.\<close>

definition chars_count :: "string \<Rightarrow> nat" where
  "chars_count s = length (filter (\<lambda>c. \<not> (128 \<le> byte c \<and> byte c < 192)) s)"

text \<open>\<open>s.split(c)\<close> for a one-byte separator: always at least one piece.\<close>

fun split_on :: "char \<Rightarrow> string \<Rightarrow> string list" where
  "split_on c [] = [[]]"
| "split_on c (x # xs) =
     (if x = c then [] # split_on c xs
      else (case split_on c xs of [] \<Rightarrow> [[x]] | p # ps \<Rightarrow> (x # p) # ps))"

text \<open>
  The byte length of the Unicode \<open>White_Space\<close> character a string starts with,
  0 when it starts with none: the characters \<open>str::trim\<close> and
  \<open>str::split_whitespace\<close> treat as blank, in their UTF-8 encoding.
\<close>

definition ws_len :: "string \<Rightarrow> nat" where
  "ws_len s = (case map byte (take 3 s) of
       [] \<Rightarrow> 0
     | a # rest \<Rightarrow>
         if (9 \<le> a \<and> a \<le> 13) \<or> a = 32 then 1
         else (case rest of
             [] \<Rightarrow> 0
           | b # rest2 \<Rightarrow>
               if a = 194 \<and> (b = 133 \<or> b = 160) then 2
               else (case rest2 of
                   [] \<Rightarrow> 0
                 | c # _ \<Rightarrow>
                     if a = 225 \<and> b = 154 \<and> c = 128 then 3
                     else if a = 226 \<and> b = 128 \<and>
                             ((128 \<le> c \<and> c \<le> 138) \<or> c = 168 \<or> c = 169 \<or> c = 175) then 3
                     else if a = 226 \<and> b = 129 \<and> c = 159 then 3
                     else if a = 227 \<and> b = 128 \<and> c = 128 then 3
                     else 0)))"

text \<open>\<open>s.split_whitespace()\<close>: the maximal runs of non-blank characters.\<close>

function split_ws_acc :: "string \<Rightarrow> string \<Rightarrow> string list" where
  "split_ws_acc acc s =
     (if s = [] then (if acc = [] then [] else [rev acc])
      else if 0 < ws_len s
        then (if acc = [] then [] else [rev acc]) @ split_ws_acc [] (drop (ws_len s) s)
        else split_ws_acc (hd s # acc) (tl s))"
  by pat_completeness auto
termination
  by (relation "measure (\<lambda>(acc, s). length s)") auto

declare split_ws_acc.simps [simp del]

definition split_whitespace :: "string \<Rightarrow> string list" where
  "split_whitespace s = split_ws_acc [] s"

text \<open>\<open>s.trim()\<close>: blank characters off both ends.\<close>

lemma ws_len_Nil [simp]: "ws_len [] = 0"
  by (simp add: ws_len_def)

function trim_start :: "string \<Rightarrow> string" where
  "trim_start s = (if 0 < ws_len s then trim_start (drop (ws_len s) s) else s)"
  by pat_completeness auto
termination
proof (relation "measure length")
  fix s :: string
  assume "0 < ws_len s"
  then have "s \<noteq> []" by auto
  with \<open>0 < ws_len s\<close> show "(drop (ws_len s) s, s) \<in> measure length" by simp
qed simp

declare trim_start.simps [simp del]

text \<open>\<open>blank s\<close>: \<open>s\<close> is all white space, i.e. trims to nothing from the left.\<close>

definition blank :: "string \<Rightarrow> bool" where
  "blank s = (trim_start s = [])"

fun trim_end :: "string \<Rightarrow> string" where
  "trim_end [] = []"
| "trim_end (c # s) = (if blank (c # s) then [] else c # trim_end s)"

definition trim :: "string \<Rightarrow> string" where
  "trim s = trim_end (trim_start s)"

text \<open>The decimal text of a number, as \<open>format!\<close> writes it.\<close>

function nat_to_string :: "nat \<Rightarrow> string" where
  "nat_to_string n =
     (if n < 10 then [char_of (48 + n)] else nat_to_string (n div 10) @ [char_of (48 + n mod 10)])"
  by pat_completeness auto
termination
  by (relation "measure id") auto

declare nat_to_string.simps [simp del]

text \<open>\<open>'s'\<close>, as the messages quote an argument.\<close>

definition squoted :: "string \<Rightarrow> string" where
  "squoted s = [CHR 0x27] @ s @ [CHR 0x27]"

text \<open>\<open>s.replace(p, r)\<close> for a non-empty pattern: left to right, without overlap.\<close>

function replace_str :: "string \<Rightarrow> string \<Rightarrow> string \<Rightarrow> string" where
  "replace_str p r s =
     (if s = [] \<or> p = [] then s
      else if prefix p s then r @ replace_str p r (drop (length p) s)
      else hd s # replace_str p r (tl s))"
  by pat_completeness auto
termination
  by (relation "measure (\<lambda>(p, r, s). length s)") auto

declare replace_str.simps [simp del]

text \<open>
  The length of the UTF-8 sequence a byte string starts with, 0 when it starts with none, and
  \<open>String::from_utf8\<close>'s test.
\<close>

definition cont :: "nat \<Rightarrow> bool" where
  "cont b = (128 \<le> b \<and> b \<le> 191)"

definition utf8_seq :: "string \<Rightarrow> nat" where
  "utf8_seq s =
     (case map byte (take 4 s) of
        [] \<Rightarrow> 0
      | a # r \<Rightarrow>
          if a < 128 then 1
          else (case r of
            [] \<Rightarrow> 0
          | b # r2 \<Rightarrow>
              if 194 \<le> a \<and> a \<le> 223 \<and> cont b then 2
              else (case r2 of
                [] \<Rightarrow> 0
              | c # r3 \<Rightarrow>
                  if cont c \<and> (a = 224 \<and> 160 \<le> b \<and> b \<le> 191 \<or> a = 237 \<and> 128 \<le> b \<and> b \<le> 159 \<or>
                      (225 \<le> a \<and> a \<le> 236 \<or> a = 238 \<or> a = 239) \<and> cont b) then 3
                  else (case r3 of
                    [] \<Rightarrow> 0
                  | d # _ \<Rightarrow>
                      if cont c \<and> cont d \<and> (a = 240 \<and> 144 \<le> b \<and> b \<le> 191 \<or> 241 \<le> a \<and> a \<le> 243 \<and> cont b \<or>
                          a = 244 \<and> 128 \<le> b \<and> b \<le> 143) then 4 else 0))))"

function is_utf8 :: "string \<Rightarrow> bool" where
  "is_utf8 s =
     (if s = [] then True else if utf8_seq s = 0 then False else is_utf8 (drop (utf8_seq s) s))"
  by pat_completeness auto
termination
  by (relation "measure length") auto

declare is_utf8.simps [simp del]

section \<open>Three-valued logic\<close>

text \<open>The truth values of SQL, as the enum \<open>Tri\<close> of \<open>query/policy.rs\<close> has them.\<close>

datatype tri = TTrue | TFalse | TUnknown

fun tri_not :: "tri \<Rightarrow> tri" where
  "tri_not TTrue = TFalse"
| "tri_not TFalse = TTrue"
| "tri_not TUnknown = TUnknown"

definition tri_from_bool :: "bool \<Rightarrow> tri" where
  "tri_from_bool b = (if b then TTrue else TFalse)"

text \<open>The Kleene connectives over a list of operands, in any order of evaluation.\<close>

definition tri_all :: "tri list \<Rightarrow> tri" where
  "tri_all ts = (if TFalse \<in> set ts then TFalse
                 else if TUnknown \<in> set ts then TUnknown else TTrue)"

definition tri_any :: "tri list \<Rightarrow> tri" where
  "tri_any ts = (if TTrue \<in> set ts then TTrue
                 else if TUnknown \<in> set ts then TUnknown else TFalse)"

lemma tri_from_bool_simps [simp]:
  "tri_from_bool True = TTrue" "tri_from_bool False = TFalse"
  "tri_from_bool b = TTrue \<longleftrightarrow> b" "tri_from_bool b = TFalse \<longleftrightarrow> \<not> b"
  "tri_from_bool b \<noteq> TUnknown"
  by (auto simp: tri_from_bool_def)

lemma tri_all_Nil [simp]: "tri_all [] = TTrue"
  and tri_any_Nil [simp]: "tri_any [] = TFalse"
  by (auto simp: tri_all_def tri_any_def)

lemma tri_all_Cons [tri_simps]:
  "tri_all (t # ts) = (case t of TTrue \<Rightarrow> tri_all ts | TFalse \<Rightarrow> TFalse
     | TUnknown \<Rightarrow> (if tri_all ts = TFalse then TFalse else TUnknown))"
  by (cases t) (auto simp: tri_all_def)

lemma tri_any_Cons [tri_simps]:
  "tri_any (t # ts) = (case t of TFalse \<Rightarrow> tri_any ts | TTrue \<Rightarrow> TTrue
     | TUnknown \<Rightarrow> (if tri_any ts = TTrue then TTrue else TUnknown))"
  by (cases t) (auto simp: tri_any_def)

lemma tri_all_TTrue: "tri_all ts = TTrue \<longleftrightarrow> (\<forall>t \<in> set ts. t = TTrue)"
  unfolding tri_all_def by (metis tri.exhaust tri.distinct(1,3))

lemma tri_any_TTrue: "tri_any ts = TTrue \<longleftrightarrow> TTrue \<in> set ts"
  by (auto simp: tri_any_def)

lemma tri_not_TTrue [simp]: "tri_not t = TTrue \<longleftrightarrow> t = TFalse"
  by (cases t) auto

section \<open>Lemmas on strings and lists\<close>

lemmas [str_defs] = replace_char_def starts_with_def ends_with_def trim_start_matches_def

lemma join_Cons: "join sep (x # xs) = (if xs = [] then x else x @ sep @ join sep xs)"
  by (cases xs) auto

lemma replace_char_Nil [simp]: "replace_char c r [] = []"
  by (simp add: replace_char_def)

lemma replace_char_Cons [simp]:
  "replace_char c r (x # xs) = (if x = c then r else [x]) @ replace_char c r xs"
  by (simp add: replace_char_def)

lemma split_on_neq_Nil [simp]: "split_on c s \<noteq> []"
  by (induction s) (auto split: list.splits)

lemma split_on_no_sep: "seg \<in> set (split_on c s) \<Longrightarrow> c \<notin> set seg"
  by (induction s arbitrary: seg) (auto split: list.splits if_splits)

lemma join_split_on: "join [c] (split_on c s) = s"
proof (induction s)
  case (Cons x xs)
  then show ?case
    by (cases "split_on c xs") (auto simp: join_Cons split: if_splits)
qed simp

lemma split_on_append:
  "split_on c (xs @ c # ys) = split_on c xs @ split_on c ys"
  by (induction xs) (auto split: list.splits)

lemma str_contains_iff: "str_contains s p \<longleftrightarrow> sublist p s"
proof (induction s)
  case (Cons c s)
  then show ?case by (simp add: sublist_Cons_right)
qed simp

lemma map_of_mem: "map_of xs k = Some v \<Longrightarrow> (k, v) \<in> set xs"
  by (rule map_of_SomeD)

lemma pair_list_cases:
  obtains (Nil) "m = []" | (Single) k v where "m = [(k, v)]" | (Many) x y zs where "m = x # y # zs"
  by (metis list.exhaust prod.exhaust)

section \<open>Numbers as text\<close>

lemma byte_char_of: "n < 256 \<Longrightarrow> byte (char_of n) = n"
  by (simp add: byte_def)

lemma nat_to_string_digits:
  "nat_to_string n \<noteq> [] \<and> list_all is_digit (nat_to_string n) \<and> digits_value (nat_to_string n) = n"
proof (induction n rule: nat_to_string.induct)
  case (1 n)
  show ?case
  proof (cases "n < 10")
    case True
    then show ?thesis
      by (simp add: nat_to_string.simps [of n] is_digit_def digits_value_def byte_char_of)
  next
    case False
    with 1 show ?thesis
      by (simp add: nat_to_string.simps [of n] is_digit_def digits_value_def byte_char_of)
  qed
qed

lemma is_digit_not_sign: "is_digit c \<Longrightarrow> c \<noteq> CHR ''-'' \<and> c \<noteq> CHR ''+''"
  by (auto simp: is_digit_def byte_def)

end
