(* ===== verification/Json.thy ===== *)
theory Json
  imports Prelude
begin

text \<open>
  JSON values as \<open>serde_json::Value\<close> has them, SQL values as
  \<open>rusqlite::types::Value\<close> has them, the conversion between the two, and the filter
  grammar \<open>FilterAst\<close> of \<open>query/vector_filter.rs\<close> with its untagged
  deserialisation.

  A finite \<open>f64\<close> is a dyadic rational and is modelled by the rational it denotes; JSON
  carries no NaN and no infinity. The crate enables \<open>preserve_order\<close>, so an object is
  an association list in insertion order, its keys distinct.
\<close>

section \<open>Numbers\<close>

type_synonym f64 = rat

abbreviation (input) i64_max :: int where "i64_max \<equiv> 9223372036854775807"

fun nat_bits :: "nat \<Rightarrow> nat" where
  "nat_bits n = (if n = 0 then 0 else Suc (nat_bits (n div 2)))"

declare nat_bits.simps [simp del]

text \<open>
  \<open>n as f64\<close>: exact below $2^{53}$; above, the nearest multiple of the unit in the
  last place, ties to even.
\<close>

definition f64_of_nat :: "nat \<Rightarrow> f64" where
  "f64_of_nat m =
     (if m < 2 ^ 53 then of_nat m
      else let e = nat_bits m - 53; q = m div 2 ^ e; r = m mod 2 ^ e; h = 2 ^ (e - 1)
           in of_nat ((if r > h \<or> (r = h \<and> odd q) then q + 1 else q) * 2 ^ e))"

definition f64_of_int :: "int \<Rightarrow> f64" where
  "f64_of_int i = (if i < 0 then - f64_of_nat (nat (- i)) else f64_of_nat (nat i))"

lemma f64_of_int_exact: "\<bar>i\<bar> < 2 ^ 53 \<Longrightarrow> f64_of_int i = of_int i"
  by (cases i) (auto simp: f64_of_int_def f64_of_nat_def)

text \<open>\<open>serde_json::Number\<close>: a \<open>u64\<close>, a negative \<open>i64\<close>, or a finite \<open>f64\<close>.\<close>

datatype jnum = PosInt nat | NegInt int | Float f64

fun as_i64 :: "jnum \<Rightarrow> int option" where
  "as_i64 (PosInt n) = (if int n \<le> i64_max then Some (int n) else None)"
| "as_i64 (NegInt i) = Some i"
| "as_i64 (Float _) = None"

fun as_f64 :: "jnum \<Rightarrow> f64 option" where
  "as_f64 (PosInt n) = Some (f64_of_nat n)"
| "as_f64 (NegInt i) = Some (f64_of_int i)"
| "as_f64 (Float f) = Some f"

section \<open>JSON and SQL values\<close>

datatype json =
    JNull
  | JBool bool
  | JNumber jnum
  | JString string
  | JArray "json list"
  | JObject "(string \<times> json) list"

type_synonym jmap = "(string \<times> json) list"

fun as_bool :: "json \<Rightarrow> bool option" where
  "as_bool (JBool b) = Some b" | "as_bool _ = None"

fun as_str :: "json \<Rightarrow> string option" where
  "as_str (JString s) = Some s" | "as_str _ = None"

fun as_array :: "json \<Rightarrow> json list option" where
  "as_array (JArray xs) = Some xs" | "as_array _ = None"

fun as_object :: "json \<Rightarrow> jmap option" where
  "as_object (JObject o') = Some o'" | "as_object _ = None"

definition contains_key :: "jmap \<Rightarrow> string \<Rightarrow> bool" where
  "contains_key m k = (map_of m k \<noteq> None)"

text \<open>\<open>Map::insert\<close> keeps the position of an existing key, else appends.\<close>

fun jmap_insert :: "string \<Rightarrow> json \<Rightarrow> jmap \<Rightarrow> jmap" where
  "jmap_insert k v [] = [(k, v)]"
| "jmap_insert k v ((k', v') # m) = (if k' = k then (k, v) # m else (k', v') # jmap_insert k v m)"

definition jmap_remove :: "string \<Rightarrow> jmap \<Rightarrow> jmap" where
  "jmap_remove k m = filter (\<lambda>(k', _). k' \<noteq> k) m"

lemma map_of_jmap_insert: "map_of (jmap_insert k v m) = (map_of m)(k \<mapsto> v)"
  by (induction m) auto

lemma map_of_jmap_remove: "map_of (jmap_remove k m) = (map_of m)(k := None)"
  by (induction m) (auto simp: jmap_remove_def)

datatype sqlval = Null | Integer int | Real f64 | Text string | Blob string

fun json_to_value :: "json \<Rightarrow> sqlval" where
  "json_to_value JNull = Null"
| "json_to_value (JBool b) = Integer (if b then 1 else 0)"
| "json_to_value (JNumber n) =
     (case as_i64 n of
        Some i \<Rightarrow> Integer i
      | None \<Rightarrow> (case as_f64 n of Some f \<Rightarrow> Real f | None \<Rightarrow> Null))"
| "json_to_value (JString s) = Text s"
| "json_to_value _ = Null"

text \<open>\<open>row.get(f).map(json_to_value).unwrap_or(Value::Null)\<close>.\<close>

definition row_value :: "jmap \<Rightarrow> string \<Rightarrow> sqlval" where
  "row_value row f = (case map_of row f of Some j \<Rightarrow> json_to_value j | None \<Rightarrow> Null)"

lemma json_to_value_not_Blob: "json_to_value j \<noteq> Blob b"
  by (cases j) (auto split: option.splits)

lemma row_value_not_Blob: "row_value row f \<noteq> Blob b"
  by (auto simp: row_value_def json_to_value_not_Blob split: option.splits)

section \<open>The filter grammar\<close>

datatype filter_ast =
    FAnd "filter_ast list"
  | FOr "filter_ast list"
  | FNot filter_ast
  | FLeaf jmap

lemma map_of_size_json:
  "map_of m k = Some j \<Longrightarrow> size j < Suc (size_list (size_prod (\<lambda>_. 0) size) m)"
  by (induction m) (auto split: if_splits)

lemma map_of_size_elems:
  assumes "map_of m k = Some (JArray xs)"
  shows "size_list size xs < Suc (size_list (size_prod (\<lambda>_. 0) size) m)"
  using map_of_size_json [OF assms] by simp

text \<open>\<open>Option::or\<close>.\<close>

fun or_else :: "'a option \<Rightarrow> 'a option \<Rightarrow> 'a option" where
  "or_else (Some a) b = Some a"
| "or_else None b = b"

text \<open>
  \<open>#[serde(untagged)]\<close>: the variants are tried in declaration order, a struct variant
  matches an object that has its field with a value of the field's type (other keys
  are ignored), and \<open>Leaf\<close> takes any object. Nothing else deserialises.
\<close>

function (sequential)
  ast_of_json :: "json \<Rightarrow> filter_ast option"
  and asts_of_json :: "json list \<Rightarrow> filter_ast list option"
where
  "ast_of_json (JObject m) =
     or_else (map_option FAnd
        (case map_of m ''and'' of Some (JArray xs) \<Rightarrow> asts_of_json xs | _ \<Rightarrow> None))
     (or_else (map_option FOr
        (case map_of m ''or'' of Some (JArray xs) \<Rightarrow> asts_of_json xs | _ \<Rightarrow> None))
     (or_else (map_option FNot
        (case map_of m ''not'' of Some j \<Rightarrow> ast_of_json j | None \<Rightarrow> None))
     (Some (FLeaf m))))"
| "ast_of_json _ = None"
| "asts_of_json [] = Some []"
| "asts_of_json (j # js) =
     (case ast_of_json j of
        None \<Rightarrow> None
      | Some a \<Rightarrow> (case asts_of_json js of None \<Rightarrow> None | Some as \<Rightarrow> Some (a # as)))"
  by pat_completeness auto
termination
  by (relation "measure (\<lambda>x. case x of Inl j \<Rightarrow> size j | Inr js \<Rightarrow> size_list size js)")
     (auto dest: map_of_size_json map_of_size_elems)

text \<open>
  \<open>parse_filter_value\<close>. \<open>serde_json::from_str\<close> is the parameter \<open>from_str\<close>. Every
  failure is reported as the one shape hint, so the error carries no more.
\<close>

datatype filter_shape_hint = FilterShapeHint

definition parse_filter_value ::
  "(string \<Rightarrow> json option) \<Rightarrow> json \<Rightarrow> (filter_ast, filter_shape_hint) result" where
  "parse_filter_value from_str v =
     bind_r (case v of
               JString s \<Rightarrow> (case from_str s of Some d \<Rightarrow> Inr d | None \<Rightarrow> Inl FilterShapeHint)
             | other \<Rightarrow> Inr other)
       (\<lambda>decoded. case ast_of_json decoded of Some a \<Rightarrow> Inr a | None \<Rightarrow> Inl FilterShapeHint)"

text \<open>\<open>serde_json::to_value\<close> of a \<open>FilterAst\<close>: the untagged serialisation.\<close>

fun ast_to_json :: "filter_ast \<Rightarrow> json" where
  "ast_to_json (FAnd as) = JObject [(''and'', JArray (map ast_to_json as))]"
| "ast_to_json (FOr as) = JObject [(''or'', JArray (map ast_to_json as))]"
| "ast_to_json (FNot a) = JObject [(''not'', ast_to_json a)]"
| "ast_to_json (FLeaf m) = JObject m"

end
