(* ===== verification/Schema.thy ===== *)
theory Schema
  imports Json
begin

text \<open>
  The collection model of \<open>storage/schema.rs\<close>, the caller identities of
  \<open>auth/middleware.rs\<close> and \<open>tenant/router.rs\<close>, the capability gate
  \<open>has_dml_cap\<close>, the protected-table predicate and the owner filters of
  \<open>tenant/records.rs\<close>.

  A \<open>BTreeSet\<close> of verbs is the list of its elements in ascending order.
\<close>

section \<open>Verbs and roles\<close>

datatype dml_verb = Select | Insert | Update | Delete

fun dml_as_str :: "dml_verb \<Rightarrow> string" where
  "dml_as_str Select = ''select''"
| "dml_as_str Insert = ''insert''"
| "dml_as_str Update = ''update''"
| "dml_as_str Delete = ''delete''"

datatype file_verb = FRead | FList | FUpload | FDelete

fun file_as_str :: "file_verb \<Rightarrow> string" where
  "file_as_str FRead = ''read''"
| "file_as_str FList = ''list''"
| "file_as_str FUpload = ''upload''"
| "file_as_str FDelete = ''delete''"

datatype token_role = RAnon | RService | RUser

fun role_as_str :: "token_role \<Rightarrow> string" where
  "role_as_str RAnon = ''anon''"
| "role_as_str RService = ''service''"
| "role_as_str RUser = ''user''"

definition role_parse :: "string \<Rightarrow> token_role option" where
  "role_parse s = (if s = ''anon'' then Some RAnon
                   else if s = ''service'' then Some RService else None)"

datatype auth_ctx =
    Anon
  | Service (admin_id_field: "int option")
  | User (user_id_field: string) (token_hash: string)

fun auth_kind :: "auth_ctx \<Rightarrow> string" where
  "auth_kind Anon = ''anon''"
| "auth_kind (Service _) = ''service''"
| "auth_kind (User _ _) = ''user''"

fun user_id :: "auth_ctx \<Rightarrow> string option" where
  "user_id (User uid _) = Some uid"
| "user_id _ = None"

fun auth_admin_id :: "auth_ctx \<Rightarrow> int option" where
  "auth_admin_id (Service a) = a"
| "auth_admin_id _ = None"

fun role_of :: "auth_ctx \<Rightarrow> token_role" where
  "role_of (Service _) = RService"
| "role_of Anon = RAnon"
| "role_of (User _ _) = RUser"

fun is_service :: "auth_ctx \<Rightarrow> bool" where
  "is_service (Service _) = True"
| "is_service _ = False"

section \<open>Collections\<close>

record field_constraints =
  fc_min :: "f64 option"
  fc_max :: "f64 option"
  fc_enum_values :: "string list option"
  fc_max_length :: "nat option"

record field =
  f_name :: string
  f_sql_type :: string
  f_nullable :: bool
  f_pk :: bool
  f_default_value :: "string option"
  f_foreign_key :: "string option"
  f_description :: "string option"
  f_constraints :: "field_constraints option"

record index_info =
  ix_name :: string
  ix_fields :: "string list"
  ix_unique :: bool
  ix_description :: "string option"

record vector_field =
  vf_name :: string
  vf_dim :: nat

record fts_index =
  fts_name :: string
  fts_fields :: "string list"
  fts_tokenizer :: string

record policy =
  p_using :: "filter_ast option"
  p_check :: "filter_ast option"

record collection_policies =
  cp_select :: "policy option"
  cp_insert :: "policy option"
  cp_update :: "policy option"
  cp_delete :: "policy option"

record collection_schema =
  s_name :: string
  s_fields :: "field list"
  s_indices :: "index_info list"
  s_row_count :: int
  s_anon_caps :: "dml_verb list"
  s_user_caps :: "dml_verb list"
  s_owner_field :: "string option"
  s_read_scope :: "string option"
  s_vector_fields :: "vector_field list"
  s_fts_indexes :: "fts_index list"
  s_realtime_enabled :: bool
  s_audit_enabled :: bool
  s_description :: "string option"
  s_policies :: collection_policies

definition policies_default :: collection_policies where
  "policies_default = \<lparr> cp_select = None, cp_insert = None, cp_update = None, cp_delete = None \<rparr>"

fun policies_get :: "collection_policies \<Rightarrow> dml_verb \<Rightarrow> policy option" where
  "policies_get ps Select = cp_select ps"
| "policies_get ps Insert = cp_insert ps"
| "policies_get ps Update = cp_update ps"
| "policies_get ps Delete = cp_delete ps"

definition policies_is_empty :: "collection_policies \<Rightarrow> bool" where
  "policies_is_empty ps \<longleftrightarrow> cp_select ps = None \<and> cp_insert ps = None
     \<and> cp_update ps = None \<and> cp_delete ps = None"

definition default_anon_caps :: "dml_verb list" where
  "default_anon_caps = [Select]"

definition default_user_caps :: "dml_verb list" where
  "default_user_caps = [Select]"

section \<open>Capability sets in storage\<close>

fun dml_of_str :: "string \<Rightarrow> dml_verb option" where
  "dml_of_str s = (if s = ''select'' then Some Select else if s = ''insert'' then Some Insert
     else if s = ''update'' then Some Update else if s = ''delete'' then Some Delete else None)"

fun file_of_str :: "string \<Rightarrow> file_verb option" where
  "file_of_str s = (if s = ''read'' then Some FRead else if s = ''list'' then Some FList
     else if s = ''upload'' then Some FUpload else if s = ''delete'' then Some FDelete else None)"

text \<open>
  \<open>serde_json::from_str::<Vec<Verb>>\<close> over the parsed document \<open>from_str raw\<close>: an array of
  strings that are all verb names, and nothing otherwise.
\<close>

fun verbs_of_json :: "(string \<Rightarrow> 'v option) \<Rightarrow> json list \<Rightarrow> 'v list option" where
  "verbs_of_json f [] = Some []"
| "verbs_of_json f (j # js) =
     (case as_str j of
        None \<Rightarrow> None
      | Some s \<Rightarrow> (case f s of
          None \<Rightarrow> None
        | Some v \<Rightarrow> (case verbs_of_json f js of None \<Rightarrow> None | Some vs \<Rightarrow> Some (v # vs))))"

definition decode_verbs :: "(string \<Rightarrow> json option) \<Rightarrow> (string \<Rightarrow> 'v option) \<Rightarrow> string \<Rightarrow> 'v list" where
  "decode_verbs from_str f raw =
     (case from_str raw of
        Some (JArray js) \<Rightarrow> (case verbs_of_json f js of Some vs \<Rightarrow> vs | None \<Rightarrow> [])
      | _ \<Rightarrow> [])"

text \<open>Collecting into a \<open>BTreeSet\<close>: the members in the order of the enum's declaration.\<close>

definition parse_anon_caps_json :: "(string \<Rightarrow> json option) \<Rightarrow> string \<Rightarrow> dml_verb list" where
  "parse_anon_caps_json from_str raw =
     filter (\<lambda>v. v \<in> set (decode_verbs from_str dml_of_str raw)) [Select, Insert, Update, Delete]"

definition parse_file_caps_json :: "(string \<Rightarrow> json option) \<Rightarrow> string \<Rightarrow> file_verb list" where
  "parse_file_caps_json from_str raw =
     filter (\<lambda>v. v \<in> set (decode_verbs from_str file_of_str raw)) [FRead, FList, FUpload, FDelete]"

text \<open>The array written out; \<open>to_string\<close> of \<open>serde_json\<close> is the caller's parameter.\<close>

definition anon_caps_to_json :: "(json \<Rightarrow> string) \<Rightarrow> dml_verb list \<Rightarrow> string" where
  "anon_caps_to_json to_string caps = to_string (JArray (map (JString \<circ> dml_as_str) caps))"

definition file_caps_to_json :: "(json \<Rightarrow> string) \<Rightarrow> file_verb list \<Rightarrow> string" where
  "file_caps_to_json to_string caps = to_string (JArray (map (JString \<circ> file_as_str) caps))"

section \<open>Gates\<close>

definition is_protected_collection :: "string \<Rightarrow> bool" where
  "is_protected_collection name =
     (let lower = to_ascii_lowercase name
      in starts_with lower ''_system_'' \<or> starts_with lower ''sqlite_'')"

definition has_dml_cap :: "token_role \<Rightarrow> dml_verb \<Rightarrow> collection_schema \<Rightarrow> bool" where
  "has_dml_cap role verb schema =
     (case role of
        RService \<Rightarrow> True
      | RUser \<Rightarrow>
          (let owner_filtered =
                 s_owner_field schema \<noteq> None \<and>
                 (verb \<noteq> Select \<or> s_read_scope schema = Some ''own'')
           in owner_filtered \<or> verb \<in> set (s_user_caps schema))
      | RAnon \<Rightarrow> verb \<in> set (s_anon_caps schema))"

fun compute_owner_filter :: "auth_ctx \<Rightarrow> collection_schema \<Rightarrow> (string \<times> string) option" where
  "compute_owner_filter ctx schema =
     (case (ctx, s_owner_field schema, s_read_scope schema) of
        (User uid _, Some fld, Some scope) \<Rightarrow> (if scope = ''own'' then Some (fld, uid) else None)
      | _ \<Rightarrow> None)"

fun compute_owner_write_filter ::
  "auth_ctx \<Rightarrow> collection_schema \<Rightarrow> (string \<times> string) option" where
  "compute_owner_write_filter ctx schema =
     (case (ctx, s_owner_field schema) of
        (User uid _, Some fld) \<Rightarrow> Some (fld, uid)
      | _ \<Rightarrow> None)"

definition field_names :: "collection_schema \<Rightarrow> string set" where
  "field_names s = f_name ` set (s_fields s)"

text \<open>\<open>s.fields.iter().any(|f| f.name == name)\<close> and its twin for vector fields.\<close>

definition has_field :: "collection_schema \<Rightarrow> string \<Rightarrow> bool" where
  "has_field s name = list_ex (\<lambda>f. f_name f = name) (s_fields s)"

definition is_vector_field :: "collection_schema \<Rightarrow> string \<Rightarrow> bool" where
  "is_vector_field s name = list_ex (\<lambda>v. vf_name v = name) (s_vector_fields s)"

lemma has_field_iff: "has_field s name \<longleftrightarrow> name \<in> field_names s"
  by (auto simp: has_field_def field_names_def list_ex_iff)

end
