(* ===== verification/Sql.thy ===== *)
theory Sql
  imports Schema
begin

text \<open>
  The SQL the compilers emit. \<open>sql_expr\<close> is the fragment of boolean expressions that
  occurs in their output, \<open>render\<close> its text, \<open>params\<close> the number of \<open>?\<close> it binds.
  SQLite itself is not part of the repository: it enters as the parameter \<open>eval\<close> of the
  locale \<open>sqlite_engine\<close>, whose assumptions are the documented meaning of the
  fragment. The theory ends with a reference evaluator that satisfies them.
\<close>

section \<open>Expressions and their text\<close>

text \<open>\<open>q\<close>: a double-quoted identifier, embedded quotes doubled.\<close>

definition q :: "string \<Rightarrow> string" where
  "q i = [dquote] @ replace_char dquote [dquote, dquote] i @ [dquote]"

datatype sql_op = OpEq | OpNe | OpGt | OpGte | OpLt | OpLte | OpLike

fun op_text :: "sql_op \<Rightarrow> string" where
  "op_text OpEq = ''=''"
| "op_text OpNe = ''<>''"
| "op_text OpGt = ''>''"
| "op_text OpGte = ''>=''"
| "op_text OpLt = ''<''"
| "op_text OpLte = ''<=''"
| "op_text OpLike = ''LIKE''"

datatype sql_expr =
    SOneEqOne
  | SOneEqZero
  | SZeroEqOne
  | SCmp string sql_op
  | SIn string bool nat
  | SIsNull string bool
  | SLikeEsc string
  | SMatch string
  | SAnd "sql_expr list"
  | SOr "sql_expr list"
  | SNot sql_expr

fun render :: "sql_expr \<Rightarrow> string" where
  "render SOneEqOne = ''1=1''"
| "render SOneEqZero = ''1=0''"
| "render SZeroEqOne = ''0=1''"
| "render (SCmp c op) = q c @ '' '' @ op_text op @ '' ?''"
| "render (SIn c neg n) =
     q c @ '' '' @ (if neg then ''NOT IN'' else ''IN'') @ '' ('' @ join '', '' (replicate n ''?'') @ '')''"
| "render (SIsNull c neg) = q c @ '' '' @ (if neg then ''IS NOT NULL'' else ''IS NULL'')"
| "render (SLikeEsc c) = q c @ '' LIKE ? ESCAPE '' @ [CHR 0x27, backslash, CHR 0x27]"
| "render (SMatch h) =
     q ''id'' @ '' IN (SELECT rowid FROM '' @ q h @ '' WHERE '' @ q h @ '' MATCH ?)''"
| "render (SAnd es) = ''('' @ join '' AND '' (map render es) @ '')''"
| "render (SOr es) = ''('' @ join '' OR '' (map render es) @ '')''"
| "render (SNot e) = ''NOT '' @ render e"

fun params :: "sql_expr \<Rightarrow> nat" where
  "params (SCmp c op) = 1"
| "params (SIn c neg n) = n"
| "params (SLikeEsc c) = 1"
| "params (SMatch h) = 1"
| "params (SAnd es) = sum_list (map params es)"
| "params (SOr es) = sum_list (map params es)"
| "params (SNot e) = params e"
| "params _ = 0"

text \<open>The binds of a sequence of expressions, cut at each one's placeholders.\<close>

fun split_binds :: "sql_expr list \<Rightarrow> sqlval list \<Rightarrow> (sql_expr \<times> sqlval list) list" where
  "split_binds [] bs = []"
| "split_binds (e # es) bs = (e, take (params e) bs) # split_binds es (drop (params e) bs)"

section \<open>Placeholders in SQL text\<close>

text \<open>
  \<open>params_in quote s\<close> counts the \<open>?\<close> of a statement outside quoted identifiers and
  string literals; the first argument is the quote character the scan is inside of.
  A doubled quote leaves and re-enters the literal.
\<close>

fun params_in :: "char option \<Rightarrow> string \<Rightarrow> nat" where
  "params_in m [] = 0"
| "params_in None (c # s) =
     (if c = dquote \<or> c = CHR 0x27 then params_in (Some c) s
      else (if c = CHR ''?'' then 1 else 0) + params_in None s)"
| "params_in (Some d) (c # s) = (if c = d then params_in None s else params_in (Some d) s)"

lemma params_in_ident: "params_in (Some dquote)
    (replace_char dquote [dquote, dquote] i @ dquote # s) = params_in None s"
  by (induction i) auto

lemma params_in_q [simp]: "params_in None (q i @ s) = params_in None s"
  by (simp add: q_def params_in_ident)

lemma params_in_q' [simp]: "params_in None (q i) = 0"
  using params_in_q [of i "[]"] by simp

lemma params_in_marks [simp]:
  "params_in None (join '', '' (replicate n ''?'') @ s) = n + params_in None s"
proof (induction n)
  case (Suc n)
  then show ?case by (cases n) auto
qed simp

lemma params_in_op [simp]: "params_in None (op_text op @ s) = params_in None s"
  by (cases op) auto

lemma params_in_join:
  assumes "\<And>e s. e \<in> set es \<Longrightarrow> params_in None (render e @ s) = params e + params_in None s"
    and "\<And>s. params_in None (sep @ s) = params_in None s"
  shows "params_in None (join sep (map render es) @ s) = sum_list (map params es) + params_in None s"
  using assms by (induction es arbitrary: s) (auto simp: join_Cons)

lemma params_in_render [simp]: "params_in None (render e @ s) = params e + params_in None s"
proof (induction e arbitrary: s)
  case (SAnd es)
  then show ?case by (simp add: params_in_join)
next
  case (SOr es)
  then show ?case by (simp add: params_in_join)
qed auto

lemma params_in_render' [simp]: "params_in None (render e) = params e"
  using params_in_render [of e "[]"] by simp

section \<open>SQLite's evaluation, as documented\<close>

datatype ordering = Less | Equal | Greater

definition cmp :: "'a::linorder \<Rightarrow> 'a \<Rightarrow> ordering" where
  "cmp x y = (if x < y then Less else if x = y then Equal else Greater)"

text \<open>
  SQLite compares two numbers by value and two texts byte by byte (BINARY collation);
  other pairs are outside this table.
\<close>

fun sql_order :: "sqlval \<Rightarrow> sqlval \<Rightarrow> ordering option" where
  "sql_order (Integer x) (Integer y) = Some (cmp x y)"
| "sql_order (Real x) (Real y) = Some (cmp x y)"
| "sql_order (Integer x) (Real y) = Some (cmp (of_int x) y)"
| "sql_order (Real x) (Integer y) = Some (cmp x (of_int y))"
| "sql_order (Text x) (Text y) = Some (cmp x y)"
| "sql_order _ _ = None"

fun op_holds :: "sql_op \<Rightarrow> ordering \<Rightarrow> bool" where
  "op_holds OpEq c = (c = Equal)"
| "op_holds OpNe c = (c \<noteq> Equal)"
| "op_holds OpGt c = (c = Greater)"
| "op_holds OpGte c = (c \<noteq> Less)"
| "op_holds OpLt c = (c = Less)"
| "op_holds OpLte c = (c \<noteq> Greater)"
| "op_holds OpLike c = False"

text \<open>
  LIKE on two texts: \<open>%\<close> stands for any run of characters, \<open>_\<close> for one character, and
  ASCII letters match in either case. A character is one UTF-8 sequence.
\<close>

definition utf8_len :: "string \<Rightarrow> nat" where
  "utf8_len s = (case s of [] \<Rightarrow> 0
     | c # _ \<Rightarrow> if byte c < 192 then 1 else if byte c < 224 then 2 else if byte c < 240 then 3 else 4)"

lemma utf8_len_pos: "s \<noteq> [] \<Longrightarrow> 0 < utf8_len s"
  by (cases s) (auto simp: utf8_len_def)

function like_spec :: "string \<Rightarrow> string \<Rightarrow> bool" where
  "like_spec [] s = (s = [])"
| "like_spec (p # ps) s =
     (if p = CHR ''%'' then like_spec ps s \<or> (if s = [] then False else like_spec (p # ps) (drop (utf8_len s) s))
      else if s = [] then False
      else if p = CHR ''_'' then like_spec ps (drop (utf8_len s) s)
      else ascii_lower p = ascii_lower (hd s) \<and> like_spec ps (tl s))"
  by pat_completeness auto
termination
  by (relation "measure (\<lambda>(p, s). length p + length s)") (auto simp: utf8_len_pos)

declare like_spec.simps(2) [simp del]

text \<open>
  The binds of a list of expressions given piece by piece: what the compilers, which
  append each operand's binds in order, produce.
\<close>

lemma split_binds_concat:
  assumes "list_all2 (\<lambda>e b. length b = params e) es bss"
  shows "split_binds es (concat bss) = zip es bss"
  using assms by (induction rule: list_all2_induct) auto

lemma length_concat_binds:
  assumes "list_all2 (\<lambda>e b. length b = params e) es bss"
  shows "length (concat bss) = sum_list (map params es)"
  using assms by (induction rule: list_all2_induct) auto

text \<open>
  A row is read by column name. Membership in a list is decided on rows and operands of
  comparable classes.
\<close>

type_synonym sql_row = "string \<Rightarrow> sqlval"

locale sqlite_engine =
  fixes eval :: "sql_expr \<Rightarrow> sqlval list \<Rightarrow> sql_row \<Rightarrow> tri"
  assumes eval_true: "eval SOneEqOne [] r = TTrue"
    and eval_false: "eval SOneEqZero [] r = TFalse" "eval SZeroEqOne [] r = TFalse"
    and eval_cmp_null: "r c = Null \<or> v = Null \<Longrightarrow> eval (SCmp c op) [v] r = TUnknown"
    and eval_cmp: "op \<noteq> OpLike \<Longrightarrow> sql_order (r c) v = Some o' \<Longrightarrow>
      eval (SCmp c op) [v] r = tri_from_bool (op_holds op o')"
    and eval_like: "r c = Text s \<Longrightarrow> eval (SCmp c OpLike) [Text pat] r = tri_from_bool (like_spec pat s)"
    and eval_in: "vs \<noteq> [] \<Longrightarrow>
      (\<And>v. v \<in> set vs \<Longrightarrow> r c = Null \<or> v = Null \<or> sql_order (r c) v \<noteq> None) \<Longrightarrow>
      eval (SIn c neg (length vs)) vs r =
        (let hit = (\<exists>v \<in> set vs. sql_order (r c) v = Some Equal);
             t = (if hit then TTrue else if r c = Null \<or> Null \<in> set vs then TUnknown else TFalse)
         in if neg then tri_not t else t)"
    and eval_is_null: "eval (SIsNull c neg) [] r = tri_from_bool ((r c = Null) \<noteq> neg)"
    and eval_and: "es \<noteq> [] \<Longrightarrow> length bs = params (SAnd es) \<Longrightarrow>
      eval (SAnd es) bs r = tri_all (map (\<lambda>(e, b). eval e b r) (split_binds es bs))"
    and eval_or: "es \<noteq> [] \<Longrightarrow> length bs = params (SOr es) \<Longrightarrow>
      eval (SOr es) bs r = tri_any (map (\<lambda>(e, b). eval e b r) (split_binds es bs))"
    and eval_not: "length bs = params e \<Longrightarrow> eval (SNot e) bs r = tri_not (eval e bs r)"
begin

lemma split_binds_append:
  "length bs = params e \<Longrightarrow> split_binds (e # es) (bs @ cs) = (e, bs) # split_binds es cs"
  by simp

lemma eval_and_Cons:
  assumes "length bs = params e" "length cs = sum_list (map params es)" "es \<noteq> []"
  shows "eval (SAnd (e # es)) (bs @ cs) r = tri_all [eval e bs r, eval (SAnd es) cs r]"
  using assms by (auto simp: eval_and tri_all_def)

lemma eval_and_map:
  assumes "as \<noteq> []" "\<And>a. a \<in> set as \<Longrightarrow> length (g a) = params (f a)"
  shows "eval (SAnd (map f as)) (concat (map g as)) r = tri_all (map (\<lambda>a. eval (f a) (g a) r) as)"
proof -
  have l: "list_all2 (\<lambda>e b. length b = params e) (map f as) (map g as)"
    using assms(2) by (auto simp: list_all2_conv_all_nth)
  then show ?thesis
    using assms(1) by (simp add: eval_and length_concat_binds [OF l] split_binds_concat [OF l] zip_map_map
        comp_def case_prod_unfold zip_same_conv_map)
qed

lemma eval_or_map:
  assumes "as \<noteq> []" "\<And>a. a \<in> set as \<Longrightarrow> length (g a) = params (f a)"
  shows "eval (SOr (map f as)) (concat (map g as)) r = tri_any (map (\<lambda>a. eval (f a) (g a) r) as)"
proof -
  have l: "list_all2 (\<lambda>e b. length b = params e) (map f as) (map g as)"
    using assms(2) by (auto simp: list_all2_conv_all_nth)
  then show ?thesis
    using assms(1) by (simp add: eval_or length_concat_binds [OF l] split_binds_concat [OF l] zip_map_map
        comp_def case_prod_unfold zip_same_conv_map)
qed

lemma eval_and_single [simp]:
  "length bs = params e \<Longrightarrow> eval (SAnd [e]) bs r = eval e bs r"
  by (cases "eval e bs r") (auto simp: eval_and tri_all_def)

lemma eval_or_single [simp]:
  "length bs = params e \<Longrightarrow> eval (SOr [e]) bs r = eval e bs r"
  by (cases "eval e bs r") (auto simp: eval_or tri_any_def)

end

section \<open>A reference evaluator\<close>

text \<open>
  SQLite orders NULL before numbers before text before blobs when classes differ; the
  reference evaluator uses that order, so every comparison has a value.
\<close>

fun storage_rank :: "sqlval \<Rightarrow> nat" where
  "storage_rank Null = 0"
| "storage_rank (Integer _) = 1"
| "storage_rank (Real _) = 1"
| "storage_rank (Text _) = 2"
| "storage_rank (Blob _) = 3"

definition ref_order :: "sqlval \<Rightarrow> sqlval \<Rightarrow> ordering" where
  "ref_order a b =
     (case sql_order a b of
        Some c \<Rightarrow> c
      | None \<Rightarrow> (case (a, b) of
            (Blob x, Blob y) \<Rightarrow> cmp x y
          | _ \<Rightarrow> cmp (storage_rank a) (storage_rank b)))"

definition ref_cmp :: "sqlval \<Rightarrow> sql_op \<Rightarrow> sqlval \<Rightarrow> tri" where
  "ref_cmp a op b =
     (if a = Null \<or> b = Null then TUnknown
      else if op = OpLike
        then tri_from_bool (case (a, b) of (Text s, Text p) \<Rightarrow> like_spec p s | _ \<Rightarrow> False)
        else tri_from_bool (op_holds op (ref_order a b)))"

fun ref_eval :: "sql_expr \<Rightarrow> sqlval list \<Rightarrow> sql_row \<Rightarrow> tri"
  and ref_all :: "sql_expr list \<Rightarrow> sqlval list \<Rightarrow> sql_row \<Rightarrow> tri"
  and ref_any :: "sql_expr list \<Rightarrow> sqlval list \<Rightarrow> sql_row \<Rightarrow> tri"
where
  "ref_eval SOneEqOne bs r = TTrue"
| "ref_eval SOneEqZero bs r = TFalse"
| "ref_eval SZeroEqOne bs r = TFalse"
| "ref_eval (SCmp c op) bs r = (case bs of b # _ \<Rightarrow> ref_cmp (r c) op b | [] \<Rightarrow> TUnknown)"
| "ref_eval (SIn c neg n) bs r =
     (let hit = (\<exists>v \<in> set bs. r c \<noteq> Null \<and> v \<noteq> Null \<and> ref_order (r c) v = Equal);
          t = (if hit then TTrue else if r c = Null \<or> Null \<in> set bs then TUnknown else TFalse)
      in if neg then tri_not t else t)"
| "ref_eval (SIsNull c neg) bs r = tri_from_bool ((r c = Null) \<noteq> neg)"
| "ref_eval (SLikeEsc c) bs r = (case bs of b # _ \<Rightarrow> ref_cmp (r c) OpLike b | [] \<Rightarrow> TUnknown)"
| "ref_eval (SMatch h) bs r = TFalse"
| "ref_eval (SAnd es) bs r = ref_all es bs r"
| "ref_eval (SOr es) bs r = ref_any es bs r"
| "ref_eval (SNot e) bs r = tri_not (ref_eval e bs r)"
| "ref_all [] bs r = TTrue"
| "ref_all (e # es) bs r =
     tri_all [ref_eval e (take (params e) bs) r, ref_all es (drop (params e) bs) r]"
| "ref_any [] bs r = TFalse"
| "ref_any (e # es) bs r =
     tri_any [ref_eval e (take (params e) bs) r, ref_any es (drop (params e) bs) r]"

lemma ref_all_eq: "ref_all es bs r = tri_all (map (\<lambda>(e, b). ref_eval e b r) (split_binds es bs))"
  by (induction es arbitrary: bs) (auto simp: tri_all_def)

lemma ref_any_eq: "ref_any es bs r = tri_any (map (\<lambda>(e, b). ref_eval e b r) (split_binds es bs))"
  by (induction es arbitrary: bs) (auto simp: tri_any_def)

lemma sql_order_not_Null: "sql_order a b = Some c \<Longrightarrow> a \<noteq> Null \<and> b \<noteq> Null"
  by (cases a; cases b) auto

lemma ref_order_sql: "sql_order a b = Some c \<Longrightarrow> ref_order a b = c"
  by (simp add: ref_order_def)

interpretation ref: sqlite_engine ref_eval
proof
  fix r :: sql_row and c v op o'
  assume "op \<noteq> OpLike" and "sql_order (r c) v = Some o'"
  then show "ref_eval (SCmp c op) [v] r = tri_from_bool (op_holds op o')"
    using sql_order_not_Null [of "r c" v] by (simp add: ref_cmp_def ref_order_sql)
next
  fix vs :: "sqlval list" and r :: sql_row and c neg
  assume ne: "vs \<noteq> []" and cl: "\<And>v. v \<in> set vs \<Longrightarrow> r c = Null \<or> v = Null \<or> sql_order (r c) v \<noteq> None"
  have "(\<exists>v \<in> set vs. r c \<noteq> Null \<and> v \<noteq> Null \<and> ref_order (r c) v = Equal) \<longleftrightarrow>
        (\<exists>v \<in> set vs. sql_order (r c) v = Some Equal)"
    using cl by (metis (no_types) not_None_eq ref_order_sql sql_order_not_Null)
  then show "ref_eval (SIn c neg (length vs)) vs r =
      (let hit = (\<exists>v \<in> set vs. sql_order (r c) v = Some Equal);
           t = (if hit then TTrue else if r c = Null \<or> Null \<in> set vs then TUnknown else TFalse)
       in if neg then tri_not t else t)"
    by simp
qed (auto simp: ref_cmp_def ref_all_eq ref_any_eq)

end
