(* ===== verification/Filter_Compiler.thy ===== *)
theory Filter_Compiler
  imports Sql
begin

text \<open>
  The structured filter compiler \<open>query/vector_filter.rs\<close> with the naming helper
  \<open>fts_head_name\<close> of \<open>storage/search_names.rs\<close>: a \<open>FilterAst\<close> becomes SQL text with
  one bound value per placeholder. The lemmas relate the text to the expression it
  renders, show that no operand value reaches it, and characterise the accepted
  filters.
\<close>

section \<open>Errors\<close>

text \<open>
  The message of a \<open>Parse\<close> error is one of the sentences below; a constructor carries
  the arguments its \<open>format!\<close> interpolates.
\<close>

datatype parse_msg =
    LeafExactlyOneKey
  | OpObjectExactlyOneKey string
  | UnknownOperator string string
  | FtsShape

datatype filter_error =
    FeParse parse_msg
  | FeUnknownField string
  | FeVectorField string
  | FeBadOperand (fe_op: string) (fe_field: string) (fe_required: string)
  | FeTooDeep
  | FeFts (fe_code: string) (fe_index: string) (fe_collection: string)

definition MAX_FILTER_DEPTH :: nat where "MAX_FILTER_DEPTH = 32"

section \<open>Full-text operands\<close>

definition fts_head_name :: "string \<Rightarrow> string \<Rightarrow> string" where
  "fts_head_name coll index = ''_system_search_fts$'' @ coll @ ''$'' @ index"

definition like_escape :: "string \<Rightarrow> string" where
  "like_escape s =
     concat (map (\<lambda>c. if c = backslash \<or> c = CHR ''%'' \<or> c = CHR ''_'' then [backslash, c] else [c]) s)"

definition resolve_fts :: "collection_schema \<Rightarrow> json \<Rightarrow> (fts_index \<times> string, filter_error) result" where
  "resolve_fts schema body =
     (case as_object body of
        None \<Rightarrow> Inl (FeParse FtsShape)
      | Some m \<Rightarrow>
     (case Option.bind (map_of m ''index'') as_str of
        None \<Rightarrow> Inl (FeParse FtsShape)
      | Some index \<Rightarrow>
     (case Option.bind (map_of m ''query'') as_str of
        None \<Rightarrow> Inl (FeParse FtsShape)
      | Some query \<Rightarrow>
     (if length m \<noteq> 2 then Inl (FeParse FtsShape)
      else case find (\<lambda>i. fts_name i = index) (s_fts_indexes schema) of
          None \<Rightarrow> Inl (FeFts ''FTS_INDEX_NOT_FOUND'' index (s_name schema))
        | Some entry \<Rightarrow> Inr (entry, query)))))"

definition fts_uses_match :: "fts_index \<Rightarrow> string \<Rightarrow> bool" where
  "fts_uses_match entry query \<longleftrightarrow>
     fts_tokenizer entry \<noteq> ''trigram'' \<or> list_all (\<lambda>t. 3 \<le> chars_count t) (split_whitespace query)"

definition compile_fts ::
  "collection_schema \<Rightarrow> json \<Rightarrow> sqlval list \<Rightarrow> (string \<times> sqlval list, filter_error) result" where
  "compile_fts schema body binds =
     bind_r (resolve_fts schema body) (\<lambda>(entry, query).
       let head_q = q (fts_head_name (s_name schema) (fts_name entry)) in
       if fts_uses_match entry query
       then Inr (q ''id'' @ '' IN (SELECT rowid FROM '' @ head_q @ '' WHERE '' @ head_q @ '' MATCH ?)'',
                 binds @ [Text query])
       else let pattern = ''%'' @ like_escape query @ ''%'' in
         Inr (''('' @ join '' OR ''
                (map (\<lambda>f. q f @ '' LIKE ? ESCAPE '' @ [CHR 0x27, backslash, CHR 0x27]) (fts_fields entry)) @ '')'',
              binds @ map (\<lambda>f. Text pattern) (fts_fields entry)))"

section \<open>The compiler\<close>

definition validate_field :: "collection_schema \<Rightarrow> string \<Rightarrow> (unit, filter_error) result" where
  "validate_field schema fld =
     (if is_vector_field schema fld then Inl (FeVectorField fld)
      else if \<not> has_field schema fld then Inl (FeUnknownField fld)
      else Inr ())"

definition cmp_op :: "string \<Rightarrow> sql_op option" where
  "cmp_op op = map_of [(''eq'', OpEq), (''ne'', OpNe), (''gt'', OpGt), (''gte'', OpGte),
     (''lt'', OpLt), (''lte'', OpLte), (''like'', OpLike)] op"

definition compile_leaf ::
  "string \<Rightarrow> json \<Rightarrow> sqlval list \<Rightarrow> (string \<times> sqlval list, filter_error) result" where
  "compile_leaf fld body binds =
     (let col = q fld in
      case body of
        JObject op_obj \<Rightarrow>
          (case op_obj of
             [(op, operand)] \<Rightarrow>
               (case cmp_op op of
                  Some sql_op \<Rightarrow> Inr (col @ '' '' @ op_text sql_op @ '' ?'', binds @ [json_to_value operand])
                | None \<Rightarrow>
                    if op = ''in'' \<or> op = ''nin'' then
                      (case as_array operand of
                         None \<Rightarrow> Inl (FeBadOperand op fld ''array'')
                       | Some arr \<Rightarrow>
                           if arr = [] then Inr (if op = ''in'' then ''1=0'' else ''1=1'', binds)
                           else Inr (col @ '' '' @ (if op = ''in'' then ''IN'' else ''NOT IN'') @ '' ('' @
                                      join '', '' (replicate (length arr) ''?'') @ '')'',
                                     binds @ map json_to_value arr))
                    else if op = ''is_null'' \<or> op = ''is_not_null'' then
                      Inr (col @ '' '' @ (if op = ''is_null'' then ''IS NULL'' else ''IS NOT NULL''), binds)
                    else Inl (FeParse (UnknownOperator fld op)))
           | _ \<Rightarrow> Inl (FeParse (OpObjectExactlyOneKey fld)))
      | _ \<Rightarrow> Inr (col @ '' = ?'', binds @ [json_to_value body]))"

fun compile_node ::
    "collection_schema \<Rightarrow> filter_ast \<Rightarrow> sqlval list \<Rightarrow> nat \<Rightarrow> (string \<times> sqlval list, filter_error) result"
  and compile_nodes ::
    "collection_schema \<Rightarrow> filter_ast list \<Rightarrow> sqlval list \<Rightarrow> nat \<Rightarrow> (string list \<times> sqlval list, filter_error) result"
where
  "compile_node schema (FAnd as) binds depth =
     (if MAX_FILTER_DEPTH \<le> depth then Inl FeTooDeep
      else if as = [] then Inr (''1=1'', binds)
      else bind_r (compile_nodes schema as binds (depth + 1))
             (\<lambda>(parts, b). Inr (''('' @ join '' AND '' parts @ '')'', b)))"
| "compile_node schema (FOr as) binds depth =
     (if MAX_FILTER_DEPTH \<le> depth then Inl FeTooDeep
      else if as = [] then Inr (''1=0'', binds)
      else bind_r (compile_nodes schema as binds (depth + 1))
             (\<lambda>(parts, b). Inr (''('' @ join '' OR '' parts @ '')'', b)))"
| "compile_node schema (FNot a) binds depth =
     (if MAX_FILTER_DEPTH \<le> depth then Inl FeTooDeep
      else bind_r (compile_node schema a binds (depth + 1))
             (\<lambda>(inner, b). Inr (''(NOT '' @ inner @ '')'', b)))"
| "compile_node schema (FLeaf m) binds depth =
     (if MAX_FILTER_DEPTH \<le> depth then Inl FeTooDeep
      else case m of
        [(key, body)] \<Rightarrow>
          if key = ''$fts'' then compile_fts schema body binds
          else bind_r (validate_field schema key) (\<lambda>_. compile_leaf key body binds)
      | _ \<Rightarrow> Inl (FeParse LeafExactlyOneKey))"
| "compile_nodes schema [] binds depth = Inr ([], binds)"
| "compile_nodes schema (a # as) binds depth =
     bind_r (compile_node schema a binds depth) (\<lambda>(s, b).
       bind_r (compile_nodes schema as b depth) (\<lambda>(ss, b'). Inr (s # ss, b')))"

definition compile :: "collection_schema \<Rightarrow> filter_ast \<Rightarrow> (string \<times> sqlval list, filter_error) result" where
  "compile schema ast = compile_node schema ast [] 0"

section \<open>Full-text probes\<close>

record fts_probe =
  probe_head :: string
  probe_query :: string

fun collect_fts_probes :: "collection_schema \<Rightarrow> filter_ast \<Rightarrow> nat \<Rightarrow> fts_probe list \<Rightarrow> fts_probe list"
  and collect_fts_probes_list :: "collection_schema \<Rightarrow> filter_ast list \<Rightarrow> nat \<Rightarrow> fts_probe list \<Rightarrow> fts_probe list"
where
  "collect_fts_probes schema (FAnd as) depth out =
     (if MAX_FILTER_DEPTH \<le> depth then out else collect_fts_probes_list schema as (depth + 1) out)"
| "collect_fts_probes schema (FOr as) depth out =
     (if MAX_FILTER_DEPTH \<le> depth then out else collect_fts_probes_list schema as (depth + 1) out)"
| "collect_fts_probes schema (FNot a) depth out =
     (if MAX_FILTER_DEPTH \<le> depth then out else collect_fts_probes schema a (depth + 1) out)"
| "collect_fts_probes schema (FLeaf m) depth out =
     (if MAX_FILTER_DEPTH \<le> depth then out
      else case m of
        [(key, body)] \<Rightarrow>
          if key \<noteq> ''$fts'' then out
          else (case resolve_fts schema body of
              Inr (entry, query) \<Rightarrow>
                if fts_uses_match entry query
                then out @ [\<lparr> probe_head = fts_head_name (s_name schema) (fts_name entry), probe_query = query \<rparr>]
                else out
            | Inl _ \<Rightarrow> out)
      | _ \<Rightarrow> out)"
| "collect_fts_probes_list schema [] depth out = out"
| "collect_fts_probes_list schema (a # as) depth out =
     collect_fts_probes_list schema as depth (collect_fts_probes schema a depth out)"

definition fts_probes :: "collection_schema \<Rightarrow> filter_ast \<Rightarrow> fts_probe list" where
  "fts_probes schema ast = collect_fts_probes schema ast 0 []"

text \<open>
  The reader's prepare, bind and first step are the parameter \<open>step\<close>, which fails with a
  message exactly when SQLite does.
\<close>

definition run_fts_probe ::
  "(string \<Rightarrow> sqlval list \<Rightarrow> (unit, string) result) \<Rightarrow> fts_probe \<Rightarrow> (unit, string) result" where
  "run_fts_probe step p =
     (let head_q = q (probe_head p)
      in step (''SELECT rowid FROM '' @ head_q @ '' WHERE '' @ head_q @ '' MATCH ? LIMIT 1'')
              [Text (probe_query p)])"

definition probe_fts_queries ::
  "(string \<Rightarrow> sqlval list \<Rightarrow> (unit, string) result) \<Rightarrow> collection_schema \<Rightarrow> filter_ast option
     \<Rightarrow> (unit, string) result" where
  "probe_fts_queries step schema filter_opt =
     (case filter_opt of
        None \<Rightarrow> Inr ()
      | Some ast \<Rightarrow>
          (let probes = fts_probes schema ast
           in if probes = [] then Inr () else try_for_each (run_fts_probe step) probes))"

section \<open>The expression behind the text\<close>

text \<open>
  What a filter means as an expression, and the values it binds, defined without any
  error checking: the compiler's output is proved to be exactly these two.
\<close>

definition fts_expr :: "collection_schema \<Rightarrow> json \<Rightarrow> sql_expr \<times> sqlval list" where
  "fts_expr schema body =
     (case resolve_fts schema body of
        Inl _ \<Rightarrow> (SOneEqZero, [])
      | Inr (entry, query) \<Rightarrow>
          if fts_uses_match entry query
          then (SMatch (fts_head_name (s_name schema) (fts_name entry)), [Text query])
          else (SOr (map SLikeEsc (fts_fields entry)),
                map (\<lambda>f. Text (''%'' @ like_escape query @ ''%'')) (fts_fields entry)))"

definition leaf_expr :: "string \<Rightarrow> json \<Rightarrow> sql_expr \<times> sqlval list" where
  "leaf_expr fld body =
     (case body of
        JObject [(op, operand)] \<Rightarrow>
          (case cmp_op op of
             Some o' \<Rightarrow> (SCmp fld o', [json_to_value operand])
           | None \<Rightarrow>
               if op = ''in'' \<or> op = ''nin'' then
                 (case as_array operand of
                    Some [] \<Rightarrow> (if op = ''in'' then SOneEqZero else SOneEqOne, [])
                  | Some arr \<Rightarrow> (SIn fld (op = ''nin'') (length arr), map json_to_value arr)
                  | None \<Rightarrow> (SOneEqZero, []))
               else (SIsNull fld (op = ''is_not_null''), []))
      | _ \<Rightarrow> (SCmp fld OpEq, [json_to_value body]))"

fun filter_expr :: "collection_schema \<Rightarrow> filter_ast \<Rightarrow> sql_expr \<times> sqlval list" where
  "filter_expr schema (FAnd as) =
     (if as = [] then (SOneEqOne, [])
      else (SAnd (map (fst \<circ> filter_expr schema) as), concat (map (snd \<circ> filter_expr schema) as)))"
| "filter_expr schema (FOr as) =
     (if as = [] then (SOneEqZero, [])
      else (SOr (map (fst \<circ> filter_expr schema) as), concat (map (snd \<circ> filter_expr schema) as)))"
| "filter_expr schema (FNot a) =
     (SAnd [SNot (fst (filter_expr schema a))], snd (filter_expr schema a))"
| "filter_expr schema (FLeaf m) =
     (case m of
        [(key, body)] \<Rightarrow> if key = ''$fts'' then fts_expr schema body else leaf_expr key body
      | _ \<Rightarrow> (SOneEqZero, []))"

text \<open>\<open>accepts\<close>: the leaf checks a filter has to pass, and \<open>ast_height\<close> its nesting.\<close>

definition body_ok :: "json \<Rightarrow> bool" where
  "body_ok body =
     (case body of
        JObject [(op, operand)] \<Rightarrow>
          cmp_op op \<noteq> None \<or>
          ((op = ''in'' \<or> op = ''nin'') \<and> as_array operand \<noteq> None) \<or>
          op = ''is_null'' \<or> op = ''is_not_null''
      | JObject _ \<Rightarrow> False
      | _ \<Rightarrow> True)"

definition leaf_ok :: "collection_schema \<Rightarrow> jmap \<Rightarrow> bool" where
  "leaf_ok schema m =
     (case m of
        [(key, body)] \<Rightarrow>
          if key = ''$fts'' then is_ok (resolve_fts schema body)
          else validate_field schema key = Inr () \<and> body_ok body
      | _ \<Rightarrow> False)"

fun accepts :: "collection_schema \<Rightarrow> filter_ast \<Rightarrow> bool" where
  "accepts schema (FAnd as) = (\<forall>a \<in> set as. accepts schema a)"
| "accepts schema (FOr as) = (\<forall>a \<in> set as. accepts schema a)"
| "accepts schema (FNot a) = accepts schema a"
| "accepts schema (FLeaf m) = leaf_ok schema m"

fun ast_height :: "filter_ast \<Rightarrow> nat" where
  "ast_height (FAnd as) = Suc (foldr max (map ast_height as) 0)"
| "ast_height (FOr as) = Suc (foldr max (map ast_height as) 0)"
| "ast_height (FNot a) = Suc (ast_height a)"
| "ast_height (FLeaf m) = 1"

lemma foldr_max_le: "foldr max (map f xs) 0 \<le> n \<longleftrightarrow> (\<forall>x \<in> set xs. f x \<le> (n :: nat))"
  by (induction xs) auto

lemma ast_height_pos: "0 < ast_height a"
  by (cases a) auto

section \<open>The compiler renders the expression\<close>

lemma cmp_op_cases:
  "cmp_op op = Some o' \<Longrightarrow> op \<in> {''eq'', ''ne'', ''gt'', ''gte'', ''lt'', ''lte'', ''like''}"
  by (auto simp: cmp_op_def split: if_splits)

lemma compile_fts_expr:
  "compile_fts schema body binds =
     bind_r (resolve_fts schema body)
       (\<lambda>_. Inr (render (fst (fts_expr schema body)), binds @ snd (fts_expr schema body)))"
  by (cases "resolve_fts schema body") (auto simp: compile_fts_def fts_expr_def Let_def comp_def)

lemma fts_expr_params: "length (snd (fts_expr schema body)) = params (fst (fts_expr schema body))"
  by (auto simp: fts_expr_def comp_def sum_list_triv split: sum.splits)

lemma leaf_expr_params: "length (snd (leaf_expr fld body)) = params (fst (leaf_expr fld body))"
  by (auto simp: leaf_expr_def split: json.splits list.splits option.splits)

lemma compile_leaf_expr:
  "compile_leaf fld body binds = Inr r \<longleftrightarrow>
     body_ok body \<and> r = (render (fst (leaf_expr fld body)), binds @ snd (leaf_expr fld body))"
  by (auto simp: compile_leaf_def leaf_expr_def body_ok_def Let_def
           split: json.splits list.splits option.splits if_splits)

lemma filter_expr_params: "length (snd (filter_expr schema a)) = params (fst (filter_expr schema a))"
proof (induction a)
  case (FAnd as)
  then show ?case by (simp add: length_concat comp_def cong: map_cong)
next
  case (FOr as)
  then show ?case by (simp add: length_concat comp_def cong: map_cong)
next
  case (FLeaf m)
  then show ?case by (auto simp: fts_expr_params leaf_expr_params split: list.splits)
qed simp

text \<open>Both compilers at once: acceptance and output, at any depth and bind prefix.\<close>

lemma compile_node_iff:
  "compile_node schema a binds depth = Inr r \<longleftrightarrow>
     accepts schema a \<and> depth + ast_height a \<le> MAX_FILTER_DEPTH \<and>
     r = (render (fst (filter_expr schema a)), binds @ snd (filter_expr schema a))"
  and compile_nodes_iff:
  "compile_nodes schema as binds depth = Inr rs \<longleftrightarrow>
     (\<forall>a \<in> set as. accepts schema a \<and> depth + ast_height a \<le> MAX_FILTER_DEPTH) \<and>
     rs = (map (render \<circ> fst \<circ> filter_expr schema) as,
           binds @ concat (map (snd \<circ> filter_expr schema) as))"
proof (induction schema a binds depth and schema as binds depth arbitrary: r and rs
       rule: compile_node_compile_nodes.induct)
  case (1 schema as binds depth)
  have h: "depth + ast_height (FAnd as) \<le> MAX_FILTER_DEPTH \<longleftrightarrow>
     depth < MAX_FILTER_DEPTH \<and> (\<forall>a \<in> set as. depth + 1 + ast_height a \<le> MAX_FILTER_DEPTH)"
    using foldr_max_le [of ast_height as "MAX_FILTER_DEPTH - Suc depth"] by auto
  show ?case
    using "1.IH" unfolding h by (auto simp: comp_def)
next
  case (2 schema as binds depth)
  have h: "depth + ast_height (FOr as) \<le> MAX_FILTER_DEPTH \<longleftrightarrow>
     depth < MAX_FILTER_DEPTH \<and> (\<forall>a \<in> set as. depth + 1 + ast_height a \<le> MAX_FILTER_DEPTH)"
    using foldr_max_le [of ast_height as "MAX_FILTER_DEPTH - Suc depth"] by auto
  show ?case
    using "2.IH" unfolding h by (auto simp: comp_def)
next
  case (3 schema a binds depth)
  then show ?case using ast_height_pos [of a] by (auto simp: comp_def)
next
  case (4 schema m binds depth)
  show ?case
    by (auto simp: compile_fts_expr is_ok_iff compile_leaf_expr leaf_ok_def split: list.splits if_splits)
next
  case (6 schema a as binds depth)
  then show ?case by (auto simp: comp_def)
qed auto

section \<open>Operand values never reach the text\<close>

text \<open>
  \<open>redact\<close> blanks every operand of a filter: scalars become null, a list keeps only its
  length, a full-text query only the decision between MATCH and LIKE.
\<close>

definition redact_body :: "json \<Rightarrow> json" where
  "redact_body body =
     (case body of
        JObject [(op, operand)] \<Rightarrow>
          JObject [(op, case operand of JArray xs \<Rightarrow> JArray (map (\<lambda>_. JNull) xs) | _ \<Rightarrow> JNull)]
      | JObject m \<Rightarrow> JObject m
      | _ \<Rightarrow> JNull)"

definition redact_fts :: "collection_schema \<Rightarrow> json \<Rightarrow> json" where
  "redact_fts schema body =
     (case resolve_fts schema body of
        Inr (entry, query) \<Rightarrow>
          JObject [(''index'', JString (fts_name entry)),
                   (''query'', JString (if fts_uses_match entry query then [] else ''x''))]
      | Inl _ \<Rightarrow> body)"

fun redact :: "collection_schema \<Rightarrow> filter_ast \<Rightarrow> filter_ast" where
  "redact schema (FAnd as) = FAnd (map (redact schema) as)"
| "redact schema (FOr as) = FOr (map (redact schema) as)"
| "redact schema (FNot a) = FNot (redact schema a)"
| "redact schema (FLeaf m) =
     (case m of
        [(key, body)] \<Rightarrow>
          FLeaf [(key, if key = ''$fts'' then redact_fts schema body else redact_body body)]
      | _ \<Rightarrow> FLeaf m)"

lemma resolve_fts_name:
  assumes "resolve_fts schema body = Inr (entry, query)"
  shows "find (\<lambda>i. fts_name i = fts_name entry) (s_fts_indexes schema) = Some entry"
proof -
  from assms obtain index where f: "find (\<lambda>i. fts_name i = index) (s_fts_indexes schema) = Some entry"
    by (auto simp: resolve_fts_def split: option.splits if_splits)
  then have "fts_name entry = index" by (auto simp: find_Some_iff)
  with f show ?thesis by simp
qed

lemma fts_uses_match_empty: "fts_uses_match entry []"
  by (simp add: fts_uses_match_def split_whitespace_def split_ws_acc.simps)

lemma fts_uses_match_short: "fts_uses_match entry ''x'' \<longleftrightarrow> fts_tokenizer entry \<noteq> ''trigram''"
  by (simp add: fts_uses_match_def split_whitespace_def split_ws_acc.simps ws_len_def byte_def chars_count_def)

lemma redact_fts_expr:
  assumes "resolve_fts schema body = Inr (entry, query)"
  shows "is_ok (resolve_fts schema (redact_fts schema body)) \<and>
    fst (fts_expr schema (redact_fts schema body)) = fst (fts_expr schema body)"
proof -
  let ?query = "if fts_uses_match entry query then [] else ''x''"
  have r: "resolve_fts schema (redact_fts schema body) = Inr (entry, ?query)"
    using assms resolve_fts_name [OF assms] unfolding redact_fts_def by (simp add: resolve_fts_def)
  have "fts_uses_match entry ?query = fts_uses_match entry query"
    using fts_uses_match_empty fts_uses_match_short [of entry] by (auto simp: fts_uses_match_def)
  with r assms show ?thesis by (simp add: fts_expr_def)
qed

lemma body_ok_cases:
  assumes "body_ok body"
  obtains (scalar) "\<forall>m. body \<noteq> JObject m"
    | (op_object) op operand where "body = JObject [(op, operand)]"
proof (cases body)
  case (JObject m)
  with assms op_object show ?thesis by (cases m rule: pair_list_cases) (auto simp: body_ok_def)
qed (use scalar in auto)

lemma redact_body_expr:
  assumes "body_ok body"
  shows "body_ok (redact_body body) \<and>
     fst (leaf_expr fld (redact_body body)) = fst (leaf_expr fld body)"
  using assms
proof (cases rule: body_ok_cases)
  case scalar
  then show ?thesis by (cases body) (auto simp: body_ok_def redact_body_def leaf_expr_def)
next
  case (op_object op operand)
  with assms show ?thesis
    by (cases operand; cases "cmp_op op")
      (auto simp: body_ok_def redact_body_def leaf_expr_def split: list.splits)
qed

lemma redact_leaf:
  assumes "leaf_ok schema m"
  shows "accepts schema (redact schema (FLeaf m)) \<and>
     fst (filter_expr schema (redact schema (FLeaf m))) = fst (filter_expr schema (FLeaf m))"
proof -
  from assms obtain key body where m: "m = [(key, body)]"
    by (cases m rule: pair_list_cases) (auto simp: leaf_ok_def)
  show ?thesis
  proof (cases "key = ''$fts''")
    case True
    with assms m show ?thesis
      using redact_fts_expr [of schema body] by (auto simp: leaf_ok_def is_ok_iff)
  next
    case False
    with assms m show ?thesis
      using redact_body_expr [of body key] by (simp add: leaf_ok_def)
  qed
qed

lemma ast_height_redact: "ast_height (redact schema a) = ast_height a"
  by (induction a) (auto simp: comp_def cong: map_cong split: list.splits)

lemma redact_expr:
  "accepts schema a \<Longrightarrow> accepts schema (redact schema a) \<and>
     fst (filter_expr schema (redact schema a)) = fst (filter_expr schema a)"
proof (induction a)
  case (FLeaf m)
  then show ?case using redact_leaf by (simp del: redact.simps filter_expr.simps)
qed (auto simp: comp_def cong: map_cong)

section \<open>MATCH operands and their probes\<close>

fun sql_matches :: "sql_expr \<Rightarrow> sqlval list \<Rightarrow> (string \<times> sqlval) list"
  and sql_matches_list :: "sql_expr list \<Rightarrow> sqlval list \<Rightarrow> (string \<times> sqlval) list"
where
  "sql_matches (SMatch h) bs = map (\<lambda>b. (h, b)) (take 1 bs)"
| "sql_matches (SAnd es) bs = sql_matches_list es bs"
| "sql_matches (SOr es) bs = sql_matches_list es bs"
| "sql_matches (SNot e) bs = sql_matches e bs"
| "sql_matches _ bs = []"
| "sql_matches_list [] bs = []"
| "sql_matches_list (e # es) bs = sql_matches e (take (params e) bs) @ sql_matches_list es (drop (params e) bs)"

definition probe_pair :: "fts_probe \<Rightarrow> string \<times> sqlval" where
  "probe_pair p = (probe_head p, Text (probe_query p))"

lemma sql_matches_list_concat:
  assumes "\<And>a. a \<in> set as \<Longrightarrow> length (g a) = params (f a)"
  shows "sql_matches_list (map f as) (concat (map g as)) = concat (map (\<lambda>a. sql_matches (f a) (g a)) as)"
  using assms by (induction as) auto

lemma sql_matches_like: "sql_matches_list (map SLikeEsc fs) bs = []"
  by (induction fs arbitrary: bs) auto

lemma sql_matches_leaf: "sql_matches (fst (leaf_expr fld body)) bs = []"
  by (auto simp: leaf_expr_def split: json.splits list.splits option.splits)

lemma collect_fts_probes_matches:
  "depth + ast_height a \<le> MAX_FILTER_DEPTH \<Longrightarrow>
     map probe_pair (collect_fts_probes schema a depth out) =
     map probe_pair out @ sql_matches (fst (filter_expr schema a)) (snd (filter_expr schema a))"
  and collect_fts_probes_list_matches:
  "(\<forall>a \<in> set as. depth + ast_height a \<le> MAX_FILTER_DEPTH) \<Longrightarrow>
     map probe_pair (collect_fts_probes_list schema as depth out) =
     map probe_pair out @
       concat (map (\<lambda>a. sql_matches (fst (filter_expr schema a)) (snd (filter_expr schema a))) as)"
proof (induction schema a depth out and schema as depth out
       rule: collect_fts_probes_collect_fts_probes_list.induct)
  case (1 schema as depth out)
  then have "\<forall>a \<in> set as. depth + 1 + ast_height a \<le> MAX_FILTER_DEPTH"
    using foldr_max_le [of ast_height as "MAX_FILTER_DEPTH - Suc depth"] by auto
  with 1 show ?case
    using sql_matches_list_concat [of as "snd \<circ> filter_expr schema" "fst \<circ> filter_expr schema"]
    by (auto simp: filter_expr_params)
next
  case (2 schema as depth out)
  then have "\<forall>a \<in> set as. depth + 1 + ast_height a \<le> MAX_FILTER_DEPTH"
    using foldr_max_le [of ast_height as "MAX_FILTER_DEPTH - Suc depth"] by auto
  with 2 show ?case
    using sql_matches_list_concat [of as "snd \<circ> filter_expr schema" "fst \<circ> filter_expr schema"]
    by (auto simp: filter_expr_params)
next
  case (3 schema a depth out)
  then show ?case by (simp add: filter_expr_params)
next
  case (4 schema m depth out)
  then show ?case
    by (auto simp: probe_pair_def fts_expr_def sql_matches_like sql_matches_leaf
             split: list.splits sum.splits)
qed auto

section \<open>Properties\<close>

text \<open>
  C16. The filter compiler implements its specification on every branch: it succeeds
  exactly on the filters whose leaves pass the checks of \<open>leaf_ok\<close> and whose nesting is at
  most \<open>MAX_FILTER_DEPTH\<close>, and then it returns the text of the expression the filter
  denotes together with that expression's operands in placeholder order.
\<close>

theorem filter_compile_refines:
  "compile schema ast = Inr (sql, binds) \<longleftrightarrow>
     accepts schema ast \<and> ast_height ast \<le> MAX_FILTER_DEPTH \<and>
     sql = render (fst (filter_expr schema ast)) \<and> binds = snd (filter_expr schema ast)"
  using compile_node_iff [of schema ast "[]" 0 "(sql, binds)"] by (auto simp: compile_def)

text \<open>
  No operand value of a filter reaches the SQL text. Blanking every operand leaves the
  compiled text unchanged, and the text has exactly one placeholder outside its quoted
  identifiers for each bound value, whatever quotes or question marks field names contain.
\<close>

theorem filter_text_hides_operands:
  assumes "compile schema ast = Inr (sql, binds)"
  shows "(\<exists>binds'. compile schema (redact schema ast) = Inr (sql, binds')) \<and>
    params_in None sql = length binds"
proof -
  from assms have acc: "accepts schema ast" "ast_height ast \<le> MAX_FILTER_DEPTH"
    and sql: "sql = render (fst (filter_expr schema ast))" "binds = snd (filter_expr schema ast)"
    by (simp_all add: compile_def compile_node_iff)
  have "compile schema (redact schema ast) =
      Inr (sql, snd (filter_expr schema (redact schema ast)))"
    using acc redact_expr [OF acc(1)] sql by (simp add: compile_def compile_node_iff ast_height_redact)
  with sql show ?thesis by (auto simp: filter_expr_params)
qed

definition example_schema :: collection_schema where
  "example_schema =
     \<lparr> s_name = ''notes'',
       s_fields = [\<lparr> f_name = ''title'', f_sql_type = ''TEXT'', f_nullable = True, f_pk = False,
                     f_default_value = None, f_foreign_key = None, f_description = None, f_constraints = None \<rparr>,
                   \<lparr> f_name = ''views'', f_sql_type = ''INTEGER'', f_nullable = True, f_pk = False,
                     f_default_value = None, f_foreign_key = None, f_description = None, f_constraints = None \<rparr>],
       s_indices = [], s_row_count = 0, s_anon_caps = [Select], s_user_caps = [Select],
       s_owner_field = None, s_read_scope = None,
       s_vector_fields = [\<lparr> vf_name = ''emb'', vf_dim = 3 \<rparr>],
       s_fts_indexes = [\<lparr> fts_name = ''ft'', fts_fields = [''title''], fts_tokenizer = ''trigram'' \<rparr>],
       s_realtime_enabled = False, s_audit_enabled = True, s_description = None,
       s_policies = policies_default \<rparr>"

definition example_filter :: filter_ast where
  "example_filter =
     FAnd [FLeaf [(''title'', JString ''a'')],
           FNot (FLeaf [(''views'', JObject [(''in'', JArray [JNumber (PosInt 1), JNumber (PosInt 2)])])]),
           FLeaf [(''$fts'', JObject [(''index'', JString ''ft''), (''query'', JString ''ab'')])]]"

lemma example_filter_compiles:
  "case compile example_schema example_filter of Inr (sql, binds) \<Rightarrow> length binds = 4 | Inl _ \<Rightarrow> False"
  by code_simp

theorem filter_text_hides_operands_witness:
  "\<exists>sql binds. compile example_schema example_filter = Inr (sql, binds) \<and>
     params_in None sql = 4 \<and>
     (\<exists>binds'. compile example_schema (redact example_schema example_filter) = Inr (sql, binds'))"
proof -
  from example_filter_compiles obtain sql binds
    where c: "compile example_schema example_filter = Inr (sql, binds)" and "length binds = 4"
    by (auto split: sum.splits prod.splits)
  with filter_text_hides_operands [OF c] show ?thesis by auto
qed

text \<open>
  The full-text pre-probe validates exactly the MATCH operands of the compiled
  statement: it passes if and only if the reader accepts, for every \<open>SMatch\<close> node of the
  compiled expression, that node's head table with that node's bound query.
\<close>

theorem fts_probes_cover_matches:
  assumes "compile schema ast = Inr (sql, binds)"
  shows "probe_fts_queries step schema (Some ast) = Inr () \<longleftrightarrow>
    (\<forall>(h, v) \<in> set (sql_matches (fst (filter_expr schema ast)) binds).
       step (''SELECT rowid FROM '' @ q h @ '' WHERE '' @ q h @ '' MATCH ? LIMIT 1'') [v] = Inr ())"
proof -
  from assms have "ast_height ast \<le> MAX_FILTER_DEPTH" and "binds = snd (filter_expr schema ast)"
    by (simp_all add: compile_def compile_node_iff)
  then have "sql_matches (fst (filter_expr schema ast)) binds = map probe_pair (fts_probes schema ast)"
    using collect_fts_probes_matches [of 0 ast schema "[]"] by (simp add: fts_probes_def)
  then show ?thesis
    by (auto simp: probe_fts_queries_def Let_def try_for_each_ok run_fts_probe_def probe_pair_def)
qed

definition example_match :: filter_ast where
  "example_match =
     FOr [FLeaf [(''title'', JString ''a'')],
          FLeaf [(''$fts'', JObject [(''index'', JString ''ft''), (''query'', JString ''abcd'')])]]"

theorem fts_probes_cover_matches_witness:
  "\<exists>sql binds. compile example_schema example_match = Inr (sql, binds) \<and>
     probe_fts_queries (\<lambda>s b. Inl ''syntax error'') example_schema (Some example_match) \<noteq> Inr ()"
proof -
  have c: "case compile example_schema example_match of
      Inr (sql, binds) \<Rightarrow> binds = [Text ''a'', Text ''abcd''] | Inl _ \<Rightarrow> False" and
    m: "sql_matches (fst (filter_expr example_schema example_match)) [Text ''a'', Text ''abcd''] \<noteq> []"
    by code_simp+
  from c obtain sql where "compile example_schema example_match = Inr (sql, [Text ''a'', Text ''abcd''])"
    by (auto split: sum.splits prod.splits)
  from fts_probes_cover_matches [OF this, of "\<lambda>s b. Inl ''syntax error''"] this m show ?thesis
    by (cases "sql_matches (fst (filter_expr example_schema example_match)) [Text ''a'', Text ''abcd'']") auto
qed

end
