(* ===== verification/Policy.thy ===== *)
theory Policy
  imports Filter_Compiler
begin

text \<open>
  The row-level security engine \<open>query/policy.rs\<close>: the compiler of a policy clause to
  SQL, the in-memory evaluator of the same clause, the save-time validation, and the
  choice of the clause that applies to a caller.

  The crate \<open>regex_lite\<close> is the parameter \<open>rx\<close>: \<open>rx re s\<close> is \<open>None\<close> when \<open>re\<close> does not
  compile and otherwise says whether it matches \<open>s\<close>.
\<close>

section \<open>Errors and context\<close>

text \<open>The sentences of \<open>PolicyError::Parse\<close>, with the arguments they interpolate.\<close>

datatype policy_msg =
    UnknownAuthRef json
  | LeafOneKey
  | OpObjectOneKey string
  | RequiresArray string string
  | UnknownOp string string
  | ClassMismatch string string string

datatype policy_error =
    PeParse policy_msg
  | PeUnknownField string
  | PeVectorField string
  | PeTooDeep
  | PeDataUnavailable string
  | PeOperandUnsupported
  | PeSelectRequiresUsing

record policy_ctx =
  pc_auth_id :: "string option"
  pc_data :: "jmap option"

definition from_auth :: "auth_ctx \<Rightarrow> policy_ctx" where
  "from_auth ctx = \<lparr> pc_auth_id = user_id ctx, pc_data = None \<rparr>"

definition with_row :: "auth_ctx \<Rightarrow> jmap \<Rightarrow> policy_ctx" where
  "with_row ctx row = \<lparr> pc_auth_id = user_id ctx, pc_data = Some row \<rparr>"

definition auth_value :: "policy_ctx \<Rightarrow> sqlval" where
  "auth_value ctx = (case pc_auth_id ctx of Some uid \<Rightarrow> Text uid | None \<Rightarrow> Null)"

section \<open>Compilation to SQL\<close>

definition resolve_operand :: "json \<Rightarrow> policy_ctx \<Rightarrow> (sqlval, policy_error) result" where
  "resolve_operand operand ctx =
     (case operand of
        JObject m \<Rightarrow>
          (case map_of m ''$auth'' of
             Some k \<Rightarrow>
               if as_str k = Some ''id'' then Inr (auth_value ctx)
               else Inl (PeParse (UnknownAuthRef k))
           | None \<Rightarrow>
               (case Option.bind (map_of m ''$data'') as_str of
                  Some f \<Rightarrow>
                    (case pc_data ctx of
                       None \<Rightarrow> Inl (PeDataUnavailable f)
                     | Some row \<Rightarrow> Inr (row_value row f))
                | None \<Rightarrow> Inr (json_to_value operand)))
      | _ \<Rightarrow> Inr (json_to_value operand))"

fun resolve_operands :: "json list \<Rightarrow> policy_ctx \<Rightarrow> (sqlval list, policy_error) result" where
  "resolve_operands [] ctx = Inr []"
| "resolve_operands (j # js) ctx =
     bind_r (resolve_operand j ctx) (\<lambda>v. bind_r (resolve_operands js ctx) (\<lambda>vs. Inr (v # vs)))"

definition policy_validate_field :: "collection_schema \<Rightarrow> string \<Rightarrow> (unit, policy_error) result" where
  "policy_validate_field schema fld =
     (if is_vector_field schema fld then Inl (PeVectorField fld)
      else if \<not> (fld = ''id'' \<or> fld = ''created_at'' \<or> fld = ''updated_at'') \<and> \<not> has_field schema fld
        then Inl (PeUnknownField fld)
      else Inr ())"

definition bare_op :: "string \<Rightarrow> string" where
  "bare_op op = trim_start_matches (CHR ''$'') op"

text \<open>The operator names of the three arms of \<open>compile_leaf\<close>.\<close>

definition cmp_ops :: "string list" where
  "cmp_ops = [''$eq'', ''$ne'', ''$gt'', ''$gte'', ''$lt'', ''$lte'', ''$like'',
     ''eq'', ''ne'', ''gt'', ''gte'', ''lt'', ''lte'', ''like'']"

definition in_ops :: "string list" where
  "in_ops = [''$in'', ''$nin'', ''in'', ''nin'']"

definition null_ops :: "string list" where
  "null_ops = [''$is_null'', ''$is_not_null'', ''is_null'', ''is_not_null'']"

definition policy_compile_leaf ::
  "collection_schema \<Rightarrow> string \<Rightarrow> json \<Rightarrow> policy_ctx \<Rightarrow> sqlval list
     \<Rightarrow> (string \<times> sqlval list, policy_error) result" where
  "policy_compile_leaf schema fld body ctx binds =
     bind_r (policy_validate_field schema fld) (\<lambda>_.
     let col = q fld;
         eq_shorthand = bind_r (resolve_operand body ctx) (\<lambda>v. Inr (col @ '' = ?'', binds @ [v]))
     in case body of
        JObject op_obj \<Rightarrow>
          if contains_key op_obj ''$auth'' \<or> contains_key op_obj ''$data'' then eq_shorthand
          else (case op_obj of
            [(op, operand)] \<Rightarrow>
              if op \<in> set cmp_ops then
                (case cmp_op (bare_op op) of
                   Some sql_op \<Rightarrow>
                     bind_r (resolve_operand operand ctx)
                       (\<lambda>v. Inr (col @ '' '' @ op_text sql_op @ '' ?'', binds @ [v]))
                 | None \<Rightarrow> Inl (PeParse (UnknownOp fld op)))
              else if op \<in> set in_ops then
                (case as_array operand of
                   None \<Rightarrow> Inl (PeParse (RequiresArray fld op))
                 | Some arr \<Rightarrow>
                     if arr = [] then
                       Inr (if ends_with op ''in'' \<and> \<not> str_contains op ''nin'' then ''1=0'' else ''1=1'', binds)
                     else bind_r (resolve_operands arr ctx) (\<lambda>vs.
                       Inr (col @ '' '' @ (if str_contains op ''nin'' then ''NOT IN'' else ''IN'') @ '' ('' @
                              join '', '' (replicate (length arr) ''?'') @ '')'',
                            binds @ vs)))
              else if op \<in> set null_ops then
                Inr (col @ '' '' @ (if str_contains op ''not'' then ''IS NOT NULL'' else ''IS NULL''), binds)
              else Inl (PeParse (UnknownOp fld op))
          | _ \<Rightarrow> Inl (PeParse (OpObjectOneKey fld)))
      | _ \<Rightarrow> eq_shorthand)"

definition authenticated_matches :: "json \<Rightarrow> policy_ctx \<Rightarrow> bool" where
  "authenticated_matches body ctx =
     (let want = (case as_bool body of Some b \<Rightarrow> b | None \<Rightarrow> True)
      in (pc_auth_id ctx \<noteq> None) = want)"

fun policy_compile_node ::
    "collection_schema \<Rightarrow> filter_ast \<Rightarrow> policy_ctx \<Rightarrow> sqlval list \<Rightarrow> nat
      \<Rightarrow> (string \<times> sqlval list, policy_error) result"
  and policy_compile_nodes ::
    "collection_schema \<Rightarrow> filter_ast list \<Rightarrow> policy_ctx \<Rightarrow> sqlval list \<Rightarrow> nat
      \<Rightarrow> (string list \<times> sqlval list, policy_error) result"
where
  "policy_compile_node schema (FAnd as) ctx binds depth =
     (if MAX_FILTER_DEPTH \<le> depth then Inl PeTooDeep
      else if as = [] then Inr (''1=1'', binds)
      else bind_r (policy_compile_nodes schema as ctx binds (depth + 1))
             (\<lambda>(parts, b). Inr (''('' @ join '' AND '' parts @ '')'', b)))"
| "policy_compile_node schema (FOr as) ctx binds depth =
     (if MAX_FILTER_DEPTH \<le> depth then Inl PeTooDeep
      else if as = [] then Inr (''1=0'', binds)
      else bind_r (policy_compile_nodes schema as ctx binds (depth + 1))
             (\<lambda>(parts, b). Inr (''('' @ join '' OR '' parts @ '')'', b)))"
| "policy_compile_node schema (FNot a) ctx binds depth =
     (if MAX_FILTER_DEPTH \<le> depth then Inl PeTooDeep
      else bind_r (policy_compile_node schema a ctx binds (depth + 1))
             (\<lambda>(inner, b). Inr (''(NOT '' @ inner @ '')'', b)))"
| "policy_compile_node schema (FLeaf m) ctx binds depth =
     (if MAX_FILTER_DEPTH \<le> depth then Inl PeTooDeep
      else case m of
        [(key, body)] \<Rightarrow>
          if key = ''$authenticated'' then
            Inr (if authenticated_matches body ctx then ''1=1'' else ''1=0'', binds)
          else if key = ''$fts'' then Inl PeOperandUnsupported
          else policy_compile_leaf schema key body ctx binds
      | _ \<Rightarrow> Inl (PeParse LeafOneKey))"
| "policy_compile_nodes schema [] ctx binds depth = Inr ([], binds)"
| "policy_compile_nodes schema (a # as) ctx binds depth =
     bind_r (policy_compile_node schema a ctx binds depth) (\<lambda>(s, b).
       bind_r (policy_compile_nodes schema as ctx b depth) (\<lambda>(ss, b'). Inr (s # ss, b')))"

definition compile_policy_using ::
  "collection_schema \<Rightarrow> filter_ast \<Rightarrow> policy_ctx \<Rightarrow> (string \<times> sqlval list, policy_error) result" where
  "compile_policy_using schema ast ctx = policy_compile_node schema ast ctx [] 0"

section \<open>Evaluation in memory\<close>

type_synonym regex = "string \<Rightarrow> string \<Rightarrow> bool option"

fun value_cmp :: "sqlval \<Rightarrow> sqlval \<Rightarrow> ordering option" where
  "value_cmp Null _ = None"
| "value_cmp _ Null = None"
| "value_cmp (Integer x) (Integer y) = Some (cmp x y)"
| "value_cmp (Real x) (Real y) = Some (cmp x y)"
| "value_cmp (Integer x) (Real y) = Some (cmp (f64_of_int x) y)"
| "value_cmp (Real x) (Integer y) = Some (cmp x (f64_of_int y))"
| "value_cmp (Text x) (Text y) = Some (cmp x y)"
| "value_cmp _ _ = None"

definition regex_lite_escape :: "char \<Rightarrow> string" where
  "regex_lite_escape c =
     (if c \<in> set ([backslash] @ ''.^$|?*+()[]{}'') then [backslash, c] else [c])"

definition like_regex :: "string \<Rightarrow> string" where
  "like_regex pat =
     ''(?si)^'' @ concat (map (\<lambda>c. if c = CHR ''%'' then ''.*'' else if c = CHR ''_'' then ''.''
                                   else regex_lite_escape c) pat) @ ''$''"

fun like_match :: "regex \<Rightarrow> sqlval \<Rightarrow> sqlval \<Rightarrow> bool" where
  "like_match rx (Text s) (Text pat) = (case rx (like_regex pat) s of Some b \<Rightarrow> b | None \<Rightarrow> False)"
| "like_match rx _ _ = False"

definition resolve_eval_operand :: "json \<Rightarrow> policy_ctx \<Rightarrow> sqlval" where
  "resolve_eval_operand operand ctx =
     (case operand of
        JObject m \<Rightarrow>
          if Option.bind (map_of m ''$auth'') as_str = Some ''id'' then auth_value ctx
          else (case Option.bind (map_of m ''$data'') as_str of
              Some f \<Rightarrow> (case pc_data ctx of Some d \<Rightarrow> row_value d f | None \<Rightarrow> Null)
            | None \<Rightarrow> json_to_value operand)
      | _ \<Rightarrow> json_to_value operand)"

text \<open>The comparison of the last arm of \<open>eval_leaf\<close>, by the bare operator's name.\<close>

definition ord_op :: "string \<Rightarrow> ordering \<Rightarrow> tri" where
  "ord_op op o' =
     (if op = ''eq'' then tri_from_bool (o' = Equal)
      else if op = ''ne'' then tri_from_bool (o' \<noteq> Equal)
      else if op = ''gt'' then tri_from_bool (o' = Greater)
      else if op = ''gte'' then tri_from_bool (o' = Greater \<or> o' = Equal)
      else if op = ''lt'' then tri_from_bool (o' = Less)
      else if op = ''lte'' then tri_from_bool (o' = Less \<or> o' = Equal)
      else TFalse)"

definition eval_op :: "regex \<Rightarrow> sqlval \<Rightarrow> string \<Rightarrow> json \<Rightarrow> policy_ctx \<Rightarrow> tri" where
  "eval_op rx lhs op operand ctx =
     (let bare = bare_op op in
      if bare = ''is_null'' then tri_from_bool (lhs = Null)
      else if bare = ''is_not_null'' then tri_from_bool (lhs \<noteq> Null)
      else if bare = ''in'' \<or> bare = ''nin'' then
        (case as_array operand of
           None \<Rightarrow> TFalse
         | Some arr \<Rightarrow>
             if arr = [] then tri_from_bool (str_contains op ''nin'')
             else let resolved = map (\<lambda>v. resolve_eval_operand v ctx) arr;
                      hit = list_ex (\<lambda>v. value_cmp lhs v = Some Equal) resolved;
                      any_null = (lhs = Null \<or> list_ex (\<lambda>v. v = Null) resolved)
                  in if str_contains op ''nin''
                     then (if hit then TFalse else if any_null then TUnknown else TTrue)
                     else (if hit then TTrue else if any_null then TUnknown else TFalse))
      else let rhs = resolve_eval_operand operand ctx in
        if bare = ''like'' then
          (if lhs = Null \<or> rhs = Null then TUnknown else tri_from_bool (like_match rx lhs rhs))
        else (case value_cmp lhs rhs of None \<Rightarrow> TUnknown | Some o' \<Rightarrow> ord_op bare o'))"

definition eval_leaf :: "regex \<Rightarrow> string \<Rightarrow> json \<Rightarrow> jmap \<Rightarrow> policy_ctx \<Rightarrow> tri" where
  "eval_leaf rx fld body row ctx =
     (let lhs = row_value row fld in
      case body of
        JObject m \<Rightarrow>
          if contains_key m ''$auth'' \<or> contains_key m ''$data'' then eval_op rx lhs ''$eq'' body ctx
          else (case m of [(k, v)] \<Rightarrow> eval_op rx lhs k v ctx | _ \<Rightarrow> TFalse)
      | _ \<Rightarrow> eval_op rx lhs ''$eq'' body ctx)"

fun eval_node :: "regex \<Rightarrow> filter_ast \<Rightarrow> jmap \<Rightarrow> policy_ctx \<Rightarrow> nat \<Rightarrow> tri"
  and eval_all :: "regex \<Rightarrow> filter_ast list \<Rightarrow> jmap \<Rightarrow> policy_ctx \<Rightarrow> nat \<Rightarrow> tri \<Rightarrow> tri"
  and eval_any :: "regex \<Rightarrow> filter_ast list \<Rightarrow> jmap \<Rightarrow> policy_ctx \<Rightarrow> nat \<Rightarrow> tri \<Rightarrow> tri"
where
  "eval_node rx (FAnd as) row ctx depth =
     (if MAX_FILTER_DEPTH \<le> depth then TFalse else eval_all rx as row ctx (depth + 1) TTrue)"
| "eval_node rx (FOr as) row ctx depth =
     (if MAX_FILTER_DEPTH \<le> depth then TFalse else eval_any rx as row ctx (depth + 1) TFalse)"
| "eval_node rx (FNot a) row ctx depth =
     (if MAX_FILTER_DEPTH \<le> depth then TFalse else tri_not (eval_node rx a row ctx (depth + 1)))"
| "eval_node rx (FLeaf m) row ctx depth =
     (if MAX_FILTER_DEPTH \<le> depth then TFalse
      else case m of
        [(key, body)] \<Rightarrow>
          if key = ''$authenticated'' then tri_from_bool (authenticated_matches body ctx)
          else if key = ''$fts'' then TFalse
          else eval_leaf rx key body row ctx
      | _ \<Rightarrow> TFalse)"
| "eval_all rx [] row ctx depth acc = acc"
| "eval_all rx (a # as) row ctx depth acc =
     (case eval_node rx a row ctx depth of
        TFalse \<Rightarrow> TFalse
      | TUnknown \<Rightarrow> eval_all rx as row ctx depth TUnknown
      | TTrue \<Rightarrow> eval_all rx as row ctx depth acc)"
| "eval_any rx [] row ctx depth acc = acc"
| "eval_any rx (a # as) row ctx depth acc =
     (case eval_node rx a row ctx depth of
        TTrue \<Rightarrow> TTrue
      | TUnknown \<Rightarrow> eval_any rx as row ctx depth TUnknown
      | TFalse \<Rightarrow> eval_any rx as row ctx depth acc)"

definition eval_policy :: "regex \<Rightarrow> filter_ast \<Rightarrow> jmap \<Rightarrow> policy_ctx \<Rightarrow> bool" where
  "eval_policy rx ast row ctx = (eval_node rx ast row ctx 0 = TTrue)"

section \<open>Storage classes\<close>

fun literal_class :: "json \<Rightarrow> string option" where
  "literal_class (JString _) = Some ''text''"
| "literal_class (JNumber _) = Some ''num''"
| "literal_class (JBool _) = Some ''num''"
| "literal_class _ = None"

definition column_class :: "string \<Rightarrow> string option" where
  "column_class sql_type =
     (let t = to_ascii_uppercase sql_type in
      if str_contains t ''INT'' \<or> str_contains t ''REAL'' \<or> str_contains t ''FLOA'' \<or> str_contains t ''DOUB''
      then Some ''num''
      else if str_contains t ''CHAR'' \<or> str_contains t ''TEXT'' \<or> str_contains t ''CLOB'' then Some ''text''
      else None)"

definition field_class :: "collection_schema \<Rightarrow> string \<Rightarrow> string option" where
  "field_class schema fld =
     (if fld = ''id'' then Some ''num''
      else if fld = ''created_at'' \<or> fld = ''updated_at'' then Some ''text''
      else Option.bind (find (\<lambda>f. f_name f = fld) (s_fields schema)) (\<lambda>f. column_class (f_sql_type f)))"

definition operand_class :: "collection_schema \<Rightarrow> json \<Rightarrow> string option" where
  "operand_class schema operand =
     (case operand of
        JObject m \<Rightarrow>
          if contains_key m ''$auth'' then Some ''text''
          else (case Option.bind (map_of m ''$data'') as_str of
              Some fld \<Rightarrow> field_class schema fld
            | None \<Rightarrow> literal_class operand)
      | _ \<Rightarrow> literal_class operand)"

definition check_operand_class :: "collection_schema \<Rightarrow> string \<Rightarrow> json \<Rightarrow> (unit, policy_error) result" where
  "check_operand_class schema fld operand =
     (case (operand_class schema operand, field_class schema fld) of
        (Some operand_cls, Some col) \<Rightarrow>
          if operand_cls \<noteq> col then Inl (PeParse (ClassMismatch fld operand_cls col)) else Inr ()
      | _ \<Rightarrow> Inr ())"

definition check_leaf_classes :: "collection_schema \<Rightarrow> bool \<Rightarrow> jmap \<Rightarrow> (unit, policy_error) result" where
  "check_leaf_classes schema allow_fts m =
     (case m of
        [] \<Rightarrow> Inr ()
      | (key, body) # _ \<Rightarrow>
          if key = ''$authenticated'' then Inr ()
          else if key = ''$fts'' then (if allow_fts then Inr () else Inl PeOperandUnsupported)
          else (case body of
              JObject op_obj \<Rightarrow>
                if contains_key op_obj ''$auth'' \<or> contains_key op_obj ''$data''
                then check_operand_class schema key body
                else (case op_obj of
                    [] \<Rightarrow> Inr ()
                  | (op, operand) # _ \<Rightarrow>
                      (let bare = bare_op op in
                       if bare = ''is_null'' \<or> bare = ''is_not_null'' then Inr ()
                       else if bare = ''in'' \<or> bare = ''nin'' then
                         (case as_array operand of
                            Some arr \<Rightarrow> try_for_each (check_operand_class schema key) arr
                          | None \<Rightarrow> Inr ())
                       else check_operand_class schema key operand))
            | _ \<Rightarrow> check_operand_class schema key body))"

fun check_operand_classes_inner :: "collection_schema \<Rightarrow> bool \<Rightarrow> filter_ast \<Rightarrow> (unit, policy_error) result" where
  "check_operand_classes_inner schema allow_fts (FAnd as) =
     try_for_each (\<lambda>n. check_operand_classes_inner schema allow_fts n) as"
| "check_operand_classes_inner schema allow_fts (FOr as) =
     try_for_each (\<lambda>n. check_operand_classes_inner schema allow_fts n) as"
| "check_operand_classes_inner schema allow_fts (FNot a) = check_operand_classes_inner schema allow_fts a"
| "check_operand_classes_inner schema allow_fts (FLeaf m) = check_leaf_classes schema allow_fts m"

definition check_ast_operand_classes :: "collection_schema \<Rightarrow> filter_ast \<Rightarrow> (unit, policy_error) result" where
  "check_ast_operand_classes schema ast = check_operand_classes_inner schema False ast"

definition check_template_operand_classes :: "collection_schema \<Rightarrow> filter_ast \<Rightarrow> (unit, policy_error) result" where
  "check_template_operand_classes schema ast = check_operand_classes_inner schema True ast"

section \<open>Validation and the clause that applies\<close>

definition probe_row :: "collection_schema \<Rightarrow> jmap" where
  "probe_row schema = foldl (\<lambda>d f. jmap_insert (f_name f) JNull d) [] (s_fields schema)"

definition validate_clause ::
  "collection_schema \<Rightarrow> jmap option \<Rightarrow> filter_ast option \<Rightarrow> (unit, policy_error) result" where
  "validate_clause schema data clause =
     (case clause of
        None \<Rightarrow> Inr ()
      | Some a \<Rightarrow>
          bind_r (compile_policy_using schema a \<lparr> pc_auth_id = Some ''u-probe'', pc_data = data \<rparr>)
            (\<lambda>_. check_ast_operand_classes schema a))"

definition validate_policy ::
  "collection_schema \<Rightarrow> dml_verb \<Rightarrow> policy \<Rightarrow> (unit, policy_error) result" where
  "validate_policy schema op p =
     (if op = Select \<and> p_using p = None then Inl PeSelectRequiresUsing
      else bind_r (validate_clause schema None (p_using p))
        (\<lambda>_. validate_clause schema (Some (probe_row schema)) (p_check p)))"

definition effective_policy_using :: "auth_ctx \<Rightarrow> collection_schema \<Rightarrow> dml_verb \<Rightarrow> filter_ast option" where
  "effective_policy_using ctx schema op =
     (if is_service ctx then None else Option.bind (policies_get (s_policies schema) op) p_using)"

definition effective_policy_check :: "auth_ctx \<Rightarrow> collection_schema \<Rightarrow> dml_verb \<Rightarrow> filter_ast option" where
  "effective_policy_check ctx schema op =
     (if is_service ctx then None else Option.bind (policies_get (s_policies schema) op) p_check)"

datatype read_access = Unrestricted | Filtered filter_ast | DenyAll

definition select_read_access :: "auth_ctx \<Rightarrow> collection_schema \<Rightarrow> read_access" where
  "select_read_access ctx schema =
     (if is_service ctx then Unrestricted
      else case cp_select (s_policies schema) of
          None \<Rightarrow> Unrestricted
        | Some p \<Rightarrow> (case p_using p of Some ast \<Rightarrow> Filtered ast | None \<Rightarrow> DenyAll))"

definition policy_using_sql ::
  "auth_ctx \<Rightarrow> collection_schema \<Rightarrow> dml_verb \<Rightarrow> ((string \<times> sqlval list) option, policy_error) result" where
  "policy_using_sql ctx schema op =
     (if op = Select then
        (case select_read_access ctx schema of
           Unrestricted \<Rightarrow> Inr None
         | Filtered ast \<Rightarrow> bind_r (compile_policy_using schema ast (from_auth ctx)) (\<lambda>c. Inr (Some c))
         | DenyAll \<Rightarrow> Inr (Some (''0=1'', [])))
      else
        (case effective_policy_using ctx schema op of
           None \<Rightarrow> Inr None
         | Some ast \<Rightarrow> bind_r (compile_policy_using schema ast (from_auth ctx)) (\<lambda>c. Inr (Some c))))"


section \<open>The expression behind a policy clause\<close>

definition policy_leaf_expr :: "string \<Rightarrow> json \<Rightarrow> policy_ctx \<Rightarrow> sql_expr \<times> sqlval list" where
  "policy_leaf_expr fld body ctx =
     (case body of
        JObject m \<Rightarrow>
          if contains_key m ''$auth'' \<or> contains_key m ''$data''
          then (SCmp fld OpEq, [resolve_eval_operand body ctx])
          else (case m of
            [(op, operand)] \<Rightarrow>
              (case cmp_op (bare_op op) of
                 Some o' \<Rightarrow> (SCmp fld o', [resolve_eval_operand operand ctx])
               | None \<Rightarrow>
                   if bare_op op = ''in'' \<or> bare_op op = ''nin'' then
                     (case as_array operand of
                        Some arr \<Rightarrow>
                          if arr = [] then (if bare_op op = ''in'' then SOneEqZero else SOneEqOne, [])
                          else (SIn fld (bare_op op = ''nin'') (length arr),
                                map (\<lambda>v. resolve_eval_operand v ctx) arr)
                      | None \<Rightarrow> (SOneEqZero, []))
                   else (SIsNull fld (bare_op op = ''is_not_null''), []))
          | _ \<Rightarrow> (SOneEqZero, []))
      | _ \<Rightarrow> (SCmp fld OpEq, [resolve_eval_operand body ctx]))"

fun policy_expr :: "policy_ctx \<Rightarrow> filter_ast \<Rightarrow> sql_expr \<times> sqlval list" where
  "policy_expr ctx (FAnd as) =
     (if as = [] then (SOneEqOne, [])
      else (SAnd (map (fst \<circ> policy_expr ctx) as), concat (map (snd \<circ> policy_expr ctx) as)))"
| "policy_expr ctx (FOr as) =
     (if as = [] then (SOneEqZero, [])
      else (SOr (map (fst \<circ> policy_expr ctx) as), concat (map (snd \<circ> policy_expr ctx) as)))"
| "policy_expr ctx (FNot a) = (SAnd [SNot (fst (policy_expr ctx a))], snd (policy_expr ctx a))"
| "policy_expr ctx (FLeaf m) =
     (case m of
        [(key, body)] \<Rightarrow>
          if key = ''$authenticated''
          then (if authenticated_matches body ctx then SOneEqOne else SOneEqZero, [])
          else policy_leaf_expr key body ctx
      | _ \<Rightarrow> (SOneEqZero, []))"

definition policy_body_ok :: "policy_ctx \<Rightarrow> json \<Rightarrow> bool" where
  "policy_body_ok ctx body =
     (case body of
        JObject m \<Rightarrow>
          if contains_key m ''$auth'' \<or> contains_key m ''$data'' then is_ok (resolve_operand body ctx)
          else (case m of
            [(op, operand)] \<Rightarrow>
              (op \<in> set cmp_ops \<and> is_ok (resolve_operand operand ctx)) \<or>
              (op \<in> set in_ops \<and>
                 (\<exists>arr. as_array operand = Some arr \<and> (\<forall>v \<in> set arr. is_ok (resolve_operand v ctx)))) \<or>
              op \<in> set null_ops
          | _ \<Rightarrow> False)
      | _ \<Rightarrow> True)"

definition policy_leaf_ok :: "collection_schema \<Rightarrow> policy_ctx \<Rightarrow> jmap \<Rightarrow> bool" where
  "policy_leaf_ok schema ctx m =
     (case m of
        [(key, body)] \<Rightarrow>
          key = ''$authenticated'' \<or>
          (key \<noteq> ''$fts'' \<and> policy_validate_field schema key = Inr () \<and> policy_body_ok ctx body)
      | _ \<Rightarrow> False)"

fun policy_accepts :: "collection_schema \<Rightarrow> policy_ctx \<Rightarrow> filter_ast \<Rightarrow> bool" where
  "policy_accepts schema ctx (FAnd as) = (\<forall>a \<in> set as. policy_accepts schema ctx a)"
| "policy_accepts schema ctx (FOr as) = (\<forall>a \<in> set as. policy_accepts schema ctx a)"
| "policy_accepts schema ctx (FNot a) = policy_accepts schema ctx a"
| "policy_accepts schema ctx (FLeaf m) = policy_leaf_ok schema ctx m"

lemma resolve_operand_value:
  "resolve_operand j ctx = Inr v \<longleftrightarrow> is_ok (resolve_operand j ctx) \<and> v = resolve_eval_operand j ctx"
  by (cases j) (auto simp: resolve_operand_def resolve_eval_operand_def split: option.splits if_splits)

lemma resolve_operands_value:
  "resolve_operands js ctx = Inr vs \<longleftrightarrow>
     (\<forall>j \<in> set js. is_ok (resolve_operand j ctx)) \<and> vs = map (\<lambda>j. resolve_eval_operand j ctx) js"
  by (induction js arbitrary: vs) (auto simp: resolve_operand_value)

lemma bare_op_simps [simp]:
  "bare_op (CHR ''$'' # s) = bare_op s"
  "c \<noteq> CHR ''$'' \<Longrightarrow> bare_op (c # s) = c # s"
  "bare_op [] = []"
  by (simp_all add: bare_op_def trim_start_matches_def)

lemma cmp_ops_bare: "op \<in> set cmp_ops \<Longrightarrow> \<exists>o'. cmp_op (bare_op op) = Some o'"
  by (auto simp: cmp_ops_def cmp_op_def)

lemma in_ops_bare:
  "op \<in> set in_ops \<Longrightarrow> op \<notin> set cmp_ops \<and> cmp_op (bare_op op) = None \<and> (bare_op op = ''in'' \<or> bare_op op = ''nin'') \<and>
     (str_contains op ''nin'' \<longleftrightarrow> bare_op op = ''nin'') \<and> ends_with op ''in''"
  by (auto simp: in_ops_def cmp_ops_def cmp_op_def ends_with_def suffix_def)

lemma null_ops_bare:
  "op \<in> set null_ops \<Longrightarrow> op \<notin> set cmp_ops \<and> op \<notin> set in_ops \<and> cmp_op (bare_op op) = None \<and>
     bare_op op \<noteq> ''in'' \<and> bare_op op \<noteq> ''nin'' \<and>
     (str_contains op ''not'' \<longleftrightarrow> bare_op op = ''is_not_null'') \<and>
     (bare_op op = ''is_null'' \<or> bare_op op = ''is_not_null'')"
  by (auto simp: null_ops_def in_ops_def cmp_ops_def cmp_op_def)

lemmas policy_leaf_defs = policy_compile_leaf_def policy_leaf_expr_def policy_body_ok_def

lemma policy_compile_op_expr:
  assumes "\<not> (contains_key [(op, operand)] ''$auth'' \<or> contains_key [(op, operand)] ''$data'')"
    and v: "policy_validate_field schema fld = Inr ()"
  shows "policy_compile_leaf schema fld (JObject [(op, operand)]) ctx binds = Inr r \<longleftrightarrow>
     policy_body_ok ctx (JObject [(op, operand)]) \<and>
     r = (render (fst (policy_leaf_expr fld (JObject [(op, operand)]) ctx)),
          binds @ snd (policy_leaf_expr fld (JObject [(op, operand)]) ctx))"
proof -
  consider (cmp) "op \<in> set cmp_ops" | (mem) "op \<in> set in_ops" | (nul) "op \<in> set null_ops"
    | (other) "op \<notin> set cmp_ops" "op \<notin> set in_ops" "op \<notin> set null_ops"
    by blast
  then show ?thesis
  proof cases
    case cmp
    with cmp_ops_bare obtain o' where "cmp_op (bare_op op) = Some o'" by blast
    moreover have "op \<notin> set in_ops" "op \<notin> set null_ops" using cmp in_ops_bare null_ops_bare by blast+
    ultimately show ?thesis
      using cmp assms by (auto simp: policy_leaf_defs resolve_operand_value)
  next
    case mem
    moreover have "op \<notin> set null_ops" using mem null_ops_bare by blast
    ultimately show ?thesis
      using in_ops_bare [OF mem] assms
      by (cases "as_array operand") (auto simp: policy_leaf_defs resolve_operands_value)
  next
    case nul
    with null_ops_bare [OF nul] assms show ?thesis by (auto simp: policy_leaf_defs)
  next
    case other
    with assms show ?thesis by (simp add: policy_leaf_defs)
  qed
qed

lemma policy_compile_leaf_expr:
  "policy_compile_leaf schema fld body ctx binds = Inr r \<longleftrightarrow>
     policy_validate_field schema fld = Inr () \<and> policy_body_ok ctx body \<and>
     r = (render (fst (policy_leaf_expr fld body ctx)), binds @ snd (policy_leaf_expr fld body ctx))"
proof (cases "policy_validate_field schema fld = Inr ()")
  case valid: True
  show ?thesis
  proof (cases body)
    case (JObject m)
    show ?thesis
    proof (cases "contains_key m ''$auth'' \<or> contains_key m ''$data''")
      case True
      with JObject valid show ?thesis
        by (auto simp: policy_leaf_defs resolve_operand_value)
    next
      case False
      with JObject valid show ?thesis
        using policy_compile_op_expr [of _ _ schema fld ctx binds r]
        by (cases m rule: pair_list_cases) (simp_all add: policy_compile_leaf_def policy_body_ok_def)
    qed
  qed (auto simp: policy_leaf_defs resolve_operand_def resolve_eval_operand_def valid)
next
  case False
  then show ?thesis by (auto simp: policy_compile_leaf_def)
qed


lemma policy_leaf_expr_params:
  "length (snd (policy_leaf_expr fld body ctx)) = params (fst (policy_leaf_expr fld body ctx))"
  by (auto simp: policy_leaf_expr_def split: json.splits list.splits option.splits)

lemma policy_expr_params: "length (snd (policy_expr ctx a)) = params (fst (policy_expr ctx a))"
proof (induction a)
  case (FAnd as)
  then show ?case by (simp add: length_concat comp_def cong: map_cong)
next
  case (FOr as)
  then show ?case by (simp add: length_concat comp_def cong: map_cong)
next
  case (FLeaf m)
  then show ?case by (auto simp: policy_leaf_expr_params split: list.splits)
qed simp

lemma policy_compile_leaf_node:
  "depth < MAX_FILTER_DEPTH \<Longrightarrow>
   policy_compile_node schema (FLeaf m) ctx binds depth = Inr r \<longleftrightarrow>
     policy_leaf_ok schema ctx m \<and>
     r = (render (fst (policy_expr ctx (FLeaf m))), binds @ snd (policy_expr ctx (FLeaf m)))"
  by (cases m rule: pair_list_cases) (auto simp: policy_compile_leaf_expr policy_leaf_ok_def)

lemma policy_compile_node_iff:
  "policy_compile_node schema a ctx binds depth = Inr r \<longleftrightarrow>
     policy_accepts schema ctx a \<and> depth + ast_height a \<le> MAX_FILTER_DEPTH \<and>
     r = (render (fst (policy_expr ctx a)), binds @ snd (policy_expr ctx a))"
  and policy_compile_nodes_iff:
  "policy_compile_nodes schema as ctx binds depth = Inr rs \<longleftrightarrow>
     (\<forall>a \<in> set as. policy_accepts schema ctx a \<and> depth + ast_height a \<le> MAX_FILTER_DEPTH) \<and>
     rs = (map (render \<circ> fst \<circ> policy_expr ctx) as, binds @ concat (map (snd \<circ> policy_expr ctx) as))"
proof (induction schema a ctx binds depth and schema as ctx binds depth arbitrary: r and rs
       rule: policy_compile_node_policy_compile_nodes.induct)
  case (1 schema as ctx binds depth)
  have h: "depth + ast_height (FAnd as) \<le> MAX_FILTER_DEPTH \<longleftrightarrow>
     depth < MAX_FILTER_DEPTH \<and> (\<forall>a \<in> set as. depth + 1 + ast_height a \<le> MAX_FILTER_DEPTH)"
    using foldr_max_le [of ast_height as "MAX_FILTER_DEPTH - Suc depth"] by auto
  show ?case
    using "1.IH" unfolding h by (auto simp: comp_def)
next
  case (2 schema as ctx binds depth)
  have h: "depth + ast_height (FOr as) \<le> MAX_FILTER_DEPTH \<longleftrightarrow>
     depth < MAX_FILTER_DEPTH \<and> (\<forall>a \<in> set as. depth + 1 + ast_height a \<le> MAX_FILTER_DEPTH)"
    using foldr_max_le [of ast_height as "MAX_FILTER_DEPTH - Suc depth"] by auto
  show ?case
    using "2.IH" unfolding h by (auto simp: comp_def)
next
  case (3 schema a ctx binds depth)
  then show ?case using ast_height_pos [of a] by (auto simp: comp_def)
next
  case (4 schema m ctx binds depth)
  show ?case
  proof (cases "MAX_FILTER_DEPTH \<le> depth")
    case False
    then show ?thesis
      using policy_compile_leaf_node [of depth schema m ctx binds r]
      by (simp del: policy_compile_node.simps policy_expr.simps)
  qed simp
next
  case (6 schema a as ctx binds depth)
  then show ?case by (auto simp: comp_def)
qed auto

lemma compile_policy_using_iff:
  "compile_policy_using schema ast ctx = Inr (sql, binds) \<longleftrightarrow>
     policy_accepts schema ctx ast \<and> ast_height ast \<le> MAX_FILTER_DEPTH \<and>
     sql = render (fst (policy_expr ctx ast)) \<and> binds = snd (policy_expr ctx ast)"
  by (auto simp: compile_policy_using_def policy_compile_node_iff)

text \<open>Whether a clause compiles depends on the row being available, never on the caller.\<close>

lemma resolve_operand_ok_cong:
  "(pc_data c = None) = (pc_data d = None) \<Longrightarrow> is_ok (resolve_operand j c) = is_ok (resolve_operand j d)"
  by (cases j) (auto simp: resolve_operand_def split: option.splits)

lemma policy_body_ok_cong:
  assumes "(pc_data c = None) = (pc_data d = None)"
  shows "policy_body_ok c body = policy_body_ok d body"
  unfolding policy_body_ok_def resolve_operand_ok_cong [OF assms] ..

lemma policy_accepts_cong:
  "(pc_data c = None) = (pc_data d = None) \<Longrightarrow> policy_accepts schema c a = policy_accepts schema d a"
  by (induction a) (auto simp: policy_leaf_ok_def policy_body_ok_cong [of c d] split: list.splits)


section \<open>Agreement of the two evaluators\<close>

text \<open>
  What the agreement rests on. The row holds values of its columns' classes, as SQLite's
  column affinity leaves them, and every column a clause may name has a class; integers
  that can meet a floating-point value are small enough to convert exactly; no \<open>like\<close> has
  a numeric pattern.
\<close>

definition policy_columns :: "collection_schema \<Rightarrow> string list" where
  "policy_columns schema =
     filter (\<lambda>c. \<not> is_vector_field schema c) ([''id'', ''created_at'', ''updated_at''] @ map f_name (s_fields schema))"

fun class_fits :: "string option \<Rightarrow> sqlval \<Rightarrow> bool" where
  "class_fits (Some c) Null = (c = ''num'' \<or> c = ''text'')"
| "class_fits (Some c) (Integer _) = (c = ''num'')"
| "class_fits (Some c) (Real _) = (c = ''num'')"
| "class_fits (Some c) (Text _) = (c = ''text'')"
| "class_fits _ _ = False"

fun small_value :: "sqlval \<Rightarrow> bool" where
  "small_value (Integer i) = (\<bar>i\<bar> < 2 ^ 53)"
| "small_value _ = True"

definition row_typed :: "collection_schema \<Rightarrow> jmap \<Rightarrow> bool" where
  "row_typed schema row =
     list_all (\<lambda>c. class_fits (field_class schema c) (row_value row c) \<and> small_value (row_value row c))
       (policy_columns schema)"

definition body_operands :: "json \<Rightarrow> json list" where
  "body_operands body =
     (case body of
        JObject m \<Rightarrow>
          if contains_key m ''$auth'' \<or> contains_key m ''$data'' then [body]
          else concat (map (\<lambda>(op, x). x # (case x of JArray xs \<Rightarrow> xs | _ \<Rightarrow> [])) m)
      | _ \<Rightarrow> [body])"

definition numeric_like :: "json \<Rightarrow> bool" where
  "numeric_like body =
     (case body of
        JObject [(op, x)] \<Rightarrow> bare_op op = ''like'' \<and> literal_class x = Some ''num''
      | _ \<Rightarrow> False)"

fun comparable :: "filter_ast \<Rightarrow> bool" where
  "comparable (FAnd as) = (\<forall>a \<in> set as. comparable a)"
| "comparable (FOr as) = (\<forall>a \<in> set as. comparable a)"
| "comparable (FNot a) = comparable a"
| "comparable (FLeaf m) =
     (\<forall>(key, body) \<in> set m. \<not> numeric_like body \<and> (\<forall>j \<in> set (body_operands body). small_value (json_to_value j)))"

text \<open>
  The part of the syntax of \<open>regex_lite\<close> that a LIKE pattern needs, and what the crate documents of it. A text
  \<open>(?si)^\<close> followed by literals, escaped metacharacters, \<open>.\<close> and \<open>.*\<close>, and at its end perhaps \<open>$\<close>, compiles.
  It matches at the start of the text (\<open>^\<close>); with \<open>i\<close> a literal matches its letter in either ASCII case, and with
  \<open>s\<close> a dot matches any one character; \<open>$\<close> matches at the end only. The parser refuses every other text: an
  unescaped metacharacter, an escape of a letter, a text that is not anchored. Strings are lists of bytes; a dot
  takes all the bytes of one UTF-8 character.
\<close>

datatype re_item = RLit char | RDot | RDots

definition re_meta :: string where "re_meta = backslash # ''.+*?()|[]{}^$''"

fun re_items :: "string \<Rightarrow> (re_item list \<times> bool) option" where
  "re_items [] = Some ([], False)"
| "re_items [c] =
     (if c = CHR ''$'' then Some ([], True)
      else if c = CHR ''.'' then Some ([RDot], False)
      else if c \<in> set re_meta then None else Some ([RLit c], False))"
| "re_items (c # d # s) =
     (if c = backslash
      then if d \<in> set re_meta then map_option (\<lambda>(is, e). (RLit d # is, e)) (re_items s) else None
      else if c = CHR ''.'' \<and> d = CHR ''*'' then map_option (\<lambda>(is, e). (RDots # is, e)) (re_items s)
      else if c = CHR ''.'' then map_option (\<lambda>(is, e). (RDot # is, e)) (re_items (d # s))
      else if c \<in> set re_meta then None
      else map_option (\<lambda>(is, e). (RLit c # is, e)) (re_items (d # s)))"

definition re_parse :: "string \<Rightarrow> (re_item list \<times> bool) option" where
  "re_parse re = (if starts_with re ''(?si)^'' then re_items (drop 6 re) else None)"

function items_match :: "bool \<Rightarrow> re_item list \<Rightarrow> string \<Rightarrow> bool" where
  "items_match e [] s = (e \<longrightarrow> s = [])"
| "items_match e (i # is) s =
     (case i of
        RDots \<Rightarrow> items_match e is s \<or> (if s = [] then False else items_match e (i # is) (drop (utf8_len s) s))
      | RDot \<Rightarrow> (if s = [] then False else items_match e is (drop (utf8_len s) s))
      | RLit c \<Rightarrow> (if s = [] then False else ascii_lower c = ascii_lower (hd s) \<and> items_match e is (tl s)))"
  by pat_completeness auto
termination
  by (relation "measure (\<lambda>(e, is, s). length is + length s)") (auto simp: utf8_len_pos)

declare items_match.simps(2) [simp del]

definition regex_engine :: "regex \<Rightarrow> bool" where
  "regex_engine rx \<longleftrightarrow> (\<forall>re is e s. re_parse re = Some (is, e) \<longrightarrow> rx re s = Some (items_match e is s))"

text \<open>The item that each character of a LIKE pattern stands for, and its text in \<open>like_match\<close>.\<close>

definition like_item :: "char \<Rightarrow> re_item" where
  "like_item c = (if c = CHR ''%'' then RDots else if c = CHR ''_'' then RDot else RLit c)"

definition like_item_text :: "char \<Rightarrow> string" where
  "like_item_text c = (if c = CHR ''%'' then ''.*'' else if c = CHR ''_'' then ''.'' else regex_lite_escape c)"

definition regex_like :: "regex \<Rightarrow> bool" where
  "regex_like rx = (\<forall>pat s. rx (like_regex pat) s = Some (like_spec pat s))"

lemma row_typed_column:
  assumes "row_typed schema row" "policy_validate_field schema fld = Inr ()"
  shows "class_fits (field_class schema fld) (row_value row fld) \<and> small_value (row_value row fld)"
proof -
  have "fld \<in> set (policy_columns schema)"
    using assms(2) by (auto simp: policy_validate_field_def policy_columns_def has_field_iff field_names_def
        split: if_splits)
  with assms(1) show ?thesis by (auto simp: row_typed_def list_all_iff)
qed

lemma class_fits_cases:
  assumes "class_fits c v"
  obtains "c = Some ''num''" | "c = Some ''text''"
  using assms by (cases "(c, v)" rule: class_fits.cases) auto

lemma operand_class_fits:
  assumes "is_ok (resolve_operand j ctx)" "pc_data ctx = None"
  shows "(case operand_class schema j of
      None \<Rightarrow> resolve_eval_operand j ctx = Null
    | c \<Rightarrow> class_fits c (resolve_eval_operand j ctx) \<or> resolve_eval_operand j ctx = Null)"
  using assms
  by (cases j) (auto simp: resolve_operand_def operand_class_def resolve_eval_operand_def auth_value_def
      contains_key_def split: option.splits if_splits)

lemma small_operand:
  "small_value (json_to_value j) \<Longrightarrow> pc_data ctx = None \<Longrightarrow> small_value (resolve_eval_operand j ctx)"
  by (cases j) (auto simp: resolve_eval_operand_def auth_value_def split: option.splits)

lemma value_cmp_sql_order:
  assumes "class_fits c a" "class_fits c b" "small_value a" "small_value b" "a \<noteq> Null" "b \<noteq> Null"
  shows "value_cmp a b = sql_order a b \<and> sql_order a b \<noteq> None"
  using assms by (cases a; cases b; cases c) (auto simp: f64_of_int_exact)

lemma operand_comparable:
  assumes cl: "check_operand_class schema fld j = Inr ()"
    and ok: "is_ok (resolve_operand j ctx)" "pc_data ctx = None"
    and lhs: "class_fits (field_class schema fld) lhs" "small_value lhs"
    and sm: "small_value (json_to_value j)"
  shows "lhs = Null \<or> resolve_eval_operand j ctx = Null \<or>
    (value_cmp lhs (resolve_eval_operand j ctx) = sql_order lhs (resolve_eval_operand j ctx) \<and>
     sql_order lhs (resolve_eval_operand j ctx) \<noteq> None)"
proof (cases "operand_class schema j")
  case None
  with operand_class_fits [OF ok, of schema] show ?thesis by simp
next
  case (Some c)
  obtain d where d: "field_class schema fld = Some d" using lhs(1) by (rule class_fits_cases) auto
  with cl Some have "c = d" by (auto simp: check_operand_class_def split: if_splits)
  with Some d operand_class_fits [OF ok, of schema] small_operand [OF sm ok(2)] lhs show ?thesis
    using value_cmp_sql_order [of "Some d" lhs "resolve_eval_operand j ctx"] by auto
qed

lemma value_cmp_Null [simp]: "value_cmp a Null = None" "value_cmp Null b = None"
  by (cases a) auto

lemma sql_order_Null [simp]: "sql_order a Null = None" "sql_order Null b = None"
  by (cases a) auto

lemma ord_op_holds: "cmp_op op = Some o' \<Longrightarrow> o' \<noteq> OpLike \<Longrightarrow> ord_op op c = tri_from_bool (op_holds o' c)"
  by (cases c) (auto simp: cmp_op_def ord_op_def split: if_splits)

lemma cmp_op_like: "cmp_op op = Some OpLike \<longleftrightarrow> op = ''like''"
  by (auto simp: cmp_op_def)

lemma cmp_op_not_special:
  "cmp_op op = Some o' \<Longrightarrow> op \<noteq> ''is_null'' \<and> op \<noteq> ''is_not_null'' \<and> op \<noteq> ''in'' \<and> op \<noteq> ''nin''"
  by (auto simp: cmp_op_def split: if_splits)


text \<open>One column value against one operand that passed the class check.\<close>

definition fits_operand :: "collection_schema \<Rightarrow> string \<Rightarrow> sqlval \<Rightarrow> policy_ctx \<Rightarrow> json \<Rightarrow> bool" where
  "fits_operand schema fld lhs ctx j \<longleftrightarrow>
     check_operand_class schema fld j = Inr () \<and> is_ok (resolve_operand j ctx) \<and> pc_data ctx = None \<and>
     class_fits (field_class schema fld) lhs \<and> small_value lhs \<and> small_value (json_to_value j)"

lemma fits_operand_comparable:
  "fits_operand schema fld lhs ctx j \<Longrightarrow> lhs = Null \<or> resolve_eval_operand j ctx = Null \<or>
    (value_cmp lhs (resolve_eval_operand j ctx) = sql_order lhs (resolve_eval_operand j ctx) \<and>
     sql_order lhs (resolve_eval_operand j ctx) \<noteq> None)"
  by (rule operand_comparable) (auto simp: fits_operand_def)

lemma operand_class_num:
  "is_ok (resolve_operand j ctx) \<Longrightarrow> pc_data ctx = None \<Longrightarrow> operand_class schema j = Some ''num'' \<Longrightarrow>
     literal_class j = Some ''num''"
  by (cases j) (auto simp: operand_class_def resolve_operand_def contains_key_def split: option.splits if_splits)

lemma fits_operand_text:
  assumes f: "fits_operand schema fld lhs ctx j" and "literal_class j \<noteq> Some ''num''"
    and nn: "lhs \<noteq> Null" "resolve_eval_operand j ctx \<noteq> Null"
  obtains s p where "lhs = Text s" "resolve_eval_operand j ctx = Text p"
proof -
  from f have ok: "is_ok (resolve_operand j ctx)" "pc_data ctx = None" by (auto simp: fits_operand_def)
  obtain c where c: "operand_class schema j = Some c" and fit: "class_fits (Some c) (resolve_eval_operand j ctx)"
    using operand_class_fits [OF ok, of schema] nn by (auto split: option.splits)
  with operand_class_num [OF ok] assms(2) have "c \<noteq> ''num''" by blast
  moreover from fit have "c = ''num'' \<or> c = ''text''" by (rule class_fits_cases) auto
  ultimately have "c = ''text''" by simp
  moreover from f obtain d where "field_class schema fld = Some d" "class_fits (Some d) lhs"
    by (cases "field_class schema fld") (auto simp: fits_operand_def)
  moreover from f c this have "d = c" by (auto simp: fits_operand_def check_operand_class_def split: if_splits)
  ultimately show thesis
    using that fit nn by (cases lhs; cases "resolve_eval_operand j ctx") auto
qed

lemma tri_all_Cons_True: "tri_all (TTrue # ts) = tri_all ts"
  and tri_any_Cons_False: "tri_any (TFalse # ts) = tri_any ts"
  by (simp_all add: tri_simps)

lemma eval_all_tri_acc:
  "acc \<noteq> TFalse \<Longrightarrow>
     eval_all rx as row ctx depth acc = tri_all (acc # map (\<lambda>a. eval_node rx a row ctx depth) as)"
proof (induction as arbitrary: acc)
  case Nil
  then show ?case by (cases acc) (auto simp: tri_all_def)
qed (auto simp: tri_all_def split: tri.splits)

lemma eval_any_tri_acc:
  "acc \<noteq> TTrue \<Longrightarrow>
     eval_any rx as row ctx depth acc = tri_any (acc # map (\<lambda>a. eval_node rx a row ctx depth) as)"
proof (induction as arbitrary: acc)
  case Nil
  then show ?case by (cases acc) (auto simp: tri_any_def)
qed (auto simp: tri_any_def split: tri.splits)

lemma eval_all_tri: "eval_all rx as row ctx depth TTrue = tri_all (map (\<lambda>a. eval_node rx a row ctx depth) as)"
  and eval_any_tri: "eval_any rx as row ctx depth TFalse = tri_any (map (\<lambda>a. eval_node rx a row ctx depth) as)"
  by (simp_all add: eval_all_tri_acc eval_any_tri_acc tri_all_Cons_True tri_any_Cons_False)

context sqlite_engine
begin

lemma eval_cmp_agree:
  assumes f: "fits_operand schema fld (r fld) ctx j" and o: "cmp_op (bare_op op) = Some o'"
    and like: "o' = OpLike \<longrightarrow> literal_class j \<noteq> Some ''num''" and rx: "regex_like rx"
  shows "eval (SCmp fld o') [resolve_eval_operand j ctx] r = eval_op rx (r fld) op j ctx"
proof (cases "r fld = Null \<or> resolve_eval_operand j ctx = Null")
  case True
  with o show ?thesis
    using cmp_op_not_special [OF o] by (auto simp: eval_cmp_null eval_op_def Let_def)
next
  case nn: False
  show ?thesis
  proof (cases "o' = OpLike")
    case True
    with f like nn obtain s p where "r fld = Text s" "resolve_eval_operand j ctx = Text p"
      by (metis fits_operand_text)
    moreover from True o have "bare_op op = ''like''" by (simp add: cmp_op_like)
    ultimately show ?thesis
      using True rx by (simp add: eval_like eval_op_def Let_def regex_like_def)
  next
    case False
    from nn fits_operand_comparable [OF f] obtain c where
      "sql_order (r fld) (resolve_eval_operand j ctx) = Some c"
      "value_cmp (r fld) (resolve_eval_operand j ctx) = Some c" by auto
    with False o show ?thesis
      using cmp_op_not_special [OF o] cmp_op_like [of "bare_op op"]
      by (auto simp: eval_cmp eval_op_def Let_def ord_op_holds)
  qed
qed

lemma eval_in_agree:
  assumes f: "\<And>j. j \<in> set arr \<Longrightarrow> fits_operand schema fld (r fld) ctx j" and ne: "arr \<noteq> []"
    and op: "op \<in> set in_ops"
  shows "eval (SIn fld (bare_op op = ''nin'') (length arr)) (map (\<lambda>v. resolve_eval_operand v ctx) arr) r =
    eval_op rx (r fld) op (JArray arr) ctx"
proof -
  let ?vs = "map (\<lambda>v. resolve_eval_operand v ctx) arr"
  have cl: "r fld = Null \<or> v = Null \<or> (value_cmp (r fld) v = sql_order (r fld) v \<and> sql_order (r fld) v \<noteq> None)"
    if "v \<in> set ?vs" for v
    using that f fits_operand_comparable by fastforce
  then have hit: "(\<exists>v \<in> set ?vs. sql_order (r fld) v = Some Equal) = list_ex (\<lambda>v. value_cmp (r fld) v = Some Equal) ?vs"
    unfolding list_ex_iff by (metis option.distinct(1) sql_order_Null value_cmp_Null)
  have "eval (SIn fld (bare_op op = ''nin'') (length ?vs)) ?vs r =
      (let hit = (\<exists>v \<in> set ?vs. sql_order (r fld) v = Some Equal);
           t = (if hit then TTrue else if r fld = Null \<or> Null \<in> set ?vs then TUnknown else TFalse)
       in if bare_op op = ''nin'' then tri_not t else t)"
    using ne cl by (intro eval_in) auto
  moreover have "(Null \<in> set ?vs) = list_ex (\<lambda>v. v = Null) ?vs" by (auto simp: list_ex_iff)
  ultimately show ?thesis
    using in_ops_bare [OF op] ne unfolding hit by (auto simp: eval_op_def Let_def)
qed

lemma eval_op_object_agree:
  assumes key: "\<not> (contains_key [(op, x)] ''$auth'' \<or> contains_key [(op, x)] ''$data'')"
    and ok: "policy_body_ok ctx (JObject [(op, x)])"
    and cl: "check_leaf_classes schema False [(fld, JObject [(op, x)])] = Inr ()" "fld \<noteq> ''$authenticated''" "fld \<noteq> ''$fts''"
    and like: "\<not> numeric_like (JObject [(op, x)])"
    and fits: "\<And>j. check_operand_class schema fld j = Inr () \<Longrightarrow> is_ok (resolve_operand j ctx) \<Longrightarrow>
      j \<in> {x} \<union> (case x of JArray xs \<Rightarrow> set xs | _ \<Rightarrow> {}) \<Longrightarrow> fits_operand schema fld (r fld) ctx j"
    and rx: "regex_like rx"
  shows "eval (fst (policy_leaf_expr fld (JObject [(op, x)]) ctx))
      (snd (policy_leaf_expr fld (JObject [(op, x)]) ctx)) r = eval_op rx (r fld) op x ctx"
proof -
  consider (cmp) "op \<in> set cmp_ops" "is_ok (resolve_operand x ctx)"
    | (mem) arr where "op \<in> set in_ops" "x = JArray arr" "\<forall>j \<in> set arr. is_ok (resolve_operand j ctx)"
    | (nul) "op \<in> set null_ops"
    using ok key unfolding policy_body_ok_def by (cases x) auto
  then show ?thesis
  proof cases
    case cmp
    from cmp_ops_bare [OF cmp(1)] obtain o' where o: "cmp_op (bare_op op) = Some o'" by blast
    have "check_operand_class schema fld x = Inr ()"
      using cl key cmp_op_not_special [OF o] by (auto simp: check_leaf_classes_def Let_def)
    then have "fits_operand schema fld (r fld) ctx x" using cmp(2) by (intro fits) auto
    moreover have "o' = OpLike \<longrightarrow> literal_class x \<noteq> Some ''num''"
      using like o by (auto simp: numeric_like_def cmp_op_like)
    ultimately show ?thesis
      using eval_cmp_agree [OF _ o _ rx] o key by (simp add: policy_leaf_expr_def)
  next
    case mem
    note b = in_ops_bare [OF mem(1)]
    have "\<forall>j \<in> set arr. check_operand_class schema fld j = Inr ()"
      using cl key b mem(2) by (auto simp: check_leaf_classes_def Let_def try_for_each_ok)
    then have "fits_operand schema fld (r fld) ctx j" if "j \<in> set arr" for j
      using that mem by (intro fits) auto
    then show ?thesis
      using eval_in_agree [of arr schema fld r ctx op rx] mem b key
      by (cases "arr = []") (auto simp: policy_leaf_expr_def eval_op_def eval_true eval_false)
  next
    case nul
    with null_ops_bare [OF nul] key show ?thesis
      by (auto simp: policy_leaf_expr_def eval_is_null eval_op_def)
  qed
qed

lemma eval_leaf_agree:
  assumes v: "policy_validate_field schema fld = Inr ()" "policy_body_ok ctx body"
    and cl: "check_leaf_classes schema False [(fld, body)] = Inr ()" "fld \<noteq> ''$authenticated''" "fld \<noteq> ''$fts''"
    and cmp: "comparable (FLeaf [(fld, body)])"
    and row: "row_typed schema row" "r fld = row_value row fld" "pc_data ctx = None"
    and rx: "regex_like rx"
  shows "eval (fst (policy_leaf_expr fld body ctx)) (snd (policy_leaf_expr fld body ctx)) r =
    eval_leaf rx fld body row ctx"
proof -
  have fits: "fits_operand schema fld (r fld) ctx j"
    if "check_operand_class schema fld j = Inr ()" "is_ok (resolve_operand j ctx)" "j \<in> set (body_operands body)" for j
    using that row_typed_column [OF row(1) v(1)] row cmp by (auto simp: fits_operand_def)
  show ?thesis
  proof (cases "\<exists>m. body = JObject m \<and> \<not> (contains_key m ''$auth'' \<or> contains_key m ''$data'')")
    case False
    then have "fits_operand schema fld (r fld) ctx body"
      using v cl by (intro fits) (cases body; auto simp: check_leaf_classes_def policy_body_ok_def
          body_operands_def resolve_operand_def)+
    then have "eval (SCmp fld OpEq) [resolve_eval_operand body ctx] r = eval_op rx (r fld) ''$eq'' body ctx"
      using rx by (intro eval_cmp_agree) (auto simp: cmp_op_def)
    with False show ?thesis
      using row(2) by (cases body) (auto simp: policy_leaf_expr_def eval_leaf_def Let_def)
  next
    case True
    then obtain m where m: "body = JObject m" "\<not> (contains_key m ''$auth'' \<or> contains_key m ''$data'')" by blast
    with v(2) obtain op x where body: "m = [(op, x)]"
      by (cases m rule: pair_list_cases) (auto simp: policy_body_ok_def)
    have "set (body_operands body) = {x} \<union> (case x of JArray xs \<Rightarrow> set xs | _ \<Rightarrow> {})"
      using m body by (auto simp: body_operands_def split: json.splits)
    with fits m body cl cmp rx v(2) show ?thesis
      using eval_op_object_agree [of op x ctx schema fld r rx] row(2) by (simp add: eval_leaf_def)
  qed
qed

lemma eval_node_agree:
  assumes "policy_accepts schema ctx a" "depth + ast_height a \<le> MAX_FILTER_DEPTH"
    and "check_operand_classes_inner schema False a = Inr ()" "comparable a"
    and row: "row_typed schema row" "\<And>fld. policy_validate_field schema fld = Inr () \<Longrightarrow> r fld = row_value row fld"
      "pc_data ctx = None"
    and rx: "regex_like rx"
  shows "eval (fst (policy_expr ctx a)) (snd (policy_expr ctx a)) r = eval_node rx a row ctx depth"
  using assms(1-4)
proof (induction a arbitrary: depth)
  case (FAnd as)
  then have "depth + 1 + ast_height a \<le> MAX_FILTER_DEPTH" if "a \<in> set as" for a
    using that foldr_max_le [of ast_height as "MAX_FILTER_DEPTH - Suc depth"] by auto
  with FAnd have "map (\<lambda>a. eval (fst (policy_expr ctx a)) (snd (policy_expr ctx a)) r) as =
      map (\<lambda>a. eval_node rx a row ctx (depth + 1)) as"
    by (simp add: try_for_each_ok)
  then show ?case
    using FAnd.prems(2) eval_and_map [of as "snd \<circ> policy_expr ctx" "fst \<circ> policy_expr ctx" r]
    by (auto simp: policy_expr_params eval_all_tri eval_true simp del: map_eq_conv)
next
  case (FOr as)
  then have "depth + 1 + ast_height a \<le> MAX_FILTER_DEPTH" if "a \<in> set as" for a
    using that foldr_max_le [of ast_height as "MAX_FILTER_DEPTH - Suc depth"] by auto
  with FOr have "map (\<lambda>a. eval (fst (policy_expr ctx a)) (snd (policy_expr ctx a)) r) as =
      map (\<lambda>a. eval_node rx a row ctx (depth + 1)) as"
    by (simp add: try_for_each_ok)
  then show ?case
    using FOr.prems(2) eval_or_map [of as "snd \<circ> policy_expr ctx" "fst \<circ> policy_expr ctx" r]
    by (auto simp: policy_expr_params eval_any_tri eval_false simp del: map_eq_conv)
next
  case (FNot a)
  then have "eval (fst (policy_expr ctx a)) (snd (policy_expr ctx a)) r = eval_node rx a row ctx (depth + 1)"
    by (intro FNot.IH) auto
  with FNot.prems show ?case
    by (auto simp: eval_and_single eval_not policy_expr_params)
next
  case (FLeaf m)
  then obtain key body where m: "m = [(key, body)]"
    by (cases m rule: pair_list_cases) (auto simp: policy_leaf_ok_def)
  with FLeaf show ?case
    using eval_leaf_agree [of schema key ctx body row r rx] row rx
    by (auto simp: policy_leaf_ok_def eval_true eval_false)
qed

end


section \<open>LIKE as a regular expression\<close>

lemma re_items_lit: "c \<notin> set re_meta \<Longrightarrow> re_items (c # s) = map_option (\<lambda>(is, e). (RLit c # is, e)) (re_items s)"
  by (cases s) (auto simp: re_meta_def)

lemma re_items_dot:
  "s = [] \<or> hd s \<noteq> CHR ''*'' \<Longrightarrow> re_items (CHR ''.'' # s) = map_option (\<lambda>(is, e). (RDot # is, e)) (re_items s)"
  by (cases s) (auto simp: re_meta_def)

lemma re_items_like:
  "re_items (concat (map like_item_text pat) @ ''$'') = Some (map like_item pat, True)"
proof (induction pat)
  case (Cons c pat)
  let ?rest = "concat (map like_item_text pat) @ ''$''"
  have star: "hd ?rest \<noteq> CHR ''*''"
    by (cases pat) (auto simp: like_item_text_def regex_lite_escape_def)
  consider "c = CHR ''%''" | "c = CHR ''_''" | "c \<notin> set re_meta" "c \<noteq> CHR ''%''" "c \<noteq> CHR ''_''"
    | "c \<in> set re_meta" "c \<noteq> CHR ''%''" "c \<noteq> CHR ''_''" by blast
  then show ?case
  proof cases
    case 2
    then have "like_item_text c = ''.''" "like_item c = RDot" by (simp_all add: like_item_text_def like_item_def)
    with Cons star show ?thesis by (simp add: re_items_dot)
  next
    case 3
    then have "like_item_text c = [c]" by (auto simp: like_item_text_def regex_lite_escape_def re_meta_def)
    with 3 Cons show ?thesis by (simp add: re_items_lit like_item_def)
  next
    case 4
    then have "like_item_text c = [backslash, c]" by (auto simp: like_item_text_def regex_lite_escape_def re_meta_def)
    with 4 Cons show ?thesis by (simp add: like_item_def)
  qed (use Cons in \<open>simp add: like_item_text_def like_item_def\<close>)
qed simp

lemma re_parse_like: "re_parse (like_regex pat) = Some (map like_item pat, True)"
  using re_items_like [of pat]
  by (simp add: like_regex_def re_parse_def starts_with_def like_item_text_def [abs_def])

lemma items_match_like: "items_match True (map like_item pat) s = like_spec pat s"
proof (induction pat s rule: like_spec.induct)
  case (2 p ps s)
  then show ?case
    by (cases "p = CHR ''%''"; cases "p = CHR ''_''"; cases "s = []")
      (auto simp: like_spec.simps(2) items_match.simps(2) like_item_def)
qed simp

text \<open>The code's translation of a LIKE pattern, matched as the regex crate documents it, is LIKE.\<close>

lemma regex_engine_like: "regex_engine rx \<Longrightarrow> regex_like rx"
  by (simp add: regex_engine_def regex_like_def re_parse_like items_match_like)

text \<open>An instance of the engine: it reads the fragment and matches it.\<close>

definition like_rx :: regex where
  "like_rx re s = map_option (\<lambda>(is, e). items_match e is s) (re_parse re)"

lemma like_rx_engine: "regex_engine like_rx"
  by (simp add: regex_engine_def like_rx_def)

section \<open>Lemmas on validation\<close>

lemma validate_clause_ok:
  "validate_clause schema data (Some a) = Inr () \<longleftrightarrow>
     policy_accepts schema \<lparr> pc_auth_id = Some ''u-probe'', pc_data = data \<rparr> a \<and>
     ast_height a \<le> MAX_FILTER_DEPTH \<and> check_ast_operand_classes schema a = Inr ()"
  by (auto simp: validate_clause_def compile_policy_using_iff)

lemma validate_policy_using:
  assumes "validate_policy schema op p = Inr ()" "p_using p = Some ast"
  shows "policy_accepts schema (from_auth auth) ast \<and> ast_height ast \<le> MAX_FILTER_DEPTH \<and>
    check_operand_classes_inner schema False ast = Inr ()"
proof -
  from assms have "validate_clause schema None (Some ast) = Inr ()"
    by (auto simp: validate_policy_def split: if_splits)
  then show ?thesis
    using policy_accepts_cong [of "from_auth auth" "\<lparr> pc_auth_id = Some ''u-probe'', pc_data = None \<rparr>" schema ast]
    by (auto simp: validate_clause_ok check_ast_operand_classes_def from_auth_def)
qed

lemma policy_leaf_expr_text:
  "fst (policy_leaf_expr fld body c) = fst (policy_leaf_expr fld body d)"
  by (auto simp: policy_leaf_expr_def split: json.splits list.splits option.splits)

lemma policy_expr_text:
  assumes "(pc_auth_id c = None) = (pc_auth_id d = None)"
  shows "fst (policy_expr c a) = fst (policy_expr d a)"
proof (induction a)
  case (FLeaf m)
  show ?case
    using assms policy_leaf_expr_text [of _ _ c d]
    by (cases m rule: pair_list_cases) (auto simp: authenticated_matches_def)
qed (auto cong: map_cong)

section \<open>Properties\<close>

text \<open>
  C1. The two evaluators of a comparable policy agree. Take a validated policy that has no LIKE with a numeric
  literal and whose numeric literals are below 2^53 (\<open>comparable\<close>), and a row whose columns hold values of their
  classes with integers below 2^53 (\<open>row_typed\<close>). Then the SQL that the reader splices into its WHERE clause
  evaluates to the same one of SQL's three truth values as the in-memory evaluator, so the row is selected
  exactly when \<open>eval_policy\<close> admits it, LIKE patterns included. The engine \<open>eval\<close> is any that meets
  SQLite's documented semantics; \<open>rx\<close> is any regular expression engine that matches the simple anchored
  expressions of \<open>re_parse\<close> as documented: that the code's translation of LIKE is right is proved, not assumed.
\<close>

theorem policy_evaluators_agree:
  assumes "sqlite_engine eval" "regex_engine rx"
    and "validate_policy schema op p = Inr ()" "p_using p = Some ast" "comparable ast"
    and "row_typed schema row"
    and "\<And>fld. policy_validate_field schema fld = Inr () \<Longrightarrow> r fld = row_value row fld"
  shows "\<exists>e binds. compile_policy_using schema ast (from_auth auth) = Inr (render e, binds) \<and>
    eval e binds r = eval_node rx ast row (from_auth auth) 0 \<and>
    (eval e binds r = TTrue \<longleftrightarrow> eval_policy rx ast row (from_auth auth))"
proof -
  note v = validate_policy_using [OF assms(3,4), of auth]
  have "eval (fst (policy_expr (from_auth auth) ast)) (snd (policy_expr (from_auth auth) ast)) r =
      eval_node rx ast row (from_auth auth) 0"
    using v assms by (intro sqlite_engine.eval_node_agree) (auto simp: from_auth_def regex_engine_like)
  with v show ?thesis
    by (auto simp: compile_policy_using_iff eval_policy_def intro!: exI)
qed

text \<open>A policy with every kind of operand: the reader sees published rows and their own drafts.\<close>

definition example_policy :: policy where
  "example_policy =
     \<lparr> p_using = Some (FOr [FAnd [FLeaf [(''$authenticated'', JBool True)],
                                  FLeaf [(''title'', JObject [(''$auth'', JString ''id'')])]],
                            FNot (FLeaf [(''views'', JObject [(''$in'', JArray [JNumber (PosInt 0), JNull])])]),
                            FLeaf [(''title'', JObject [(''$like'', JString ''pub%'')])]]),
       p_check = Some (FLeaf [(''title'', JObject [(''$ne'', JObject [(''$data'', JString ''title'')])])]) \<rparr>"

definition example_row :: jmap where
  "example_row = [(''id'', JNumber (PosInt 7)), (''title'', JString ''u1''), (''views'', JNumber (PosInt 0)),
     (''created_at'', JString ''2024''), (''updated_at'', JString ''2024'')]"

theorem policy_evaluators_agree_witness:
  "\<exists>e binds. compile_policy_using example_schema (the (p_using example_policy)) (from_auth (User ''u1'' ''h''))
      = Inr (render e, binds) \<and>
    ref_eval e binds (row_value example_row) = TTrue"
proof -
  have "validate_policy example_schema Select example_policy = Inr ()"
    and "comparable (the (p_using example_policy))" and "row_typed example_schema example_row"
    and "eval_node like_rx (the (p_using example_policy)) example_row (from_auth (User ''u1'' ''h'')) 0 = TTrue"
    by code_simp+
  then show ?thesis
    using policy_evaluators_agree [OF ref.sqlite_engine_axioms like_rx_engine,
        of example_schema Select example_policy "the (p_using example_policy)" example_row
          "row_value example_row" "User ''u1'' ''h''"]
    by (auto simp: example_policy_def)
qed

text \<open>
  Row-level security on reads fails closed. The SELECT clause is absent exactly for a
  service caller or a collection without a SELECT policy; a stored SELECT policy without a
  USING clause compiles to the constant that no row satisfies, so a reader never falls back
  to an unfiltered read.
\<close>

theorem select_policy_fail_closed:
  "(policy_using_sql ctx schema Select = Inr None \<longleftrightarrow>
      is_service ctx \<or> cp_select (s_policies schema) = None) \<and>
   (\<not> is_service ctx \<and> map_option p_using (cp_select (s_policies schema)) = Some None \<longrightarrow>
      policy_using_sql ctx schema Select = Inr (Some (render SZeroEqOne, [])))"
proof -
  have "bind_r x (\<lambda>c. Inr (Some c)) \<noteq> Inr None" for x :: "(string \<times> sqlval list, policy_error) result"
    by (cases x) auto
  then show ?thesis
    by (auto simp: policy_using_sql_def select_read_access_def split: option.splits)
qed

theorem select_policy_fail_closed_witness:
  "policy_using_sql Anon (example_schema\<lparr> s_policies :=
      policies_default\<lparr> cp_select := Some \<lparr> p_using = None, p_check = None \<rparr> \<rparr> \<rparr>) Select
    = Inr (Some (''0=1'', []))"
  using select_policy_fail_closed [of Anon "example_schema\<lparr> s_policies :=
      policies_default\<lparr> cp_select := Some \<lparr> p_using = None, p_check = None \<rparr> \<rparr> \<rparr>"]
  by simp

text \<open>
  C17. A policy that passed validation never fails at run time: for every caller, whether or
  not logged in, the clause for the policy's verb compiles, so an accepted policy cannot turn
  later requests into errors.
\<close>

theorem validated_policy_compiles:
  assumes "validate_policy schema op p = Inr ()" "policies_get (s_policies schema) op = Some p"
  shows "is_ok (policy_using_sql ctx schema op)"
proof (cases "p_using p")
  case None
  with assms show ?thesis
    by (cases op) (auto simp: policy_using_sql_def effective_policy_using_def validate_policy_def)
next
  case (Some ast)
  with assms have "compile_policy_using schema ast (from_auth ctx) =
      Inr (render (fst (policy_expr (from_auth ctx) ast)), snd (policy_expr (from_auth ctx) ast))"
    using validate_policy_using [OF assms(1) Some, of ctx] by (simp add: compile_policy_using_iff)
  with Some assms(2) show ?thesis
    by (cases op) (auto simp: policy_using_sql_def effective_policy_using_def select_read_access_def)
qed

theorem validated_policy_compiles_witness:
  "is_ok (policy_using_sql Anon (example_schema\<lparr> s_policies :=
      policies_default\<lparr> cp_update := Some example_policy \<rparr> \<rparr>) Update)"
  by (rule validated_policy_compiles [of _ _ example_policy]) code_simp+

text \<open>
  The SQL of a policy does not depend on who asks. Two callers who are both logged in, or
  both not, get the same statement text with different binds, and the text has exactly one
  placeholder for each bind: a caller's identity can only reach SQLite as a bound value.
\<close>

theorem policy_text_caller_independent:
  assumes "compile_policy_using schema ast (from_auth c) = Inr (sql, binds)"
    and "(user_id c = None) = (user_id d = None)"
  shows "(\<exists>binds'. compile_policy_using schema ast (from_auth d) = Inr (sql, binds') \<and>
      length binds' = length binds) \<and> params_in None sql = length binds"
proof -
  have data: "pc_data (from_auth c) = None" "pc_data (from_auth d) = None"
    and same: "fst (policy_expr (from_auth c) ast) = fst (policy_expr (from_auth d) ast)"
    using assms(2) by (auto simp: from_auth_def intro: policy_expr_text)
  with assms(1) show ?thesis
    using policy_accepts_cong [of "from_auth c" "from_auth d" schema ast]
      policy_expr_params [of "from_auth c" ast] policy_expr_params [of "from_auth d" ast]
    by (auto simp: compile_policy_using_iff)
qed

theorem policy_text_caller_independent_witness:
  "\<exists>sql b b'. compile_policy_using example_schema (the (p_using example_policy)) (from_auth (User ''u1'' ''h''))
      = Inr (sql, b) \<and>
    compile_policy_using example_schema (the (p_using example_policy)) (from_auth (User ''u2'' ''k''))
      = Inr (sql, b') \<and> length b = 4 \<and> params_in None sql = 4"
proof -
  have "case compile_policy_using example_schema (the (p_using example_policy)) (from_auth (User ''u1'' ''h'')) of
      Inr (sql, b) \<Rightarrow> length b = 4 | Inl _ \<Rightarrow> False"
    by code_simp
  then obtain sql b where c: "compile_policy_using example_schema (the (p_using example_policy))
      (from_auth (User ''u1'' ''h'')) = Inr (sql, b)" and "length b = 4"
    by (auto split: sum.splits prod.splits)
  with policy_text_caller_independent [OF c, of "User ''u2'' ''k''"] show ?thesis by auto
qed

end
