(* ===== verification/List_Builder.thy ===== *)
theory List_Builder
  imports Policy "HOL-Library.Word"
begin

text \<open>
  The structured-list and aggregate SQL builders of \<open>query/list_builder.rs\<close>. Page
  numbers are \<open>u32\<close> and the offset is computed in \<open>u64\<close>, as in the code.
\<close>

type_synonym u32 = "32 word"
type_synonym u64 = "64 word"

section \<open>Requests and errors\<close>

record sort_spec =
  ss_field :: string
  ss_dir :: string

definition default_dir :: string where
  "default_dir = ''desc''"

record list_request =
  lr_filter :: "filter_ast option"
  lr_sort :: "sort_spec option"
  lr_page :: "u32 option"
  lr_per_page :: "u32 option"
  lr_select :: "string list option"

record aggregate_metric =
  am_op :: string
  am_field :: "string option"
  am_alias :: "string option"

record aggregate_request =
  ar_filter :: "filter_ast option"
  ar_group_by :: "string list option"
  ar_metrics :: "aggregate_metric list"
  ar_sort :: "sort_spec option"
  ar_page :: "u32 option"
  ar_per_page :: "u32 option"

datatype list_error =
    LFilter filter_error
  | SortFieldUnknown string
  | SortVectorField string
  | SortDirInvalid
  | SelectFieldUnknown string
  | PageRangeInvalid
  | NoMetrics
  | MetricOpInvalid string
  | MetricFieldRequired string
  | MetricFieldUnknown string
  | MetricVectorField string
  | GroupFieldUnknown string
  | GroupVectorField string
  | AliasInvalid string
  | AliasDuplicate string

fun list_error_code :: "list_error \<Rightarrow> string" where
  "list_error_code (LFilter (FeParse _)) = ''FILTER_PARSE_ERROR''"
| "list_error_code (LFilter (FeUnknownField _)) = ''FILTER_UNKNOWN_FIELD''"
| "list_error_code (LFilter (FeVectorField _)) = ''FILTER_VECTOR_FIELD''"
| "list_error_code (LFilter FeTooDeep) = ''FILTER_TOO_DEEP''"
| "list_error_code (LFilter (FeFts code _ _)) = code"
| "list_error_code (LFilter _) = ''FILTER_PARSE_ERROR''"
| "list_error_code (SortFieldUnknown _) = ''SORT_FIELD_UNKNOWN''"
| "list_error_code (SortVectorField _) = ''SORT_VECTOR_FIELD''"
| "list_error_code SortDirInvalid = ''SORT_DIR_INVALID''"
| "list_error_code (SelectFieldUnknown _) = ''SELECT_FIELD_UNKNOWN''"
| "list_error_code PageRangeInvalid = ''PAGE_RANGE_INVALID''"
| "list_error_code NoMetrics = ''AGG_NO_METRICS''"
| "list_error_code (MetricOpInvalid _) = ''AGG_OP_INVALID''"
| "list_error_code (MetricFieldRequired _) = ''AGG_FIELD_REQUIRED''"
| "list_error_code (MetricFieldUnknown _) = ''AGG_FIELD_UNKNOWN''"
| "list_error_code (MetricVectorField _) = ''AGG_FIELD_VECTOR''"
| "list_error_code (GroupFieldUnknown _) = ''AGG_GROUP_UNKNOWN''"
| "list_error_code (GroupVectorField _) = ''AGG_GROUP_VECTOR''"
| "list_error_code (AliasInvalid _) = ''AGG_ALIAS_INVALID''"
| "list_error_code (AliasDuplicate _) = ''AGG_ALIAS_DUPLICATE''"

section \<open>Helpers\<close>

definition SYSTEM_SORTABLE :: "string list" where
  "SYSTEM_SORTABLE = [''id'', ''created_at'', ''updated_at'']"

definition DEFAULT_PER_PAGE :: u32 where "DEFAULT_PER_PAGE = 20"
definition MAX_PER_PAGE :: u32 where "MAX_PER_PAGE = 500"

definition field_exists :: "collection_schema \<Rightarrow> string \<Rightarrow> bool" where
  "field_exists s name = (has_field s name \<or> is_vector_field s name \<or> name \<in> set SYSTEM_SORTABLE)"

definition projection_default :: "collection_schema \<Rightarrow> string" where
  "projection_default s =
     (let cols = map (\<lambda>f. q (f_name f)) (filter (\<lambda>f. \<not> is_vector_field s (f_name f)) (s_fields s))
      in if cols = [] then ''*'' else join '', '' cols)"

definition is_valid_agg_op :: "string \<Rightarrow> bool" where
  "is_valid_agg_op op = (op \<in> {''count'', ''sum'', ''avg'', ''min'', ''max''})"

definition is_alpha :: "char \<Rightarrow> bool" where
  "is_alpha c = (65 \<le> byte c \<and> byte c \<le> 90 \<or> 97 \<le> byte c \<and> byte c \<le> 122)"

definition valid_alias :: "string \<Rightarrow> bool" where
  "valid_alias a =
     (a \<noteq> [] \<and> length a \<le> 64 \<and> (is_alpha (hd a) \<or> hd a = CHR ''_'') \<and>
      list_all (\<lambda>b. is_alpha b \<or> is_digit b \<or> b = CHR ''_'') a)"

definition validate_agg_field :: "collection_schema \<Rightarrow> string \<Rightarrow> (unit, list_error) result" where
  "validate_agg_field schema f =
     (if \<not> (field_exists schema f \<or> f \<in> set SYSTEM_SORTABLE) then Inl (MetricFieldUnknown f)
      else if is_vector_field schema f then Inl (MetricVectorField f)
      else Inr ())"

section \<open>The WHERE clause\<close>

definition build_where_clause ::
  "collection_schema \<Rightarrow> filter_ast option \<Rightarrow> (string \<times> string) option \<Rightarrow> (string \<times> sqlval list) option
     \<Rightarrow> (string \<times> sqlval list, list_error) result" where
  "build_where_clause schema flt owner policy_clause =
     bind_r (case flt of
               None \<Rightarrow> Inr ([], [])
             | Some ast \<Rightarrow> (case compile schema ast of
                   Inl e \<Rightarrow> Inl (LFilter e)
                 | Inr (sql, b) \<Rightarrow> Inr ([''('' @ sql @ '')''], b)))
       (\<lambda>(wheres0, binds0).
        let (wheres1, binds1) = (case owner of
               None \<Rightarrow> (wheres0, binds0)
             | Some (fld, uid) \<Rightarrow> (wheres0 @ [q fld @ '' = ?''], binds0 @ [Text uid]));
            (wheres, binds) = (case policy_clause of
               None \<Rightarrow> (wheres1, binds1)
             | Some (frag, pbinds) \<Rightarrow> (wheres1 @ [''('' @ frag @ '')''], binds1 @ pbinds))
        in Inr (if wheres = [] then [] else '' WHERE '' @ join '' AND '' wheres, binds))"

section \<open>List\<close>

text \<open>The four numbered steps of \<open>build_structured_list_sql\<close>.\<close>

definition list_projection ::
  "collection_schema \<Rightarrow> string list option \<Rightarrow> (string, list_error) result" where
  "list_projection schema sel =
     (case sel of
        None \<Rightarrow> Inr (projection_default schema)
      | Some cols \<Rightarrow>
          bind_r (try_for_each (\<lambda>c. if field_exists schema c then Inr () else Inl (SelectFieldUnknown c)) cols)
            (\<lambda>_. let filtered = map q (filter (\<lambda>c. \<not> is_vector_field schema c) cols)
                 in Inr (if filtered = [] then q ''id'' else join '', '' filtered)))"

definition sort_dir :: "string \<Rightarrow> (string, list_error) result" where
  "sort_dir dir =
     (if dir = ''asc'' \<or> dir = ''ASC'' then Inr ''ASC''
      else if dir = ''desc'' \<or> dir = ''DESC'' then Inr ''DESC''
      else Inl SortDirInvalid)"

definition list_sort ::
  "collection_schema \<Rightarrow> sort_spec option \<Rightarrow> (string \<times> string, list_error) result" where
  "list_sort schema srt =
     (case srt of
        None \<Rightarrow> Inr (''created_at'', ''DESC'')
      | Some s \<Rightarrow>
          if \<not> (field_exists schema (ss_field s) \<or> ss_field s \<in> set SYSTEM_SORTABLE)
            then Inl (SortFieldUnknown (ss_field s))
          else if is_vector_field schema (ss_field s) then Inl (SortVectorField (ss_field s))
          else bind_r (sort_dir (ss_dir s)) (\<lambda>dir. Inr (ss_field s, dir)))"

definition page_window :: "u32 option \<Rightarrow> u32 option \<Rightarrow> (u32 \<times> u64, list_error) result" where
  "page_window page_opt per_page_opt =
     (let per_page = (case per_page_opt of Some n \<Rightarrow> n | None \<Rightarrow> DEFAULT_PER_PAGE);
          page = (case page_opt of Some n \<Rightarrow> n | None \<Rightarrow> 1)
      in if per_page = 0 \<or> per_page > MAX_PER_PAGE \<or> page = 0 then Inl PageRangeInvalid
         else Inr (per_page, (ucast page - 1) * ucast per_page))"

definition limit_text :: "u32 \<Rightarrow> u64 \<Rightarrow> string" where
  "limit_text per_page offset =
     '' LIMIT '' @ nat_to_string (unat per_page) @ '' OFFSET '' @ nat_to_string (unat offset)"

definition build_structured_list_sql ::
  "collection_schema \<Rightarrow> list_request \<Rightarrow> (string \<times> string) option \<Rightarrow> (string \<times> sqlval list) option
     \<Rightarrow> (string \<times> string \<times> sqlval list, list_error) result" where
  "build_structured_list_sql schema req owner policy_clause =
     bind_r (list_projection schema (lr_select req)) (\<lambda>projection.
     bind_r (build_where_clause schema (lr_filter req) owner policy_clause) (\<lambda>(where_clause, binds).
     bind_r (list_sort schema (lr_sort req)) (\<lambda>(sort_field, dir_kw).
     bind_r (page_window (lr_page req) (lr_per_page req)) (\<lambda>(per_page, offset).
       Inr (''SELECT '' @ projection @ '' FROM '' @ q (s_name schema) @ where_clause @
              '' ORDER BY '' @ q sort_field @ '' '' @ dir_kw @ limit_text per_page offset,
            ''SELECT COUNT(*) FROM '' @ q (s_name schema) @ where_clause,
            binds)))))"

section \<open>Aggregate\<close>

definition group_columns ::
  "collection_schema \<Rightarrow> string list option \<Rightarrow> (string list, list_error) result" where
  "group_columns schema group_by =
     (case group_by of
        None \<Rightarrow> Inr []
      | Some cols \<Rightarrow>
          bind_r (try_for_each (\<lambda>c.
              if \<not> (field_exists schema c \<or> c \<in> set SYSTEM_SORTABLE) then Inl (GroupFieldUnknown c)
              else if is_vector_field schema c then Inl (GroupVectorField c)
              else Inr ()) cols) (\<lambda>_. Inr cols))"

definition metric_expr ::
  "collection_schema \<Rightarrow> aggregate_metric \<Rightarrow> (string \<times> string, list_error) result" where
  "metric_expr schema m =
     (let op = to_ascii_lowercase (am_op m) in
      if \<not> is_valid_agg_op op then Inl (MetricOpInvalid (am_op m))
      else bind_r
        (if op = ''count'' then
           (case am_field m of
              None \<Rightarrow> Inr (''COUNT(*)'', ''count'')
            | Some f \<Rightarrow> bind_r (validate_agg_field schema f)
                (\<lambda>_. Inr (''COUNT('' @ q f @ '')'', ''count_'' @ f)))
         else
           (case am_field m of
              None \<Rightarrow> Inl (MetricFieldRequired op)
            | Some f \<Rightarrow> bind_r (validate_agg_field schema f)
                (\<lambda>_. Inr (to_ascii_uppercase op @ ''('' @ q f @ '')'', op @ ''_'' @ f))))
        (\<lambda>(expr, default_alias).
           case am_alias m of
             Some a \<Rightarrow> if valid_alias a then Inr (expr, a) else Inl (AliasInvalid a)
           | None \<Rightarrow> Inr (expr, default_alias)))"

fun metric_exprs ::
  "collection_schema \<Rightarrow> aggregate_metric list \<Rightarrow> ((string \<times> string) list, list_error) result" where
  "metric_exprs schema [] = Inr []"
| "metric_exprs schema (m # ms) =
     bind_r (metric_expr schema m) (\<lambda>e. bind_r (metric_exprs schema ms) (\<lambda>es. Inr (e # es)))"

text \<open>The \<open>HashSet\<close> walk over the output names: the first repeated one is reported.\<close>

fun check_distinct :: "string list \<Rightarrow> string list \<Rightarrow> (unit, list_error) result" where
  "check_distinct seen [] = Inr ()"
| "check_distinct seen (n # ns) =
     (if n \<in> set seen then Inl (AliasDuplicate n) else check_distinct (n # seen) ns)"

definition order_clause ::
  "string list \<Rightarrow> string list \<Rightarrow> sort_spec option \<Rightarrow> (string, list_error) result" where
  "order_clause group_cols aliases srt =
     (case srt of
        None \<Rightarrow> Inr []
      | Some s \<Rightarrow>
          if \<not> (ss_field s \<in> set group_cols \<or> ss_field s \<in> set aliases)
            then Inl (SortFieldUnknown (ss_field s))
          else bind_r (sort_dir (ss_dir s)) (\<lambda>dir. Inr ('' ORDER BY '' @ q (ss_field s) @ '' '' @ dir)))"

definition build_aggregate_sql ::
  "collection_schema \<Rightarrow> aggregate_request \<Rightarrow> (string \<times> string) option \<Rightarrow> (string \<times> sqlval list) option
     \<Rightarrow> (string \<times> sqlval list, list_error) result" where
  "build_aggregate_sql schema req owner policy_clause =
     (if ar_metrics req = [] then Inl NoMetrics
      else
     bind_r (group_columns schema (ar_group_by req)) (\<lambda>group_cols.
     bind_r (metric_exprs schema (ar_metrics req)) (\<lambda>metrics.
     let aliases = map snd metrics;
         select_list = join '', '' (map q group_cols @ map (\<lambda>(e, a). e @ '' AS '' @ q a) metrics)
     in
     bind_r (check_distinct [] (group_cols @ aliases)) (\<lambda>_.
     bind_r (build_where_clause schema (ar_filter req) owner policy_clause) (\<lambda>(where_clause, binds).
     let group_by_clause = (if group_cols = [] then [] else '' GROUP BY '' @ join '', '' (map q group_cols))
     in
     bind_r (order_clause group_cols aliases (ar_sort req)) (\<lambda>order.
     bind_r (page_window (ar_page req) (ar_per_page req)) (\<lambda>(per_page, offset).
       Inr (''SELECT '' @ select_list @ '' FROM '' @ q (s_name schema) @ where_clause @ group_by_clause @ order @
              limit_text per_page offset,
            binds))))))))"

end
