(* ===== verification/Read_Path.thy ===== *)
theory Read_Path
  imports List_Builder
begin

text \<open>
  The read side of \<open>tenant/records_list.rs\<close>: the authorization of a read, the pipeline of
  \<open>/list\<close> shared with stored queries, and the \<open>/list\<close>, \<open>/aggregate\<close> and
  \<open>/list/explain\<close> handlers, with the error responses of \<open>error.rs\<close>.

  A pooled reader connection is the record \<open>reader\<close> of the calls the code makes on it:
  the schema cache, a query, the COUNT query, the first step of a full-text probe. Text read
  back from SQLite is valid UTF-8, so \<open>from_utf8_lossy\<close> is the identity.
\<close>

section \<open>Errors and responses\<close>

datatype db_error =
    SqlInputError (die_msg: string) (die_sql: string) (die_offset: int)
  | SqliteFailure (dfe_extended_code: nat) (dfe_msg: "string option")
  | QueryReturnedNoRows
  | OtherDbError string

definition int_to_string :: "int \<Rightarrow> string" where
  "int_to_string i = (if i < 0 then ''-'' @ nat_to_string (nat (- i)) else nat_to_string (nat i))"

text \<open>\<open>rusqlite\<close>'s \<open>Display\<close> is the parameter \<open>display\<close>.\<close>

definition sqlite_error_without_sql :: "(db_error \<Rightarrow> string) \<Rightarrow> db_error \<Rightarrow> string" where
  "sqlite_error_without_sql display e =
     (case e of
        SqlInputError msg _ offset \<Rightarrow> msg @ '' at offset '' @ int_to_string offset
      | other \<Rightarrow> display other)"

text \<open>
  A message is either its text or, where it is the rendering of a typed error of the
  builders, that error. \<open>json_error\<close>'s suggested fix is looked up from the code alone and is
  left out.
\<close>

datatype err_message = MsgText string | MsgList list_error | MsgPolicy policy_error

datatype response =
    JsonError (resp_status: nat) (resp_code: string) (resp_message: err_message)
  | JsonOk json

definition map_list_error :: "list_error \<Rightarrow> response" where
  "map_list_error e =
     JsonError (if e = PageRangeInvalid then 422 else 400) (list_error_code e) (MsgList e)"

definition db_error_response :: "(db_error \<Rightarrow> string) \<Rightarrow> db_error \<Rightarrow> response" where
  "db_error_response display e = JsonError 500 ''DB_ERROR'' (MsgText (sqlite_error_without_sql display e))"

definition no_such_collection :: "string \<Rightarrow> response" where
  "no_such_collection coll = JsonError 404 ''COLLECTION_NOT_FOUND'' (MsgText (''no such collection: '' @ coll))"

section \<open>Read authorization\<close>

datatype cap_mode = Collection | RpcGrant

definition em_dash :: string where
  "em_dash = [CHR 0xE2, CHR 0x80, CHR 0x94]"

definition anon_owner_denied :: response where
  "anon_owner_denied = JsonError 403 ''ANON_FORBIDDEN_OWNER_SCOPED''
     (MsgText (''anon cannot read owner-scoped collection '' @ em_dash @ '' register a user''))"

definition cap_denied :: "token_role \<Rightarrow> string \<Rightarrow> response" where
  "cap_denied role coll = JsonError 403 ''ANON_CAP_DENIED''
     (MsgText (if role = RUser
       then ''user role lacks '' @ squoted ''select'' @ '' on collection '' @ squoted coll @
              '' (grant it via user_caps)''
       else ''anon role lacks '' @ squoted ''select'' @ '' on collection '' @ squoted coll))"

definition owner_pair ::
  "cap_mode \<Rightarrow> auth_ctx \<Rightarrow> collection_schema \<Rightarrow> string \<Rightarrow> ((string \<times> string) option, response) result" where
  "owner_pair cap ctx schema coll =
     (case ctx of
        Service _ \<Rightarrow> Inr None
      | Anon \<Rightarrow>
          (case s_owner_field schema of
             Some _ \<Rightarrow> Inl anon_owner_denied
           | None \<Rightarrow>
               if cap \<noteq> RpcGrant \<and> Select \<notin> set (s_anon_caps schema) then Inl (cap_denied RAnon coll)
               else Inr None)
      | User uid _ \<Rightarrow>
          (case (s_owner_field schema, s_read_scope schema) of
             (Some fld, Some scope) \<Rightarrow>
               if scope = ''own'' then Inr (Some (fld, uid))
               else if Select \<notin> set (s_user_caps schema) then Inl (cap_denied RUser coll)
               else Inr None
           | (owner, _) \<Rightarrow>
               if (cap \<noteq> RpcGrant \<or> owner \<noteq> None) \<and> Select \<notin> set (s_user_caps schema)
               then Inl (cap_denied RUser coll) else Inr None))"

definition compute_read_auth_inner ::
  "cap_mode \<Rightarrow> auth_ctx \<Rightarrow> collection_schema \<Rightarrow> string
     \<Rightarrow> ((string \<times> string) option \<times> (string \<times> sqlval list) option, response) result" where
  "compute_read_auth_inner cap ctx schema coll =
     bind_r (owner_pair cap ctx schema coll) (\<lambda>owner.
       case policy_using_sql ctx schema Select of
         Inr c \<Rightarrow> Inr (owner, c)
       | Inl e \<Rightarrow> Inl (JsonError 500 ''POLICY_COMPILE_ERROR'' (MsgPolicy e)))"

definition compute_read_auth ::
  "auth_ctx \<Rightarrow> collection_schema \<Rightarrow> string
     \<Rightarrow> ((string \<times> string) option \<times> (string \<times> sqlval list) option, response) result" where
  "compute_read_auth ctx schema coll = compute_read_auth_inner Collection ctx schema coll"

section \<open>The reader connection\<close>

record reader =
  rd_schema :: "string \<Rightarrow> (collection_schema option, db_error) result"
  rd_query :: "string \<Rightarrow> sqlval list \<Rightarrow> (string list \<times> sqlval list list, db_error) result"
  rd_count :: "string \<Rightarrow> sqlval list \<Rightarrow> (int, db_error) result"
  rd_display :: "db_error \<Rightarrow> string"

definition jnum_of_int :: "int \<Rightarrow> jnum" where
  "jnum_of_int i = (if i < 0 then NegInt i else PosInt (nat i))"

fun value_ref_to_json :: "sqlval \<Rightarrow> json" where
  "value_ref_to_json Null = JNull"
| "value_ref_to_json (Integer n) = JNumber (jnum_of_int n)"
| "value_ref_to_json (Real f) = JNumber (Float f)"
| "value_ref_to_json (Text t) = JString t"
| "value_ref_to_json (Blob b) = JObject [(''__blob_bytes'', JNumber (PosInt (length b)))]"

definition row_object :: "string list \<Rightarrow> sqlval list \<Rightarrow> jmap" where
  "row_object cols row = foldl (\<lambda>obj (c, v). jmap_insert c (value_ref_to_json v) obj) [] (zip cols row)"

definition run_bound_select ::
  "reader \<Rightarrow> string \<Rightarrow> sqlval list \<Rightarrow> (string list \<times> jmap list, db_error) result" where
  "run_bound_select c sql binds =
     bind_r (rd_query c sql binds) (\<lambda>(cols, rows). Inr (cols, map (row_object cols) rows))"

text \<open>The first step of a probe statement, its error stripped of the statement.\<close>

definition probe_step :: "reader \<Rightarrow> string \<Rightarrow> sqlval list \<Rightarrow> (unit, string) result" where
  "probe_step c sql binds =
     (case rd_query c sql binds of
        Inr _ \<Rightarrow> Inr ()
      | Inl e \<Rightarrow> Inl (sqlite_error_without_sql (rd_display c) e))"

definition fts_probe_guard ::
  "reader \<Rightarrow> collection_schema \<Rightarrow> filter_ast option \<Rightarrow> (unit, response) result" where
  "fts_probe_guard c schema flt =
     (case probe_fts_queries (probe_step c) schema flt of
        Inr _ \<Rightarrow> Inr ()
      | Inl msg \<Rightarrow> Inl (JsonError 400 ''FTS_QUERY_INVALID'' (MsgText msg)))"

section \<open>The list pipeline\<close>

record list_page =
  lp_records :: "jmap list"
  lp_total :: int
  lp_page :: u32
  lp_per_page :: u32

datatype list_core_error =
    NoSuchCollection
  | Build list_error
  | Http response
  | Db db_error

definition hide_vectors :: "collection_schema \<Rightarrow> jmap \<Rightarrow> jmap" where
  "hide_vectors schema m = filter (\<lambda>(k, _). \<not> is_vector_field schema k) m"

definition load_schema :: "reader \<Rightarrow> string \<Rightarrow> (collection_schema, list_core_error) result" where
  "load_schema c coll =
     (if is_protected_collection coll then Inl NoSuchCollection
      else case rd_schema c coll of
          Inl e \<Rightarrow> Inl (Db e)
        | Inr None \<Rightarrow> Inl NoSuchCollection
        | Inr (Some s) \<Rightarrow> Inr s)"

definition run_structured_list_inner ::
  "cap_mode \<Rightarrow> reader \<Rightarrow> auth_ctx \<Rightarrow> string \<Rightarrow> list_request \<Rightarrow> (list_page, list_core_error) result" where
  "run_structured_list_inner cap c ctx coll req =
     bind_r (load_schema c coll) (\<lambda>schema.
     bind_r (map_err Http (compute_read_auth_inner cap ctx schema coll)) (\<lambda>(owner, policy_clause).
     bind_r (map_err Build (build_structured_list_sql schema req owner policy_clause))
       (\<lambda>(list_sql, count_sql, binds).
     bind_r (map_err Http (fts_probe_guard c schema (lr_filter req))) (\<lambda>_.
     bind_r (map_err Db (run_bound_select c list_sql binds)) (\<lambda>(_, rows).
     bind_r (map_err Db (rd_count c count_sql binds)) (\<lambda>total.
       Inr \<lparr> lp_records = map (hide_vectors schema) rows, lp_total = total,
             lp_page = (case lr_page req of Some n \<Rightarrow> n | None \<Rightarrow> 1),
             lp_per_page = (case lr_per_page req of Some n \<Rightarrow> n | None \<Rightarrow> 20) \<rparr>))))))"

definition run_structured_list ::
  "reader \<Rightarrow> auth_ctx \<Rightarrow> string \<Rightarrow> list_request \<Rightarrow> (list_page, list_core_error) result" where
  "run_structured_list c ctx coll req = run_structured_list_inner Collection c ctx coll req"

definition run_structured_list_rpc_grant ::
  "reader \<Rightarrow> auth_ctx \<Rightarrow> string \<Rightarrow> list_request \<Rightarrow> (list_page, list_core_error) result" where
  "run_structured_list_rpc_grant c ctx coll req = run_structured_list_inner RpcGrant c ctx coll req"

section \<open>Handlers\<close>

definition post_list :: "reader \<Rightarrow> auth_ctx \<Rightarrow> string \<Rightarrow> list_request \<Rightarrow> response" where
  "post_list c ctx coll req =
     (if is_protected_collection coll then no_such_collection coll
      else case run_structured_list c ctx coll req of
          Inr p \<Rightarrow> JsonOk (JObject
            [(''records'', JArray (map JObject (lp_records p))),
             (''total'', JNumber (jnum_of_int (lp_total p))),
             (''page'', JNumber (PosInt (unat (lp_page p)))),
             (''perPage'', JNumber (PosInt (unat (lp_per_page p))))])
        | Inl NoSuchCollection \<Rightarrow> no_such_collection coll
        | Inl (Build e) \<Rightarrow> map_list_error e
        | Inl (Http resp) \<Rightarrow> resp
        | Inl (Db e) \<Rightarrow> db_error_response (rd_display c) e)"

definition post_aggregate :: "reader \<Rightarrow> auth_ctx \<Rightarrow> string \<Rightarrow> aggregate_request \<Rightarrow> response" where
  "post_aggregate c ctx coll req =
     (if is_protected_collection coll then no_such_collection coll
      else case rd_schema c coll of
          Inl e \<Rightarrow> JsonError 500 ''DB_ERROR'' (MsgText (rd_display c e))
        | Inr None \<Rightarrow> no_such_collection coll
        | Inr (Some schema) \<Rightarrow>
            (case compute_read_auth ctx schema coll of
               Inl resp \<Rightarrow> resp
             | Inr (owner, policy_clause) \<Rightarrow>
                 (case build_aggregate_sql schema req owner policy_clause of
                    Inl e \<Rightarrow> map_list_error e
                  | Inr (sql, binds) \<Rightarrow>
                      (case fts_probe_guard c schema (ar_filter req) of
                         Inl resp \<Rightarrow> resp
                       | Inr _ \<Rightarrow>
                           (case run_bound_select c sql binds of
                              Inl e \<Rightarrow> JsonError 500 ''DB_ERROR'' (MsgText (rd_display c e))
                            | Inr (_, rows) \<Rightarrow> JsonOk (JObject
                                [(''rows'', JArray (map JObject rows)),
                                 (''page'', JNumber (PosInt (unat (case ar_page req of Some n \<Rightarrow> n | None \<Rightarrow> 1)))),
                                 (''perPage'', JNumber (PosInt (unat (case ar_per_page req of
                                     Some n \<Rightarrow> n | None \<Rightarrow> 20))))]))))))"

text \<open>
  \<open>/list/explain\<close>: the fourth column of the plan's rows; any reader failure gives the empty
  plan (\<open>unwrap_or_default\<close>).
\<close>

definition plan_detail :: "sqlval list \<Rightarrow> string option" where
  "plan_detail row = (if 3 < length row then (case row ! 3 of Text t \<Rightarrow> Some t | _ \<Rightarrow> None) else None)"

definition post_list_explain :: "reader \<Rightarrow> auth_ctx \<Rightarrow> string \<Rightarrow> list_request \<Rightarrow> response" where
  "post_list_explain c ctx coll req =
     (if \<not> is_service ctx
        then JsonError 403 ''EXPLAIN_REQUIRES_SERVICE'' (MsgText ''explain requires the service token'')
      else if is_protected_collection coll then no_such_collection coll
      else case rd_schema c coll of
          Inl e \<Rightarrow> JsonError 500 ''DB_ERROR'' (MsgText (rd_display c e))
        | Inr None \<Rightarrow> no_such_collection coll
        | Inr (Some schema) \<Rightarrow>
            (case build_structured_list_sql schema req None None of
               Inl e \<Rightarrow> map_list_error e
             | Inr (list_sql, _, binds) \<Rightarrow>
                 (let plan = (case rd_query c (''EXPLAIN QUERY PLAN '' @ list_sql) binds of
                        Inr (_, rows) \<Rightarrow>
                          (if list_all (\<lambda>r. plan_detail r \<noteq> None) rows
                           then map (\<lambda>r. the (plan_detail r)) rows else [])
                      | Inl _ \<Rightarrow> [])
                  in JsonOk (JObject [(''plan'', JArray (map JString plan))]))))"

section \<open>The expression behind a WHERE clause\<close>

text \<open>The conjuncts of a WHERE clause, each with the values it binds.\<close>

type_synonym bound_expr = "sql_expr \<times> sqlval list"

definition where_parts ::
  "collection_schema \<Rightarrow> filter_ast option \<Rightarrow> (string \<times> string) option \<Rightarrow> bound_expr option \<Rightarrow> bound_expr list" where
  "where_parts schema flt owner pol =
     (case flt of None \<Rightarrow> []
        | Some a \<Rightarrow> [(SAnd [fst (filter_expr schema a)], snd (filter_expr schema a))]) @
     (case owner of None \<Rightarrow> [] | Some (f, uid) \<Rightarrow> [(SCmp f OpEq, [Text uid])]) @
     (case pol of None \<Rightarrow> [] | Some (e, b) \<Rightarrow> [(SAnd [e], b)])"

definition where_text :: "bound_expr list \<Rightarrow> string" where
  "where_text ps = (if ps = [] then [] else '' WHERE '' @ join '' AND '' (map (render \<circ> fst) ps))"

definition clause_of :: "bound_expr \<Rightarrow> string \<times> sqlval list" where
  "clause_of eb = (render (fst eb), snd eb)"

lemma compile_Inr:
  "compile schema ast = Inr (sql, binds) \<longleftrightarrow>
     accepts schema ast \<and> ast_height ast \<le> MAX_FILTER_DEPTH \<and>
     sql = render (fst (filter_expr schema ast)) \<and> binds = snd (filter_expr schema ast)"
  by (auto simp: compile_def compile_node_iff)

lemma build_where_clause_parts:
  assumes "build_where_clause schema flt owner (map_option clause_of pol) = Inr (w, binds)"
  shows "w = where_text (where_parts schema flt owner pol) \<and>
    binds = concat (map snd (where_parts schema flt owner pol))"
proof -
  obtain ws bs where f: "(case flt of None \<Rightarrow> Inr ([], []) | Some ast \<Rightarrow> (case compile schema ast of
        Inl e \<Rightarrow> Inl (LFilter e) | Inr (sql, b) \<Rightarrow> Inr ([''('' @ sql @ '')''], b))) = Inr (ws, bs)"
    using assms unfolding build_where_clause_def bind_r_eq_Inr by fastforce
  then have "ws = map (render \<circ> fst) (where_parts schema flt None None)"
    "bs = concat (map snd (where_parts schema flt None None))"
    by (auto simp: where_parts_def compile_Inr split: option.splits sum.splits)
  with f assms show ?thesis
    by (cases owner; cases pol)
       (auto simp: build_where_clause_def where_parts_def where_text_def clause_of_def
             split: option.splits)
qed

lemma where_parts_params:
  "\<forall>(e, b) \<in> set (where_parts schema flt owner pol). length b = params e"
  if "\<And>e b. pol = Some (e, b) \<Longrightarrow> length b = params e"
  using that by (auto simp: where_parts_def filter_expr_params split: option.splits)

text \<open>The truth of the clause: of the conjunction of its parts.\<close>

definition where_holds :: "(sql_expr \<Rightarrow> sqlval list \<Rightarrow> sql_row \<Rightarrow> tri) \<Rightarrow> bound_expr list \<Rightarrow> sql_row \<Rightarrow> bool" where
  "where_holds eval ps r = (tri_all (map (\<lambda>(e, b). eval e b r) ps) = TTrue)"

lemma cmp_Equal: "cmp x y = Equal \<longleftrightarrow> x = y"
  by (auto simp: cmp_def)

context sqlite_engine
begin

lemma where_holds_conjunction:
  assumes "ps \<noteq> []" "\<forall>(e, b) \<in> set ps. length b = params e"
  shows "where_holds eval ps r \<longleftrightarrow> eval (SAnd (map fst ps)) (concat (map snd ps)) r = TTrue"
  using assms eval_and_map [of ps snd fst r]
  by (auto simp: where_holds_def case_prod_unfold)

lemma where_holds_parts:
  assumes "\<And>e b. pol = Some (e, b) \<Longrightarrow> length b = params e"
    and "\<And>f uid. owner = Some (f, uid) \<Longrightarrow> r f = Null \<or> (\<exists>s. r f = Text s)"
  shows "where_holds eval (where_parts schema flt owner pol) r \<longleftrightarrow>
    (\<forall>a. flt = Some a \<longrightarrow> eval (fst (filter_expr schema a)) (snd (filter_expr schema a)) r = TTrue) \<and>
    (\<forall>f uid. owner = Some (f, uid) \<longrightarrow> r f = Text uid) \<and>
    (\<forall>e b. pol = Some (e, b) \<longrightarrow> eval e b r = TTrue)"
proof -
  have own: "eval (SCmp f OpEq) [Text uid] r = TTrue \<longleftrightarrow> r f = Text uid" if "owner = Some (f, uid)" for f uid
    using assms(2) [OF that] eval_cmp_null [of r f "Text uid" OpEq]
      eval_cmp [of OpEq r f "Text uid"] by (auto simp: cmp_Equal tri_from_bool_def split: if_splits)
  have "where_holds eval (where_parts schema flt owner pol) r \<longleftrightarrow>
      (\<forall>(e, b) \<in> set (where_parts schema flt owner pol). eval e b r = TTrue)"
    by (auto simp: where_holds_def tri_all_TTrue)
  then show ?thesis
    using own assms(1) by (auto simp: where_parts_def filter_expr_params split: option.splits)
qed

end

text \<open>The clause \<open>policy_using_sql\<close> returns, as an expression with its binds.\<close>

definition using_expr :: "auth_ctx \<Rightarrow> collection_schema \<Rightarrow> dml_verb \<Rightarrow> bound_expr option" where
  "using_expr ctx schema op =
     (if op = Select then
        (case select_read_access ctx schema of
           Unrestricted \<Rightarrow> None
         | Filtered ast \<Rightarrow> Some (policy_expr (from_auth ctx) ast)
         | DenyAll \<Rightarrow> Some (SZeroEqOne, []))
      else map_option (policy_expr (from_auth ctx)) (effective_policy_using ctx schema op))"

lemma policy_using_sql_expr:
  "policy_using_sql ctx schema op = Inr c \<Longrightarrow> c = map_option clause_of (using_expr ctx schema op)"
  by (auto simp: policy_using_sql_def using_expr_def clause_of_def compile_policy_using_iff
      split: if_splits read_access.splits option.splits)

lemma using_expr_params: "using_expr ctx schema op = Some (e, b) \<Longrightarrow> length b = params e"
  using policy_expr_params [of "from_auth ctx"]
  by (auto simp: using_expr_def split: if_splits read_access.splits) (metis fst_conv snd_conv)+

section \<open>Lemmas on authorization and paging\<close>

lemma owner_pair_owner:
  assumes "owner_pair cap ctx schema coll = Inr owner"
  shows "owner = (case (ctx, s_owner_field schema) of
      (User uid _, Some f) \<Rightarrow> (if s_read_scope schema = Some ''own'' then Some (f, uid) else None)
    | _ \<Rightarrow> None)"
  using assms by (auto simp: owner_pair_def split: auth_ctx.splits option.splits if_splits)

lemma unat_u32_less: "unat (w :: u32) < 2 ^ 32"
proof -
  have "unat w < 2 ^ LENGTH(32)" by (rule unsigned_less)
  then show ?thesis by simp
qed

lemma unat_ucast_u32: "unat (ucast (w :: u32) :: u64) = unat w"
  using unat_u32_less [of w] by (simp add: unsigned_ucast_eq take_bit_nat_eq_self)

lemma prod_less_u64: "a < 2 ^ 32 \<Longrightarrow> b < 2 ^ 32 \<Longrightarrow> a * b < (2 ^ 64 :: nat)"
proof -
  assume "a < 2 ^ 32" "b < 2 ^ 32"
  then have "a * b < 2 ^ 32 * 2 ^ 32" by (intro mult_strict_mono) auto
  then show ?thesis by simp
qed

lemma check_distinct_ok:
  "check_distinct seen ns = Inr () \<longleftrightarrow> distinct ns \<and> set seen \<inter> set ns = {}"
  by (induction ns arbitrary: seen) auto

lemma map_of_row_object_aux:
  assumes "distinct cols" "length cols = length row" "i < length cols"
  shows "map_of (foldl (\<lambda>obj (c, v). jmap_insert c (value_ref_to_json v) obj) m (zip cols row)) (cols ! i) =
    Some (value_ref_to_json (row ! i))"
proof -
  have keep: "map_of (foldl (\<lambda>obj (c, v). jmap_insert c (value_ref_to_json v) obj) m (zip cs vs)) k = map_of m k"
    if "k \<notin> set cs" for cs vs k and m :: jmap
    using that by (induction cs vs arbitrary: m rule: list_induct2') (auto simp: map_of_jmap_insert)
  show ?thesis
    using assms
  proof (induction cols row arbitrary: m i rule: list_induct2')
    case (4 c cs v vs)
    then show ?case
      by (cases i) (simp_all add: keep map_of_jmap_insert)
  qed auto
qed

lemmas map_of_row_object = map_of_row_object_aux [of _ _ _ "[]", folded row_object_def]

lemma length_jmap_insert: "length (jmap_insert k v m) = (if map_of m k = None then Suc (length m) else length m)"
  by (induction m) auto

section \<open>Properties\<close>

text \<open>
  Paging never wraps around. A page window is granted exactly for a page of at least 1
  and a page size between 1 and 500; the granted offset, computed in 64-bit arithmetic, is
  the exact product (page - 1) * page size for every 32-bit page number.
\<close>

theorem page_window_exact:
  "page_window page per_page = Inr (n, offset) \<longleftrightarrow>
     (let p = unat (case page of Some n \<Rightarrow> n | None \<Rightarrow> 1);
          k = unat (case per_page of Some n \<Rightarrow> n | None \<Rightarrow> 20)
      in 1 \<le> p \<and> 1 \<le> k \<and> k \<le> 500 \<and> unat n = k \<and> unat offset = (p - 1) * k)"
proof -
  define p k where "p = (case page of Some n \<Rightarrow> n | None \<Rightarrow> 1)"
    and "k = (case per_page of Some n \<Rightarrow> n | None \<Rightarrow> (20 :: u32))"
  have exact: "unat ((ucast p - 1) * ucast k :: u64) = (unat p - 1) * unat k" if "p \<noteq> 0"
  proof -
    have p: "unat (ucast p :: u64) = unat p" and k: "unat (ucast k :: u64) = unat k"
      by (simp_all add: unat_ucast_u32)
    from that have "unat p \<noteq> 0" by (simp add: unat_eq_0)
    then have "1 \<le> unat (ucast p :: u64)" using p by simp
    then have "unat (ucast p - 1 :: u64) = unat p - 1"
      using p by (subst unat_sub) (simp_all add: word_le_nat_alt)
    moreover have "(unat p - 1) * unat k < 2 ^ 64"
      using unat_u32_less [of p] unat_u32_less [of k] by (intro prod_less_u64) auto
    ultimately show ?thesis using k by (simp add: unat_word_ariths)
  qed
  have w: "page_window page per_page =
      (if k = 0 \<or> k > MAX_PER_PAGE \<or> p = 0 then Inl PageRangeInvalid
       else Inr (k, (ucast p - 1) * ucast k))"
    unfolding page_window_def DEFAULT_PER_PAGE_def Let_def p_def k_def by (rule refl)
  have big: "k > MAX_PER_PAGE \<longleftrightarrow> unat k > 500" by (simp add: MAX_PER_PAGE_def word_less_nat_alt)
  have "page_window page per_page = Inr (n, offset) \<longleftrightarrow>
      unat k \<noteq> 0 \<and> unat k \<le> 500 \<and> unat p \<noteq> 0 \<and> unat n = unat k \<and> unat offset = (unat p - 1) * unat k"
  proof (cases "p = 0")
    case False
    have "offset = (ucast p - 1) * ucast k \<longleftrightarrow> unat offset = (unat p - 1) * unat k"
      unfolding exact [OF False, symmetric] by (rule word_unat_eq_iff)
    moreover have "n = k \<longleftrightarrow> unat n = unat k" by (rule word_unat_eq_iff)
    ultimately show ?thesis
      using False unfolding w big by (simp add: unat_eq_0 not_less) blast
  qed (simp add: w)
  then show ?thesis
    unfolding Let_def p_def [symmetric] k_def [symmetric] by (simp add: Suc_le_eq) blast
qed

section \<open>What a read admits\<close>

text \<open>The rows a caller may read, stated without any SQL.\<close>

definition owner_admits :: "auth_ctx \<Rightarrow> collection_schema \<Rightarrow> sql_row \<Rightarrow> bool" where
  "owner_admits ctx schema r =
     (case compute_owner_filter ctx schema of None \<Rightarrow> True | Some (f, uid) \<Rightarrow> r f = Text uid)"

definition select_admits :: "regex \<Rightarrow> auth_ctx \<Rightarrow> collection_schema \<Rightarrow> jmap \<Rightarrow> bool" where
  "select_admits rx ctx schema row =
     (is_service ctx \<or> (case cp_select (s_policies schema) of
        None \<Rightarrow> True
      | Some p \<Rightarrow> (case p_using p of None \<Rightarrow> False | Some ast \<Rightarrow> eval_policy rx ast row (from_auth ctx))))"

text \<open>What stored policies went through, and what a row of the table looks like to SQLite.\<close>

definition policies_valid :: "collection_schema \<Rightarrow> bool" where
  "policies_valid schema =
     list_all (\<lambda>op. case policies_get (s_policies schema) op of
         None \<Rightarrow> True
       | Some p \<Rightarrow> (case p_using p of None \<Rightarrow> True
           | Some ast \<Rightarrow> validate_policy schema op p = Inr () \<and> comparable ast))
       [Select, Insert, Update, Delete]"

definition stored_row :: "collection_schema \<Rightarrow> jmap \<Rightarrow> bool" where
  "stored_row schema row \<longleftrightarrow> row_typed schema row \<and>
     (\<forall>f. s_owner_field schema = Some f \<longrightarrow> row_value row f = Null \<or> (\<exists>s. row_value row f = Text s))"

lemma policies_valid_get:
  assumes "policies_valid schema" "policies_get (s_policies schema) op = Some p" "p_using p = Some ast"
  shows "validate_policy schema op p = Inr () \<and> comparable ast"
  using assms by (cases op) (auto simp: policies_valid_def)

lemma owner_pair_filter:
  "owner_pair cap ctx schema coll = Inr owner \<Longrightarrow> owner = compute_owner_filter ctx schema"
  by (auto simp: owner_pair_def split: auth_ctx.splits option.splits if_splits)

lemma compute_read_auth_parts:
  assumes "compute_read_auth_inner cap ctx schema coll = Inr (owner, pol)"
  shows "owner = compute_owner_filter ctx schema \<and> pol = map_option clause_of (using_expr ctx schema Select)"
  using assms owner_pair_filter [of cap ctx schema coll owner] policy_using_sql_expr [of ctx schema Select pol]
  by (cases "policy_using_sql ctx schema Select") (auto simp: compute_read_auth_inner_def)

context sqlite_engine
begin

lemma policy_expr_admits:
  assumes "policies_valid schema" "policies_get (s_policies schema) op = Some p" "p_using p = Some ast"
    and "row_typed schema row" "regex_like rx"
  shows "eval (fst (policy_expr (from_auth ctx) ast)) (snd (policy_expr (from_auth ctx) ast)) (row_value row) = TTrue
    \<longleftrightarrow> eval_policy rx ast row (from_auth ctx)"
proof -
  note v = policies_valid_get [OF assms(1-3)]
  have "eval (fst (policy_expr (from_auth ctx) ast)) (snd (policy_expr (from_auth ctx) ast)) (row_value row) =
      eval_node rx ast row (from_auth ctx) 0"
    using v validate_policy_using [of schema op p ast ctx] assms
    by (intro eval_node_agree) (auto simp: from_auth_def)
  then show ?thesis by (simp add: eval_policy_def)
qed

lemma using_expr_select:
  assumes "policies_valid schema" "row_typed schema row" "regex_like rx"
  shows "(\<forall>e b. using_expr ctx schema Select = Some (e, b) \<longrightarrow> eval e b (row_value row) = TTrue) \<longleftrightarrow>
    select_admits rx ctx schema row"
proof (cases "cp_select (s_policies schema)")
  case (Some p)
  then show ?thesis
    using assms policy_expr_admits [of schema Select p _ row rx ctx] eval_false(2)
    by (cases "p_using p") (auto simp: using_expr_def select_read_access_def select_admits_def)
qed (simp add: using_expr_def select_read_access_def select_admits_def)

end

text \<open>
  C2. The list statement admits exactly the rows the caller may read. The list and the count
  statement share one WHERE clause and its binds, and on a row of the table that clause is
  true if and only if the caller's own filter is, the row belongs to the caller where the
  collection is scoped to its owner, and the SELECT policy, as the in-memory evaluator reads
  it, admits the row (a policy without clause admits none). For a service caller only the
  filter counts. The stored policies are validated and comparable, the row holds values of its columns' classes, and the two engines,
  SQLite's and the one for regular expressions, behave as documented.
\<close>

theorem list_admits_exactly:
  assumes eng: "sqlite_engine eval" and rx: "regex_engine rx"
    and auth: "compute_read_auth_inner cap ctx schema coll = Inr (owner, pol)"
    and built: "build_structured_list_sql schema req owner pol = Inr (list_sql, count_sql, binds)"
    and valid: "policies_valid schema" and row: "stored_row schema row"
  shows "\<exists>ps before after. list_sql = before @ where_text ps @ after \<and>
    count_sql = ''SELECT COUNT(*) FROM '' @ q (s_name schema) @ where_text ps \<and>
    binds = concat (map snd ps) \<and>
    (where_holds eval ps (row_value row) \<longleftrightarrow>
      (\<forall>a. lr_filter req = Some a \<longrightarrow>
         eval (fst (filter_expr schema a)) (snd (filter_expr schema a)) (row_value row) = TTrue) \<and>
      owner_admits ctx schema (row_value row) \<and> select_admits rx ctx schema row)"
proof -
  let ?pol = "using_expr ctx schema Select"
  let ?ps = "where_parts schema (lr_filter req) owner ?pol"
  note oq = compute_read_auth_parts [OF auth]
  from built obtain cols w sf dk pp off where w: "build_where_clause schema (lr_filter req) owner pol = Inr (w, binds)"
    and "list_sql = ''SELECT '' @ cols @ '' FROM '' @ q (s_name schema) @ w @
      '' ORDER BY '' @ q sf @ '' '' @ dk @ limit_text pp off"
    and "count_sql = ''SELECT COUNT(*) FROM '' @ q (s_name schema) @ w"
    by (auto simp: build_structured_list_sql_def)
  then obtain proj tail where sql: "list_sql = proj @ w @ tail"
      "count_sql = ''SELECT COUNT(*) FROM '' @ q (s_name schema) @ w"
    using that [of "''SELECT '' @ cols @ '' FROM '' @ q (s_name schema)"] by simp
  from w oq have parts: "w = where_text ?ps" "binds = concat (map snd ?ps)"
    using build_where_clause_parts [of schema "lr_filter req" owner ?pol w binds] by auto
  have "where_holds eval ?ps (row_value row) \<longleftrightarrow>
      (\<forall>a. lr_filter req = Some a \<longrightarrow>
         eval (fst (filter_expr schema a)) (snd (filter_expr schema a)) (row_value row) = TTrue) \<and>
      (\<forall>f uid. owner = Some (f, uid) \<longrightarrow> row_value row f = Text uid) \<and>
      (\<forall>e b. ?pol = Some (e, b) \<longrightarrow> eval e b (row_value row) = TTrue)"
    using eng row oq by (intro sqlite_engine.where_holds_parts)
      (auto simp: using_expr_params stored_row_def split: auth_ctx.splits option.splits if_splits)
  also have "(\<forall>f uid. owner = Some (f, uid) \<longrightarrow> row_value row f = Text uid) \<longleftrightarrow>
      owner_admits ctx schema (row_value row)"
    using oq by (auto simp: owner_admits_def split: option.splits)
  also have "(\<forall>e b. ?pol = Some (e, b) \<longrightarrow> eval e b (row_value row) = TTrue) \<longleftrightarrow> select_admits rx ctx schema row"
    using eng valid row regex_engine_like [OF rx] by (intro sqlite_engine.using_expr_select) (auto simp: stored_row_def)
  finally show ?thesis
    using sql parts by (intro exI [of _ ?ps] exI [of _ proj] exI [of _ tail]) simp
qed

text \<open>A collection of notes owned by their authors, read through a policy.\<close>

definition owned_schema :: collection_schema where
  "owned_schema = example_schema\<lparr> s_owner_field := Some ''title'', s_read_scope := Some ''own'',
     s_policies := policies_default\<lparr> cp_select := Some example_policy, cp_update := Some example_policy \<rparr> \<rparr>"

definition example_list_request :: list_request where
  "example_list_request =
     \<lparr> lr_filter = Some (FLeaf [(''views'', JObject [(''gte'', JNumber (PosInt 0))])]),
       lr_sort = Some \<lparr> ss_field = ''views'', ss_dir = ''asc'' \<rparr>,
       lr_page = Some 3, lr_per_page = None, lr_select = Some [''title'', ''emb''] \<rparr>"

theorem list_admits_exactly_witness:
  "\<exists>owner pol list_sql count_sql binds ps before after.
     compute_read_auth_inner Collection (User ''u1'' ''h'') owned_schema ''notes'' = Inr (owner, pol) \<and>
     build_structured_list_sql owned_schema example_list_request owner pol = Inr (list_sql, count_sql, binds) \<and>
     list_sql = before @ where_text ps @ after \<and> length binds = 6 \<and>
     where_holds ref_eval ps (row_value example_row)"
proof -
  let ?ctx = "User ''u1'' ''h''"
  have c: "case compute_read_auth_inner Collection ?ctx owned_schema ''notes'' of
      Inl _ \<Rightarrow> False
    | Inr (owner, pol) \<Rightarrow> (case build_structured_list_sql owned_schema example_list_request owner pol of
          Inl _ \<Rightarrow> False | Inr (l, c, b) \<Rightarrow> length b = 6)"
    by code_simp
  then obtain owner pol where a: "compute_read_auth_inner Collection ?ctx owned_schema ''notes'' = Inr (owner, pol)"
    by (auto split: sum.splits)
  with c obtain l c b where b: "build_structured_list_sql owned_schema example_list_request owner pol = Inr (l, c, b)"
    and "length b = 6"
    by (cases "build_structured_list_sql owned_schema example_list_request owner pol") auto
  note a this
  moreover have "policies_valid owned_schema"
    and "owner_admits ?ctx owned_schema (row_value example_row)" "select_admits like_rx ?ctx owned_schema example_row"
    and "ref_eval (fst (filter_expr owned_schema (the (lr_filter example_list_request))))
      (snd (filter_expr owned_schema (the (lr_filter example_list_request)))) (row_value example_row) = TTrue"
    and "row_typed owned_schema example_row" "row_value example_row ''title'' = Text ''u1''"
    by code_simp+
  moreover from this have "stored_row owned_schema example_row"
    by (auto simp: stored_row_def owned_schema_def)
  ultimately show ?thesis
    using list_admits_exactly [OF ref.sqlite_engine_axioms like_rx_engine a b, of example_row]
    by (auto simp: example_list_request_def)
qed

lemma row_object_values:
  assumes "distinct names" "length row = length names"
  shows "map (map_of (row_object names row)) names = map (Some \<circ> value_ref_to_json) row"
  using assms map_of_row_object [OF assms(1), of row] by (intro nth_equalityI) auto

text \<open>
  C18. The read gate is in lockstep with \<open>has_dml_cap\<close>: in the collection's own regime a read
  is let through exactly when the role has the select capability and the caller is not an
  anonymous one on an owner-scoped collection; and the regime of stored queries differs only
  on collections without an owner, where it waives the capability. It never widens a read of
  an owner-scoped collection.
\<close>

theorem read_gate_lockstep:
  "(is_ok (owner_pair Collection ctx schema coll) \<longleftrightarrow>
      has_dml_cap (role_of ctx) Select schema \<and> \<not> (ctx = Anon \<and> s_owner_field schema \<noteq> None)) \<and>
   owner_pair RpcGrant ctx schema coll =
     (if s_owner_field schema = None then Inr None else owner_pair Collection ctx schema coll)"
  by (cases ctx; cases "s_owner_field schema"; cases "s_read_scope schema";
      auto simp: owner_pair_def has_dml_cap_def Let_def)

text \<open>
  An aggregate answer loses no column. When an aggregate request compiles, the output
  names (group columns, then metric aliases) are pairwise distinct, so in the JSON row built
  from any result row of that shape every column keeps its own value; and a sort is on one of
  those names.
\<close>

theorem aggregate_rows_lossless:
  assumes "build_aggregate_sql schema req owner pol = Inr (sql, binds)"
  shows "\<exists>cols metrics. group_columns schema (ar_group_by req) = Inr cols \<and>
    metric_exprs schema (ar_metrics req) = Inr metrics \<and> length metrics = length (ar_metrics req) \<and>
    (let names = cols @ map snd metrics in
      distinct names \<and> names \<noteq> [] \<and>
      (\<forall>s. ar_sort req = Some s \<longrightarrow> ss_field s \<in> set names) \<and>
      (\<forall>row. length row = length names \<longrightarrow>
        map (map_of (row_object names row)) names = map (Some \<circ> value_ref_to_json) row))"
proof -
  have len: "metric_exprs schema ms = Inr es \<Longrightarrow> length es = length ms" for ms es
    by (induction ms arbitrary: es) auto
  from assms obtain cols metrics order where
    c: "group_columns schema (ar_group_by req) = Inr cols" and m: "metric_exprs schema (ar_metrics req) = Inr metrics"
    and d: "check_distinct [] (cols @ map snd metrics) = Inr ()" and ne: "ar_metrics req \<noteq> []"
    and o: "order_clause cols (map snd metrics) (ar_sort req) = Inr order"
    by (auto simp: build_aggregate_sql_def Let_def split: if_splits)
  let ?names = "cols @ map snd metrics"
  from d have dist: "distinct ?names" unfolding check_distinct_ok by simp
  have "map (map_of (row_object ?names row)) ?names = map (Some \<circ> value_ref_to_json) row"
    if "length row = length ?names" for row
    using row_object_values [OF dist, of row] that by simp
  moreover have "ss_field s \<in> set ?names" if "ar_sort req = Some s" for s
    using o that by (auto simp: order_clause_def split: if_splits)
  moreover have "?names \<noteq> []" using ne len [OF m] by auto
  ultimately show ?thesis
    using c m len [OF m] dist unfolding Let_def by blast
qed

definition example_aggregate :: aggregate_request where
  "example_aggregate =
     \<lparr> ar_filter = None, ar_group_by = Some [''title''],
       ar_metrics = [\<lparr> am_op = ''COUNT'', am_field = None, am_alias = None \<rparr>,
                     \<lparr> am_op = ''sum'', am_field = Some ''views'', am_alias = Some ''total'' \<rparr>],
       ar_sort = Some \<lparr> ss_field = ''total'', ss_dir = ''desc'' \<rparr>, ar_page = None, ar_per_page = Some 50 \<rparr>"

theorem aggregate_rows_lossless_witness:
  "map (map_of (row_object [''title'', ''count'', ''total''] [Text ''a'', Integer 2, Integer 9]))
     [''title'', ''count'', ''total''] = [Some (JString ''a''), Some (JNumber (PosInt 2)), Some (JNumber (PosInt 9))]"
proof -
  have "is_ok (build_aggregate_sql example_schema example_aggregate None None)"
    and e: "group_columns example_schema (ar_group_by example_aggregate) = Inr [''title'']"
      "metric_exprs example_schema (ar_metrics example_aggregate) =
         Inr [(''COUNT(*)'', ''count''), (''SUM('' @ q ''views'' @ '')'', ''total'')]"
    by code_simp+
  then obtain sql binds where "build_aggregate_sql example_schema example_aggregate None None = Inr (sql, binds)"
    by (auto simp: is_ok_iff)
  from aggregate_rows_lossless [OF this] e
  have "map (map_of (row_object [''title'', ''count'', ''total''] [Text ''a'', Integer 2, Integer 9]))
     [''title'', ''count'', ''total''] = map (Some \<circ> value_ref_to_json) [Text ''a'', Integer 2, Integer 9]"
    by (auto simp: Let_def dest!: spec [of _ "[Text ''a'', Integer 2, Integer 9]"])
  then show ?thesis by (simp add: jnum_of_int_def)
qed

section \<open>Error responses and the generated statement\<close>

fun strip_sql :: "db_error \<Rightarrow> db_error" where
  "strip_sql (SqlInputError msg sql offset) = SqlInputError msg [] offset"
| "strip_sql e = e"

text \<open>The reader whose errors carry no statement.\<close>

definition strip_reader :: "reader \<Rightarrow> reader" where
  "strip_reader c =
     \<lparr> rd_schema = (\<lambda>n. map_err strip_sql (rd_schema c n)),
       rd_query = (\<lambda>s b. map_err strip_sql (rd_query c s b)),
       rd_count = (\<lambda>s b. map_err strip_sql (rd_count c s b)),
       rd_display = rd_display c \<rparr>"

lemma sqlite_error_without_sql_strip [simp]:
  "sqlite_error_without_sql d (strip_sql e) = sqlite_error_without_sql d e"
  by (cases e) (auto simp: sqlite_error_without_sql_def)

lemma strip_db_error_response [simp]: "db_error_response d (strip_sql e) = db_error_response d e"
  by (simp add: db_error_response_def)

lemma probe_step_strip [simp]: "probe_step (strip_reader c) = probe_step c"
proof (intro ext)
  fix s b
  show "probe_step (strip_reader c) s b = probe_step c s b"
    by (cases "rd_query c s b") (simp_all add: probe_step_def strip_reader_def)
qed

lemma run_bound_select_strip:
  "run_bound_select (strip_reader c) s b = map_err strip_sql (run_bound_select c s b)"
  by (cases "rd_query c s b") (auto simp: run_bound_select_def strip_reader_def)

lemma bind_map_err: "bind_r (map_err f r) g = (case r of Inl e \<Rightarrow> Inl (f e) | Inr a \<Rightarrow> g a)"
  by (cases r) auto

text \<open>
  C19. A failing list request does not reveal the statement the server generated. Whatever the
  reader's errors carry as the text of the failing statement, which holds the owner clause and
  the policy that hide rows from the caller, the response of \<open>/list\<close> is the same as with that
  text removed.
\<close>

theorem list_errors_hide_sql:
  "post_list (strip_reader c) ctx coll req = post_list c ctx coll req"
proof -
  have schema: "load_schema (strip_reader c) coll =
      (case load_schema c coll of Inl (Db e) \<Rightarrow> Inl (Db (strip_sql e)) | r \<Rightarrow> r)"
    by (cases "rd_schema c coll") (auto simp: load_schema_def strip_reader_def split: option.splits)
  have probe: "fts_probe_guard (strip_reader c) s f = fts_probe_guard c s f" for s f
    by (simp add: fts_probe_guard_def)
  have count: "rd_count (strip_reader c) s b = map_err strip_sql (rd_count c s b)" for s b
    by (simp add: strip_reader_def)
  have "run_structured_list (strip_reader c) ctx coll req =
      (case run_structured_list c ctx coll req of Inl (Db e) \<Rightarrow> Inl (Db (strip_sql e)) | r \<Rightarrow> r)"
    unfolding run_structured_list_def run_structured_list_inner_def schema probe count
    by (auto simp: bind_map_err run_bound_select_strip split: sum.splits list_core_error.splits prod.splits)
  then show ?thesis
    by (auto simp: post_list_def strip_reader_def split: sum.splits list_core_error.splits)
qed

text \<open>
  \<open>/aggregate\<close> does not share that protection: it renders the reader's error with
  \<open>rusqlite\<close>'s own display, which quotes the failing statement, so when the generated
  statement fails to prepare the response holds the whole statement, owner clause and policy
  included.
\<close>

theorem aggregate_error_shows_sql:
  assumes "\<And>m s off. rd_display c (SqlInputError m s off) = m @ '' in '' @ s @ '' at offset '' @ int_to_string off"
    and "\<not> is_protected_collection coll" "rd_schema c coll = Inr (Some schema)"
    and "compute_read_auth ctx schema coll = Inr (owner, pol)"
    and "build_aggregate_sql schema req owner pol = Inr (sql, binds)" "ar_filter req = None"
    and "rd_query c sql binds = Inl (SqlInputError m sql off)"
  shows "\<exists>before after. post_aggregate c ctx coll req =
    JsonError 500 ''DB_ERROR'' (MsgText (before @ sql @ after))"
proof -
  have "run_bound_select c sql binds = Inl (SqlInputError m sql off)"
    using assms by (simp add: run_bound_select_def)
  with assms have "post_aggregate c ctx coll req = JsonError 500 ''DB_ERROR''
      (MsgText ((m @ '' in '') @ sql @ '' at offset '' @ int_to_string off))"
    by (simp add: post_aggregate_def fts_probe_guard_def probe_fts_queries_def)
  then show ?thesis by blast
qed

definition drifted_reader :: reader where
  "drifted_reader =
     \<lparr> rd_schema = (\<lambda>_. Inr (Some owned_schema)),
       rd_query = (\<lambda>s b. Inl (SqlInputError ''no such column: views'' s 7)),
       rd_count = (\<lambda>s b. Inl QueryReturnedNoRows),
       rd_display = (\<lambda>e. case e of
           SqlInputError m s off \<Rightarrow> m @ '' in '' @ s @ '' at offset '' @ int_to_string off
         | _ \<Rightarrow> ''error'') \<rparr>"

theorem aggregate_error_shows_sql_witness:
  "\<exists>sql before after. post_aggregate drifted_reader (User ''u1'' ''h'') ''notes'' example_aggregate =
     JsonError 500 ''DB_ERROR'' (MsgText (before @ sql @ after)) \<and>
     str_contains sql (q ''title'' @ '' = ? AND ('')"
proof -
  let ?ctx = "User ''u1'' ''h''"
  have c: "case compute_read_auth ?ctx owned_schema ''notes'' of
      Inl _ \<Rightarrow> False
    | Inr (owner, pol) \<Rightarrow> (case build_aggregate_sql owned_schema example_aggregate owner pol of
          Inl _ \<Rightarrow> False | Inr (sql, b) \<Rightarrow> str_contains sql (q ''title'' @ '' = ? AND (''))"
    and p: "\<not> is_protected_collection ''notes''"
    by code_simp+
  then obtain owner pol where a: "compute_read_auth ?ctx owned_schema ''notes'' = Inr (owner, pol)"
    by (auto split: sum.splits)
  with c obtain sql b where b: "build_aggregate_sql owned_schema example_aggregate owner pol = Inr (sql, b)"
    and s: "str_contains sql (q ''title'' @ '' = ? AND ('')"
    by (cases "build_aggregate_sql owned_schema example_aggregate owner pol") auto
  have "\<exists>before after. post_aggregate drifted_reader ?ctx ''notes'' example_aggregate =
      JsonError 500 ''DB_ERROR'' (MsgText (before @ sql @ after))"
    by (rule aggregate_error_shows_sql [OF _ p _ a b, of _ "''no such column: views''" 7])
       (simp_all add: drifted_reader_def example_aggregate_def)
  with s show ?thesis by blast
qed

end
