(* ===== verification/Quota.thy ===== *)
theory Quota
  imports Read_Path
begin

text \<open>
  The per-tenant storage quota of \<open>storage/quota.rs\<close>, with its 64-bit saturating
  arithmetic, and the error sentinel of \<open>error.rs\<close> it is reported through. An \<open>i64\<close> read from
  SQLite is an \<open>int\<close>.
\<close>

definition QUOTA_TIER_BYTES :: u64 where
  "QUOTA_TIER_BYTES = 10 * 1024 * 1024 * 1024"

datatype quota_error = TenantQuotaExceeded (qe_usage: u64) (qe_incoming: u64) (qe_limit: u64)

text \<open>\<open>u64::saturating_add\<close>, \<open>u64::saturating_mul\<close> and \<open>i as u64\<close> for \<open>i \<ge> 0\<close>.\<close>

definition u64_max :: nat where "u64_max = 2 ^ 64 - 1"

definition saturating_add :: "u64 \<Rightarrow> u64 \<Rightarrow> u64" where
  "saturating_add a b = (if a + b < a then - 1 else a + b)"

definition saturating_mul :: "u64 \<Rightarrow> u64 \<Rightarrow> u64" where
  "saturating_mul a b = (if uint a * uint b < 2 ^ 64 then a * b else - 1)"

definition u64_of_i64 :: "int \<Rightarrow> u64" where
  "u64_of_i64 i = word_of_int i"

text \<open>The two measurements of a connection: the page bytes and the sum over the files table.\<close>

definition usage_on_conn :: "(int, db_error) result \<Rightarrow> (int, db_error) result \<Rightarrow> (u64, db_error) result" where
  "usage_on_conn page_bytes files_sum =
     bind_r page_bytes (\<lambda>db_i.
       let db = u64_of_i64 (max db_i 0) in
       bind_r (case files_sum of
           Inr v \<Rightarrow> Inr (u64_of_i64 (max v 0))
         | Inl (SqliteFailure code (Some m)) \<Rightarrow>
             if str_contains m ''no such table'' then Inr 0 else Inl (SqliteFailure code (Some m))
         | Inl e \<Rightarrow> Inl e)
         (\<lambda>files. Inr (db + files)))"

definition check_tenant_quota :: "u64 \<Rightarrow> u64 \<Rightarrow> int \<Rightarrow> (unit, quota_error) result" where
  "check_tenant_quota usage incoming tier =
     (let tier' = u64_of_i64 (max tier 1);
          limit = saturating_mul tier' QUOTA_TIER_BYTES
      in if saturating_add usage incoming > limit
         then Inl (TenantQuotaExceeded usage incoming limit) else Inr ())"

definition decide_update_growth :: "u64 \<Rightarrow> u64 \<Rightarrow> int \<Rightarrow> (unit, quota_error) result" where
  "decide_update_growth before after tier =
     (if after \<le> before then Inr () else check_tenant_quota after 0 tier)"

definition quota_exceeded_error :: "quota_error \<Rightarrow> db_error" where
  "quota_exceeded_error e =
     (case e of TenantQuotaExceeded usage _ limit \<Rightarrow>
        SqliteFailure 1 (Some (''TENANT_QUOTA_EXCEEDED: tenant storage usage '' @ nat_to_string (unat usage) @
          ''B would exceed the '' @ nat_to_string (unat limit) @ ''B limit'')))"

definition check_update_growth ::
  "(u64, db_error) result \<Rightarrow> u64 \<Rightarrow> int \<Rightarrow> (unit, db_error) result" where
  "check_update_growth usage_now before tier =
     bind_r usage_now (\<lambda>after. map_err quota_exceeded_error (decide_update_growth before after tier))"

text \<open>The tier column of the tenant's live row; anything else is tier 1.\<close>

definition read_tier :: "(int, db_error) result \<Rightarrow> int" where
  "read_tier row = (case row of Inr t \<Rightarrow> t | Inl _ \<Rightarrow> 1)"

section \<open>Lemmas\<close>

lemma unat_u64_less: "unat (w :: u64) < 2 ^ 64"
proof -
  have "unat w < 2 ^ LENGTH(64)" by (rule unsigned_less)
  then show ?thesis by simp
qed

lemma unat_saturating_add: "unat (saturating_add a b) = min (unat a + unat b) u64_max"
proof -
  have "a + b < a \<longleftrightarrow> 2 ^ 64 \<le> unat a + unat b"
    using unat_u64_less [of a] unat_u64_less [of b] by (auto simp: word_less_nat_alt unat_word_ariths mod_if)
  then show ?thesis
    by (auto simp: saturating_add_def u64_max_def unat_word_ariths unsigned_minus_1_eq_mask mask_eq_exp_minus_1)
qed

lemma unat_saturating_mul: "unat (saturating_mul a b) = min (unat a * unat b) u64_max"
proof -
  have "uint a * uint b < 2 ^ 64 \<longleftrightarrow> unat a * unat b < 2 ^ 64"
  proof -
    have "int (unat a * unat b) = uint a * uint b" by simp
    moreover have "int (unat a * unat b) < int (2 ^ 64) \<longleftrightarrow> unat a * unat b < 2 ^ 64"
      by (rule of_nat_less_iff)
    ultimately show ?thesis by simp
  qed
  then show ?thesis
    by (auto simp: saturating_mul_def u64_max_def unat_word_ariths unsigned_minus_1_eq_mask mask_eq_exp_minus_1)
qed

lemma unat_u64_of_i64: "0 \<le> i \<Longrightarrow> i < 2 ^ 63 \<Longrightarrow> unat (u64_of_i64 i) = nat i"
  by (simp add: u64_of_i64_def unsigned_of_int take_bit_int_eq_self nat_less_iff)

definition quota_limit :: "int \<Rightarrow> nat" where
  "quota_limit tier = nat (max tier 1) * 10737418240"

lemma check_tenant_quota_ok:
  assumes "tier < 2 ^ 63"
  shows "check_tenant_quota usage incoming tier = Inr () \<longleftrightarrow>
    min (unat usage + unat incoming) u64_max \<le> min (quota_limit tier) u64_max"
  using assms unat_u64_of_i64 [of "max tier 1"]
  by (auto simp: check_tenant_quota_def Let_def word_less_nat_alt not_less unat_saturating_add
      unat_saturating_mul QUOTA_TIER_BYTES_def quota_limit_def)

section \<open>Properties\<close>

text \<open>
  The quota check is exact: for every usage, incoming size and tier of which the limit is
  representable, a write is let through if and only if usage plus incoming bytes, added
  without wrap-around, stay within the limit; a tier of zero or less counts as one.
\<close>

theorem quota_check_exact:
  assumes "tier < 2 ^ 63" "quota_limit tier < 2 ^ 64 - 1"
  shows "check_tenant_quota usage incoming tier = Inr () \<longleftrightarrow> unat usage + unat incoming \<le> quota_limit tier"
  unfolding check_tenant_quota_ok [OF assms(1)] using assms(2) by (auto simp: u64_max_def)

theorem quota_check_exact_witness:
  "check_tenant_quota (- 1) (- 1) 0 \<noteq> Inr () \<and> check_tenant_quota 10737418240 0 0 = Inr ()"
  using quota_check_exact [of 0 "- 1" "- 1"] quota_check_exact [of 0 10737418240 0]
  by (simp add: quota_limit_def unsigned_minus_1_eq_mask mask_eq_exp_minus_1)

text \<open>
  C20. An update is refused exactly when it both grew the tenant and left it over its limit: a
  shrink or an update of the same size always passes, even far over the limit, and growth
  passes only within it. The measured usage is the exact sum of the two \<open>i64\<close>
  readings, so it cannot wrap to a small number.
\<close>

theorem update_growth_gate:
  assumes "tier < 2 ^ 63" "quota_limit tier < 2 ^ 64 - 1" "pages < 2 ^ 63" "files < 2 ^ 63"
  shows "check_update_growth (usage_on_conn (Inr pages) (Inr files)) before tier = Inr () \<longleftrightarrow>
    nat pages + nat files \<le> unat before \<or> nat pages + nat files \<le> quota_limit tier"
proof -
  have u: "unat (u64_of_i64 (max i 0)) = nat i" if "i < 2 ^ 63" for i
    using unat_u64_of_i64 [of "max i 0"] that by (simp add: max_def)
  let ?after = "u64_of_i64 (max pages 0) + u64_of_i64 (max files 0)"
  have "nat pages < 2 ^ 63" "nat files < 2 ^ 63" using assms(3,4) by (simp_all add: nat_less_iff)
  then have after: "unat ?after = nat pages + nat files"
    using assms(3,4) by (simp add: unat_word_ariths u)
  have "check_tenant_quota ?after 0 tier = Inr () \<longleftrightarrow> unat ?after + unat (0 :: u64) \<le> quota_limit tier"
    unfolding check_tenant_quota_ok [OF assms(1)] using assms(2) by (auto simp: u64_max_def)
  then show ?thesis
    using after by (auto simp: check_update_growth_def usage_on_conn_def Let_def decide_update_growth_def
        word_le_nat_alt)
qed

theorem update_growth_gate_witness:
  "check_update_growth (usage_on_conn (Inr 30000000000) (Inr 5)) 30000000005 1 = Inr () \<and>
   check_update_growth (usage_on_conn (Inr 30000000000) (Inr 6)) 30000000005 1 \<noteq> Inr ()"
  using update_growth_gate [of 1 30000000000 5 30000000005] update_growth_gate [of 1 30000000000 6 30000000005]
  by (simp add: quota_limit_def)

end
