(* ===== verification/Vector_Codec.thy ===== *)
theory Vector_Codec
  imports Schema
begin

text \<open>
  The packed-\<open>f32\<close> codec of \<open>query/vector_codec.rs\<close>. The cast \<open>f as f32\<close> is the IEEE-754
  conversion to single precision (round to nearest, ties to even, overflow to infinity), on the
  bit patterns of the format. An \<open>f64\<close> is its rational value, so a negative zero is the
  positive one.
\<close>

section \<open>Single precision\<close>

text \<open>\<open>floor (log\<^sub>2 m)\<close> of a positive rational.\<close>

function int_bits :: "int \<Rightarrow> int" where
  "int_bits n = (if n \<le> 0 then 0 else 1 + int_bits (n div 2))"
  by pat_completeness auto
termination
  by (relation "measure nat") auto

declare int_bits.simps [simp del]

definition rat_log2 :: "rat \<Rightarrow> int" where
  "rat_log2 m =
     (let (a, b) = quotient_of m;
          k = int_bits a - int_bits b
      in if (if 0 \<le> k then 2 ^ nat k * b \<le> a else b \<le> a * 2 ^ nat (- k)) then k else k - 1)"

definition pow2 :: "int \<Rightarrow> rat" where
  "pow2 e = (if 0 \<le> e then 2 ^ nat e else 1 / 2 ^ nat (- e))"

definition round_half_even :: "rat \<Rightarrow> int" where
  "round_half_even x =
     (let n = \<lfloor>x\<rfloor>; r = x - of_int n
      in if r > 1 / 2 \<or> (r = 1 / 2 \<and> odd n) then n + 1 else n)"

definition f32_infinity :: int where "f32_infinity = 0x7F800000"

text \<open>
  The 31 low bits of the nearest single: exponent and significand share one count of units,
  so rounding up to the next power of two carries into the exponent.
\<close>

definition f32_magnitude :: "rat \<Rightarrow> int" where
  "f32_magnitude m =
     (if m = 0 then 0
      else let e = max (rat_log2 m) (- 126);
               n = round_half_even (m / pow2 (e - 23))
           in min f32_infinity ((e + 126) * 2 ^ 23 + n))"

definition f32_of_f64 :: "f64 \<Rightarrow> int" where
  "f32_of_f64 f = (if f < 0 then 2 ^ 31 else 0) + f32_magnitude \<bar>f\<bar>"

text \<open>The value of a bit pattern; \<open>None\<close> for the infinities and the NaNs.\<close>

definition f32_value :: "int \<Rightarrow> f64 option" where
  "f32_value bits =
     (let m = bits mod 2 ^ 31; ex = m div 2 ^ 23; fr = m mod 2 ^ 23;
          s = (if bits div 2 ^ 31 mod 2 = 1 then - 1 else 1)
      in if f32_infinity \<le> m then None
         else if ex = 0 then Some (s * of_int fr * pow2 (- 149))
         else Some (s * of_int (2 ^ 23 + fr) * pow2 (ex - 150)))"

definition to_le_bytes :: "int \<Rightarrow> string" where
  "to_le_bytes n = map (\<lambda>i. char_of (n div 256 ^ i mod 256)) [0, 1, 2, 3]"

fun from_le_bytes :: "string \<Rightarrow> int" where
  "from_le_bytes [] = 0"
| "from_le_bytes (c # cs) = of_char c + 256 * from_le_bytes cs"

section \<open>The codec\<close>

datatype vector_codec_error =
    DimMismatch (ve_field: string) (ve_expected: nat) (ve_got: nat)
  | NonFinite (ve_field: string) (ve_index: nat)
  | NotNumeric (ve_field: string) (ve_index: nat)
  | NotArray (ve_field: string)
  | BadBlobLen (ve_field: string) (ve_got: nat)

fun json_as_f64 :: "json \<Rightarrow> f64 option" where
  "json_as_f64 (JNumber n) = as_f64 n"
| "json_as_f64 _ = None"

text \<open>A parsed JSON number is always finite, so the \<open>NonFinite\<close> return is never taken.\<close>

fun pack_elems :: "string \<Rightarrow> nat \<Rightarrow> json list \<Rightarrow> (string, vector_codec_error) result" where
  "pack_elems fld i [] = Inr []"
| "pack_elems fld i (n # ns) =
     (case json_as_f64 n of
        None \<Rightarrow> Inl (NotNumeric fld i)
      | Some f \<Rightarrow> bind_r (pack_elems fld (i + 1) ns) (\<lambda>bytes. Inr (to_le_bytes (f32_of_f64 f) @ bytes)))"

definition pack :: "string \<Rightarrow> nat \<Rightarrow> json \<Rightarrow> (string, vector_codec_error) result" where
  "pack fld dims v =
     (case as_array v of
        None \<Rightarrow> Inl (NotArray fld)
      | Some arr \<Rightarrow>
          if length arr \<noteq> dims then Inl (DimMismatch fld dims (length arr))
          else pack_elems fld 0 arr)"

fun chunks4 :: "string \<Rightarrow> string list" where
  "chunks4 (a # b # c # d # rest) = [a, b, c, d] # chunks4 rest"
| "chunks4 _ = []"

definition f32_to_json :: "int \<Rightarrow> json" where
  "f32_to_json bits = (case f32_value bits of Some f \<Rightarrow> JNumber (Float f) | None \<Rightarrow> JNull)"

definition unpack :: "string \<Rightarrow> string \<Rightarrow> (json, vector_codec_error) result" where
  "unpack fld blob =
     (if \<not> 4 dvd length blob then Inl (BadBlobLen fld (length blob))
      else Inr (JArray (map (f32_to_json \<circ> from_le_bytes) (chunks4 blob))))"

section \<open>Lemmas\<close>

lemma length_to_le_bytes [simp]: "length (to_le_bytes n) = 4"
  by (simp add: to_le_bytes_def)

lemma from_to_le_bytes:
  assumes "0 \<le> n" "n < 2 ^ 32"
  shows "from_le_bytes (to_le_bytes n) = n"
proof -
  have step: "x mod 256 + 256 * (x div 256) = x" for x :: int by simp
  have d: "n div 65536 = n div 256 div 256" "n div 16777216 = n div 256 div 256 div 256"
    using zdiv_zmult2_eq [of 256 n 256] zdiv_zmult2_eq [of 256 n "65536"] zdiv_zmult2_eq [of 256 "n div 256" 256] by simp_all
  have "n div 256 div 256 div 256 mod 256 = n div 256 div 256 div 256"
    using assms by (intro mod_pos_pos_trivial) (simp_all flip: d)
  then show ?thesis
    by (simp add: to_le_bytes_def d step)
qed

lemma rat_log2_le: "0 < m \<Longrightarrow> 0 \<le> round_half_even (m / pow2 e)"
  by (simp add: round_half_even_def Let_def pow2_def)

lemma f32_magnitude_bounds: "0 \<le> m \<Longrightarrow> 0 \<le> f32_magnitude m \<and> f32_magnitude m \<le> f32_infinity"
  using rat_log2_le [of m] by (auto simp: f32_magnitude_def f32_infinity_def Let_def)

lemma f32_of_f64_bounds: "0 \<le> f32_of_f64 f \<and> f32_of_f64 f < 2 ^ 32"
  using f32_magnitude_bounds [of "\<bar>f\<bar>"] by (auto simp: f32_of_f64_def f32_infinity_def)

lemma from_to_f32 [simp]: "from_le_bytes (to_le_bytes (f32_of_f64 f)) = f32_of_f64 f"
  using f32_of_f64_bounds by (intro from_to_le_bytes) auto

lemma chunks4_bytes: "chunks4 (to_le_bytes n @ bs) = to_le_bytes n # chunks4 bs"
  by (simp add: to_le_bytes_def)

lemma pack_elems_length: "pack_elems fld i ns = Inr bytes \<Longrightarrow> length bytes = 4 * length ns"
  by (induction fld i ns arbitrary: bytes rule: pack_elems.induct) (auto split: option.splits)

lemma pack_elems_chunks:
  assumes "pack_elems fld i ns = Inr bytes"
  shows "map from_le_bytes (chunks4 bytes) = map (f32_of_f64 \<circ> the \<circ> json_as_f64) ns \<and>
    (\<forall>n \<in> set ns. json_as_f64 n \<noteq> None)"
  using assms
proof (induction fld i ns arbitrary: bytes rule: pack_elems.induct)
  case (2 fld i n ns)
  then show ?case
    by (auto split: option.splits simp: chunks4_bytes)
qed simp

section \<open>Properties\<close>

text \<open>
  Packing is the inverse of unpacking up to the rounding to single precision: a packed
  vector has exactly four bytes for each of its dimensions, and unpacking it gives, element by
  element, the single nearest to the number that was packed.
\<close>

theorem vector_pack_roundtrip:
  assumes "pack fld dims v = Inr bytes"
  shows "length bytes = 4 * dims \<and>
    (\<exists>arr. v = JArray arr \<and> length arr = dims \<and>
      unpack fld bytes = Inr (JArray (map (f32_to_json \<circ> f32_of_f64 \<circ> the \<circ> json_as_f64) arr)))"
proof -
  from assms obtain arr where v: "v = JArray arr" "length arr = dims" and p: "pack_elems fld 0 arr = Inr bytes"
    by (cases v) (auto simp: pack_def split: if_splits)
  have "map (f32_to_json \<circ> from_le_bytes) (chunks4 bytes) = map f32_to_json (map from_le_bytes (chunks4 bytes))"
    by simp
  with v pack_elems_length [OF p] pack_elems_chunks [OF p] show ?thesis
    by (auto simp: unpack_def comp_assoc)
qed

theorem vector_pack_roundtrip_witness:
  "\<exists>bytes. pack ''emb'' 2 (JArray [JNumber (Float (3 / 2)), JNumber (Float (- 5 / 2))]) = Inr bytes \<and>
     unpack ''emb'' bytes = Inr (JArray [JNumber (Float (3 / 2)), JNumber (Float (- 5 / 2))])"
proof -
  let ?v = "JArray [JNumber (Float (3 / 2)), JNumber (Float (- 5 / 2))]"
  have "is_ok (pack ''emb'' 2 ?v)"
    and e: "map (f32_to_json \<circ> f32_of_f64 \<circ> the \<circ> json_as_f64) [JNumber (Float (3 / 2)), JNumber (Float (- 5 / 2))] =
      [JNumber (Float (3 / 2)), JNumber (Float (- 5 / 2))]"
    by code_simp+
  then obtain bytes where "pack ''emb'' 2 ?v = Inr bytes" by (auto simp: is_ok_iff)
  with vector_pack_roundtrip [OF this] e show ?thesis by auto
qed

text \<open>
  Packing does not keep infinities out of the database. The finiteness check looks at
  the 64-bit number, the stored one has 32 bits: from $2^{128}$ on, a finite number is packed
  as the bit pattern of infinity, and reading it back yields null.
\<close>

theorem vector_pack_overflows:
  "pack fld 1 (JArray [JNumber (Float (2 ^ 128))]) = Inr (to_le_bytes f32_infinity) \<and>
   unpack fld (to_le_bytes f32_infinity) = Inr (JArray [JNull])"
proof -
  have "f32_of_f64 (2 ^ 128) = f32_infinity" "map (f32_to_json \<circ> from_le_bytes) (chunks4 (to_le_bytes f32_infinity)) = [JNull]"
    by code_simp+
  then show ?thesis by (simp add: pack_def unpack_def)
qed

end
