(* ===== verification/Record_Write.thy ===== *)
theory Record_Write
  imports Quota Vector_Codec
begin

text \<open>
  The write side: the transactional insert, update and delete of \<open>mcp/tools/write.rs\<close>, the
  record history of \<open>storage/record_history.rs\<close>, and the enforcement core of
  \<open>functions/enforce.rs\<close> that runs them under a caller's identity.

  A tenant's database is its tables and its history. SQLite is the record \<open>sqlite\<close> of the calls
  the code makes: evaluating the text of a condition on a row, completing and checking a row on
  INSERT and UPDATE, checking the references to a row on DELETE, measuring the file. Rows are addressed by their rowid, which is the
  column \<open>id\<close>.
\<close>

section \<open>State\<close>

type_synonym db_row = "(string \<times> sqlval) list"

record coll_table =
  ct_schema :: collection_schema
  ct_rows :: "(int \<times> db_row) list"

record audit_actor =
  aa_kind :: string
  aa_id :: "string option"
  aa_hint :: "string option"

datatype history_op = HInsert | HUpdate | HDelete

fun history_as_str :: "history_op \<Rightarrow> string" where
  "history_as_str HInsert = ''insert''"
| "history_as_str HUpdate = ''update''"
| "history_as_str HDelete = ''delete''"

record history_row =
  h_collection :: string
  h_record_id :: int
  h_op :: string
  h_old :: "jmap option"
  h_new :: "jmap option"
  h_actor :: audit_actor

record tenant_db =
  db_tables :: "(string \<times> coll_table) list"
  db_history :: "history_row list"

record sqlite =
  sq_where :: "string \<Rightarrow> sqlval list \<Rightarrow> db_row \<Rightarrow> (bool, db_error) result"
  sq_insert :: "coll_table \<Rightarrow> (string \<times> sqlval) list \<Rightarrow> (int \<times> db_row, db_error) result"
  sq_update :: "coll_table \<Rightarrow> db_row \<Rightarrow> (string \<times> sqlval) list \<Rightarrow> (db_row, db_error) result"
  sq_delete :: "coll_table \<Rightarrow> db_row \<Rightarrow> (unit, db_error) result"
  sq_history :: "history_row \<Rightarrow> (unit, db_error) result"
  sq_pages :: "tenant_db \<Rightarrow> (int, db_error) result"
  sq_files :: "tenant_db \<Rightarrow> (int, db_error) result"

datatype tx_error =
    TxDb db_error
  | TxNoRows
  | TxQuota quota_error
  | TxOwnerRequired string string
  | TxUnknownCollection string
  | TxUnknownField string string "string list"
  | TxMin string f64
  | TxMax string f64
  | TxEnum string
  | TxMaxLength string nat
  | TxCheckViolation db_error
  | TxPolicyCheck

text \<open>The events handed to the bus, the functions host and the webhooks after a commit.\<close>

datatype event = Created jmap | Updated jmap | Deleted int

section \<open>History\<close>

definition actor_service :: audit_actor where
  "actor_service = \<lparr> aa_kind = ''service'', aa_id = None, aa_hint = None \<rparr>"

text \<open>\<open>token_hash.get(..12).unwrap_or(token_hash)\<close>: the cut must fall on a character boundary.\<close>

definition hash_hint :: "string \<Rightarrow> string" where
  "hash_hint h =
     (if length h < 12 then h
      else if 12 < length h \<and> 128 \<le> byte (h ! 12) \<and> byte (h ! 12) < 192 then h
      else take 12 h)"

fun actor_from_auth_ctx :: "auth_ctx \<Rightarrow> audit_actor" where
  "actor_from_auth_ctx Anon = \<lparr> aa_kind = ''anon'', aa_id = None, aa_hint = None \<rparr>"
| "actor_from_auth_ctx (Service admin) =
     \<lparr> aa_kind = ''service'', aa_id = map_option int_to_string admin, aa_hint = None \<rparr>"
| "actor_from_auth_ctx (User uid hash) =
     \<lparr> aa_kind = ''user'', aa_id = Some uid, aa_hint = (if hash = [] then None else Some (hash_hint hash)) \<rparr>"

definition capture ::
  "sqlite \<Rightarrow> tenant_db \<Rightarrow> string \<Rightarrow> history_op \<Rightarrow> int \<Rightarrow> jmap option \<Rightarrow> jmap option \<Rightarrow> audit_actor \<Rightarrow> bool
     \<Rightarrow> (tenant_db, tx_error) result" where
  "capture sq tx coll op record_id old new actor audit_enabled =
     (if \<not> audit_enabled then Inr tx
      else let h = \<lparr> h_collection = coll, h_record_id = record_id, h_op = history_as_str op,
                     h_old = old, h_new = new, h_actor = actor \<rparr>
           in bind_r (map_err TxDb (sq_history sq h)) (\<lambda>_. Inr (tx\<lparr> db_history := db_history tx @ [h] \<rparr>)))"

section \<open>Rows\<close>

definition materialize_row :: "string list \<Rightarrow> db_row \<Rightarrow> jmap" where
  "materialize_row vector_names row =
     foldl (\<lambda>obj (n, v). if n \<in> set vector_names then obj else jmap_insert n (value_ref_to_json v) obj) [] row"

definition vector_names :: "collection_schema \<Rightarrow> string list" where
  "vector_names schema = map vf_name (s_vector_fields schema)"

definition describe :: "tenant_db \<Rightarrow> string \<Rightarrow> coll_table option" where
  "describe db coll = map_of (db_tables db) coll"

definition put_rows :: "tenant_db \<Rightarrow> string \<Rightarrow> (int \<times> db_row) list \<Rightarrow> tenant_db" where
  "put_rows db coll rows =
     db\<lparr> db_tables := map (\<lambda>(n, t). if n = coll then (n, t\<lparr> ct_rows := rows \<rparr>) else (n, t)) (db_tables db) \<rparr>"

text \<open>A text literal: the quotes inside doubled. The owner condition is spliced into the SQL.\<close>

definition sql_literal :: "string \<Rightarrow> string" where
  "sql_literal s = [CHR 0x27] @ replace_char (CHR 0x27) [CHR 0x27, CHR 0x27] s @ [CHR 0x27]"

definition owner_condition :: "string \<times> string \<Rightarrow> string" where
  "owner_condition fu = q (fst fu) @ '' = '' @ sql_literal (snd fu)"

definition owner_row ::
  "sqlite \<Rightarrow> coll_table \<Rightarrow> int \<Rightarrow> (string \<times> string) option \<Rightarrow> (db_row option, tx_error) result" where
  "owner_row sq t i owner =
     (case map_of (ct_rows t) i of
        None \<Rightarrow> Inr None
      | Some row \<Rightarrow>
          (case owner of
             None \<Rightarrow> Inr (Some row)
           | Some fu \<Rightarrow>
               bind_r (map_err TxDb (sq_where sq (owner_condition fu) [] row))
                 (\<lambda>ok. Inr (if ok then Some row else None))))"

text \<open>The pre-flight \<open>SELECT 1 ... WHERE id = ?1 AND (frag)\<close>.\<close>

definition using_row ::
  "sqlite \<Rightarrow> coll_table \<Rightarrow> int \<Rightarrow> (string \<times> sqlval list) option \<Rightarrow> (bool, tx_error) result" where
  "using_row sq t i using =
     (case using of
        None \<Rightarrow> Inr True
      | Some (frag, binds) \<Rightarrow>
          (case map_of (ct_rows t) i of
             None \<Rightarrow> Inr False
           | Some row \<Rightarrow> map_err TxDb (sq_where sq frag binds row)))"

definition select_row_json_owner ::
  "sqlite \<Rightarrow> coll_table \<Rightarrow> int \<Rightarrow> (string \<times> string) option \<Rightarrow> string list \<Rightarrow> (jmap option, tx_error) result" where
  "select_row_json_owner sq t i owner vnames =
     bind_r (owner_row sq t i owner) (\<lambda>row. Inr (map_option (materialize_row vnames) row))"

section \<open>Validation\<close>

text \<open>
  \<open>parse_f64\<close> is Rust's decimal parser; a value's numeric view takes a boolean as 0 or 1.
\<close>

definition as_num :: "json \<Rightarrow> f64 option" where
  "as_num v = or_else (json_as_f64 v) (map_option (\<lambda>b. if b then 1 else 0) (as_bool v))"

definition check_field ::
  "(string \<Rightarrow> f64 option) \<Rightarrow> field \<Rightarrow> field_constraints \<Rightarrow> json \<Rightarrow> (unit, tx_error) result" where
  "check_field parse_f64 f c v =
     bind_r (case as_num v of
         None \<Rightarrow> Inr ()
       | Some n \<Rightarrow>
           bind_r (case fc_min c of Some lo \<Rightarrow> if n < lo then Inl (TxMin (f_name f) lo) else Inr () | None \<Rightarrow> Inr ())
             (\<lambda>_. case fc_max c of Some hi \<Rightarrow> if n > hi then Inl (TxMax (f_name f) hi) else Inr () | None \<Rightarrow> Inr ()))
       (\<lambda>_.
     bind_r (case fc_enum_values c of
         None \<Rightarrow> Inr ()
       | Some en \<Rightarrow>
           (let in_enum =
              (if f_sql_type f \<in> {''integer'', ''real'', ''boolean''}
               then (case as_num v of
                   Some n \<Rightarrow> list_ex (\<lambda>e. parse_f64 e = Some n) en
                 | None \<Rightarrow> True)
               else (case as_str v of Some s \<Rightarrow> s \<in> set en | None \<Rightarrow> True))
            in if in_enum then Inr () else Inl (TxEnum (f_name f))))
       (\<lambda>_. case (as_str v, fc_max_length c) of
           (Some s, Some len) \<Rightarrow>
             if chars_count s mod 2 ^ 32 > len then Inl (TxMaxLength (f_name f) len) else Inr ()
         | _ \<Rightarrow> Inr ()))"

definition check_constraints ::
  "(string \<Rightarrow> f64 option) \<Rightarrow> collection_schema \<Rightarrow> jmap \<Rightarrow> (unit, tx_error) result" where
  "check_constraints parse_f64 schema data =
     try_for_each (\<lambda>f.
       case (f_constraints f, map_of data (f_name f)) of
         (Some c, Some v) \<Rightarrow> if v = JNull then Inr () else check_field parse_f64 f c v
       | _ \<Rightarrow> Inr ()) (s_fields schema)"

definition check_known :: "collection_schema \<Rightarrow> string \<Rightarrow> jmap \<Rightarrow> (unit, tx_error) result" where
  "check_known schema coll data =
     try_for_each (\<lambda>k. if has_field schema k then Inr ()
       else Inl (TxUnknownField k coll (sort (remdups (map f_name (s_fields schema)))))) (map fst data)"

definition json_to_sql_value :: "(json \<Rightarrow> string) \<Rightarrow> json \<Rightarrow> sqlval" where
  "json_to_sql_value to_string v =
     (case v of JArray _ \<Rightarrow> Text (to_string v) | JObject _ \<Rightarrow> Text (to_string v) | _ \<Rightarrow> json_to_value v)"

fun pre_encode_vectors ::
  "vector_field list \<Rightarrow> jmap \<Rightarrow> ((string \<times> string) list, vector_codec_error) result" where
  "pre_encode_vectors [] data = Inr []"
| "pre_encode_vectors (vf # vfs) data =
     (case map_of data (vf_name vf) of
        None \<Rightarrow> pre_encode_vectors vfs data
      | Some v \<Rightarrow> bind_r (pack (vf_name vf) (vf_dim vf) v) (\<lambda>bytes.
          bind_r (pre_encode_vectors vfs data) (\<lambda>rest. Inr ((vf_name vf, bytes) # rest))))"

definition bind_values :: "(json \<Rightarrow> string) \<Rightarrow> (string \<times> string) list \<Rightarrow> jmap \<Rightarrow> (string \<times> sqlval) list" where
  "bind_values to_string vbytes data =
     map (\<lambda>(k, v). (k, case map_of vbytes k of Some b \<Rightarrow> Blob b | None \<Rightarrow> json_to_sql_value to_string v)) data"

definition SQLITE_CONSTRAINT_CHECK :: nat where "SQLITE_CONSTRAINT_CHECK = 275"

definition is_check_violation :: "db_error \<Rightarrow> bool" where
  "is_check_violation e = (case e of SqliteFailure code _ \<Rightarrow> code = SQLITE_CONSTRAINT_CHECK | _ \<Rightarrow> False)"

definition map_check_violation :: "db_error \<Rightarrow> tx_error" where
  "map_check_violation e = (if is_check_violation e then TxCheckViolation e else TxDb e)"

record policy_check =
  pk_ast :: filter_ast
  pk_auth_id :: "string option"

definition policy_enforce :: "regex \<Rightarrow> policy_check \<Rightarrow> jmap \<Rightarrow> (unit, tx_error) result" where
  "policy_enforce rx check rec =
     (if eval_policy rx (pk_ast check) rec \<lparr> pc_auth_id = pk_auth_id check, pc_data = Some rec \<rparr>
      then Inr () else Inl TxPolicyCheck)"

definition enforce_opt :: "regex \<Rightarrow> policy_check option \<Rightarrow> jmap \<Rightarrow> (unit, tx_error) result" where
  "enforce_opt rx check rec = (case check of None \<Rightarrow> Inr () | Some c \<Rightarrow> policy_enforce rx c rec)"

section \<open>Transactions\<close>

text \<open>
  \<open>with_writer_tx\<close> commits the closure's state on success and rolls back on error. A \<open>BEGIN\<close> or \<open>COMMIT\<close> that fails is not
  modelled: it answers with the database error and leaves the database as it was.
\<close>

definition with_writer_tx ::
  "(tenant_db \<Rightarrow> ('a \<times> tenant_db, tx_error) result) \<Rightarrow> tenant_db \<Rightarrow> ('a, tx_error) result \<times> tenant_db" where
  "with_writer_tx f db = (case f db of Inl e \<Rightarrow> (Inl e, db) | Inr (a, db') \<Rightarrow> (Inr a, db'))"

text \<open>
  What an operation runs in: SQLite, the schema cache, the snapshot a reader connection sees
  before the writer's turn comes, the tenant's tier, and the library functions it calls.
\<close>

record write_env =
  we_sqlite :: sqlite
  we_cache :: "string \<Rightarrow> (collection_schema option, db_error) result"
  we_reader :: tenant_db
  we_tier :: int
  we_regex :: regex
  we_parse_f64 :: "string \<Rightarrow> f64 option"
  we_to_string :: "json \<Rightarrow> string"

definition tx_usage :: "sqlite \<Rightarrow> tenant_db \<Rightarrow> (u64, db_error) result" where
  "tx_usage sq tx = usage_on_conn (sq_pages sq tx) (sq_files sq tx)"

definition owner_supplied :: "collection_schema \<Rightarrow> jmap \<Rightarrow> (unit, tx_error) result" where
  "owner_supplied schema data =
     (case s_owner_field schema of
        None \<Rightarrow> Inr ()
      | Some of' \<Rightarrow>
          (case Option.bind (map_of data of') as_str of
             Some s \<Rightarrow> if s \<noteq> [] then Inr () else Inl (TxOwnerRequired of' (s_name schema))
           | None \<Rightarrow> Inl (TxOwnerRequired of' (s_name schema))))"

definition json_i64 :: "json \<Rightarrow> int option" where
  "json_i64 j = (case j of JNumber n \<Rightarrow> as_i64 n | _ \<Rightarrow> None)"

definition insert_row_in_tx ::
  "write_env \<Rightarrow> tenant_db \<Rightarrow> string \<Rightarrow> coll_table \<Rightarrow> jmap \<Rightarrow> (string \<times> string) list \<Rightarrow> string list
     \<Rightarrow> policy_check option \<Rightarrow> audit_actor \<Rightarrow> ((int \<times> jmap) \<times> tenant_db, tx_error) result" where
  "insert_row_in_tx env tx coll t data vbytes vnames check actor =
     (let sq = we_sqlite env; schema = ct_schema t in
      bind_r (map_err TxDb (tx_usage sq tx)) (\<lambda>usage.
      bind_r (map_err TxQuota (check_tenant_quota usage 0 (we_tier env))) (\<lambda>_.
      bind_r (owner_supplied schema data) (\<lambda>_.
      bind_r (check_known schema (s_name schema) data) (\<lambda>_.
      bind_r (check_constraints (we_parse_f64 env) schema data) (\<lambda>_.
      bind_r (map_err map_check_violation (sq_insert sq t (bind_values (we_to_string env) vbytes data)))
        (\<lambda>(rowid, row).
      let rec = materialize_row vnames row;
          i = (case Option.bind (map_of rec ''id'') json_i64 of Some i \<Rightarrow> i | None \<Rightarrow> rowid);
          tx' = put_rows tx coll (ct_rows t @ [(rowid, row)])
      in
      bind_r (enforce_opt (we_regex env) check rec) (\<lambda>_.
      bind_r (capture sq tx' (s_name schema) HInsert i None (Some rec) actor (s_audit_enabled schema)) (\<lambda>tx''.
        Inr ((i, rec), tx''))))))))))"

text \<open>
  The rows of a table are filed under their primary key, the column \<open>id\<close>. An update may assign it (the request's
  columns are not checked against the system columns): then the row moves to the new key.
\<close>

definition row_key :: "int \<Rightarrow> db_row \<Rightarrow> int" where
  "row_key i row = (case map_of row ''id'' of Some (Integer k) \<Rightarrow> k | _ \<Rightarrow> i)"

definition replace_row :: "int \<Rightarrow> db_row \<Rightarrow> (int \<times> db_row) list \<Rightarrow> (int \<times> db_row) list" where
  "replace_row i row rows = map (\<lambda>(j, r). if j = i then (row_key i row, row) else (j, r)) rows"

definition update_row_in_tx ::
  "write_env \<Rightarrow> tenant_db \<Rightarrow> string \<Rightarrow> int \<Rightarrow> jmap \<Rightarrow> (string \<times> string) list \<Rightarrow> string list
     \<Rightarrow> (string \<times> string) option \<Rightarrow> (string \<times> sqlval list) option \<Rightarrow> policy_check option \<Rightarrow> audit_actor
     \<Rightarrow> (jmap \<times> tenant_db, tx_error) result" where
  "update_row_in_tx env tx coll i data vbytes vnames owner using check actor =
     (let sq = we_sqlite env in
      bind_r (map_err TxDb (tx_usage sq tx)) (\<lambda>before.
      bind_r (case describe tx coll of Some t \<Rightarrow> Inr t | None \<Rightarrow> Inl (TxUnknownCollection coll)) (\<lambda>t.
      let schema = ct_schema t in
      bind_r (check_known schema coll data) (\<lambda>_.
      bind_r (check_constraints (we_parse_f64 env) schema data) (\<lambda>_.
      bind_r (using_row sq t i using) (\<lambda>visible.
      if \<not> visible then Inl TxNoRows else
      bind_r (if s_audit_enabled schema then select_row_json_owner sq t i owner vnames else Inr None) (\<lambda>old.
      bind_r (owner_row sq t i owner) (\<lambda>target.
      case target of
        None \<Rightarrow> Inl TxNoRows
      | Some row \<Rightarrow>
          bind_r (map_err map_check_violation (sq_update sq t row (bind_values (we_to_string env) vbytes data)))
            (\<lambda>row'.
          let rec = materialize_row vnames row'; tx' = put_rows tx coll (replace_row i row' (ct_rows t)) in
          bind_r (enforce_opt (we_regex env) check rec) (\<lambda>_.
          bind_r (capture sq tx' coll HUpdate i old (Some rec) actor (s_audit_enabled schema)) (\<lambda>tx''.
          bind_r (map_err TxDb (check_update_growth (tx_usage sq tx'') before (we_tier env))) (\<lambda>_.
            Inr (rec, tx'')))))))))))))"

text \<open>Deleting reports the number of rows; zero is not an error of the transaction.\<close>

definition delete_row_in_tx ::
  "write_env \<Rightarrow> tenant_db \<Rightarrow> string \<Rightarrow> int \<Rightarrow> (string \<times> string) option \<Rightarrow> (string \<times> sqlval list) option
     \<Rightarrow> audit_actor \<Rightarrow> (nat \<times> tenant_db, tx_error) result" where
  "delete_row_in_tx env tx coll i owner using actor =
     (let sq = we_sqlite env in
      case describe tx coll of
        None \<Rightarrow> Inl (TxDb (SqliteFailure 1 (Some (''no such table: '' @ coll))))
      | Some t \<Rightarrow>
          (let schema = ct_schema t in
           bind_r (using_row sq t i using) (\<lambda>visible.
           if \<not> visible then Inr (0, tx) else
           bind_r (if s_audit_enabled schema then select_row_json_owner sq t i owner (vector_names schema) else Inr None)
             (\<lambda>old.
           bind_r (owner_row sq t i owner) (\<lambda>target.
           case target of
             None \<Rightarrow> Inr (0, tx)
           | Some row \<Rightarrow>
               bind_r (map_err TxDb (sq_delete sq t row)) (\<lambda>_.
               bind_r (capture sq (put_rows tx coll (filter (\<lambda>(j, _). j \<noteq> i) (ct_rows t))) coll HDelete i old None
                         actor (s_audit_enabled schema))
                 (\<lambda>tx'. Inr (1, tx'))))))))"

section \<open>Record operations\<close>

datatype write_error =
    WNotFound string
  | WAnonForbidden
  | WCapDenied token_role dml_verb string
  | WOwnerRequired string
  | WEmptyUpdate
  | WProtected
  | WNotObject
  | WNoFields
  | WUnknownCollection string
  | WVector vector_codec_error
  | WPolicy policy_error
  | WTx tx_error
  | WDb db_error
  | WRecordNotFound

type_synonym outcome = "(json, write_error) result \<times> tenant_db \<times> event list"

text \<open>
  After the transaction: the payload on success, and the event exactly when it committed.
\<close>

definition finish ::
  "('a, tx_error) result \<times> tenant_db \<Rightarrow> ('a \<Rightarrow> json) \<Rightarrow> ('a \<Rightarrow> event) \<Rightarrow> outcome" where
  "finish r payload ev =
     (case r of (Inl e, db) \<Rightarrow> (Inl (WTx e), db, []) | (Inr a, db) \<Rightarrow> (Inr (payload a), db, [ev a]))"

definition insert_record_checked ::
  "write_env \<Rightarrow> tenant_db \<Rightarrow> string \<Rightarrow> json \<Rightarrow> policy_check option \<Rightarrow> audit_actor \<Rightarrow> outcome" where
  "insert_record_checked env db coll data check actor =
     (if is_protected_collection coll then (Inl WProtected, db, [])
      else case as_object data of
        None \<Rightarrow> (Inl WNotObject, db, [])
      | Some m \<Rightarrow>
          (case describe (we_reader env) coll of
             None \<Rightarrow> (Inl (WUnknownCollection coll), db, [])
           | Some t0 \<Rightarrow>
               (case pre_encode_vectors (s_vector_fields (ct_schema t0)) m of
                  Inl e \<Rightarrow> (Inl (WVector e), db, [])
                | Inr vbytes \<Rightarrow>
                    finish (with_writer_tx (\<lambda>tx.
                        case describe tx coll of
                          None \<Rightarrow> Inl (TxUnknownCollection coll)
                        | Some t \<Rightarrow> insert_row_in_tx env tx coll t m vbytes (vector_names (ct_schema t0)) check actor) db)
                      (\<lambda>(i, rec). JObject [(''id'', JNumber (jnum_of_int i)), (''record'', JObject rec)])
                      (\<lambda>(i, rec). Created rec))))"

definition update_record_checked ::
  "write_env \<Rightarrow> tenant_db \<Rightarrow> string \<Rightarrow> int \<Rightarrow> json \<Rightarrow> (string \<times> string) option \<Rightarrow> (string \<times> sqlval list) option
     \<Rightarrow> policy_check option \<Rightarrow> audit_actor \<Rightarrow> outcome" where
  "update_record_checked env db coll i data owner using check actor =
     (if is_protected_collection coll then (Inl WProtected, db, [])
      else case as_object data of
        None \<Rightarrow> (Inl WNotObject, db, [])
      | Some m \<Rightarrow>
          if m = [] then (Inl WNoFields, db, [])
          else (case describe (we_reader env) coll of
             None \<Rightarrow> (Inl (WUnknownCollection coll), db, [])
           | Some t0 \<Rightarrow>
               (case pre_encode_vectors (s_vector_fields (ct_schema t0)) m of
                  Inl e \<Rightarrow> (Inl (WVector e), db, [])
                | Inr vbytes \<Rightarrow>
                    finish (with_writer_tx (\<lambda>tx. update_row_in_tx env tx coll i m vbytes
                        (vector_names (ct_schema t0)) owner using check actor) db)
                      (\<lambda>rec. JObject [(''record'', JObject rec)]) Updated)))"

text \<open>The payload of a missing target; its message, which names the id, is left out.\<close>

definition not_found_payload :: json where
  "not_found_payload = JObject [(''ok'', JBool False), (''error_code'', JString ''RECORD_NOT_FOUND'')]"

definition delete_record_filtered ::
  "write_env \<Rightarrow> tenant_db \<Rightarrow> string \<Rightarrow> int \<Rightarrow> (string \<times> string) option \<Rightarrow> (string \<times> sqlval list) option
     \<Rightarrow> audit_actor \<Rightarrow> outcome" where
  "delete_record_filtered env db coll i owner using actor =
     (if is_protected_collection coll then (Inl WProtected, db, [])
      else case with_writer_tx (\<lambda>tx. delete_row_in_tx env tx coll i owner using actor) db of
          (Inl e, db') \<Rightarrow> (Inl (WTx e), db', [])
        | (Inr n, db') \<Rightarrow>
            if n = 0 then (Inr not_found_payload, db', [])
            else (Inr (JObject [(''ok'', JBool True)]), db', [Deleted i]))"

section \<open>The enforcement core\<close>

definition enforce_load_schema :: "write_env \<Rightarrow> string \<Rightarrow> (collection_schema, write_error) result" where
  "enforce_load_schema env coll =
     (if is_protected_collection coll then Inl (WNotFound coll)
      else case we_cache env coll of
          Inl e \<Rightarrow> Inl (WDb e)
        | Inr None \<Rightarrow> Inl (WNotFound coll)
        | Inr (Some s) \<Rightarrow> Inr s)"

definition enforce_gate ::
  "auth_ctx \<Rightarrow> dml_verb \<Rightarrow> collection_schema \<Rightarrow> string \<Rightarrow> (unit, write_error) result" where
  "enforce_gate ctx verb schema coll =
     (if ctx = Anon \<and> s_owner_field schema \<noteq> None then Inl WAnonForbidden
      else if \<not> has_dml_cap (role_of ctx) verb schema then Inl (WCapDenied (role_of ctx) verb coll)
      else Inr ())"

text \<open>The owner column of an insert: required of a service caller, overwritten for a user.\<close>

definition stamp_owner ::
  "auth_ctx \<Rightarrow> collection_schema \<Rightarrow> json \<Rightarrow> (json, write_error) result" where
  "stamp_owner ctx schema data =
     (case s_owner_field schema of
        None \<Rightarrow> Inr data
      | Some fld \<Rightarrow>
          (case ctx of
             Service _ \<Rightarrow>
               (case Option.bind (Option.bind (as_object data) (\<lambda>m. map_of m fld)) as_str of
                  Some s \<Rightarrow> if s \<noteq> [] then Inr data else Inl (WOwnerRequired fld)
                | None \<Rightarrow> Inl (WOwnerRequired fld))
           | User uid _ \<Rightarrow>
               (case data of JObject m \<Rightarrow> Inr (JObject (jmap_insert fld (JString uid) m)) | _ \<Rightarrow> Inr data)
           | Anon \<Rightarrow> Inl WAnonForbidden))"

definition write_policy_check :: "auth_ctx \<Rightarrow> collection_schema \<Rightarrow> dml_verb \<Rightarrow> policy_check option" where
  "write_policy_check ctx schema verb =
     map_option (\<lambda>ast. \<lparr> pk_ast = ast, pk_auth_id = user_id ctx \<rparr>) (effective_policy_check ctx schema verb)"

definition enforced_insert :: "write_env \<Rightarrow> auth_ctx \<Rightarrow> tenant_db \<Rightarrow> string \<Rightarrow> json \<Rightarrow> outcome" where
  "enforced_insert env ctx db coll data =
     (case bind_r (enforce_load_schema env coll) (\<lambda>schema.
           bind_r (enforce_gate ctx Insert schema coll) (\<lambda>_.
           bind_r (stamp_owner ctx schema data) (\<lambda>data'. Inr (schema, data')))) of
        Inl e \<Rightarrow> (Inl e, db, [])
      | Inr (schema, data') \<Rightarrow>
          insert_record_checked env db coll data' (write_policy_check ctx schema Insert) (actor_from_auth_ctx ctx))"

definition strip_owner :: "auth_ctx \<Rightarrow> collection_schema \<Rightarrow> json \<Rightarrow> json" where
  "strip_owner ctx schema data =
     (case (ctx, s_owner_field schema, data) of
        (User _ _, Some fld, JObject m) \<Rightarrow> JObject (jmap_remove fld m)
      | _ \<Rightarrow> data)"

text \<open>A missing, foreign or hidden target is reported in one shape by both write verbs.\<close>

definition update_not_found :: "outcome \<Rightarrow> outcome" where
  "update_not_found out =
     (case out of (Inl (WTx TxNoRows), db, ev) \<Rightarrow> (Inl WRecordNotFound, db, ev) | r \<Rightarrow> r)"

definition delete_not_found :: "outcome \<Rightarrow> outcome" where
  "delete_not_found out =
     (case out of
        (Inr payload, db, ev) \<Rightarrow>
          if Option.bind (Option.bind (as_object payload) (\<lambda>m. map_of m ''ok'')) as_bool = Some False
          then (Inl WRecordNotFound, db, ev) else (Inr payload, db, ev)
      | r \<Rightarrow> r)"

definition enforced_update :: "write_env \<Rightarrow> auth_ctx \<Rightarrow> tenant_db \<Rightarrow> string \<Rightarrow> int \<Rightarrow> json \<Rightarrow> outcome" where
  "enforced_update env ctx db coll i data =
     (case bind_r (enforce_load_schema env coll) (\<lambda>schema.
           bind_r (enforce_gate ctx Update schema coll) (\<lambda>_.
           let data' = strip_owner ctx schema data in
           if as_object data' = Some [] then Inl WEmptyUpdate else
           bind_r (map_err WPolicy (policy_using_sql ctx schema Update)) (\<lambda>using. Inr (schema, data', using)))) of
        Inl e \<Rightarrow> (Inl e, db, [])
      | Inr (schema, data', using) \<Rightarrow>
          update_not_found (update_record_checked env db coll i data' (compute_owner_write_filter ctx schema) using
            (write_policy_check ctx schema Update) (actor_from_auth_ctx ctx)))"

definition enforced_delete :: "write_env \<Rightarrow> auth_ctx \<Rightarrow> tenant_db \<Rightarrow> string \<Rightarrow> int \<Rightarrow> outcome" where
  "enforced_delete env ctx db coll i =
     (case bind_r (enforce_load_schema env coll) (\<lambda>schema.
           bind_r (enforce_gate ctx Delete schema coll) (\<lambda>_.
           bind_r (map_err WPolicy (policy_using_sql ctx schema Delete)) (\<lambda>using. Inr (schema, using)))) of
        Inl e \<Rightarrow> (Inl e, db, [])
      | Inr (schema, using) \<Rightarrow>
          delete_not_found (delete_record_filtered env db coll i (compute_owner_write_filter ctx schema) using
            (actor_from_auth_ctx ctx)))"

section \<open>The spliced owner condition\<close>

lemma q_inj_append: "q a @ CHR '' '' # s = q b @ CHR '' '' # t \<Longrightarrow> a = b \<and> s = t"
proof -
  have "replace_char dquote [dquote, dquote] a @ dquote # CHR '' '' # s =
      replace_char dquote [dquote, dquote] b @ dquote # CHR '' '' # t \<Longrightarrow> a = b \<and> s = t" for a b
  proof (induction a arbitrary: b)
    case Nil
    then show ?case by (cases b) (auto split: if_splits)
  next
    case (Cons c a)
    then show ?case by (cases b) (auto split: if_splits)
  qed
  then show "q a @ CHR '' '' # s = q b @ CHR '' '' # t \<Longrightarrow> a = b \<and> s = t"
    by (simp add: q_def)
qed

lemma sql_literal_inj: "sql_literal a = sql_literal b \<Longrightarrow> a = b"
proof -
  have "replace_char (CHR 0x27) [CHR 0x27, CHR 0x27] a @ [CHR 0x27] =
      replace_char (CHR 0x27) [CHR 0x27, CHR 0x27] b @ [CHR 0x27] \<Longrightarrow> a = b" for a b
  proof (induction a arbitrary: b)
    case Nil
    then show ?case by (cases b) (auto split: if_splits)
  next
    case (Cons c a)
    then show ?case by (cases b) (auto split: if_splits)
  qed
  then show "sql_literal a = sql_literal b \<Longrightarrow> a = b"
    by (simp add: sql_literal_def)
qed

lemma owner_condition_inj: "owner_condition fu = owner_condition gv \<longleftrightarrow> fu = gv"
proof
  assume "owner_condition fu = owner_condition gv"
  then have "q (fst fu) @ CHR '' '' # ''= '' @ sql_literal (snd fu) =
      q (fst gv) @ CHR '' '' # ''= '' @ sql_literal (snd gv)"
    by (simp add: owner_condition_def)
  from q_inj_append [OF this] show "fu = gv"
    by (auto dest: sql_literal_inj simp: prod_eq_iff)
qed simp

lemma params_in_literal: "params_in (Some (CHR 0x27))
    (replace_char (CHR 0x27) [CHR 0x27, CHR 0x27] u @ CHR 0x27 # s) = params_in None s"
  by (induction u) auto

lemma params_in_owner_condition: "params_in None (owner_condition fu @ s) = params_in None s"
  by (simp add: owner_condition_def sql_literal_def params_in_literal)

section \<open>Successful transactions, step by step\<close>

lemma capture_ok:
  "capture sq tx coll op i old new actor b = Inr tx' \<longleftrightarrow>
     (if b then sq_history sq \<lparr> h_collection = coll, h_record_id = i, h_op = history_as_str op, h_old = old,
                  h_new = new, h_actor = actor \<rparr> = Inr () \<and>
                tx' = tx\<lparr> db_history := db_history tx @ [\<lparr> h_collection = coll, h_record_id = i,
                  h_op = history_as_str op, h_old = old, h_new = new, h_actor = actor \<rparr>] \<rparr>
      else tx' = tx)"
  by (auto simp: capture_def Let_def)

definition history_entry ::
  "bool \<Rightarrow> string \<Rightarrow> history_op \<Rightarrow> int \<Rightarrow> jmap option \<Rightarrow> jmap option \<Rightarrow> audit_actor \<Rightarrow> history_row list" where
  "history_entry b coll op i old new actor =
     (if b then [\<lparr> h_collection = coll, h_record_id = i, h_op = history_as_str op, h_old = old,
                   h_new = new, h_actor = actor \<rparr>] else [])"

lemma capture_db:
  "capture sq tx coll op i old new actor b = Inr tx' \<Longrightarrow>
     tx' = tx\<lparr> db_history := db_history tx @ history_entry b coll op i old new actor \<rparr>"
  by (auto simp: capture_ok history_entry_def split: if_splits)

lemma insert_row_in_tx_ok:
  assumes "insert_row_in_tx env tx coll t data vbytes vnames check actor = Inr ((i, rec), tx')"
  obtains rowid row where
    "sq_insert (we_sqlite env) t (bind_values (we_to_string env) vbytes data) = Inr (rowid, row)"
    "rec = materialize_row vnames row" "enforce_opt (we_regex env) check rec = Inr ()"
    "tx' = put_rows tx coll (ct_rows t @ [(rowid, row)])
       \<lparr> db_history := db_history tx @ history_entry (s_audit_enabled (ct_schema t)) (s_name (ct_schema t)) HInsert i
           None (Some rec) actor \<rparr>"
    "check_known (ct_schema t) (s_name (ct_schema t)) data = Inr ()"
    "owner_supplied (ct_schema t) data = Inr ()"
proof -
  from assms obtain rowid row where
    ins: "sq_insert (we_sqlite env) t (bind_values (we_to_string env) vbytes data) = Inr (rowid, row)"
    and rec: "rec = materialize_row vnames row" "enforce_opt (we_regex env) check rec = Inr ()"
    and cap: "capture (we_sqlite env) (put_rows tx coll (ct_rows t @ [(rowid, row)])) (s_name (ct_schema t)) HInsert i None
        (Some rec) actor (s_audit_enabled (ct_schema t)) = Inr tx'"
    and chk: "check_known (ct_schema t) (s_name (ct_schema t)) data = Inr ()" "owner_supplied (ct_schema t) data = Inr ()"
    by (auto simp: insert_row_in_tx_def Let_def)
  show thesis
    by (rule that [OF ins rec _ chk]) (use capture_db [OF cap] in \<open>simp add: put_rows_def\<close>)
qed

lemma update_row_in_tx_ok:
  assumes "update_row_in_tx env tx coll i data vbytes vnames owner using check actor = Inr (rec, tx')"
  obtains t row row' old where
    "describe tx coll = Some t" "using_row (we_sqlite env) t i using = Inr True"
    "owner_row (we_sqlite env) t i owner = Inr (Some row)"
    "sq_update (we_sqlite env) t row (bind_values (we_to_string env) vbytes data) = Inr row'"
    "rec = materialize_row vnames row'" "enforce_opt (we_regex env) check rec = Inr ()"
    "tx' = put_rows tx coll (replace_row i row' (ct_rows t))
       \<lparr> db_history := db_history tx @ history_entry (s_audit_enabled (ct_schema t)) coll HUpdate i old (Some rec) actor \<rparr>"
proof -
  from assms obtain t row row' old where
    d: "describe tx coll = Some t" "using_row (we_sqlite env) t i using = Inr True"
    "owner_row (we_sqlite env) t i owner = Inr (Some row)"
    "sq_update (we_sqlite env) t row (bind_values (we_to_string env) vbytes data) = Inr row'"
    "rec = materialize_row vnames row'" "enforce_opt (we_regex env) check rec = Inr ()"
    and cap: "capture (we_sqlite env) (put_rows tx coll (replace_row i row' (ct_rows t))) coll HUpdate i old (Some rec)
        actor (s_audit_enabled (ct_schema t)) = Inr tx'"
    by (auto simp: update_row_in_tx_def Let_def split: option.splits if_splits)
  show thesis
    by (rule that [OF d]) (use capture_db [OF cap] in \<open>simp add: put_rows_def\<close>)
qed

lemma delete_row_in_tx_ok:
  assumes "delete_row_in_tx env tx coll i owner using actor = Inr (n, tx')"
  obtains (none) "n = 0" "tx' = tx"
    | (one) t row old where "n = 1" "describe tx coll = Some t" "using_row (we_sqlite env) t i using = Inr True"
      "owner_row (we_sqlite env) t i owner = Inr (Some row)"
      "tx' = put_rows tx coll (filter (\<lambda>(j, _). j \<noteq> i) (ct_rows t))
         \<lparr> db_history := db_history tx @ history_entry (s_audit_enabled (ct_schema t)) coll HDelete i old None actor \<rparr>"
proof -
  from assms consider "n = 0" "tx' = tx"
    | t row old where "n = 1" "describe tx coll = Some t" "using_row (we_sqlite env) t i using = Inr True"
      "owner_row (we_sqlite env) t i owner = Inr (Some row)"
      "capture (we_sqlite env) (put_rows tx coll (filter (\<lambda>(j, _). j \<noteq> i) (ct_rows t))) coll HDelete i old None actor
         (s_audit_enabled (ct_schema t)) = Inr tx'"
    by (auto simp: delete_row_in_tx_def Let_def split: option.splits if_splits)
  then show thesis
  proof cases
    case 2
    show thesis by (rule one [OF 2(1-4)]) (use capture_db [OF 2(5)] in \<open>simp add: put_rows_def\<close>)
  qed (rule none)
qed

lemma with_writer_tx_cases:
  assumes "with_writer_tx f db = (r, db')"
  obtains (err) e where "f db = Inl e" "r = Inl e" "db' = db" | (ok) a where "f db = Inr (a, db')" "r = Inr a"
  using assms by (cases "f db") (auto simp: with_writer_tx_def)

text \<open>An outcome is atomic: one event and a commit, or no event and the database as it was.\<close>

definition atomic :: "tenant_db \<Rightarrow> outcome \<Rightarrow> bool" where
  "atomic db out = (case out of (r, db', ev) \<Rightarrow> if is_ok r then length ev = 1 else db' = db \<and> ev = [])"

lemma atomic_finish: "atomic db (finish (with_writer_tx f db) payload ev)"
  by (cases "with_writer_tx f db" rule: prod.exhaust)
     (auto simp: atomic_def finish_def with_writer_tx_def split: sum.splits)

lemma atomic_insert: "atomic db (insert_record_checked env db coll data check actor)"
  by (auto simp: insert_record_checked_def atomic_finish split: option.splits sum.splits)
     (simp_all add: atomic_def)

lemma atomic_update: "atomic db (update_record_checked env db coll i data owner using check actor)"
  by (auto simp: update_record_checked_def atomic_finish split: option.splits sum.splits)
     (simp_all add: atomic_def)

lemma delete_record_filtered_cases:
  assumes "delete_record_filtered env db coll i owner using actor = (r, db', ev)"
  obtains (err) e where "r = Inl e" "db' = db" "ev = []"
    | (none) "r = Inr not_found_payload" "db' = db" "ev = []"
    | (one) "r = Inr (JObject [(''ok'', JBool True)])" "ev = [Deleted i]"
      "delete_row_in_tx env db coll i owner using actor = Inr (1, db')" "\<not> is_protected_collection coll"
proof (cases "is_protected_collection coll")
  case True
  with assms err show thesis by (auto simp: delete_record_filtered_def)
next
  case False
  obtain r0 db0 where w: "with_writer_tx (\<lambda>tx. delete_row_in_tx env tx coll i owner using actor) db = (r0, db0)"
    by force
  from w show thesis
  proof (cases rule: with_writer_tx_cases)
    case (err e)
    with w False assms that(1) show thesis by (auto simp: delete_record_filtered_def)
  next
    case (ok n)
    from ok(1) show thesis
    proof (cases rule: delete_row_in_tx_ok)
      case none
      with w ok False assms that(2) show thesis by (auto simp: delete_record_filtered_def)
    next
      case (one t row old)
      with w ok False assms that(3) show thesis by (auto simp: delete_record_filtered_def)
    qed
  qed
qed

lemma atomic_refused: "atomic db (Inl e, db, [])"
  by (simp add: atomic_def)

lemma atomic_update_not_found: "atomic db out \<Longrightarrow> atomic db (update_not_found out)"
proof (cases "\<exists>db' ev. out = (Inl (WTx TxNoRows), db', ev)")
  case False
  then have "update_not_found out = out"
    by (auto simp: update_not_found_def split: prod.splits sum.splits write_error.splits tx_error.splits)
  then show "atomic db out \<Longrightarrow> atomic db (update_not_found out)" by simp
qed (auto simp: update_not_found_def atomic_def)

lemma atomic_delete:
  "atomic db (delete_not_found (delete_record_filtered env db coll i owner using actor))"
proof -
  obtain r db' ev where d: "delete_record_filtered env db coll i owner using actor = (r, db', ev)"
    by (cases "delete_record_filtered env db coll i owner using actor")
  then show ?thesis
    by (cases rule: delete_record_filtered_cases)
       (auto simp: d atomic_def delete_not_found_def not_found_payload_def)
qed

text \<open>
  Writes under a caller's identity are atomic. Whatever the caller, the data, the stored
  policies and the behaviour of SQLite: an insert, update or delete either succeeds, and then
  exactly one event goes out, or it is refused, and then the database is exactly as before and
  nothing is published.
\<close>

theorem enforced_writes_atomic:
  "atomic db (enforced_insert env ctx db coll data) \<and> atomic db (enforced_update env ctx db coll i data) \<and>
   atomic db (enforced_delete env ctx db coll i)"
proof (intro conjI)
  show "atomic db (enforced_insert env ctx db coll data)"
    by (auto simp: enforced_insert_def atomic_insert atomic_refused split: sum.splits)
  show "atomic db (enforced_update env ctx db coll i data)"
    by (auto simp: enforced_update_def atomic_update atomic_update_not_found atomic_refused split: sum.splits)
  show "atomic db (enforced_delete env ctx db coll i)"
    by (auto simp: enforced_delete_def atomic_delete atomic_refused split: sum.splits)
qed

section \<open>What SQLite promises a writer\<close>

text \<open>
  A text column compares equal to a text literal exactly when it holds that text; INSERT
  stores a bound text in a text column as it is; UPDATE leaves the columns it does not assign
  alone, the timestamp it always sets apart.
\<close>

locale sqlite_writer =
  fixes sq :: sqlite
  assumes where_owner: "map_of row f = Some Null \<or> (\<exists>s. map_of row f = Some (Text s)) \<Longrightarrow>
      sq_where sq (owner_condition (f, u)) [] row = Inr (map_of row f = Some (Text u))"
    and insert_keeps: "sq_insert sq t vals = Inr (i, row) \<Longrightarrow> map_of vals f = Some (Text u) \<Longrightarrow>
      field_class (ct_schema t) f = Some ''text'' \<Longrightarrow> map_of row f = Some (Text u)"
    and update_keeps: "sq_update sq t row vals = Inr row' \<Longrightarrow> map_of vals f = None \<Longrightarrow> f \<noteq> ''updated_at'' \<Longrightarrow>
      map_of row' f = map_of row f"
begin

lemma owner_row_owned:
  assumes "owner_row sq t i (Some (f, u)) = Inr (Some row)"
    and "\<And>row. map_of (ct_rows t) i = Some row \<Longrightarrow> map_of row f = Some Null \<or> (\<exists>s. map_of row f = Some (Text s))"
  shows "map_of (ct_rows t) i = Some row \<and> map_of row f = Some (Text u)"
  using assms where_owner [of _ f u] by (auto simp: owner_row_def split: option.splits if_splits)

end

lemma map_of_bind_values:
  "map_of (bind_values ts vb data) k =
     map_option (\<lambda>v. case map_of vb k of Some b \<Rightarrow> Blob b | None \<Rightarrow> json_to_sql_value ts v) (map_of data k)"
  by (induction data) (auto simp: bind_values_def split: option.splits)

lemma map_of_replace_row:
  "row_key i row' = i \<Longrightarrow> map_of (replace_row i row' rows) j =
    (if j = i \<and> map_of rows i \<noteq> None then Some row' else map_of rows j)"
  by (induction rows) (auto simp: replace_row_def)

lemma map_of_move_row:
  "row_key i row' \<noteq> i \<Longrightarrow> map_of rows (row_key i row') = None \<Longrightarrow> map_of (replace_row i row' rows) j =
    (if j = row_key i row' \<and> map_of rows i \<noteq> None then Some row' else if j = i then None else map_of rows j)"
  by (induction rows) (auto simp: replace_row_def split: if_splits)

text \<open>The primary key is unique: SQLite refuses an update that gives a row the key of another one.\<close>

locale sqlite_keyed = sqlite_writer +
  assumes update_key: "sq_update sq t row vals = Inr row' \<Longrightarrow> map_of row ''id'' = Some (Integer i) \<Longrightarrow>
      row_key i row' = i \<or> map_of (ct_rows t) (row_key i row') = None"
begin

lemma updated_rows:
  assumes "sq_update sq t row vals = Inr row'" "map_of (ct_rows t) i = Some row" "map_of row ''id'' = Some (Integer i)"
    and rows: "rows = replace_row i row' (ct_rows t)" and k: "k = row_key i row'"
  shows "map_of rows k = Some row' \<and> (k = i \<or> map_of (ct_rows t) k = None \<and> map_of rows i = None) \<and>
    (\<forall>j. j \<noteq> i \<longrightarrow> j \<noteq> k \<longrightarrow> map_of rows j = map_of (ct_rows t) j) \<and> (map_of vals ''id'' = None \<longrightarrow> k = i)"
proof -
  have "map_of vals ''id'' = None \<Longrightarrow> k = i"
    using update_keeps [OF assms(1), of "''id''"] assms(3) by (simp add: k row_key_def)
  with update_key [OF assms(1,3)] assms(2) show ?thesis
    by (cases "k = i") (auto simp: rows k map_of_replace_row map_of_move_row)
qed

end

lemma describe_put_rows:
  "describe (put_rows db coll rows) c =
     (if c = coll then map_option (\<lambda>t. t\<lparr> ct_rows := rows \<rparr>) (describe db c) else describe db c)"
proof -
  have "map_of (map (\<lambda>(n, t). if n = coll then (n, t\<lparr> ct_rows := rows \<rparr>) else (n, t)) ts) c =
      (if c = coll then map_option (\<lambda>t. t\<lparr> ct_rows := rows \<rparr>) (map_of ts c) else map_of ts c)" for ts
    by (induction ts) auto
  from this [of "db_tables db"] show ?thesis by (simp add: describe_def put_rows_def)
qed

lemma describe_history [simp]: "describe (db\<lparr> db_history := h \<rparr>) c = describe db c"
  by (simp add: describe_def)

text \<open>Between two states of the database, only the row \<open>i\<close> of \<open>coll\<close> may differ.\<close>

definition only_row_differs :: "tenant_db \<Rightarrow> tenant_db \<Rightarrow> string \<Rightarrow> int \<Rightarrow> bool" where
  "only_row_differs db db' coll i \<longleftrightarrow>
     (\<forall>c. c \<noteq> coll \<longrightarrow> describe db' c = describe db c) \<and>
     (\<forall>t. describe db coll = Some t \<longrightarrow> (\<exists>t'. describe db' coll = Some t' \<and> ct_schema t' = ct_schema t \<and>
        (\<forall>j. j \<noteq> i \<longrightarrow> map_of (ct_rows t') j = map_of (ct_rows t) j)))"

lemma only_row_differs_put:
  assumes "describe db coll = Some t" "\<And>j. j \<noteq> i \<Longrightarrow> map_of rows j = map_of (ct_rows t) j"
  shows "only_row_differs db (put_rows db coll rows\<lparr> db_history := h \<rparr>) coll i"
  using assms by (auto simp: only_row_differs_def describe_put_rows)

lemma map_of_filter_neq: "j \<noteq> i \<Longrightarrow> map_of (filter (\<lambda>(k, _). k \<noteq> i) rows) j = map_of rows j"
  by (induction rows) auto

text \<open>A successful update or delete of the core, down to its transaction.\<close>

lemma enforced_update_ok:
  assumes "enforced_update env ctx db coll i data = (Inr p, db', ev)"
  obtains schema m us vbytes vnames rec where
    "we_cache env coll = Inr (Some schema)" "enforce_gate ctx Update schema coll = Inr ()"
    "strip_owner ctx schema data = JObject m" "policy_using_sql ctx schema Update = Inr us"
    "update_row_in_tx env db coll i m vbytes vnames (compute_owner_write_filter ctx schema) us
       (write_policy_check ctx schema Update) (actor_from_auth_ctx ctx) = Inr (rec, db')"
    "p = JObject [(''record'', JObject rec)]" "ev = [Updated rec]" "\<not> is_protected_collection coll"
proof -
  from assms obtain schema d us where s: "enforce_load_schema env coll = Inr schema"
    and g: "enforce_gate ctx Update schema coll = Inr ()" and d: "strip_owner ctx schema data = d"
    and u: "policy_using_sql ctx schema Update = Inr us"
    and r: "update_not_found (update_record_checked env db coll i d (compute_owner_write_filter ctx schema) us
       (write_policy_check ctx schema Update) (actor_from_auth_ctx ctx)) = (Inr p, db', ev)"
    by (auto simp: enforced_update_def Let_def split: sum.splits if_splits)
  from r have r': "update_record_checked env db coll i d (compute_owner_write_filter ctx schema) us
       (write_policy_check ctx schema Update) (actor_from_auth_ctx ctx) = (Inr p, db', ev)"
    by (auto simp: update_not_found_def split: prod.splits sum.splits write_error.splits tx_error.splits)
  then obtain m vbytes vnames where m: "d = JObject m" and np: "\<not> is_protected_collection coll"
    and f: "finish (with_writer_tx (\<lambda>tx. update_row_in_tx env tx coll i m vbytes vnames
        (compute_owner_write_filter ctx schema) us (write_policy_check ctx schema Update)
        (actor_from_auth_ctx ctx)) db) (\<lambda>rec. JObject [(''record'', JObject rec)]) Updated = (Inr p, db', ev)"
    by (cases d) (auto simp: update_record_checked_def split: if_splits option.splits sum.splits)
  from s np have c: "we_cache env coll = Inr (Some schema)"
    by (auto simp: enforce_load_schema_def split: sum.splits option.splits)
  from f show thesis
    by (auto simp: finish_def with_writer_tx_def split: sum.splits intro: that [OF c g d [unfolded m] u _ _ _ np])
qed

lemma enforced_insert_ok:
  assumes "enforced_insert env ctx db coll data = (Inr p, db', ev)"
  obtains schema m vbytes vnames t i rec where
    "we_cache env coll = Inr (Some schema)" "enforce_gate ctx Insert schema coll = Inr ()"
    "stamp_owner ctx schema data = Inr (JObject m)" "describe db coll = Some t"
    "insert_row_in_tx env db coll t m vbytes vnames (write_policy_check ctx schema Insert)
       (actor_from_auth_ctx ctx) = Inr ((i, rec), db')"
    "p = JObject [(''id'', JNumber (jnum_of_int i)), (''record'', JObject rec)]" "ev = [Created rec]"
    "\<not> is_protected_collection coll" "pre_encode_vectors (s_vector_fields (ct_schema (the (describe (we_reader env) coll)))) m = Inr vbytes"
proof -
  from assms obtain schema d where s: "enforce_load_schema env coll = Inr schema"
    and g: "enforce_gate ctx Insert schema coll = Inr ()" and d: "stamp_owner ctx schema data = Inr d"
    and r: "insert_record_checked env db coll d (write_policy_check ctx schema Insert) (actor_from_auth_ctx ctx)
      = (Inr p, db', ev)"
    by (auto simp: enforced_insert_def split: sum.splits)
  from r obtain m t0 vbytes where m: "d = JObject m" and np: "\<not> is_protected_collection coll"
    and t0: "describe (we_reader env) coll = Some t0"
    and v: "pre_encode_vectors (s_vector_fields (ct_schema t0)) m = Inr vbytes"
    and f: "finish (with_writer_tx (\<lambda>tx. case describe tx coll of
          None \<Rightarrow> Inl (TxUnknownCollection coll)
        | Some t \<Rightarrow> insert_row_in_tx env tx coll t m vbytes (vector_names (ct_schema t0))
            (write_policy_check ctx schema Insert) (actor_from_auth_ctx ctx)) db)
        (\<lambda>(i, rec). JObject [(''id'', JNumber (jnum_of_int i)), (''record'', JObject rec)])
        (\<lambda>(i, rec). Created rec) = (Inr p, db', ev)"
    by (cases d) (auto simp: insert_record_checked_def split: if_splits option.splits sum.splits)
  from s np have c: "we_cache env coll = Inr (Some schema)"
    by (auto simp: enforce_load_schema_def split: sum.splits option.splits)
  from t0 v have v': "pre_encode_vectors (s_vector_fields (ct_schema (the (describe (we_reader env) coll)))) m = Inr vbytes"
    by simp
  from f show thesis
    by (auto simp: finish_def with_writer_tx_def split: sum.splits option.splits
        intro: that [OF c g d [unfolded m] _ _ _ _ np v'])
qed

lemma enforced_delete_ok:
  assumes "enforced_delete env ctx db coll i = (Inr p, db', ev)"
  obtains schema us where
    "we_cache env coll = Inr (Some schema)" "enforce_gate ctx Delete schema coll = Inr ()"
    "policy_using_sql ctx schema Delete = Inr us"
    "delete_row_in_tx env db coll i (compute_owner_write_filter ctx schema) us (actor_from_auth_ctx ctx) = Inr (1, db')"
    "ev = [Deleted i]" "\<not> is_protected_collection coll"
proof -
  from assms obtain schema us where s: "enforce_load_schema env coll = Inr schema"
    and g: "enforce_gate ctx Delete schema coll = Inr ()" and u: "policy_using_sql ctx schema Delete = Inr us"
    and r: "delete_not_found (delete_record_filtered env db coll i (compute_owner_write_filter ctx schema) us
      (actor_from_auth_ctx ctx)) = (Inr p, db', ev)"
    by (auto simp: enforced_delete_def split: sum.splits)
  obtain r0 db0 ev0 where d: "delete_record_filtered env db coll i (compute_owner_write_filter ctx schema) us
      (actor_from_auth_ctx ctx) = (r0, db0, ev0)"
    by (cases "delete_record_filtered env db coll i (compute_owner_write_filter ctx schema) us (actor_from_auth_ctx ctx)")
  from d show thesis
  proof (cases rule: delete_record_filtered_cases)
    case one
    with r d have e: "db0 = db'" "ev = [Deleted i]" by (auto simp: delete_not_found_def)
    from s one have "we_cache env coll = Inr (Some schema)"
      by (auto simp: enforce_load_schema_def split: sum.splits option.splits)
    with g u one e that show thesis by auto
  qed (use r d in \<open>auto simp: delete_not_found_def not_found_payload_def\<close>)
qed

lemma enforce_gate_ok:
  "enforce_gate ctx verb schema coll = Inr () \<longleftrightarrow>
     \<not> (ctx = Anon \<and> s_owner_field schema \<noteq> None) \<and> has_dml_cap (role_of ctx) verb schema"
  by (auto simp: enforce_gate_def)

text \<open>The rows a table holds at a moment, and the text-or-null owner column they share.\<close>

definition owner_column_text :: "tenant_db \<Rightarrow> string \<Rightarrow> string \<Rightarrow> bool" where
  "owner_column_text db coll f \<longleftrightarrow>
     (\<forall>t j row. describe db coll = Some t \<and> map_of (ct_rows t) j = Some row \<longrightarrow>
        map_of row f = Some Null \<or> (\<exists>s. map_of row f = Some (Text s)))"

text \<open>The rows are filed under their ids.\<close>

definition ids_are_keys :: "tenant_db \<Rightarrow> string \<Rightarrow> bool" where
  "ids_are_keys db coll \<longleftrightarrow>
     (\<forall>t j row. describe db coll = Some t \<and> map_of (ct_rows t) j = Some row \<longrightarrow> map_of row ''id'' = Some (Integer j))"

lemma strip_owner_id:
  "strip_owner ctx schema (JObject m) = JObject m' \<Longrightarrow> map_of m k = None \<Longrightarrow> map_of m' k = None"
  by (auto simp: strip_owner_def map_of_jmap_remove split: auth_ctx.splits option.splits if_splits)

text \<open>
  C3. A user changes only a row of their own, and keeps owning it. When an update under a user's identity
  succeeds on an owner-scoped collection, the row it names belonged to that user. Afterwards the row, under the key \<open>k\<close>, still
  belongs to the user, whatever the request said about the owner column; \<open>k\<close> is the key the row had, unless the
  request assigns the column \<open>id\<close>, and then it is a key no row had, and the old one is gone. Every other row and every
  other table is as it was. (The owner column is not \<open>updated_at\<close> and holds texts or NULL, and the column \<open>id\<close>
  is the primary key, which the engine keeps unique.)
\<close>

theorem user_update_confined:
  assumes "sqlite_keyed (we_sqlite env)" "we_cache env coll = Inr (Some schema)" "s_owner_field schema = Some f"
    and "f \<noteq> ''updated_at''" "owner_column_text db coll f" "ids_are_keys db coll"
    and "enforced_update env (User uid h) db coll i data = (Inr p, db', ev)"
  shows "(\<forall>c. c \<noteq> coll \<longrightarrow> describe db' c = describe db c) \<and>
    (\<exists>t row t' row' k. describe db coll = Some t \<and> map_of (ct_rows t) i = Some row \<and> map_of row f = Some (Text uid) \<and>
       describe db' coll = Some t' \<and> ct_schema t' = ct_schema t \<and>
       map_of (ct_rows t') k = Some row' \<and> map_of row' f = Some (Text uid) \<and>
       (k = i \<or> map_of (ct_rows t) k = None \<and> map_of (ct_rows t') i = None) \<and>
       (\<forall>j. j \<noteq> i \<longrightarrow> j \<noteq> k \<longrightarrow> map_of (ct_rows t') j = map_of (ct_rows t) j) \<and>
       (\<forall>m. data = JObject m \<and> map_of m ''id'' = None \<longrightarrow> k = i))"
  using assms(7)
proof (cases rule: enforced_update_ok)
  case (1 schema' m us vbytes vnames rec)
  then have s: "schema' = schema" using assms(2) by simp
  then have own: "compute_owner_write_filter (User uid h) schema' = Some (f, uid)" using assms(3) by simp
  have m: "map_of m f = None"
    using 1(3) s assms(3) by (cases data) (auto simp: strip_owner_def map_of_jmap_remove)
  note keyed = sqlite_keyed.axioms(1) [OF assms(1)]
  have noid: "map_of m ''id'' = None" if "data = JObject m0 \<and> map_of m0 ''id'' = None" for m0
    using 1(3) that strip_owner_id by blast
  from 1(5) [unfolded own] show ?thesis
  proof (cases rule: update_row_in_tx_ok)
    case (1 t row row' old)
    then have row: "map_of (ct_rows t) i = Some row \<and> map_of row f = Some (Text uid)"
      using sqlite_writer.owner_row_owned [OF keyed, of t i f uid row] assms(5) by (auto simp: owner_column_text_def)
    with 1(1) assms(6) have "map_of row ''id'' = Some (Integer i)" by (auto simp: ids_are_keys_def)
    note upd = sqlite_keyed.updated_rows [OF assms(1) 1(4) conjunct1 [OF row] this refl refl]
    have "map_of row' f = Some (Text uid)"
      using sqlite_writer.update_keeps [OF keyed 1(4)] m assms(4) row by (simp add: map_of_bind_values)
    moreover have "\<forall>m. data = JObject m \<and> map_of m ''id'' = None \<longrightarrow> row_key i row' = i"
    proof (intro allI impI)
      fix m0 assume "data = JObject m0 \<and> map_of m0 ''id'' = None"
      from noid [OF this] upd show "row_key i row' = i" by (simp add: map_of_bind_values)
    qed
    moreover have "describe db' coll = Some (t\<lparr> ct_rows := replace_row i row' (ct_rows t) \<rparr>)"
        "\<forall>c. c \<noteq> coll \<longrightarrow> describe db' c = describe db c"
      using 1 by (simp_all add: describe_put_rows)
    ultimately show ?thesis using 1(1) row upd
      by (intro conjI exI [of _ t] exI [of _ row] exI [of _ "t\<lparr> ct_rows := replace_row i row' (ct_rows t) \<rparr>"] exI [of _ row']
          exI [of _ "row_key i row'"]) simp_all
  qed
qed

text \<open>
  C6. A user deletes only rows of their own: a successful delete on an owner-scoped collection
  removes exactly the named row, which belonged to the caller.
\<close>

theorem user_delete_confined:
  assumes "sqlite_writer (we_sqlite env)" "we_cache env coll = Inr (Some schema)" "s_owner_field schema = Some f"
    and "owner_column_text db coll f"
    and "enforced_delete env (User uid h) db coll i = (Inr p, db', ev)"
  shows "only_row_differs db db' coll i \<and>
    (\<exists>t row t'. describe db coll = Some t \<and> map_of (ct_rows t) i = Some row \<and> map_of row f = Some (Text uid) \<and>
       describe db' coll = Some t' \<and> map_of (ct_rows t') i = None)"
  using assms(5)
proof (cases rule: enforced_delete_ok)
  case (1 schema' us)
  then have own: "compute_owner_write_filter (User uid h) schema' = Some (f, uid)" using assms(2,3) by simp
  have gone: "map_of (filter (\<lambda>(j, _). j \<noteq> i) rows) i = None" for rows :: "(int \<times> db_row) list"
    by (induction rows) auto
  from 1(4) [unfolded own] show ?thesis
  proof (cases rule: delete_row_in_tx_ok)
    case (one t row old)
    then have "map_of (ct_rows t) i = Some row \<and> map_of row f = Some (Text uid)"
      using sqlite_writer.owner_row_owned [OF assms(1), of t i f uid row] assms(4)
      by (auto simp: owner_column_text_def)
    with one show ?thesis
      by (auto simp: map_of_filter_neq gone describe_put_rows intro!: only_row_differs_put)
  qed simp
qed

lemma pre_encode_vectors_keys:
  "pre_encode_vectors vfs data = Inr vbytes \<Longrightarrow> k \<notin> vf_name ` set vfs \<Longrightarrow> map_of vbytes k = None"
  by (induction vfs arbitrary: vbytes) (auto split: option.splits)

text \<open>
  C5. A user cannot create a row for somebody else. When an insert under a user's identity
  succeeds on an owner-scoped collection, exactly one row is added to that collection and
  nothing else changes, and the new row's owner column holds the caller's id, whatever the
  request put there.
\<close>

theorem user_insert_owned:
  assumes "sqlite_writer (we_sqlite env)" "we_cache env coll = Inr (Some schema)" "s_owner_field schema = Some f"
    and "\<And>t. describe db coll = Some t \<Longrightarrow> field_class (ct_schema t) f = Some ''text''"
    and "\<And>t. describe (we_reader env) coll = Some t \<Longrightarrow> \<not> is_vector_field (ct_schema t) f"
    and "enforced_insert env (User uid h) db coll data = (Inr p, db', ev)"
  shows "\<exists>t i row. describe db coll = Some t \<and> map_of row f = Some (Text uid) \<and>
    describe db' coll = Some (t\<lparr> ct_rows := ct_rows t @ [(i, row)] \<rparr>) \<and>
    (\<forall>c. c \<noteq> coll \<longrightarrow> describe db' c = describe db c)"
  using assms(6)
proof (cases rule: enforced_insert_ok)
  case (1 schema' m vbytes vnames t j rec)
  note ok = 1
  then have s: "schema' = schema" using assms(2) by simp
  from ok(3) have m: "map_of m f = Some (JString uid)"
    using s assms(3) by (cases data) (auto simp: stamp_owner_def map_of_jmap_insert)
  from assms(6) obtain t0 where t0: "describe (we_reader env) coll = Some t0"
    by (auto simp: enforced_insert_def insert_record_checked_def split: sum.splits if_splits option.splits)
  then have "f \<notin> vf_name ` set (s_vector_fields (ct_schema t0))"
    using assms(5) by (auto simp: is_vector_field_def list_ex_iff)
  then have "map_of vbytes f = None"
    using ok(9) t0 pre_encode_vectors_keys by simp
  with m have b: "map_of (bind_values (we_to_string env) vbytes m) f = Some (Text uid)"
    by (simp add: map_of_bind_values json_to_sql_value_def)
  from ok(5) show ?thesis
  proof (cases rule: insert_row_in_tx_ok)
    case (1 rowid row)
    have "map_of row f = Some (Text uid)"
      using sqlite_writer.insert_keeps [OF assms(1) 1(1) b] assms(4) ok(4) by simp
    with ok(4) 1(4) show ?thesis by (auto simp: describe_put_rows)
  qed
qed

text \<open>
  C24. Every insert that goes through was allowed and is recorded. The collection is not a
  protected one, the caller's role has the insert capability and is not anonymous on an
  owner-scoped collection, the persisted row passes the CHECK clause of the insert policy for the
  caller, it is what the event carries, and the history grew by exactly one entry, attributed
  to the caller and holding that row, if the collection is audited, and not at all otherwise.
\<close>

theorem insert_allowed_and_recorded:
  assumes "enforced_insert env ctx db coll data = (Inr p, db', ev)"
  shows "\<exists>schema t i rec. we_cache env coll = Inr (Some schema) \<and> describe db coll = Some t \<and>
    \<not> is_protected_collection coll \<and> has_dml_cap (role_of ctx) Insert schema \<and>
    (ctx = Anon \<longrightarrow> s_owner_field schema = None) \<and>
    (\<forall>ast. effective_policy_check ctx schema Insert = Some ast \<longrightarrow> eval_policy (we_regex env) ast rec (with_row ctx rec)) \<and>
    ev = [Created rec] \<and>
    db_history db' = db_history db @ history_entry (s_audit_enabled (ct_schema t)) (s_name (ct_schema t)) HInsert i
      None (Some rec) (actor_from_auth_ctx ctx)"
  using assms
proof (cases rule: enforced_insert_ok)
  case (1 schema m vbytes vnames t i rec)
  from 1(5) show ?thesis
  proof (cases rule: insert_row_in_tx_ok)
    case ins: (1 rowid row)
    have "eval_policy (we_regex env) ast rec (with_row ctx rec)"
      if "effective_policy_check ctx schema Insert = Some ast" for ast
      using ins(3) that by (auto simp: enforce_opt_def write_policy_check_def policy_enforce_def with_row_def split: if_splits)
    with 1 ins(4) show ?thesis
      by (intro exI [of _ schema] exI [of _ t] exI [of _ i] exI [of _ rec]) (auto simp: enforce_gate_ok)
  qed
qed

text \<open>
  C25. Every update that goes through was allowed and is recorded: as for an insert, and the row
  as it was before satisfied the USING clause of the update policy, evaluated inside the same
  transaction.
\<close>

theorem update_allowed_and_recorded:
  assumes "enforced_update env ctx db coll i data = (Inr p, db', ev)"
  shows "\<exists>schema t old rec. we_cache env coll = Inr (Some schema) \<and> describe db coll = Some t \<and>
    \<not> is_protected_collection coll \<and> has_dml_cap (role_of ctx) Update schema \<and>
    (ctx = Anon \<longrightarrow> s_owner_field schema = None) \<and>
    (\<forall>ast. effective_policy_check ctx schema Update = Some ast \<longrightarrow> eval_policy (we_regex env) ast rec (with_row ctx rec)) \<and>
    (\<forall>e b. using_expr ctx schema Update = Some (e, b) \<longrightarrow>
       (\<exists>row. map_of (ct_rows t) i = Some row \<and> sq_where (we_sqlite env) (render e) b row = Inr True)) \<and>
    ev = [Updated rec] \<and>
    db_history db' = db_history db @ history_entry (s_audit_enabled (ct_schema t)) coll HUpdate i old (Some rec)
      (actor_from_auth_ctx ctx)"
  using assms
proof (cases rule: enforced_update_ok)
  case (1 schema m us vbytes vnames rec)
  from 1(5) show ?thesis
  proof (cases rule: update_row_in_tx_ok)
    case upd: (1 t row row' old)
    have "eval_policy (we_regex env) ast rec (with_row ctx rec)"
      if "effective_policy_check ctx schema Update = Some ast" for ast
      using upd(6) that by (auto simp: enforce_opt_def write_policy_check_def policy_enforce_def with_row_def split: if_splits)
    moreover have "\<exists>row. map_of (ct_rows t) i = Some row \<and> sq_where (we_sqlite env) (render e) b row = Inr True"
      if "using_expr ctx schema Update = Some (e, b)" for e b
      using upd(2) policy_using_sql_expr [OF 1(4)] that
      by (auto simp: using_row_def clause_of_def split: option.splits)
    ultimately show ?thesis
      using 1 upd(1,7)
      by (intro exI [of _ schema] exI [of _ t] exI [of _ old] exI [of _ rec]) (auto simp: enforce_gate_ok)
  qed
qed

section \<open>A reference writer\<close>

text \<open>
  An engine that keeps the promises: conditions are recognised by their text, an insert takes the
  next free id and fills the system columns, an update overwrites the assigned columns.
\<close>

definition assign :: "(string \<times> sqlval) list \<Rightarrow> db_row \<Rightarrow> db_row" where
  "assign vals row = map (\<lambda>(c, v). (c, case map_of vals c of Some v' \<Rightarrow> v' | None \<Rightarrow> v)) row"

definition ref_where :: "string \<Rightarrow> sqlval list \<Rightarrow> db_row \<Rightarrow> (bool, db_error) result" where
  "ref_where cond binds row =
     (if binds = [] then
        Inr (list_ex (\<lambda>f. case map_of row f of Some (Text u) \<Rightarrow> cond = owner_condition (f, u) | _ \<Rightarrow> False) (map fst row))
      else Inr True)"

definition ref_insert :: "coll_table \<Rightarrow> (string \<times> sqlval) list \<Rightarrow> (int \<times> db_row, db_error) result" where
  "ref_insert t vals =
     (let i = Max (insert 0 (fst ` set (ct_rows t))) + 1
      in Inr (i, vals @ [(''id'', Integer i), (''created_at'', Text ''now''), (''updated_at'', Text ''now'')]))"

definition ref_update :: "coll_table \<Rightarrow> db_row \<Rightarrow> (string \<times> sqlval) list \<Rightarrow> (db_row, db_error) result" where
  "ref_update t row vals =
     (let row' = assign (vals @ [(''updated_at'', Text ''later'')]) row in
      case (map_of row ''id'', map_of row' ''id'') of
        (Some (Integer i), Some (Integer k)) \<Rightarrow>
          if k \<noteq> i \<and> map_of (ct_rows t) k \<noteq> None then Inl (SqliteFailure 1555 (Some ''UNIQUE constraint failed'')) else Inr row'
      | (_, Some (Integer _)) \<Rightarrow> Inr row'
      | _ \<Rightarrow> Inr row')"

definition ref_sqlite :: sqlite where
  "ref_sqlite = \<lparr> sq_where = ref_where, sq_insert = ref_insert, sq_update = ref_update, sq_delete = (\<lambda>_ _. Inr ()), sq_history = (\<lambda>_. Inr ()),
     sq_pages = (\<lambda>db. Inr 4096), sq_files = (\<lambda>db. Inr 0) \<rparr>"

lemma map_of_assign: "map_of (assign vals row) f =
    map_option (\<lambda>v. case map_of vals f of Some v' \<Rightarrow> v' | None \<Rightarrow> v) (map_of row f)"
  by (induction row) (auto simp: assign_def split: option.splits)

interpretation refw: sqlite_writer ref_sqlite
proof
  fix row :: db_row and f u
  have "(case map_of row g of Some (Text v) \<Rightarrow> owner_condition (f, u) = owner_condition (g, v) | _ \<Rightarrow> False) \<longleftrightarrow>
      g = f \<and> map_of row f = Some (Text u)" for g
    by (auto simp: owner_condition_inj split: option.splits sqlval.splits)
  then have "list_ex (\<lambda>g. case map_of row g of Some (Text v) \<Rightarrow> owner_condition (f, u) = owner_condition (g, v)
      | _ \<Rightarrow> False) (map fst row) \<longleftrightarrow> map_of row f = Some (Text u)"
    by (auto simp: list_ex_iff) (metis fst_conv image_eqI map_of_SomeD)
  then show "sq_where ref_sqlite (owner_condition (f, u)) [] row = Inr (map_of row f = Some (Text u))"
    by (simp add: ref_sqlite_def ref_where_def)
next
  fix t vals i row f u
  assume "sq_insert ref_sqlite t vals = Inr (i, row)" "map_of vals f = Some (Text u)"
  then show "map_of row f = Some (Text u)"
    by (auto simp: ref_sqlite_def ref_insert_def Let_def)
next
  fix t row vals row' f
  assume "sq_update ref_sqlite t row vals = Inr row'" "map_of vals f = None" "f \<noteq> ''updated_at''"
  then show "map_of row' f = map_of row f"
    by (cases "map_of row f")
      (auto simp: ref_sqlite_def ref_update_def Let_def map_of_assign map_add_def split: option.splits sqlval.splits if_splits)
qed

interpretation refk: sqlite_keyed ref_sqlite
proof
  fix t row vals row' i
  assume "sq_update ref_sqlite t row vals = Inr row'" "map_of row ''id'' = Some (Integer i)"
  then show "row_key i row' = i \<or> map_of (ct_rows t) (row_key i row') = None"
    by (auto simp: ref_sqlite_def ref_update_def Let_def row_key_def split: option.splits sqlval.splits if_splits)
qed

definition example_table :: coll_table where
  "example_table = \<lparr> ct_schema = owned_schema\<lparr> s_policies := policies_default\<lparr> cp_insert := Some \<lparr> p_using = None,
        p_check = Some (FLeaf [(''views'', JObject [(''gte'', JNumber (PosInt 0))])]) \<rparr> \<rparr> \<rparr>,
     ct_rows = [(1, [(''id'', Integer 1), (''title'', Text ''u1''), (''views'', Integer 3)]),
                (2, [(''id'', Integer 2), (''title'', Text ''u2''), (''views'', Integer 4)])] \<rparr>"

definition example_db :: tenant_db where
  "example_db = \<lparr> db_tables = [(''notes'', example_table)], db_history = [] \<rparr>"

definition example_env :: write_env where
  "example_env = \<lparr> we_sqlite = ref_sqlite, we_cache = (\<lambda>_. Inr (Some (ct_schema example_table))), we_reader = example_db,
     we_tier = 1, we_regex = like_rx, we_parse_f64 = (\<lambda>_. None), we_to_string = (\<lambda>_. ''json'') \<rparr>"

abbreviation (input) example_user :: auth_ctx where "example_user \<equiv> User ''u1'' ''hash''"

definition example_data :: json where
  "example_data = JObject [(''title'', JString ''u2''), (''views'', JNumber (PosInt 9))]"

lemma example_writes:
  "is_ok (fst (enforced_insert example_env example_user example_db ''notes'' example_data))"
  "is_ok (fst (enforced_update example_env example_user example_db ''notes'' 1 example_data))"
  "is_ok (fst (enforced_delete example_env example_user example_db ''notes'' 1))"
  by code_simp+

lemma example_outcome:
  assumes "is_ok (fst out)"
  obtains p db ev where "out = (Inr p, db, ev)"
  using assms by (cases out) (auto simp: is_ok_iff)

lemma example_env_simps:
  "sqlite_writer (we_sqlite example_env)" "we_cache example_env ''notes'' = Inr (Some (ct_schema example_table))"
  "s_owner_field (ct_schema example_table) = Some ''title''" "we_reader example_env = example_db"
  "describe example_db ''notes'' = Some example_table"
  by (simp_all add: example_env_def refw.sqlite_writer_axioms example_table_def owned_schema_def example_db_def
      describe_def)

lemma example_keyed: "sqlite_keyed (we_sqlite example_env)" "ids_are_keys example_db ''notes''"
  by (auto simp: example_env_def refk.sqlite_keyed_axioms ids_are_keys_def describe_def example_db_def example_table_def split: if_splits)

lemma example_owner_column: "owner_column_text example_db ''notes'' ''title''"
  by (auto simp: owner_column_text_def example_env_simps example_table_def split: if_splits)

theorem user_update_confined_witness:
  "\<exists>p db ev t row. enforced_update example_env example_user example_db ''notes'' 1 example_data = (Inr p, db, ev) \<and>
     describe db ''notes'' = Some t \<and> map_of (ct_rows t) 1 = Some row \<and> map_of row ''title'' = Some (Text ''u1'')"
proof -
  obtain p db ev where e: "enforced_update example_env example_user example_db ''notes'' 1 example_data = (Inr p, db, ev)"
    using example_outcome [OF example_writes(2)] .
  obtain t row k where "describe db ''notes'' = Some t" "map_of (ct_rows t) k = Some row" "map_of row ''title'' = Some (Text ''u1'')"
    and "\<forall>m. example_data = JObject m \<and> map_of m ''id'' = None \<longrightarrow> k = 1"
    using user_update_confined [OF example_keyed(1) example_env_simps(2,3) _ example_owner_column example_keyed(2) e] by auto
  moreover from this(4) have "k = 1" by (simp add: example_data_def)
  ultimately show ?thesis using e by blast
qed

text \<open>
  The key may move: nothing stops a user from assigning the id of their own row. The history entry is filed under the
  key the row had, and the row's later history under the new one.
\<close>

definition keyed_table :: coll_table where
  "keyed_table = example_table\<lparr> ct_schema := (ct_schema example_table)\<lparr> s_fields :=
     \<lparr> f_name = ''id'', f_sql_type = ''INTEGER'', f_nullable = False, f_pk = True,
       f_default_value = None, f_foreign_key = None, f_description = None, f_constraints = None \<rparr> #
     s_fields (ct_schema example_table) \<rparr> \<rparr>"

definition keyed_db :: tenant_db where
  "keyed_db = \<lparr> db_tables = [(''notes'', keyed_table)], db_history = [] \<rparr>"

definition keyed_env :: write_env where
  "keyed_env = example_env\<lparr> we_cache := (\<lambda>_. Inr (Some (ct_schema keyed_table))), we_reader := keyed_db \<rparr>"

theorem update_moves_row:
  "case enforced_update keyed_env example_user keyed_db ''notes'' 1 (JObject [(''id'', JNumber (PosInt 42))]) of
     (Inr _, db, _) \<Rightarrow>
       map (\<lambda>t. map fst (ct_rows t)) (map snd (db_tables db)) = [[42, 2]] \<and> map h_record_id (db_history db) = [1]
   | _ \<Rightarrow> False"
  by code_simp

theorem user_delete_confined_witness:
  "\<exists>p db ev t. enforced_delete example_env example_user example_db ''notes'' 1 = (Inr p, db, ev) \<and>
     describe db ''notes'' = Some t \<and> map_of (ct_rows t) 1 = None"
proof -
  obtain p db ev where "enforced_delete example_env example_user example_db ''notes'' 1 = (Inr p, db, ev)"
    using example_outcome [OF example_writes(3)] .
  with user_delete_confined [OF example_env_simps(1-3) example_owner_column this] show ?thesis by auto
qed

theorem user_insert_owned_witness:
  "\<exists>p db ev i row. enforced_insert example_env example_user example_db ''notes'' example_data = (Inr p, db, ev) \<and>
     describe db ''notes'' = Some (example_table\<lparr> ct_rows := ct_rows example_table @ [(i, row)] \<rparr>) \<and>
     map_of row ''title'' = Some (Text ''u1'')"
proof -
  obtain p db ev where e: "enforced_insert example_env example_user example_db ''notes'' example_data = (Inr p, db, ev)"
    using example_outcome [OF example_writes(1)] .
  have "field_class (ct_schema example_table) ''title'' = Some ''text''"
    "\<not> is_vector_field (ct_schema example_table) ''title''"
    by code_simp+
  with user_insert_owned [OF example_env_simps(1-3) _ _ e] obtain i row where
    "map_of row ''title'' = Some (Text ''u1'')"
    "describe db ''notes'' = Some (example_table\<lparr> ct_rows := ct_rows example_table @ [(i, row)] \<rparr>)"
    by (auto simp: example_env_simps)
  with e show ?thesis by blast
qed

theorem insert_allowed_and_recorded_witness:
  "\<exists>p db ev rec h. enforced_insert example_env example_user example_db ''notes'' example_data = (Inr p, db, ev) \<and>
     ev = [Created rec] \<and> db_history db = [h] \<and> h_new h = Some rec \<and> aa_id (h_actor h) = Some ''u1''"
proof -
  obtain p db ev where "enforced_insert example_env example_user example_db ''notes'' example_data = (Inr p, db, ev)"
    using example_outcome [OF example_writes(1)] .
  with insert_allowed_and_recorded [OF this] show ?thesis
    by (auto simp: example_env_simps history_entry_def)
       (auto simp: example_table_def owned_schema_def example_schema_def example_db_def)
qed

theorem update_allowed_and_recorded_witness:
  "\<exists>p db ev rec h. enforced_update example_env example_user example_db ''notes'' 1 example_data = (Inr p, db, ev) \<and>
     ev = [Updated rec] \<and> db_history db = [h] \<and> h_new h = Some rec \<and> h_op h = ''update''"
proof -
  obtain p db ev where "enforced_update example_env example_user example_db ''notes'' 1 example_data = (Inr p, db, ev)"
    using example_outcome [OF example_writes(2)] .
  with update_allowed_and_recorded [OF this] show ?thesis
    by (auto simp: example_env_simps history_entry_def)
       (auto simp: example_table_def owned_schema_def example_schema_def example_db_def)
qed

text \<open>
  The owner condition, the one place where a caller's identity is spliced into SQL
  text, cannot be broken out of: whatever bytes the column name and the id contain, scanning the
  text ends outside any quotes having met no placeholder, and two conditions have the same text
  only if column and id are the same.
\<close>

theorem owner_condition_quoted:
  "params_in None (owner_condition fu @ rest) = params_in None rest \<and>
   (owner_condition fu = owner_condition gv \<longleftrightarrow> fu = gv)"
  by (simp add: params_in_owner_condition owner_condition_inj)

end
