(* ===== verification/Auth_Cache.thy ===== *)
theory Auth_Cache
  imports Schema "HOL-Library.Word" "HOL-Library.AList"
begin

text \<open>
  The process-local cache of resolved bearers, \<open>tenant/auth_cache.rs\<close>. The map is an
  association list from the hash of a bearer to the instant of insertion and the identity; the
  monotonic clock is an argument. Expiry times are integers on the wall clock. The interface the
  authentication layer relies on is the locale \<open>ttl_cache\<close>: an entry is served for less than
  the safety window after it was put, and every other operation only drops entries.
\<close>

section \<open>Entries\<close>

datatype cached_role = CRAnon | CRService | CRAdminPat int

record tenant_file_caps =
  caps_anon :: "file_verb list"
  caps_user :: "file_verb list"

datatype cached_auth =
    CBearer (ca_tenant: string) (ca_role: cached_role) (ca_publish_user: bool) (ca_publish_anon: bool)
      (ca_email: "string option") (ca_file_caps: tenant_file_caps) (ca_pat_expires: "int option") (ca_tier: int)
  | CUser (ca_tenant: string) (ca_user_id: string) (ca_expires: int) (ca_publish_user: bool)
      (ca_publish_anon: bool) (ca_file_caps: tenant_file_caps) (ca_tier: int)

record auth_cache =
  ac_map :: "(string \<times> int \<times> cached_auth) list"
  safety_ttl :: int
  ac_max_entries :: nat
  ac_hits :: "64 word"
  ac_misses :: "64 word"

section \<open>Operations\<close>

definition cache_new :: "int \<Rightarrow> nat \<Rightarrow> auth_cache" where
  "cache_new ttl cap = \<lparr> ac_map = [], safety_ttl = ttl, ac_max_entries = cap, ac_hits = 0, ac_misses = 0 \<rparr>"

text \<open>\<open>elapsed\<close> saturates at zero.\<close>

definition cache_get :: "auth_cache \<Rightarrow> string \<Rightarrow> int \<Rightarrow> cached_auth option \<times> auth_cache" where
  "cache_get c hash now =
     (let miss = (None, c\<lparr> ac_misses := ac_misses c + 1, ac_map := AList.delete hash (ac_map c) \<rparr>) in
      case map_of (ac_map c) hash of
        Some (ins, auth) \<Rightarrow>
          if max 0 (now - ins) < safety_ttl c then (Some auth, c\<lparr> ac_hits := ac_hits c + 1 \<rparr>) else miss
      | None \<Rightarrow> miss)"

definition cache_insert :: "auth_cache \<Rightarrow> string \<Rightarrow> cached_auth \<Rightarrow> int \<Rightarrow> auth_cache" where
  "cache_insert c hash auth now =
     (let m = (if ac_max_entries c \<le> length (ac_map c) then [] else ac_map c)
      in c\<lparr> ac_map := AList.update hash (now, auth) m \<rparr>)"

definition cache_remove :: "auth_cache \<Rightarrow> string \<Rightarrow> auth_cache" where
  "cache_remove c hash = c\<lparr> ac_map := AList.delete hash (ac_map c) \<rparr>"

definition cache_retain :: "auth_cache \<Rightarrow> (cached_auth \<Rightarrow> bool) \<Rightarrow> auth_cache" where
  "cache_retain c keep = c\<lparr> ac_map := filter (\<lambda>(_, _, auth). keep auth) (ac_map c) \<rparr>"

definition clear_tenant :: "auth_cache \<Rightarrow> string \<Rightarrow> auth_cache" where
  "clear_tenant c tenant = cache_retain c (\<lambda>a. ca_tenant a \<noteq> tenant)"

definition clear_tenant_role :: "auth_cache \<Rightarrow> string \<Rightarrow> cached_role \<Rightarrow> auth_cache" where
  "clear_tenant_role c tenant role =
     cache_retain c (\<lambda>a. case a of
         CBearer t r _ _ _ _ _ _ \<Rightarrow> \<not> (t = tenant \<and> r = role)
       | CUser _ _ _ _ _ _ _ \<Rightarrow> True)"

definition clear_admin_pat :: "auth_cache \<Rightarrow> int \<Rightarrow> auth_cache" where
  "clear_admin_pat c admin =
     cache_retain c (\<lambda>a. case a of
         CBearer _ (CRAdminPat i) _ _ _ _ _ _ \<Rightarrow> i \<noteq> admin
       | _ \<Rightarrow> True)"

definition clear_user :: "auth_cache \<Rightarrow> string \<Rightarrow> auth_cache" where
  "clear_user c uid =
     cache_retain c (\<lambda>a. case a of
         CUser _ u _ _ _ _ _ \<Rightarrow> u \<noteq> uid
       | CBearer _ _ _ _ _ _ _ _ \<Rightarrow> True)"

section \<open>What a cache with a window promises\<close>

definition cache_entry :: "auth_cache \<Rightarrow> string \<Rightarrow> (int \<times> cached_auth) option" where
  "cache_entry c hash = map_of (ac_map c) hash"

definition cache_wf :: "auth_cache \<Rightarrow> bool" where
  "cache_wf c \<longleftrightarrow> distinct (map fst (ac_map c))"

locale ttl_cache =
  fixes entry :: "'c \<Rightarrow> 'k \<Rightarrow> (int \<times> 'v) option"
    and ok :: "'c \<Rightarrow> bool"
    and window :: "'c \<Rightarrow> int"
    and get :: "'c \<Rightarrow> 'k \<Rightarrow> int \<Rightarrow> 'v option \<times> 'c"
    and put :: "'c \<Rightarrow> 'k \<Rightarrow> 'v \<Rightarrow> int \<Rightarrow> 'c"
    and evict :: "'c \<Rightarrow> ('v \<Rightarrow> bool) \<Rightarrow> 'c"
    and forget :: "'c \<Rightarrow> 'k \<Rightarrow> 'c"
  assumes get_hit: "get c k t = (Some v, c') \<Longrightarrow> \<exists>i. entry c k = Some (i, v) \<and> t - i < window c"
    and get_entries: "ok c \<Longrightarrow> entry (snd (get c k t)) k' = Some e \<Longrightarrow> entry c k' = Some e"
    and put_entries: "ok c \<Longrightarrow> entry (put c k v t) k' = Some e \<Longrightarrow>
      (if k' = k then e = (t, v) else entry c k' = Some e)"
    and evict_entries: "ok c \<Longrightarrow> entry (evict c keep) k = Some e \<longleftrightarrow> entry c k = Some e \<and> keep (snd e)"
    and forget_entries: "ok c \<Longrightarrow> entry (forget c k) k' = Some e \<longleftrightarrow> k' \<noteq> k \<and> entry c k' = Some e"
    and ok_ops: "ok c \<Longrightarrow> ok (snd (get c k t)) \<and> ok (put c k v t) \<and> ok (evict c keep) \<and> ok (forget c k)"
    and window_ops: "window (snd (get c k t)) = window c" "window (put c k v t) = window c"
      "window (evict c keep) = window c" "window (forget c k) = window c"
begin

text \<open>
  What is known of every entry, by its key, its time of insertion and its value, is known of
  every value served, and stays known.
\<close>

definition vouched :: "('k \<Rightarrow> int \<Rightarrow> 'v \<Rightarrow> bool) \<Rightarrow> 'c \<Rightarrow> bool" where
  "vouched P c \<longleftrightarrow> ok c \<and> (\<forall>k i v. entry c k = Some (i, v) \<longrightarrow> P k i v)"

lemma vouched_get:
  assumes "vouched P c" "get c k t = (r, c')"
  shows "vouched P c' \<and> (\<forall>v. r = Some v \<longrightarrow> (\<exists>i. P k i v \<and> t - i < window c))"
  using assms get_hit [of c k t _ c'] get_entries [of c k t] ok_ops [of c k t]
  unfolding vouched_def by (cases r) (fastforce simp: assms(2))+

lemma vouched_put: "vouched P c \<Longrightarrow> P k t v \<Longrightarrow> vouched P (put c k v t)"
  unfolding vouched_def using put_entries [of c k v t] ok_ops [of c k t v] by (metis prod.inject)

lemma vouched_evict: "vouched P c \<Longrightarrow> vouched P (evict c keep)"
  unfolding vouched_def by (simp add: evict_entries ok_ops)

lemma vouched_forget: "vouched P c \<Longrightarrow> vouched P (forget c k)"
  unfolding vouched_def by (simp add: forget_entries ok_ops)

lemma vouched_mono: "vouched P c \<Longrightarrow> (\<And>k i v. P k i v \<Longrightarrow> Q k i v) \<Longrightarrow> vouched Q c"
  unfolding vouched_def by blast

end

lemma map_of_filter_values:
  assumes "distinct (map fst m)"
  shows "map_of (filter (\<lambda>(_, v). P v) m) k = Some e \<longleftrightarrow> map_of m k = Some e \<and> P e"
proof -
  have "distinct (map fst (filter (\<lambda>(_, v). P v) m))"
    using assms distinct_map_filter by blast
  then show ?thesis using assms by (auto simp: map_of_eq_Some_iff)
qed

lemma cache_retain_map:
  "ac_map (cache_retain c keep) = filter (\<lambda>(_, v). keep (snd v)) (ac_map c)"
  by (auto simp: cache_retain_def intro: filter_cong)

interpretation authc: ttl_cache cache_entry cache_wf safety_ttl cache_get cache_insert cache_retain cache_remove
proof (unfold_locales, goal_cases)
  case (1 c k t v c')
  then show ?case by (auto simp: cache_get_def cache_entry_def Let_def split: option.splits if_splits)
next
  case (2 c k t k' e)
  then show ?case
    by (auto simp: cache_get_def cache_entry_def Let_def delete_conv restrict_map_def split: option.splits if_splits)
next
  case (3 c k v t k' e)
  then show ?case by (auto simp: cache_insert_def cache_entry_def Let_def update_conv split: if_splits)
next
  case (4 c keep k e)
  then show ?case by (simp add: cache_entry_def cache_wf_def cache_retain_map map_of_filter_values)
next
  case (5 c k k' e)
  then show ?case by (auto simp: cache_entry_def cache_remove_def delete_conv restrict_map_def)
next
  case (6 c k t v keep)
  then show ?case
    by (auto simp: cache_wf_def cache_get_def cache_insert_def cache_remove_def cache_retain_def Let_def
        distinct_delete distinct_update distinct_map_filter split: option.splits)
qed (auto simp: cache_get_def cache_insert_def cache_remove_def cache_retain_def Let_def split: option.splits)

end
