(* ===== verification/Rate_Limit.thy ===== *)
theory Rate_Limit
  imports Prelude
begin

text \<open>
  The limiters of \<open>safety/rate_limit.rs\<close> (a sliding window per bearer) and
  \<open>safety/rate_limit_ip.rs\<close> (a fixed window per address), and the address itself,
  \<open>client_ip\<close> of \<open>safety/ip.rs\<close>. An \<open>Instant\<close> is an integer, and the clock is an argument of
  each operation; durations are integers in the same unit.
\<close>

section \<open>The sliding window\<close>

record rate_limiter =
  budget :: nat
  window :: int
  map_cap :: nat
  buckets :: "(string \<times> int list) list"

definition with_cap :: "nat \<Rightarrow> int \<Rightarrow> nat \<Rightarrow> rate_limiter" where
  "with_cap b w cap = \<lparr> budget = b, window = w, map_cap = cap, buckets = [] \<rparr>"

definition rl_new :: "nat \<Rightarrow> int \<Rightarrow> rate_limiter" where
  "rl_new b w = with_cap b w 10000"

text \<open>Acquired, refused with a time to wait, or the panic of \<open>expect\<close> on an empty queue.\<close>

datatype acquire_result = Acquired | RetryAfter int | AcquirePanic

definition bucket_of :: "rate_limiter \<Rightarrow> string \<Rightarrow> int list" where
  "bucket_of rl key = (case map_of (buckets rl) key of Some q \<Rightarrow> q | None \<Rightarrow> [])"

definition put_queue :: "rate_limiter \<Rightarrow> string \<Rightarrow> int list \<Rightarrow> rate_limiter" where
  "put_queue rl key q = rl\<lparr> buckets := (key, q) # filter (\<lambda>(k, _). k \<noteq> key) (buckets rl) \<rparr>"

definition try_acquire :: "rate_limiter \<Rightarrow> string \<Rightarrow> int \<Rightarrow> acquire_result \<times> rate_limiter" where
  "try_acquire rl key now =
     (let entry = dropWhile (\<lambda>front. now - front \<ge> window rl) (bucket_of rl key) in
      if length entry \<ge> budget rl
      then (case entry of
              [] \<Rightarrow> (AcquirePanic, put_queue rl key entry)
            | oldest # _ \<Rightarrow> (RetryAfter (max (window rl - (now - oldest)) 0), put_queue rl key entry))
      else (Acquired, put_queue rl key (entry @ [now])))"

text \<open>
  One sweep. When the map is still over its cap, the first keys in the map's iteration order
  are dropped; that order is the argument \<open>order\<close>.
\<close>

definition cleanup_once :: "(string list \<Rightarrow> string list) \<Rightarrow> rate_limiter \<Rightarrow> int \<Rightarrow> rate_limiter" where
  "cleanup_once order rl now =
     (let kept = filter (\<lambda>(_, q). q \<noteq> [] \<and> now - last q < window rl) (buckets rl);
          over = length kept - map_cap rl;
          victims = take over (order (map fst kept))
      in rl\<lparr> buckets := filter (\<lambda>(k, _). k \<notin> set victims) kept \<rparr>)"

definition cached_count :: "rate_limiter \<Rightarrow> nat" where
  "cached_count rl = length (buckets rl)"

section \<open>The fixed window\<close>

record 'ip ip_bucket =
  count :: nat
  window_start :: int
  last_seen :: int
  bucket_ip :: 'ip

record 'ip ip_rate_limit =
  ip_buckets :: "'ip ip_bucket list"
  capacity :: nat
  ip_window :: int
  max_entries :: nat

text \<open>\<open>min_by_key\<close> takes the first entry of the least key.\<close>

fun oldest_bucket :: "'ip ip_bucket list \<Rightarrow> 'ip ip_bucket option" where
  "oldest_bucket [] = None"
| "oldest_bucket (b # bs) =
     (case oldest_bucket bs of
        None \<Rightarrow> Some b
      | Some o' \<Rightarrow> if last_seen b \<le> last_seen o' then Some b else Some o')"

definition find_ip :: "'ip \<Rightarrow> 'ip ip_bucket list \<Rightarrow> 'ip ip_bucket option" where
  "find_ip ip bs = find (\<lambda>b. bucket_ip b = ip) bs"

definition ip_check :: "'ip ip_rate_limit \<Rightarrow> 'ip \<Rightarrow> int \<Rightarrow> bool \<times> 'ip ip_rate_limit" where
  "ip_check rl ip now =
     (let m0 = ip_buckets rl;
          m1 = (if length m0 \<ge> max_entries rl \<and> find_ip ip m0 = None
                then (case oldest_bucket m0 of
                        Some o' \<Rightarrow> filter (\<lambda>b. bucket_ip b \<noteq> bucket_ip o') m0
                      | None \<Rightarrow> m0)
                else m0);
          e0 = (case find_ip ip m1 of
                  Some b \<Rightarrow> b
                | None \<Rightarrow> \<lparr> count = 0, window_start = now, last_seen = now, bucket_ip = ip \<rparr>);
          e1 = (if now - window_start e0 \<ge> ip_window rl then e0\<lparr> window_start := now, count := 0 \<rparr> else e0);
          e2 = e1\<lparr> last_seen := now \<rparr>;
          allowed = (count e2 < capacity rl);
          e3 = (if allowed then e2\<lparr> count := Suc (count e2) \<rparr> else e2)
      in (allowed, rl\<lparr> ip_buckets := e3 # filter (\<lambda>b. bucket_ip b \<noteq> ip) m1 \<rparr>))"

section \<open>The client address\<close>

definition TRUSTED_TRAILING_HOPS :: nat where "TRUSTED_TRAILING_HOPS = 1"

text \<open>
  \<open>xff\<close> is the bytes of the first \<open>X-Forwarded-For\<close> header, if there is one; \<open>header_to_str\<close> is
  \<open>HeaderValue::to_str\<close>, which gives a text only if every byte is a tab or visible ASCII; \<open>parse_ip\<close> is the
  parser of \<open>IpAddr\<close>.
\<close>

definition header_to_str :: "string \<Rightarrow> string option" where
  "header_to_str v = (if list_all (\<lambda>c. 32 \<le> byte c \<and> byte c < 127 \<or> byte c = 9) v then Some v else None)"

definition xff_parts :: "string \<Rightarrow> string list" where
  "xff_parts raw = filter (\<lambda>s. s \<noteq> []) (map trim (split_on (CHR '','') raw))"

definition client_ip :: "(string \<Rightarrow> 'ip option) \<Rightarrow> string option \<Rightarrow> 'ip \<Rightarrow> 'ip" where
  "client_ip parse_ip xff socket_ip =
     (case Option.bind xff header_to_str of
        None \<Rightarrow> socket_ip
      | Some raw \<Rightarrow>
          let parts = xff_parts raw in
          if length parts < TRUSTED_TRAILING_HOPS + 1 then socket_ip
          else (case parse_ip (parts ! (length parts - 1 - TRUSTED_TRAILING_HOPS)) of
                  Some ip \<Rightarrow> ip
                | None \<Rightarrow> socket_ip))"

section \<open>The sliding window, specified\<close>

text \<open>
  The specification keeps every granted time and looks at those younger than the window. An
  operation is an acquire or a sweep.
\<close>

datatype rl_event = Acquire string int | Cleanup int

fun event_time :: "rl_event \<Rightarrow> int" where
  "event_time (Acquire _ t) = t"
| "event_time (Cleanup t) = t"

definition recent :: "int \<Rightarrow> int \<Rightarrow> int list \<Rightarrow> int list" where
  "recent w now ts = filter (\<lambda>s. now - s < w) ts"

fun spec_run :: "nat \<Rightarrow> int \<Rightarrow> (string \<Rightarrow> int list) \<Rightarrow> rl_event list \<Rightarrow> acquire_result list" where
  "spec_run b w h [] = []"
| "spec_run b w h (Acquire key now # es) =
     (if length (recent w now (h key)) < b then Acquired # spec_run b w (h(key := h key @ [now])) es
      else RetryAfter (w - (now - hd (recent w now (h key)))) # spec_run b w h es)"
| "spec_run b w h (Cleanup now # es) = spec_run b w h es"

fun limiter_run :: "(string list \<Rightarrow> string list) \<Rightarrow> rate_limiter \<Rightarrow> rl_event list \<Rightarrow> acquire_result list \<times> rate_limiter" where
  "limiter_run order rl [] = ([], rl)"
| "limiter_run order rl (Acquire key now # es) =
     (let (r, rl1) = try_acquire rl key now; (rs, rl2) = limiter_run order rl1 es in (r # rs, rl2))"
| "limiter_run order rl (Cleanup now # es) = limiter_run order (cleanup_once order rl now) es"

text \<open>The keys an event sequence uses; the map never holds more of them.\<close>

definition keys_of :: "rl_event list \<Rightarrow> string set" where
  "keys_of es = {k. \<exists>t. Acquire k t \<in> set es}"

lemma recent_later: "now \<le> later \<Longrightarrow> recent w later (recent w now ts) = recent w later ts"
  by (auto simp: recent_def intro!: filter_cong)

lemma recent_append [simp]: "recent w now (xs @ ys) = recent w now xs @ recent w now ys"
  by (simp add: recent_def)

lemma dropWhile_recent:
  "sorted q \<Longrightarrow> dropWhile (\<lambda>front. now - front \<ge> w) q = recent w now q"
proof (induction q)
  case (Cons x q)
  show ?case
  proof (cases "now - x \<ge> w")
    case False
    then have "\<forall>y \<in> set q. now - y < w" using Cons.prems by auto
    then show ?thesis using False by (simp add: recent_def filter_True)
  qed (use Cons in \<open>simp add: recent_def\<close>)
qed (simp add: recent_def)

lemma recent_stale: "sorted q \<Longrightarrow> q = [] \<or> \<not> now - last q < w \<Longrightarrow> recent w now q = []"
  by (cases q rule: rev_cases) (fastforce simp: recent_def sorted_append filter_empty_conv)+

lemma bucket_of_put [simp]: "bucket_of (put_queue rl key q) k = (if k = key then q else bucket_of rl k)"
proof -
  have "map_of (filter (\<lambda>(k', _). k' \<noteq> key) xs) k = (if k = key then None else map_of xs k)" for xs :: "(string \<times> int list) list"
    by (induction xs) auto
  then show ?thesis by (auto simp: bucket_of_def put_queue_def)
qed

lemma put_queue_keys:
  "distinct (map fst (buckets rl)) \<Longrightarrow> distinct (map fst (buckets (put_queue rl key q)))"
  "fst ` set (buckets (put_queue rl key q)) \<subseteq> insert key (fst ` set (buckets rl))"
  by (auto simp: put_queue_def intro: distinct_map_filter)

lemma bucket_of_cleanup:
  assumes "distinct (map fst (buckets rl))"
    and "length (buckets rl) \<le> map_cap rl"
  shows "bucket_of (cleanup_once order rl now) k =
    (if bucket_of rl k \<noteq> [] \<and> now - last (bucket_of rl k) < window rl then bucket_of rl k else [])"
proof -
  let ?P = "\<lambda>q. q \<noteq> [] \<and> now - last q < window rl"
  have "length (filter (\<lambda>(_, q). ?P q) (buckets rl)) - map_cap rl = 0"
    using assms(2) le_trans [OF length_filter_le] by auto
  then have b: "buckets (cleanup_once order rl now) = filter (\<lambda>(_, q). ?P q) (buckets rl)"
    by (simp add: cleanup_once_def Let_def)
  have "map_of (filter (\<lambda>(_, q). ?P q) xs) k = (case map_of xs k of Some q \<Rightarrow> if ?P q then Some q else None | None \<Rightarrow> None)"
    if "distinct (map fst xs)" for xs
    using that
  proof (induction xs)
    case (Cons x xs)
    have "map_of xs (fst x) = None" using Cons.prems by (simp add: map_of_eq_None_iff)
    with Cons show ?case by (cases x) (auto split: option.splits)
  qed simp
  from this [OF assms(1)] show ?thesis by (auto simp: bucket_of_def b split: option.splits)
qed

text \<open>The limiter and the full history agree on every time that still counts.\<close>

definition rl_sim :: "rate_limiter \<Rightarrow> (string \<Rightarrow> int list) \<Rightarrow> int \<Rightarrow> string set \<Rightarrow> bool" where
  "rl_sim rl h now keys \<longleftrightarrow>
     distinct (map fst (buckets rl)) \<and> fst ` set (buckets rl) \<subseteq> keys \<and>
     (\<forall>k. sorted (bucket_of rl k) \<and> (\<forall>t \<in> set (bucket_of rl k). t \<le> now) \<and>
        recent (window rl) now (bucket_of rl k) = recent (window rl) now (h k))"

lemma rl_sim_later:
  assumes "rl_sim rl h now keys" "now \<le> later"
  shows "rl_sim rl h later keys"
proof -
  have "recent (window rl) later (bucket_of rl k) = recent (window rl) later (h k)" for k
    using assms recent_later [OF assms(2)] by (metis rl_sim_def)
  with assms show ?thesis by (fastforce simp: rl_sim_def)
qed

lemma rl_sim_cleanup:
  assumes "rl_sim rl h now keys" "finite keys" "card keys \<le> map_cap rl"
  shows "rl_sim (cleanup_once order rl now) h now keys"
proof -
  have len: "length (buckets rl) \<le> map_cap rl"
    using assms card_mono [OF assms(2), of "fst ` set (buckets rl)"] distinct_card [of "map fst (buckets rl)"]
    by (simp add: rl_sim_def)
  have d: "distinct (map fst (buckets rl))" using assms(1) by (simp add: rl_sim_def)
  note b = bucket_of_cleanup [OF d len, of order now]
  have "recent (window rl) now (bucket_of (cleanup_once order rl now) k) = recent (window rl) now (bucket_of rl k)" for k
    using recent_stale [of "bucket_of rl k" now "window rl"] assms(1) by (auto simp: rl_sim_def b recent_def [of _ _ "[]"])
  moreover have "window (cleanup_once order rl now) = window rl" "set (buckets (cleanup_once order rl now)) \<subseteq> set (buckets rl)"
    "distinct (map fst (buckets (cleanup_once order rl now)))"
    using d by (auto simp: cleanup_once_def Let_def intro!: distinct_map_filter)
  ultimately show ?thesis
    using assms(1) unfolding rl_sim_def by (auto simp: b split: if_splits)
qed

lemma rl_sim_acquire:
  assumes "rl_sim rl h now keys" "key \<in> keys" "0 < budget rl" "try_acquire rl key now = (r, rl')"
  shows "r = (if length (recent (window rl) now (h key)) < budget rl then Acquired
              else RetryAfter (window rl - (now - hd (recent (window rl) now (h key)))))"
    and "rl_sim rl' (if r = Acquired then h(key := h key @ [now]) else h) now keys"
    and "budget rl' = budget rl" "window rl' = window rl" "map_cap rl' = map_cap rl"
proof -
  let ?q = "recent (window rl) now (h key)"
  have q: "dropWhile (\<lambda>front. now - front \<ge> window rl) (bucket_of rl key) = ?q"
    using assms(1) dropWhile_recent by (simp add: rl_sim_def)
  have old: "now - hd ?q < window rl" if "?q \<noteq> []" using hd_in_set [OF that] by (simp add: recent_def)
  have sq: "sorted ?q" "\<forall>t \<in> set ?q. t \<le> now" "recent (window rl) now ?q = ?q"
  proof -
    have e: "?q = recent (window rl) now (bucket_of rl key)" and b: "sorted (bucket_of rl key)" "\<forall>t \<in> set (bucket_of rl key). t \<le> now"
      using assms(1) by (simp_all add: rl_sim_def)
    show "sorted ?q" "\<forall>t \<in> set ?q. t \<le> now" unfolding e using b by (auto simp: recent_def sorted_wrt_filter)
    show "recent (window rl) now ?q = ?q" by (simp add: recent_later)
  qed
  have put: "rl_sim (put_queue rl key x) h' now keys"
    if "sorted x" "\<forall>t \<in> set x. t \<le> now" "recent (window rl) now x = recent (window rl) now (h' key)"
      "\<forall>k. k \<noteq> key \<longrightarrow> h' k = h k" for x h'
  proof -
    have "window (put_queue rl key x) = window rl" by (simp add: put_queue_def)
    moreover have "distinct (map fst (buckets (put_queue rl key x)))" "fst ` set (buckets (put_queue rl key x)) \<subseteq> keys"
      using put_queue_keys [of rl key x] assms(1,2) by (auto simp: rl_sim_def)
    ultimately show ?thesis using assms(1) that by (simp add: rl_sim_def)
  qed
  show "r = (if length ?q < budget rl then Acquired else RetryAfter (window rl - (now - hd ?q)))"
    using assms(3,4) old unfolding try_acquire_def Let_def q by (auto split: if_splits list.splits)
  show "rl_sim rl' (if r = Acquired then h(key := h key @ [now]) else h) now keys"
  proof (cases "length ?q < budget rl")
    case True
    then have "r = Acquired" "rl' = put_queue rl key (?q @ [now])"
      using assms(4) unfolding try_acquire_def Let_def q by auto
    then show ?thesis using sq put [of "?q @ [now]" "h(key := h key @ [now])"] by (simp add: sorted_append)
  next
    case False
    then have "r \<noteq> Acquired" "rl' = put_queue rl key ?q"
      using assms(4) unfolding try_acquire_def Let_def q by (auto split: list.splits)
    then show ?thesis using sq put [of ?q h] by simp
  qed
  show "budget rl' = budget rl" "window rl' = window rl" "map_cap rl' = map_cap rl"
    using assms(4) unfolding try_acquire_def Let_def by (auto simp: put_queue_def split: if_splits list.splits)
qed

lemma limiter_refines_from:
  assumes "rl_sim rl h now keys" "finite keys" "card keys \<le> map_cap rl" "0 < budget rl"
    and "sorted (now # map event_time es)" "keys_of es \<subseteq> keys"
  shows "fst (limiter_run order rl es) = spec_run (budget rl) (window rl) h es"
  using assms
proof (induction es arbitrary: rl h now)
  case (Cons e es)
  have tl: "sorted (event_time e # map event_time es)" "keys_of es \<subseteq> keys" "now \<le> event_time e"
    using Cons.prems by (auto simp: keys_of_def)
  have sim: "rl_sim rl h (event_time e) keys" using rl_sim_later [OF Cons.prems(1) tl(3)] .
  show ?case
  proof (cases e)
    case (Acquire key t)
    obtain r rl' where r: "try_acquire rl key t = (r, rl')" by fastforce
    have k: "key \<in> keys" using Cons.prems(6) Acquire by (auto simp: keys_of_def)
    note ac = rl_sim_acquire [OF sim [unfolded Acquire event_time.simps] k Cons.prems(4) r]
    show ?thesis
      using Cons.IH [OF ac(2) Cons.prems(2) _ _ _ tl(2)] Cons.prems(3,4) tl(1) ac(1,3-5) Acquire r
      by (auto simp: Let_def split: prod.splits)
  next
    case (Cleanup t)
    have "budget (cleanup_once order rl t) = budget rl" "window (cleanup_once order rl t) = window rl"
      "map_cap (cleanup_once order rl t) = map_cap rl"
      by (simp_all add: cleanup_once_def Let_def)
    with Cleanup Cons.IH [OF rl_sim_cleanup [OF sim Cons.prems(2,3), of order] Cons.prems(2) _ _ tl(1,2)] Cons.prems(3,4)
    show ?thesis by simp
  qed
qed simp

lemma xff_parts_append: "xff_parts (a @ CHR '','' # b) = xff_parts a @ xff_parts b"
  by (simp add: xff_parts_def split_on_append)

text \<open>
  The per-address limiter: one bucket per address, never more than the map may hold, and never
  more grants in a bucket's window than its capacity.
\<close>

definition ip_ok :: "'ip ip_rate_limit \<Rightarrow> bool" where
  "ip_ok rl \<longleftrightarrow> distinct (map bucket_ip (ip_buckets rl)) \<and> length (ip_buckets rl) \<le> max 1 (max_entries rl) \<and>
     (\<forall>b \<in> set (ip_buckets rl). count b \<le> capacity rl)"

lemma oldest_bucket_mem: "oldest_bucket bs = Some b \<Longrightarrow> b \<in> set bs"
  by (induction bs arbitrary: b) (auto split: option.splits if_splits)

lemma oldest_bucket_None: "oldest_bucket bs = None \<longleftrightarrow> bs = []"
  by (cases bs) (auto split: option.splits)

lemma length_filter_drop: "b \<in> set bs \<Longrightarrow> \<not> P b \<Longrightarrow> length (filter P bs) < length bs"
  by (rule length_filter_less)

lemma ip_check_ok:
  assumes "ip_ok rl" "ip_check rl ip now = (allowed, rl')"
  shows "ip_ok rl'"
proof -
  define m0 where "m0 = ip_buckets rl"
  define m1 where "m1 = (if length m0 \<ge> max_entries rl \<and> find_ip ip m0 = None
      then (case oldest_bucket m0 of Some o' \<Rightarrow> filter (\<lambda>b. bucket_ip b \<noteq> bucket_ip o') m0 | None \<Rightarrow> m0) else m0)"
  have sub: "set m1 \<subseteq> set m0" "distinct (map bucket_ip m1)"
    using assms(1) by (auto simp: m1_def m0_def ip_ok_def distinct_map_filter split: option.splits)
  have len: "length (filter (\<lambda>b. bucket_ip b \<noteq> ip) m1) < max 1 (max_entries rl)"
  proof (cases "find_ip ip m0 = None")
    case True
    then have "length m1 < max 1 (max_entries rl)"
      using assms(1) oldest_bucket_mem [of m0] oldest_bucket_None [of m0]
      by (auto simp: m1_def m0_def [symmetric] ip_ok_def split: option.splits
          dest!: length_filter_drop [where P = "\<lambda>b. bucket_ip b \<noteq> x" for x])
    then show ?thesis using le_less_trans [OF length_filter_le] by blast
  next
    case False
    then obtain b where "b \<in> set m0" "bucket_ip b = ip" by (auto simp: find_ip_def find_None_iff)
    then have "length (filter (\<lambda>b. bucket_ip b \<noteq> ip) m0) < length m0" by (intro length_filter_less [of b]) auto
    then show ?thesis using False assms(1) by (auto simp: m1_def m0_def ip_ok_def)
  qed
  have "\<exists>e. ip_buckets rl' = e # filter (\<lambda>b. bucket_ip b \<noteq> ip) m1 \<and> bucket_ip e = ip \<and> count e \<le> capacity rl"
  proof -
    have "bucket_ip b = ip \<and> count b \<le> capacity rl" if "find_ip ip m1 = Some b" for b
    proof -
      have "b \<in> set m1" "bucket_ip b = ip" using that by (auto simp: find_ip_def find_Some_iff)
      with sub(1) assms(1) show ?thesis by (auto simp: ip_ok_def m0_def)
    qed
    then show ?thesis
      using assms(2) unfolding ip_check_def Let_def m0_def [symmetric] m1_def [symmetric]
      by (auto split: option.splits if_splits)
  qed
  moreover have "capacity rl' = capacity rl" "max_entries rl' = max_entries rl"
    using assms(2) by (auto simp: ip_check_def Let_def)
  ultimately show ?thesis
    using sub len assms(1) by (auto simp: ip_ok_def m0_def intro: distinct_map_filter)
qed

section \<open>Properties\<close>

text \<open>
  C22. The rate limiter is a sliding window. For any sequence of requests under any keys, at
  non-decreasing times, with sweeps in between, and as long as no more keys are in use than the
  map may hold, each request is granted exactly when fewer than the budget were granted to its
  key during the window that ends at it, and a refusal tells the exact time until the oldest
  of them leaves the window. The queues and the sweeps lose nothing that counts.
\<close>

theorem rate_limiter_refines_window:
  assumes "0 < b" "sorted (map event_time es)" "card (keys_of es) \<le> cap"
  shows "fst (limiter_run order (with_cap b w cap) es) = spec_run b w (\<lambda>_. []) es"
proof (cases es)
  case (Cons e es')
  have fin: "finite (keys_of es)"
    by (rule finite_subset [of _ "(\<lambda>e. case e of Acquire k _ \<Rightarrow> k | Cleanup _ \<Rightarrow> []) ` set es"])
       (force simp: keys_of_def)+
  have "rl_sim (with_cap b w cap) (\<lambda>_. []) (event_time e) (keys_of es)"
    by (simp add: rl_sim_def with_cap_def bucket_of_def)
  from limiter_refines_from [OF this fin, of es order] assms Cons show ?thesis
    by (simp add: with_cap_def)
qed simp

theorem rate_limiter_refines_window_witness:
  "fst (limiter_run (\<lambda>ks. ks) (with_cap 2 10 4)
      [Acquire ''k'' 0, Acquire ''k'' 3, Acquire ''k'' 4, Cleanup 9, Acquire ''k'' 10]) =
    [Acquired, Acquired, RetryAfter 6, Acquired]"
proof -
  let ?es = "[Acquire ''k'' 0, Acquire ''k'' 3, Acquire ''k'' 4, Cleanup 9, Acquire ''k'' 10]"
  have "keys_of ?es \<subseteq> {''k''}" by (auto simp: keys_of_def)
  then have "card (keys_of ?es) \<le> 4" using card_mono [of "{''k''}" "keys_of ?es"] by simp
  then have "fst (limiter_run (\<lambda>ks. ks) (with_cap 2 10 4) ?es) = spec_run 2 10 (\<lambda>_. []) ?es"
    using rate_limiter_refines_window [of 2 ?es 4 "\<lambda>ks. ks" 10] by simp
  then show ?thesis by (simp add: recent_def)
qed

text \<open>
  C23. Nothing the client writes becomes the address it is limited by. Let the trusted proxies append their two
  entries, in visible ASCII, to whatever bytes the client put in \<open>X-Forwarded-For\<close>. Then the address is the one the
  outer proxy recorded, except that it is the socket peer's when that entry does not parse, or when
  the client's part has a byte that is not visible ASCII; so all the client chooses is which of the two it is.
\<close>

theorem client_ip_unforgeable:
  assumes "xff_parts appended = [client, proxy]" "header_to_str appended \<noteq> None"
  shows "client_ip parse_ip (Some (forged @ CHR '','' # appended)) socket_ip =
    (case (header_to_str forged, parse_ip client) of (Some _, Some ip) \<Rightarrow> ip | _ \<Rightarrow> socket_ip)"
proof -
  have "xff_parts (forged @ CHR '','' # appended) = xff_parts forged @ [client, proxy]"
    using assms by (simp add: xff_parts_append)
  moreover have "header_to_str (forged @ CHR '','' # appended) =
      map_option (\<lambda>_. forged @ CHR '','' # appended) (header_to_str forged)"
    using assms(2) by (auto simp: header_to_str_def byte_def split: if_splits)
  ultimately show ?thesis
    by (simp add: client_ip_def TRUSTED_TRAILING_HOPS_def Let_def nth_append split: option.splits)
qed

theorem client_ip_unforgeable_witness:
  "client_ip (\<lambda>s. Some s) (Some ''9.9.9.9, 1.2.3.4 , 10.0.0.1'') ''peer'' = ''1.2.3.4'' \<and>
   client_ip (\<lambda>s. Some s) (Some (char_of (200::nat) # '', 1.2.3.4 , 10.0.0.1'')) ''peer'' = ''peer''"
proof -
  have a: "xff_parts '' 1.2.3.4 , 10.0.0.1'' = [''1.2.3.4'', ''10.0.0.1'']" "header_to_str '' 1.2.3.4 , 10.0.0.1'' \<noteq> None"
    and f: "header_to_str ''9.9.9.9'' = Some ''9.9.9.9''" "header_to_str [char_of (200::nat)] = None" by code_simp+
  from client_ip_unforgeable [OF a, of "\<lambda>s. Some s" "''9.9.9.9''" "''peer''"]
    client_ip_unforgeable [OF a, of "\<lambda>s. Some s" "[char_of (200::nat)]" "''peer''"] f
  show ?thesis by simp
qed

text \<open>
  The fallback that the client controls: one byte outside visible ASCII moves a client from its own bucket to
  the one of the socket peer, which everybody behind the proxy shares; the comment lists two fallbacks, both of which warn,
  and this is a third that does not.
\<close>

lemma client_picks_peer_bucket:
  "(b :: nat) \<ge> 127 \<Longrightarrow> b < 256 \<Longrightarrow> client_ip parse_ip (Some (char_of b # rest)) socket_ip = socket_ip"
  by (simp add: client_ip_def header_to_str_def byte_def)

text \<open>A budget of zero is not a closed gate: the first request panics.\<close>

lemma zero_budget_panics: "fst (try_acquire (with_cap 0 w cap) key now) = AcquirePanic"
  by (simp add: try_acquire_def with_cap_def bucket_of_def)

end
