(* ===== verification/Machine_Int.thy ===== *)
theory Machine_Int
  imports Complex_Main
begin

text \<open>
  Rust's \<open>i64\<close> as integers with the range written out: the wrapping operations of a release
  build, the saturating ones, and the cast of a \<open>u64\<close>. A result in range is the mathematical
  one, which is what the component proofs use.
\<close>

named_theorems i64_simps \<open>the i64 operations on values in range\<close>

definition i64_wrap :: "int \<Rightarrow> int" where
  "i64_wrap x = (x + 2 ^ 63) mod 2 ^ 64 - 2 ^ 63"

definition i64_sat :: "int \<Rightarrow> int" where
  "i64_sat x = max (- (2 ^ 63)) (min (2 ^ 63 - 1) x)"

text \<open>\<open>n as i64\<close> for a \<open>u64\<close>, and \<open>u64::saturating_sub\<close>.\<close>

definition u64_as_i64 :: "int \<Rightarrow> int" where
  "u64_as_i64 n = i64_wrap n"

definition u64_saturating_sub :: "int \<Rightarrow> int \<Rightarrow> int" where
  "u64_saturating_sub a b = max (a - b) 0"

text \<open>Integer division truncates towards zero.\<close>

definition i64_div :: "int \<Rightarrow> int \<Rightarrow> int" where
  "i64_div a b = sgn a * sgn b * (\<bar>a\<bar> div \<bar>b\<bar>)"

definition in_i64 :: "int \<Rightarrow> bool" where
  "in_i64 x \<longleftrightarrow> - (2 ^ 63) \<le> x \<and> x < 2 ^ 63"

lemma i64_wrap_id [i64_simps]: "in_i64 x \<Longrightarrow> i64_wrap x = x"
  by (simp add: i64_wrap_def in_i64_def)

lemma i64_sat_id [i64_simps]: "in_i64 x \<Longrightarrow> i64_sat x = x"
  by (simp add: i64_sat_def in_i64_def)

lemma i64_div_pos [i64_simps]: "0 \<le> a \<Longrightarrow> 0 < b \<Longrightarrow> i64_div a b = a div b"
  by (cases "a = 0") (simp_all add: i64_div_def)

lemma in_i64_range: "in_i64 (i64_wrap x)" "in_i64 (i64_sat x)"
  by (auto simp: in_i64_def i64_wrap_def i64_sat_def)

end
