(* ===== verification/Room_Policy.thy ===== *)
theory Room_Policy
  imports Schema Machine_Int
begin

text \<open>
  The gates of the broadcast rooms, \<open>tenant/rooms/policy.rs\<close>, with the error codes of
  \<open>tenant/rooms/envelope.rs\<close> and the configuration of \<open>tenant/rooms/state.rs\<close>: room names, the
  publish authorization, the payload cap and the per-tenant token bucket. A \<open>u64\<close> of
  milliseconds is a non-negative integer; the clock is an argument of the operations.
\<close>

section \<open>Codes\<close>

definition WS_PUBLISH_USER_DENIED :: string where "WS_PUBLISH_USER_DENIED = ''WS_PUBLISH_USER_DENIED''"
definition WS_PUBLISH_ANON_DENIED :: string where "WS_PUBLISH_ANON_DENIED = ''WS_PUBLISH_ANON_DENIED''"
definition ROOM_NAME_INVALID :: string where "ROOM_NAME_INVALID = ''ROOM_NAME_INVALID''"
definition PROTECTED_ROOM :: string where "PROTECTED_ROOM = ''PROTECTED_ROOM''"
definition PAYLOAD_TOO_LARGE :: string where "PAYLOAD_TOO_LARGE = ''PAYLOAD_TOO_LARGE''"
definition RATE_LIMITED :: string where "RATE_LIMITED = ''RATE_LIMITED''"
definition ROOM_FULL :: string where "ROOM_FULL = ''ROOM_FULL''"
definition CLIENT_ROOM_MAX :: string where "CLIENT_ROOM_MAX = ''CLIENT_ROOM_MAX''"
definition MALFORMED_FRAME :: string where "MALFORMED_FRAME = ''MALFORMED_FRAME''"
definition LAGGED :: string where "LAGGED = ''LAGGED''"
definition CONN_EVICTED :: string where "CONN_EVICTED = ''CONN_EVICTED''"
definition CONN_EXPIRED :: string where "CONN_EXPIRED = ''CONN_EXPIRED''"

section \<open>Room names\<close>

definition room_char :: "char \<Rightarrow> bool" where
  "room_char c = (is_ascii_alphanumeric c \<or> c \<in> set ''_:.-'')"

definition validate_room_name :: "string \<Rightarrow> (unit, string) result" where
  "validate_room_name name =
     (if name = [] then Inl ROOM_NAME_INVALID
      else if starts_with name ''_system_'' then Inl PROTECTED_ROOM
      else if length name > 128 then Inl ROOM_NAME_INVALID
      else if \<not> is_ascii_alphabetic (hd name) then Inl ROOM_NAME_INVALID
      else if \<not> list_all room_char (tl name) then Inl ROOM_NAME_INVALID
      else Inr ())"

section \<open>Publish authorization and payload size\<close>

record tenant_publish_policy =
  allow_user :: bool
  allow_anon :: bool

datatype publish_gate = Allow | DenyUser | DenyAnon

fun check_publish_allowed :: "auth_ctx \<Rightarrow> tenant_publish_policy \<Rightarrow> publish_gate" where
  "check_publish_allowed (Service _) policy = Allow"
| "check_publish_allowed (User _ _) policy = (if allow_user policy then Allow else DenyUser)"
| "check_publish_allowed Anon policy = (if allow_anon policy then Allow else DenyAnon)"

definition check_payload_size :: "nat \<Rightarrow> nat \<Rightarrow> (unit, string) result" where
  "check_payload_size len max_bytes = (if len > max_bytes then Inl PAYLOAD_TOO_LARGE else Inr ())"

section \<open>Configuration\<close>

definition KEEPALIVE_MIN_SECS :: nat where "KEEPALIVE_MIN_SECS = 1"
definition KEEPALIVE_MAX_SECS :: nat where "KEEPALIVE_MAX_SECS = 300"

definition clamp_keepalive_secs :: "nat \<Rightarrow> nat" where
  "clamp_keepalive_secs raw = max KEEPALIVE_MIN_SECS (min KEEPALIVE_MAX_SECS raw)"

datatype keepalive_notice = Silent | Clamped (kn_raw: nat) (kn_applied: nat) | Unparseable string nat

abbreviation parse_u64 :: "string \<Rightarrow> nat option" where
  "parse_u64 \<equiv> parse_unsigned 64"

definition resolve_keepalive_secs :: "string option \<Rightarrow> nat \<times> keepalive_notice" where
  "resolve_keepalive_secs raw =
     (case raw of
        None \<Rightarrow> (30, Silent)
      | Some s \<Rightarrow>
          if trim s = [] then (30, Silent)
          else (case parse_u64 s of
              Some n \<Rightarrow>
                (let applied = clamp_keepalive_secs n
                 in if applied = n then (applied, Silent) else (applied, Clamped n applied))
            | None \<Rightarrow> (30, Unparseable s 30)))"

record rooms_config =
  publish_qps :: int
  payload_max_bytes :: nat
  room_subscriber_max :: nat
  client_room_max :: nat
  sweeper_interval_secs :: nat
  keepalive_secs :: nat

section \<open>The publish bucket\<close>

text \<open>Tokens are scaled by 1000, so that a millisecond refills \<open>max_tokens\<close> of them.\<close>

record bucket_state =
  tokens :: int
  last_refill_ms :: int

record publish_bucket =
  inner :: "(string \<times> bucket_state) list"
  max_tokens :: int

definition bucket_new :: "int \<Rightarrow> publish_bucket" where
  "bucket_new m = \<lparr> inner = [], max_tokens = max m 0 \<rparr>"

definition put_bucket :: "publish_bucket \<Rightarrow> string \<Rightarrow> bucket_state \<Rightarrow> publish_bucket" where
  "put_bucket b tenant g = b\<lparr> inner := (tenant, g) # filter (\<lambda>(t, _). t \<noteq> tenant) (inner b) \<rparr>"

text \<open>The error carries the wait in milliseconds.\<close>

definition try_consume :: "publish_bucket \<Rightarrow> string \<Rightarrow> int \<Rightarrow> (unit, int) result \<times> publish_bucket" where
  "try_consume b tenant now_ms =
     (if max_tokens b = 0 then (Inr (), b)
      else
        let capacity_scaled = i64_sat (max_tokens b * 1000);
            g = (case map_of (inner b) tenant of
                   Some g \<Rightarrow> g
                 | None \<Rightarrow> \<lparr> tokens = capacity_scaled, last_refill_ms = now_ms \<rparr>);
            elapsed_ms = u64_as_i64 (u64_saturating_sub now_ms (last_refill_ms g));
            refill_scaled = i64_sat (elapsed_ms * max_tokens b);
            after_refill = min (i64_wrap (tokens g + refill_scaled)) capacity_scaled
        in if after_refill < 1000
           then let deficit = i64_wrap (1000 - after_refill);
                    wait_ms = i64_div (i64_wrap (deficit + max_tokens b - 1)) (max_tokens b)
                in (Inl (max wait_ms 1),
                    put_bucket b tenant \<lparr> tokens = after_refill, last_refill_ms = now_ms \<rparr>)
           else (Inr (), put_bucket b tenant \<lparr> tokens = after_refill - 1000, last_refill_ms = now_ms \<rparr>))"

section \<open>Lemmas\<close>

lemma validate_room_name_ok:
  "validate_room_name name = Inr () \<longleftrightarrow>
     name \<noteq> [] \<and> length name \<le> 128 \<and> is_ascii_alphabetic (hd name) \<and> list_all room_char (tl name)"
proof -
  have "starts_with name ''_system_'' \<Longrightarrow> name \<noteq> [] \<Longrightarrow> \<not> is_ascii_alphabetic (hd name)"
    by (auto simp: starts_with_def is_ascii_alphabetic_def byte_def prefix_def)
  then show ?thesis by (auto simp: validate_room_name_def)
qed

lemma resolve_keepalive_bounds: "1 \<le> fst (resolve_keepalive_secs raw) \<and> fst (resolve_keepalive_secs raw) \<le> 300"
  by (auto simp: resolve_keepalive_secs_def clamp_keepalive_secs_def KEEPALIVE_MIN_SECS_def KEEPALIVE_MAX_SECS_def
      Let_def split: option.splits)

text \<open>
  A sequence of publishes by any tenants, in the order in which they take the lock, each with what the clock read
  before it: the readings need not be in order.
\<close>

fun consume_run :: "publish_bucket \<Rightarrow> (string \<times> int) list \<Rightarrow> (unit, int) result list \<times> publish_bucket" where
  "consume_run b [] = ([], b)"
| "consume_run b ((tenant, now) # es) =
     (let (r, b1) = try_consume b tenant now; (rs, b2) = consume_run b1 es in (r # rs, b2))"

definition granted :: "string \<Rightarrow> (string \<times> int) list \<Rightarrow> (unit, int) result list \<Rightarrow> nat" where
  "granted tenant es rs = length (filter (\<lambda>(e, r). fst e = tenant \<and> is_ok r) (zip es rs))"

text \<open>
  The tokens a tenant has when the clock reads \<open>now\<close>, refill included (a clock that stepped back refills
  nothing), and the well-formed buckets: levels between 0 and the capacity, refilled at readings of the clock.
\<close>

definition bucket_level :: "publish_bucket \<Rightarrow> string \<Rightarrow> int \<Rightarrow> int" where
  "bucket_level b tenant now =
     (case map_of (inner b) tenant of
        None \<Rightarrow> max_tokens b * 1000
      | Some g \<Rightarrow> min (max_tokens b * 1000) (tokens g + max (now - last_refill_ms g) 0 * max_tokens b))"

definition bucket_ok :: "publish_bucket \<Rightarrow> int \<Rightarrow> bool" where
  "bucket_ok b t_max \<longleftrightarrow>
     (\<forall>tenant g. map_of (inner b) tenant = Some g \<longrightarrow>
        0 \<le> tokens g \<and> tokens g \<le> max_tokens b * 1000 \<and> 0 \<le> last_refill_ms g \<and> last_refill_ms g \<le> t_max)"

text \<open>The range in which no step of the arithmetic saturates or wraps.\<close>

definition bucket_range :: "publish_bucket \<Rightarrow> int \<Rightarrow> bool" where
  "bucket_range b t_max \<longleftrightarrow> 0 < max_tokens b \<and> 0 \<le> t_max \<and> max_tokens b * (t_max + 1000) < 2 ^ 63"

lemma map_of_put_bucket [simp]:
  "map_of (inner (put_bucket b t g)) u = (if u = t then Some g else map_of (inner b) u)"
  "max_tokens (put_bucket b t g) = max_tokens b"
proof -
  have "map_of (filter (\<lambda>(t', _). t' \<noteq> t) xs) u = (if u = t then None else map_of xs u)" for xs :: "(string \<times> bucket_state) list"
    by (induction xs) auto
  then show "map_of (inner (put_bucket b t g)) u = (if u = t then Some g else map_of (inner b) u)"
    "max_tokens (put_bucket b t g) = max_tokens b"
    by (auto simp: put_bucket_def)
qed

lemma bucket_range_arith:
  assumes "bucket_range b t_max" "0 \<le> d" "d \<le> t_max"
  shows "d < 2 ^ 63" "d * max_tokens b \<ge> 0" "max_tokens b * 1000 + d * max_tokens b < 2 ^ 63"
proof -
  let ?m = "max_tokens b"
  have m: "1 \<le> ?m" "?m * t_max + ?m * 1000 < 2 ^ 63" using assms(1) by (auto simp: bucket_range_def algebra_simps)
  have "d * ?m \<le> ?m * t_max" using assms(2,3) m by (simp add: mult.commute mult_left_mono)
  with m(2) show "?m * 1000 + d * ?m < 2 ^ 63" by linarith
  show "d * ?m \<ge> 0" using assms(2) m by simp
  have "d * 1 \<le> d * ?m" using assms(2) m by (intro mult_left_mono) auto
  with \<open>?m * 1000 + d * ?m < 2 ^ 63\<close> m show "d < 2 ^ 63" by linarith
qed

lemma try_consume_level:
  assumes "bucket_range b t_max" "bucket_ok b t_max" "0 \<le> now" "now \<le> t_max"
  shows "try_consume b t now =
    (if bucket_level b t now < 1000
     then (Inl (max ((1000 - bucket_level b t now + max_tokens b - 1) div max_tokens b) 1),
           put_bucket b t \<lparr> tokens = bucket_level b t now, last_refill_ms = now \<rparr>)
     else (Inr (), put_bucket b t \<lparr> tokens = bucket_level b t now - 1000, last_refill_ms = now \<rparr>))"
proof -
  let ?m = "max_tokens b"
  let ?cap = "?m * 1000"
  define g where "g = (case map_of (inner b) t of Some g \<Rightarrow> g | None \<Rightarrow> \<lparr> tokens = ?cap, last_refill_ms = now \<rparr>)"
  have m: "1 \<le> ?m" using assms(1) by (simp add: bucket_range_def)
  have g: "0 \<le> tokens g" "tokens g \<le> ?cap" "0 \<le> last_refill_ms g" "last_refill_ms g \<le> t_max"
    using assms(2-4) m by (auto simp: g_def bucket_ok_def split: option.splits)
  define d where "d = max (now - last_refill_ms g) 0"
  have d: "0 \<le> d" "d \<le> t_max" using g assms(3,4) by (auto simp: d_def)
  note ar = bucket_range_arith [OF assms(1) d]
  have lvl: "bucket_level b t now = min ?cap (tokens g + d * ?m)"
    using m by (auto simp: bucket_level_def g_def d_def split: option.splits)
  have cap: "i64_sat ?cap = ?cap" using ar m by (intro i64_sat_id) (auto simp: in_i64_def)
  have el: "u64_as_i64 (u64_saturating_sub now (last_refill_ms g)) = d"
    using d ar(1) by (simp add: u64_as_i64_def u64_saturating_sub_def d_def i64_wrap_id in_i64_def)
  have sat: "i64_sat (d * ?m) = d * ?m" using ar m by (intro i64_sat_id) (auto simp: in_i64_def)
  have wrap: "i64_wrap (tokens g + d * ?m) = tokens g + d * ?m"
    using g ar by (intro i64_wrap_id) (auto simp: in_i64_def)
  have l0: "0 \<le> bucket_level b t now" using lvl g ar m by simp
  have def1: "i64_wrap (1000 - bucket_level b t now) = 1000 - bucket_level b t now" if "bucket_level b t now < 1000"
    using that l0 by (intro i64_wrap_id) (auto simp: in_i64_def)
  have div: "i64_div (i64_wrap (999 + (?m - bucket_level b t now))) ?m = (999 + (?m - bucket_level b t now)) div ?m"
    if "bucket_level b t now < 1000"
  proof -
    have "i64_wrap (999 + (?m - bucket_level b t now)) = 999 + (?m - bucket_level b t now)"
      using that l0 ar m by (intro i64_wrap_id) (auto simp: in_i64_def)
    then show ?thesis using that m by (simp add: i64_div_pos)
  qed
  have lvl': "min (tokens g + d * ?m) ?cap = bucket_level b t now" using lvl by (simp add: min.commute)
  have "?m \<noteq> 0" using m by simp
  then show ?thesis
    unfolding try_consume_def Let_def cap
    by (simp add: g_def [symmetric] el sat wrap lvl' def1 div)
qed

lemma bucket_level_bounds:
  assumes "bucket_range b t_max" "bucket_ok b t_max"
  shows "0 \<le> bucket_level b t now" "bucket_level b t now \<le> max_tokens b * 1000"
  using assms by (auto simp: bucket_level_def bucket_ok_def bucket_range_def split: option.splits)

lemma try_consume_step:
  assumes "bucket_range b t_max" "bucket_ok b t_max" "0 \<le> now" "now \<le> t_max" "try_consume b t now = (r, b')"
  shows "max_tokens b' = max_tokens b" and "bucket_range b' t_max" and "bucket_ok b' t_max"
    and "u \<noteq> t \<Longrightarrow> map_of (inner b') u = map_of (inner b) u"
    and "map_of (inner b') t =
      Some \<lparr> tokens = bucket_level b t now - (if is_ok r then 1000 else 0), last_refill_ms = now \<rparr>"
  using assms(1-4) bucket_level_bounds [OF assms(1,2), of t now] assms(5) try_consume_level [OF assms(1-4), of t]
  by (auto simp: bucket_ok_def bucket_range_def split: if_splits)

text \<open>How far the clock moved forward over a list of its readings; a step back counts for nothing.\<close>

fun forward :: "int list \<Rightarrow> int" where
  "forward (s # t # ts) = max (t - s) 0 + forward (t # ts)"
| "forward _ = 0"

lemma forward_sorted: "sorted (t # ts) \<Longrightarrow> forward (t # ts) = last (t # ts) - t"
  by (induction ts arbitrary: t) auto

definition readings :: "string \<Rightarrow> (string \<times> int) list \<Rightarrow> int list" where
  "readings tenant es = map snd (filter (\<lambda>e. fst e = tenant) es)"

lemma granted_Cons:
  "granted tenant ((u, s) # es) (r # rs) = (if u = tenant \<and> is_ok r then 1 else 0) + granted tenant es rs"
  by (simp add: granted_def)

lemma readings_Cons: "readings tenant ((u, s) # es) = (if u = tenant then [s] else []) @ readings tenant es"
  by (simp add: readings_def)

lemma consume_run_ok:
  assumes "bucket_range b t_max" "bucket_ok b t_max" "\<forall>e \<in> set es. 0 \<le> snd e \<and> snd e \<le> t_max" "consume_run b es = (rs, b')"
  shows "length rs = length es \<and> max_tokens b' = max_tokens b \<and> bucket_range b' t_max \<and> bucket_ok b' t_max"
  using assms
proof (induction es arbitrary: b rs)
  case (Cons e es)
  obtain u s where e: "e = (u, s)" by (cases e)
  obtain r b1 where r: "try_consume b u s = (r, b1)" by (cases "try_consume b u s")
  from Cons.prems have "0 \<le> s" "s \<le> t_max" by (auto simp: e)
  note st = try_consume_step [OF Cons.prems(1,2) this r]
  show ?case using Cons.IH [OF st(2,3)] Cons.prems(3,4) st(1) e r by (auto split: prod.splits)
qed simp

text \<open>A tenant that has a bucket spends what it holds and what the clock's forward movement refills.\<close>

lemma consume_run_budget:
  assumes "bucket_range b t_max" "bucket_ok b t_max" "\<forall>e \<in> set es. 0 \<le> snd e \<and> snd e \<le> t_max" "consume_run b es = (rs, b')"
    and "map_of (inner b) tenant = Some g"
  shows "1000 * int (granted tenant es rs) \<le> tokens g + max_tokens b * forward (last_refill_ms g # readings tenant es)"
  using assms
proof (induction es arbitrary: b rs g)
  case Nil
  then show ?case by (auto simp: granted_def readings_def bucket_ok_def)
next
  case (Cons e es)
  obtain u s where e: "e = (u, s)" by (cases e)
  obtain r b1 where r: "try_consume b u s = (r, b1)" by (cases "try_consume b u s")
  obtain rs' where rs: "consume_run b1 es = (rs', b')" "rs = r # rs'" using Cons.prems(4) e r by (auto split: prod.splits)
  from Cons.prems have "0 \<le> s" "s \<le> t_max" by (auto simp: e)
  note st = try_consume_step [OF Cons.prems(1,2) this r]
  have later: "\<forall>e \<in> set es. 0 \<le> snd e \<and> snd e \<le> t_max" using Cons.prems(3) by simp
  show ?case
  proof (cases "u = tenant")
    case False
    with Cons.IH [OF st(2,3) later rs(1)] st(1,4) Cons.prems(5) show ?thesis by (simp add: e rs granted_Cons readings_Cons)
  next
    case True
    have "bucket_level b tenant s \<le> tokens g + max (s - last_refill_ms g) 0 * max_tokens b"
      using Cons.prems(5) by (simp add: bucket_level_def)
    with Cons.IH [OF st(2,3) later rs(1)] st(1,5) True show ?thesis
      by (auto simp: e rs granted_Cons readings_Cons algebra_simps)
  qed
qed

lemma consume_run_burst:
  assumes "bucket_range b t_max" "bucket_ok b t_max" "\<forall>e \<in> set es. 0 \<le> snd e \<and> snd e \<le> t_max" "consume_run b es = (rs, b')"
  shows "1000 * int (granted tenant es rs) \<le> max_tokens b * 1000 + max_tokens b * forward (readings tenant es)"
  using assms
proof (induction es arbitrary: b rs)
  case Nil
  then show ?case by (auto simp: granted_def readings_def bucket_range_def)
next
  case (Cons e es)
  obtain u s where e: "e = (u, s)" by (cases e)
  obtain r b1 where r: "try_consume b u s = (r, b1)" by (cases "try_consume b u s")
  obtain rs' where rs: "consume_run b1 es = (rs', b')" "rs = r # rs'" using Cons.prems(4) e r by (auto split: prod.splits)
  from Cons.prems have "0 \<le> s" "s \<le> t_max" by (auto simp: e)
  note st = try_consume_step [OF Cons.prems(1,2) this r]
  have later: "\<forall>e \<in> set es. 0 \<le> snd e \<and> snd e \<le> t_max" using Cons.prems(3) by simp
  show ?case
  proof (cases "u = tenant")
    case False
    with Cons.IH [OF st(2,3) later rs(1)] st(1) show ?thesis by (simp add: e rs granted_Cons readings_Cons)
  next
    case True
    with consume_run_budget [OF st(2,3) later rs(1), of tenant] st(1,5) bucket_level_bounds(2) [OF Cons.prems(1,2), of tenant s]
    show ?thesis by (auto simp: e rs granted_Cons readings_Cons)
  qed
qed

lemma consume_run_append:
  "consume_run b (xs @ ys) =
     (let (rs, b1) = consume_run b xs; (ss, b2) = consume_run b1 ys in (rs @ ss, b2))"
  by (induction xs arbitrary: b) (auto simp: Let_def split: prod.splits)

section \<open>Properties\<close>

text \<open>
  C21. The publish rate of a tenant is bounded in every stretch of publishes. However the publishes of all
  tenants interleave, and whatever the system clock reads at each of them, forwards or backwards, the number granted to
  one tenant in a stretch is at most a full bucket, the publishes of one second, plus its per-second rate times the time
  by which the clock moved forward between that tenant's publishes in the stretch (while the clock does not step
  back: the time between the first and the last of them). The rate is positive (0 switches the limit
  off), and rate and readings are small enough, rate times (latest reading + 1000) below 2^63, that the
  64-bit arithmetic does not saturate or wrap.
\<close>

theorem publish_rate_bounded:
  assumes "0 < qps" "qps * (t_max + 1000) < 2 ^ 63"
    and "\<forall>e \<in> set (pre @ window @ post). 0 \<le> snd e \<and> snd e \<le> t_max" "0 \<le> t_max"
    and "consume_run (bucket_new qps) (pre @ window @ post) = (rs, b)"
  shows "1000 * int (granted tenant window (take (length window) (drop (length pre) rs))) \<le>
      qps * 1000 + qps * forward (readings tenant window)"
proof -
  let ?b0 = "bucket_new qps"
  have rng: "bucket_range ?b0 t_max" "bucket_ok ?b0 t_max" "max_tokens ?b0 = qps"
    using assms(1,2,4) by (simp_all add: bucket_range_def bucket_new_def bucket_ok_def)
  obtain rs1 b1 where r1: "consume_run ?b0 pre = (rs1, b1)" by fastforce
  obtain rs2 b2 where r2: "consume_run b1 window = (rs2, b2)" by fastforce
  have rd: "\<forall>e \<in> set pre. 0 \<le> snd e \<and> snd e \<le> t_max" "\<forall>e \<in> set window. 0 \<le> snd e \<and> snd e \<le> t_max"
    using assms(3) by auto
  note ok1 = consume_run_ok [OF rng(1,2) rd(1) r1]
  with rd r2 have ok2: "length rs2 = length window" using consume_run_ok [of b1 t_max window] by blast
  have "rs = rs1 @ rs2 @ drop (length pre + length window) rs"
    using assms(5) r1 r2 ok1 ok2 by (auto simp: consume_run_append Let_def split: prod.splits)
  then have "take (length window) (drop (length pre) rs) = rs2" using ok1 ok2 by (metis append_eq_conv_conj)
  then show ?thesis
    using consume_run_burst [OF _ _ rd(2) r2, of tenant] ok1 rng(3) by simp
qed

theorem publish_rate_bounded_witness:
  "let es = [(''t'', 7), (''u'', 0), (''t'', 5), (''t'', 10)] in
   1000 * int (granted ''t'' es (fst (consume_run (bucket_new 1) es))) \<le> 1 * 1000 + 1 * 5"
proof -
  let ?es = "[(''t'', 7), (''u'', 0), (''t'', 5), (''t'', 10)] :: (string \<times> int) list"
  obtain rs b where r: "consume_run (bucket_new 1) ?es = (rs, b)" by fastforce
  have "length rs = length ?es" using r by (auto split: prod.splits)
  moreover have "forward (readings ''t'' ?es) = 5" by (simp add: readings_def)
  ultimately show ?thesis
    using publish_rate_bounded [of 1 10 "[]" ?es "[]" rs b "''t''"] r by simp
qed

text \<open>
  Beyond that range the arithmetic wraps: with a rate of $10^{16}$ the second publish, one
  millisecond after the first, is refused although the bucket is nearly full.
\<close>

lemma publish_bucket_wraps:
  "map is_ok (fst (consume_run (bucket_new (10 ^ 16)) [(''t'', 0), (''t'', 1)])) = [True, False]"
  by code_simp

end
