(* ===== verification/Room_Bus.thy ===== *)
theory Room_Bus
  imports Room_Policy "HOL-Library.Word" "HOL-Library.AList"
begin

text \<open>
  The broadcast rooms, \<open>tenant/rooms/bus.rs\<close>, and the publish path shared by every face,
  \<open>publish_into_bus\<close> of \<open>tenant/rooms/rest.rs\<close>.

  A \<open>broadcast::Sender\<close> is a number, and the receivers that are alive for it are counted by the
  argument \<open>rc\<close>; a handle on an eviction epoch (\<open>Arc<AtomicU64>\<close>) is an index into the list of
  epoch cells, so that two handles are the same atomic exactly when they are the same index. The
  maps are association lists; the shard locks make each operation one step.
\<close>

section \<open>The bus\<close>

record room_bus =
  channels :: "(string \<times> (string \<times> nat) list) list"
  next_channel :: nat
  epochs :: "(string \<times> nat) list"
  cells :: "64 word list"

definition bus_new :: room_bus where
  "bus_new = \<lparr> channels = [], next_channel = 0, epochs = [], cells = [] \<rparr>"

definition channel_of :: "room_bus \<Rightarrow> string \<Rightarrow> string \<Rightarrow> nat option" where
  "channel_of bus tenant room = Option.bind (map_of (channels bus) tenant) (\<lambda>outer. map_of outer room)"

text \<open>\<open>Sender::send\<close> fails when nobody is listening.\<close>

definition broadcast_send :: "nat \<Rightarrow> (nat, unit) result" where
  "broadcast_send receivers = (if receivers = 0 then Inl () else Inr receivers)"

definition publish :: "(nat \<Rightarrow> nat) \<Rightarrow> room_bus \<Rightarrow> string \<Rightarrow> string \<Rightarrow> nat" where
  "publish rc bus tenant room =
     (case channel_of bus tenant room of
        Some tx \<Rightarrow> (case broadcast_send (rc tx) of Inr n \<Rightarrow> n | Inl _ \<Rightarrow> 0)
      | None \<Rightarrow> 0)"

definition subscribe :: "room_bus \<Rightarrow> string \<Rightarrow> string \<Rightarrow> room_bus \<times> nat" where
  "subscribe bus tenant room =
     (let outer = (case map_of (channels bus) tenant of Some o' \<Rightarrow> o' | None \<Rightarrow> []) in
      case map_of outer room of
        Some tx \<Rightarrow> (bus\<lparr> channels := AList.update tenant outer (channels bus) \<rparr>, tx)
      | None \<Rightarrow>
          let tx = next_channel bus
          in (bus\<lparr> channels := AList.update tenant (AList.update room tx outer) (channels bus),
                   next_channel := Suc tx \<rparr>, tx))"

definition current_subscriber_count :: "(nat \<Rightarrow> nat) \<Rightarrow> room_bus \<Rightarrow> string \<Rightarrow> string \<Rightarrow> nat" where
  "current_subscriber_count rc bus tenant room =
     (case channel_of bus tenant room of Some tx \<Rightarrow> rc tx | None \<Rightarrow> 0)"

definition tenant_epoch_handle :: "room_bus \<Rightarrow> string \<Rightarrow> room_bus \<times> nat" where
  "tenant_epoch_handle bus tenant =
     (case map_of (epochs bus) tenant of
        Some h \<Rightarrow> (bus, h)
      | None \<Rightarrow> (bus\<lparr> epochs := AList.update tenant (length (cells bus)) (epochs bus), cells := cells bus @ [0] \<rparr>,
                 length (cells bus)))"

definition epoch_load :: "room_bus \<Rightarrow> nat \<Rightarrow> 64 word" where
  "epoch_load bus h = cells bus ! h"

definition bump_epoch :: "room_bus \<Rightarrow> string \<Rightarrow> room_bus" where
  "bump_epoch bus tenant =
     (let (bus', h) = tenant_epoch_handle bus tenant in bus'\<lparr> cells := (cells bus')[h := cells bus' ! h + 1] \<rparr>)"

definition evict_tenant :: "room_bus \<Rightarrow> string \<Rightarrow> room_bus" where
  "evict_tenant bus tenant =
     (let bus' = bump_epoch bus tenant in bus'\<lparr> channels := AList.delete tenant (channels bus') \<rparr>)"

definition evict_room :: "room_bus \<Rightarrow> string \<Rightarrow> string \<Rightarrow> room_bus \<times> bool" where
  "evict_room bus tenant room =
     (case map_of (channels bus) tenant of
        Some outer \<Rightarrow>
          (bus\<lparr> channels := AList.update tenant (AList.delete room outer) (channels bus) \<rparr>, map_of outer room \<noteq> None)
      | None \<Rightarrow> (bus, False))"

definition evict_all_tenants :: "room_bus \<Rightarrow> room_bus" where
  "evict_all_tenants bus =
     bus\<lparr> cells := fold (\<lambda>(_, h) cs. cs[h := cs ! h + 1]) (epochs bus) (cells bus), channels := [] \<rparr>"

definition channel_count :: "room_bus \<Rightarrow> nat" where
  "channel_count bus = sum_list (map (length \<circ> snd) (channels bus))"

definition tenant_channel_count :: "room_bus \<Rightarrow> string \<Rightarrow> nat" where
  "tenant_channel_count bus tenant = (case map_of (channels bus) tenant of Some outer \<Rightarrow> length outer | None \<Rightarrow> 0)"

definition tenant_subscriber_count :: "(nat \<Rightarrow> nat) \<Rightarrow> room_bus \<Rightarrow> string \<Rightarrow> nat" where
  "tenant_subscriber_count rc bus tenant =
     (case map_of (channels bus) tenant of Some outer \<Rightarrow> sum_list (map (rc \<circ> snd) outer) | None \<Rightarrow> 0)"

definition sweep_empty :: "(nat \<Rightarrow> nat) \<Rightarrow> room_bus \<Rightarrow> room_bus \<times> nat" where
  "sweep_empty rc bus =
     (let kept = map (\<lambda>(tenant, outer). (tenant, filter (\<lambda>(_, tx). rc tx > 0) outer)) (channels bus);
          removed = sum_list (map (\<lambda>(_, outer). length outer - length (filter (\<lambda>(_, tx). rc tx > 0) outer)) (channels bus))
      in (bus\<lparr> channels := filter (\<lambda>(_, outer). outer \<noteq> []) kept \<rparr>, removed))"

section \<open>Publishing\<close>

record room_message =
  rm_payload :: json
  rm_ts_ms :: int
  rm_frame_bytes :: string

datatype publish_error = RoomNameInvalid | ProtectedRoom | PayloadTooLarge | RateLimited int

text \<open>The wire form of \<open>ServerMessage::Message\<close>.\<close>

definition message_json :: "string \<Rightarrow> json \<Rightarrow> int \<Rightarrow> json" where
  "message_json room payload ts =
     JObject [(''kind'', JString ''message''), (''room'', JString room), (''payload'', payload),
       (''ts'', JNumber (if 0 \<le> ts then PosInt (nat ts) else NegInt ts))]"

text \<open>
  The result, the bucket after it, and the message that went out on a channel, if any.
  \<open>serde_json\<close>'s printer is the argument \<open>to_string\<close>.
\<close>

definition publish_into_bus ::
  "(json \<Rightarrow> string) \<Rightarrow> rooms_config \<Rightarrow> (nat \<Rightarrow> nat) \<Rightarrow> room_bus \<Rightarrow> publish_bucket \<Rightarrow> string \<Rightarrow> string \<Rightarrow> json
     \<Rightarrow> int \<Rightarrow> int \<Rightarrow> (nat, publish_error) result \<times> publish_bucket \<times> (nat \<times> room_message) option" where
  "publish_into_bus to_string cfg rc bus bucket tenant room payload now_ms ts_ms =
     (case validate_room_name room of
        Inl code \<Rightarrow> (Inl (if code = PROTECTED_ROOM then ProtectedRoom else RoomNameInvalid), bucket, None)
      | Inr _ \<Rightarrow>
     (case check_payload_size (length (to_string payload)) (payload_max_bytes cfg) of
        Inl _ \<Rightarrow> (Inl PayloadTooLarge, bucket, None)
      | Inr _ \<Rightarrow>
     (case try_consume bucket tenant now_ms of
        (Inl wait, bucket') \<Rightarrow> (Inl (RateLimited wait), bucket', None)
      | (Inr _, bucket') \<Rightarrow>
          let msg = \<lparr> rm_payload = payload, rm_ts_ms = ts_ms,
                      rm_frame_bytes = to_string (message_json room payload ts_ms) \<rparr>
          in (Inr (publish rc bus tenant room), bucket',
              map_option (\<lambda>tx. (tx, msg)) (channel_of bus tenant room)))))"

section \<open>The operations as one family\<close>

text \<open>A sweep is given the channels that still have receivers.\<close>

datatype bus_op =
    OSubscribe string string
  | OHandle string
  | OEvictTenant string
  | OEvictRoom string string
  | OEvictAll
  | OSweep "nat \<Rightarrow> nat"

fun bus_apply :: "bus_op \<Rightarrow> room_bus \<Rightarrow> room_bus" where
  "bus_apply (OSubscribe t r) bus = fst (subscribe bus t r)"
| "bus_apply (OHandle t) bus = fst (tenant_epoch_handle bus t)"
| "bus_apply (OEvictTenant t) bus = evict_tenant bus t"
| "bus_apply (OEvictRoom t r) bus = fst (evict_room bus t r)"
| "bus_apply OEvictAll bus = evict_all_tenants bus"
| "bus_apply (OSweep rc) bus = fst (sweep_empty rc bus)"

fun bumps :: "bus_op \<Rightarrow> string \<Rightarrow> nat" where
  "bumps (OEvictTenant t) u = (if t = u then 1 else 0)"
| "bumps OEvictAll u = 1"
| "bumps _ u = 0"

text \<open>
  The well-formed buses: maps have one entry per key, a channel number is below the next fresh
  one and serves one room of one tenant, and each tenant has its own epoch cell.
\<close>

definition channels_wf :: "(string \<times> (string \<times> nat) list) list \<Rightarrow> bool" where
  "channels_wf al \<longleftrightarrow> distinct (map fst al) \<and> (\<forall>(t, outer) \<in> set al. distinct (map fst outer))"

definition epochs_wf :: "(string \<times> nat) list \<Rightarrow> nat \<Rightarrow> bool" where
  "epochs_wf es n \<longleftrightarrow> distinct (map fst es) \<and> distinct (map snd es) \<and> (\<forall>h \<in> snd ` set es. h < n)"

definition bus_wf :: "room_bus \<Rightarrow> bool" where
  "bus_wf bus \<longleftrightarrow>
     channels_wf (channels bus) \<and> epochs_wf (epochs bus) (length (cells bus)) \<and>
     (\<forall>t r c. channel_of bus t r = Some c \<longrightarrow>
        c < next_channel bus \<and> (\<forall>t' r'. channel_of bus t' r' = Some c \<longrightarrow> t' = t \<and> r' = r))"

section \<open>What the operations do to the maps\<close>

lemma channel_of_subscribe:
  "channel_of (fst (subscribe bus t r)) t' r' =
     (if t' = t \<and> r' = r then Some (snd (subscribe bus t r)) else channel_of bus t' r')"
  by (auto simp: subscribe_def channel_of_def Let_def AList.update_conv' split: option.splits)

lemma snd_subscribe: "snd (subscribe bus t r) = (case channel_of bus t r of Some c \<Rightarrow> c | None \<Rightarrow> next_channel bus)"
  by (auto simp: subscribe_def channel_of_def Let_def split: option.splits)

lemma next_subscribe:
  "next_channel (fst (subscribe bus t r)) = (if channel_of bus t r = None then Suc (next_channel bus) else next_channel bus)"
  by (auto simp: subscribe_def channel_of_def Let_def split: option.splits)

lemma epochs_subscribe [simp]:
  "epochs (fst (subscribe bus t r)) = epochs bus" "cells (fst (subscribe bus t r)) = cells bus"
  by (auto simp: subscribe_def Let_def split: option.splits)

lemma channels_handle [simp]:
  "channels (fst (tenant_epoch_handle bus t)) = channels bus"
  "next_channel (fst (tenant_epoch_handle bus t)) = next_channel bus"
  by (auto simp: tenant_epoch_handle_def split: option.splits)

lemma bump_simps [simp]:
  "channels (bump_epoch bus t) = channels bus" "next_channel (bump_epoch bus t) = next_channel bus"
  "epochs (bump_epoch bus t) = epochs (fst (tenant_epoch_handle bus t))"
  "length (cells (bump_epoch bus t)) = length (cells (fst (tenant_epoch_handle bus t)))"
  by (auto simp: bump_epoch_def Let_def split: prod.splits) (metis channels_handle fst_conv)+

lemma evict_tenant_simps [simp]:
  "next_channel (evict_tenant bus t) = next_channel bus" "epochs (evict_tenant bus t) = epochs (bump_epoch bus t)"
  "cells (evict_tenant bus t) = cells (bump_epoch bus t)"
  "channels (evict_tenant bus t) = AList.delete t (channels bus)"
  by (simp_all add: evict_tenant_def Let_def)

lemma channel_of_evict_tenant: "channel_of (evict_tenant bus t) t' r = (if t' = t then None else channel_of bus t' r)"
  by (auto simp: channel_of_def AList.delete_conv')

lemma evict_room_simps [simp]:
  "next_channel (fst (evict_room bus t r)) = next_channel bus" "epochs (fst (evict_room bus t r)) = epochs bus"
  "cells (fst (evict_room bus t r)) = cells bus"
  by (auto simp: evict_room_def split: option.splits)

lemma channel_of_evict_room:
  "channel_of (fst (evict_room bus t r)) t' r' = (if t' = t \<and> r' = r then None else channel_of bus t' r')"
  by (auto simp: evict_room_def channel_of_def AList.update_conv' AList.delete_conv' split: option.splits)

lemma evict_all_simps [simp]:
  "next_channel (evict_all_tenants bus) = next_channel bus" "epochs (evict_all_tenants bus) = epochs bus"
  "channels (evict_all_tenants bus) = []" "channel_of (evict_all_tenants bus) t r = None"
  by (simp_all add: evict_all_tenants_def channel_of_def)

lemma sweep_simps [simp]:
  "next_channel (fst (sweep_empty rc bus)) = next_channel bus" "epochs (fst (sweep_empty rc bus)) = epochs bus"
  "cells (fst (sweep_empty rc bus)) = cells bus"
  by (simp_all add: sweep_empty_def Let_def)

lemma map_of_filter_snd:
  "distinct (map fst xs) \<Longrightarrow>
     map_of (filter (\<lambda>(_, v). P v) xs) k = (case map_of xs k of Some v \<Rightarrow> if P v then Some v else None | None \<Rightarrow> None)"
proof (induction xs)
  case (Cons x xs)
  have "map_of xs (fst x) = None" using Cons.prems by (simp add: map_of_eq_None_iff)
  with Cons show ?case by (cases x) (auto split: option.splits)
qed simp

lemma channel_of_sweep:
  assumes "bus_wf bus"
  shows "channel_of (fst (sweep_empty rc bus)) t r =
    (case channel_of bus t r of Some c \<Rightarrow> if rc c > 0 then Some c else None | None \<Rightarrow> None)"
proof -
  let ?live = "filter (\<lambda>(_, tx). rc tx > 0)"
  have d: "distinct (map fst (map (\<lambda>(t, outer). (t, ?live outer)) (channels bus)))"
    using assms by (simp add: bus_wf_def channels_wf_def comp_def case_prod_unfold)
  have m: "map_of (map (\<lambda>(t, outer). (t, ?live outer)) (channels bus)) t = map_option ?live (map_of (channels bus) t)"
    by (simp add: map_of_map)
  show ?thesis
  proof (cases "map_of (channels bus) t")
    case (Some outer)
    then have "distinct (map fst outer)" using assms by (fastforce simp: bus_wf_def channels_wf_def dest: map_of_SomeD)
    then have "map_of (?live outer) r = (case map_of outer r of Some c \<Rightarrow> if rc c > 0 then Some c else None | None \<Rightarrow> None)"
      by (rule map_of_filter_snd)
    moreover have "channel_of (fst (sweep_empty rc bus)) t r = map_of (?live outer) r"
      using Some m by (auto simp: channel_of_def sweep_empty_def Let_def map_of_filter_snd [OF d])
    ultimately show ?thesis using Some by (simp add: channel_of_def)
  qed (use m in \<open>simp add: channel_of_def sweep_empty_def Let_def map_of_filter_snd [OF d]\<close>)
qed

lemma update_fresh: "k \<notin> fst ` set al \<Longrightarrow> AList.update k v al = al @ [(k, v)]"
  by (induction al) auto

lemma handle_epochs:
  "map_of (epochs (fst (tenant_epoch_handle bus t))) u =
     (if u = t then Some (snd (tenant_epoch_handle bus t)) else map_of (epochs bus) u)"
  by (auto simp: tenant_epoch_handle_def AList.update_conv' split: option.splits)

lemma handle_cells:
  "h < length (cells bus) \<Longrightarrow> cells (fst (tenant_epoch_handle bus t)) ! h = cells bus ! h"
  "length (cells bus) \<le> length (cells (fst (tenant_epoch_handle bus t)))"
  by (auto simp: tenant_epoch_handle_def nth_append split: option.splits)

lemma handle_bound: "bus_wf bus \<Longrightarrow> map_of (epochs bus) t = Some h \<Longrightarrow> h < length (cells bus)"
  by (force simp: bus_wf_def epochs_wf_def dest: map_of_SomeD)

lemma fold_bump_nth:
  assumes "distinct (map snd es)" "\<forall>h \<in> snd ` set es. h < length cs"
  shows "length (fold (\<lambda>(_, h) cs. cs[h := cs ! h + 1]) es cs) = length cs \<and>
    (x < length cs \<longrightarrow> fold (\<lambda>(_, h) cs. cs[h := cs ! h + (1 :: 64 word)]) es cs ! x =
       cs ! x + (if x \<in> snd ` set es then 1 else 0))"
  using assms
proof (induction es arbitrary: cs)
  case (Cons e es)
  obtain k h where e: "e = (k, h)" by (cases e)
  have "x = h \<Longrightarrow> x \<notin> snd ` set es" using Cons.prems(1) e by auto
  with Cons.IH [of "cs[h := cs ! h + 1]"] Cons.prems e show ?case by (auto simp: nth_list_update)
qed simp

section \<open>Well-formedness\<close>

lemma channels_wf_map_of: "channels_wf al \<Longrightarrow> map_of al t = Some outer \<Longrightarrow> distinct (map fst outer)"
  by (auto simp: channels_wf_def dest: map_of_SomeD)

lemma channels_wf_update:
  assumes "channels_wf al" "distinct (map fst outer)"
  shows "channels_wf (AList.update t outer al)"
proof -
  have "set (AList.update t outer al) \<subseteq> insert (t, outer) (set al)" by (induction al) auto
  with assms show ?thesis by (auto simp: channels_wf_def distinct_update)
qed

lemma channels_wf_delete: "channels_wf al \<Longrightarrow> channels_wf (AList.delete t al)"
  by (auto simp: channels_wf_def AList.delete_eq intro: distinct_map_filter)

lemma channels_wf_sweep:
  "channels_wf al \<Longrightarrow> channels_wf (filter P (map (\<lambda>(t, outer). (t, filter Q outer)) al))"
  by (auto simp: channels_wf_def comp_def case_prod_unfold intro!: distinct_map_filter)

lemma bus_wf_subscribe: "bus_wf bus \<Longrightarrow> bus_wf (fst (subscribe bus t r))"
proof -
  assume w: "bus_wf bus"
  define outer where "outer = (case map_of (channels bus) t of Some o' \<Rightarrow> o' | None \<Rightarrow> [])"
  have "distinct (map fst outer)"
    using w by (auto simp: outer_def bus_wf_def dest: channels_wf_map_of split: option.splits)
  then have "channels_wf (channels (fst (subscribe bus t r)))"
    using w unfolding subscribe_def Let_def outer_def [symmetric]
    by (cases "map_of outer r") (auto simp: bus_wf_def intro!: channels_wf_update distinct_update)
  moreover have "c < next_channel bus" if "channel_of bus t' r' = Some c" for t' r' c
    using w that by (auto simp: bus_wf_def)
  ultimately show ?thesis
    using w unfolding bus_wf_def channel_of_subscribe snd_subscribe next_subscribe epochs_subscribe
    by (cases "channel_of bus t r") (auto simp: less_Suc_eq split: if_splits)
qed

lemma bus_wf_epochs:
  "bus_wf bus \<Longrightarrow> channels bus' = channels bus \<Longrightarrow> next_channel bus' = next_channel bus \<Longrightarrow>
     epochs_wf (epochs bus') (length (cells bus')) \<Longrightarrow> bus_wf bus'"
  by (simp add: bus_wf_def channel_of_def)

lemma epochs_wf_handle:
  assumes "epochs_wf (epochs bus) (length (cells bus))"
  shows "epochs_wf (epochs (fst (tenant_epoch_handle bus t))) (length (cells (fst (tenant_epoch_handle bus t))))"
proof (cases "map_of (epochs bus) t")
  case None
  then have "AList.update t n (epochs bus) = epochs bus @ [(t, n)]" "t \<notin> fst ` set (epochs bus)" for n
    by (simp_all add: update_fresh map_of_eq_None_iff)
  with None assms show ?thesis by (auto simp: epochs_wf_def tenant_epoch_handle_def less_Suc_eq)
qed (use assms in \<open>simp add: tenant_epoch_handle_def\<close>)

lemma bus_wf_handle: "bus_wf bus \<Longrightarrow> bus_wf (fst (tenant_epoch_handle bus t))"
  by (rule bus_wf_epochs) (auto simp: bus_wf_def epochs_wf_handle)

lemma bus_wf_bump: "bus_wf bus \<Longrightarrow> bus_wf (bump_epoch bus t)"
  by (rule bus_wf_epochs) (auto simp: bus_wf_def epochs_wf_handle)

lemma bus_wf_fewer:
  assumes "bus_wf bus" "channels_wf (channels bus')" "epochs_wf (epochs bus') (length (cells bus'))"
    and "next_channel bus' = next_channel bus" "\<And>t r c. channel_of bus' t r = Some c \<Longrightarrow> channel_of bus t r = Some c"
  shows "bus_wf bus'"
proof -
  have "c < next_channel bus' \<and> (\<forall>t' r'. channel_of bus' t' r' = Some c \<longrightarrow> t' = t \<and> r' = r)"
    if "channel_of bus' t r = Some c" for t r c
    using assms(1,4) assms(5) [OF that] unfolding bus_wf_def by (metis assms(5))
  with assms(2,3) show ?thesis by (simp add: bus_wf_def)
qed

lemma bus_wf_evict_tenant:
  assumes "bus_wf bus"
  shows "bus_wf (evict_tenant bus t)"
proof (rule bus_wf_fewer [OF bus_wf_bump [OF assms, of t]])
  show "channel_of (evict_tenant bus t) u r = Some c \<Longrightarrow> channel_of (bump_epoch bus t) u r = Some c" for u r c
    by (simp add: channel_of_evict_tenant split: if_splits) (simp add: channel_of_def)
qed (use assms bus_wf_bump [OF assms, of t] in \<open>auto simp: bus_wf_def intro: channels_wf_delete\<close>)

lemma bus_wf_evict_room:
  assumes "bus_wf bus"
  shows "bus_wf (fst (evict_room bus t r))"
proof (rule bus_wf_fewer [OF assms])
  show "channels_wf (channels (fst (evict_room bus t r)))"
    using assms
    by (auto simp: evict_room_def bus_wf_def split: option.splits
        intro!: channels_wf_update distinct_delete dest: channels_wf_map_of)
qed (use assms in \<open>auto simp: bus_wf_def channel_of_evict_room split: if_splits\<close>)

lemma evict_all_cells:
  assumes "bus_wf bus"
  shows "length (cells (evict_all_tenants bus)) = length (cells bus)"
    and "h < length (cells bus) \<Longrightarrow>
      cells (evict_all_tenants bus) ! h = cells bus ! h + (if h \<in> snd ` set (epochs bus) then 1 else 0)"
  using fold_bump_nth [of "epochs bus" "cells bus" h] assms
  by (simp_all add: evict_all_tenants_def bus_wf_def epochs_wf_def)

lemma bus_wf_evict_all: "bus_wf bus \<Longrightarrow> bus_wf (evict_all_tenants bus)"
  by (rule bus_wf_fewer [of bus]) (auto simp: evict_all_cells, auto simp: bus_wf_def channels_wf_def)

lemma bus_wf_sweep:
  assumes "bus_wf bus"
  shows "bus_wf (fst (sweep_empty rc bus))"
proof (rule bus_wf_fewer [OF assms])
  show "channels_wf (channels (fst (sweep_empty rc bus)))"
    using assms by (simp add: sweep_empty_def Let_def bus_wf_def channels_wf_sweep)
qed (use assms in \<open>auto simp: bus_wf_def channel_of_sweep [OF assms] split: option.splits if_splits\<close>)

lemma bus_wf_new: "bus_wf bus_new"
  by (simp add: bus_wf_def bus_new_def channels_wf_def epochs_wf_def channel_of_def)

lemma bus_wf_apply: "bus_wf bus \<Longrightarrow> bus_wf (bus_apply o' bus)"
  by (cases o') (auto intro: bus_wf_subscribe bus_wf_handle bus_wf_evict_tenant bus_wf_evict_room bus_wf_evict_all bus_wf_sweep)

section \<open>What the connections rely on\<close>

text \<open>
  A registry of channels: a channel number serves one room of one tenant, and no operation
  ever hands a number in use, or once used, to another room.
\<close>

locale channel_registry =
  fixes wf :: "'b \<Rightarrow> bool"
    and lookup :: "'b \<Rightarrow> string \<Rightarrow> string \<Rightarrow> nat option"
    and fresh :: "'b \<Rightarrow> nat"
    and apply_op :: "'o \<Rightarrow> 'b \<Rightarrow> 'b"
  assumes wf_op: "wf b \<Longrightarrow> wf (apply_op p b)"
    and lookup_fresh: "wf b \<Longrightarrow> lookup b t r = Some c \<Longrightarrow> c < fresh b"
    and lookup_inj: "wf b \<Longrightarrow> lookup b t r = Some c \<Longrightarrow> lookup b t' r' = Some c \<Longrightarrow> t' = t \<and> r' = r"
    and fresh_op: "wf b \<Longrightarrow> fresh b \<le> fresh (apply_op p b)"
    and lookup_op: "wf b \<Longrightarrow> lookup (apply_op p b) t r = Some c \<Longrightarrow> lookup b t r = Some c \<or> fresh b \<le> c"
begin

definition reserved :: "'b \<Rightarrow> string \<Rightarrow> string \<Rightarrow> nat \<Rightarrow> bool" where
  "reserved b t r c \<longleftrightarrow> c < fresh b \<and> (\<forall>t' r'. lookup b t' r' = Some c \<longrightarrow> t' = t \<and> r' = r)"

lemma reserved_lookup: "wf b \<Longrightarrow> lookup b t r = Some c \<Longrightarrow> reserved b t r c"
  by (auto simp: reserved_def dest: lookup_fresh lookup_inj)

lemma reserved_op:
  assumes "wf b" "reserved b t r c"
  shows "reserved (apply_op p b) t r c"
proof -
  have "t' = t \<and> r' = r" if "lookup (apply_op p b) t' r' = Some c" for t' r'
    using lookup_op [OF assms(1) that] assms(2) by (auto simp: reserved_def)
  with assms(2) fresh_op [OF assms(1), of p] show ?thesis by (auto simp: reserved_def)
qed

lemma wf_ops: "wf b \<Longrightarrow> wf (fold apply_op ps b)"
  by (induction ps arbitrary: b) (auto simp: wf_op)

lemma reserved_ops: "wf b \<Longrightarrow> reserved b t r c \<Longrightarrow> reserved (fold apply_op ps b) t r c"
  by (induction ps arbitrary: b) (auto simp: wf_op reserved_op)

end

text \<open>
  A clock of evictions: a handle taken once stays the tenant's handle, and its value counts
  the evictions of that tenant, modulo $2^{64}$.
\<close>

locale eviction_clock =
  fixes wf :: "'b \<Rightarrow> bool"
    and handle_of :: "'b \<Rightarrow> string \<Rightarrow> nat option"
    and load :: "'b \<Rightarrow> nat \<Rightarrow> 64 word"
    and apply_op :: "'o \<Rightarrow> 'b \<Rightarrow> 'b"
    and evictions :: "'o \<Rightarrow> string \<Rightarrow> nat"
  assumes clock_wf: "wf b \<Longrightarrow> wf (apply_op p b)"
    and handle_kept: "wf b \<Longrightarrow> handle_of b t = Some h \<Longrightarrow> handle_of (apply_op p b) t = Some h"
    and load_counts: "wf b \<Longrightarrow> handle_of b t = Some h \<Longrightarrow> load (apply_op p b) h = load b h + of_nat (evictions p t)"
begin

definition evictions_of :: "'o list \<Rightarrow> string \<Rightarrow> nat" where
  "evictions_of ps t = sum_list (map (\<lambda>p. evictions p t) ps)"

lemma load_ops:
  assumes "wf b" "handle_of b t = Some h"
  shows "handle_of (fold apply_op ps b) t = Some h \<and> load (fold apply_op ps b) h = load b h + of_nat (evictions_of ps t)"
  using assms
  by (induction ps arbitrary: b) (auto simp: evictions_of_def clock_wf handle_kept load_counts)

lemma eviction_seen:
  assumes "wf b" "handle_of b t = Some h" "0 < evictions_of ps t" "evictions_of ps t < 2 ^ 64"
  shows "load (fold apply_op ps b) h \<noteq> load b h"
proof -
  have "of_nat (evictions_of ps t) \<noteq> (0 :: 64 word)"
    using assms(3,4) by (auto simp: word_of_nat_eq_0_iff dest: dvd_imp_le)
  then show ?thesis using load_ops [OF assms(1,2), of ps] by simp
qed

end

lemma channel_of_apply:
  assumes "bus_wf bus" "channel_of (bus_apply o' bus) t r = Some c"
  shows "channel_of bus t r = Some c \<or> next_channel bus \<le> c"
  using assms
  by (cases o')
     (auto simp: channel_of_subscribe snd_subscribe channel_of_evict_tenant channel_of_evict_room channel_of_sweep
       channel_of_def [of "fst (tenant_epoch_handle bus u)" for u] channel_of_def [of bus] split: if_splits option.splits)

lemma next_channel_apply: "next_channel bus \<le> next_channel (bus_apply o' bus)"
  by (cases o') (auto simp: next_subscribe)

interpretation bus_channels: channel_registry bus_wf channel_of next_channel bus_apply
proof unfold_locales
  show "bus_wf b \<Longrightarrow> channel_of b t r = Some c \<Longrightarrow> c < next_channel b" for b t r c
    by (auto simp: bus_wf_def)
  show "bus_wf b \<Longrightarrow> channel_of b t r = Some c \<Longrightarrow> channel_of b t' r' = Some c \<Longrightarrow> t' = t \<and> r' = r" for b t r t' r' c
    by (auto simp: bus_wf_def)
qed (use channel_of_apply in \<open>auto intro: bus_wf_apply next_channel_apply\<close>)

lemma handle_kept_apply:
  "map_of (epochs bus) t = Some h \<Longrightarrow> map_of (epochs (bus_apply o' bus)) t = Some h"
  by (cases o') (auto simp: handle_epochs, auto simp: tenant_epoch_handle_def)

lemma cells_bump:
  assumes "bus_wf bus" "map_of (epochs bus) u = Some h"
  shows "cells (bump_epoch bus t) ! h = cells bus ! h + (if u = t then 1 else 0)"
proof -
  have h: "h < length (cells bus)" using handle_bound [OF assms] .
  have e: "h \<noteq> snd (tenant_epoch_handle bus t)" if "u \<noteq> t"
  proof (cases "map_of (epochs bus) t")
    case (Some k)
    then have "k \<noteq> h"
      using assms that by (fastforce simp: bus_wf_def epochs_wf_def distinct_map inj_on_def dest!: map_of_SomeD)
    with Some show ?thesis by (simp add: tenant_epoch_handle_def)
  qed (use h in \<open>simp add: tenant_epoch_handle_def\<close>)
  show ?thesis
    using handle_cells(1) [OF h, of t] handle_cells(2) [of bus t] h e assms(2)
    by (auto simp: bump_epoch_def Let_def nth_list_update tenant_epoch_handle_def split: prod.splits)
qed

lemma epoch_load_apply:
  assumes "bus_wf bus" "map_of (epochs bus) t = Some h"
  shows "epoch_load (bus_apply o' bus) h = epoch_load bus h + of_nat (bumps o' t)"
proof -
  have h: "h < length (cells bus)" "h \<in> snd ` set (epochs bus)"
    using handle_bound [OF assms] assms(2) by (force dest: map_of_SomeD)+
  then show ?thesis
    using cells_bump [OF assms] evict_all_cells(2) [OF assms(1) h(1)] handle_cells(1) [OF h(1)]
    by (cases o') (auto simp: epoch_load_def)
qed

interpretation bus_epochs: eviction_clock bus_wf "\<lambda>bus. map_of (epochs bus)" epoch_load bus_apply bumps
  by unfold_locales (auto intro: bus_wf_apply handle_kept_apply epoch_load_apply)

end
