(* ===== verification/Auth_Layer.thy ===== *)
theory Auth_Layer
  imports Auth_Cache Rate_Limit Room_Bus
begin

text \<open>
  The bearer layer, \<open>bearer_auth_layer\<close> of \<open>tenant/router.rs\<close>, in front of every tenant route:
  the limiter, the cache, the lookup in \<open>meta.sqlite\<close>, the tenant's database and the user
  sessions in it (\<open>auth/user_session.rs\<close>), and the fill of the cache. It reads from two
  databases and writes the cache at different moments, so it is a sequence of steps between which
  other requests and the write handlers run.

  What the sources take from elsewhere is a field of \<open>auth_env\<close>: SHA-256, base64, the JSON
  parser, chrono's parser and printer of times, SQLite's \<open>datetime('now')\<close> as a function of the
  wall clock, and whether a tenant's database can be opened.
\<close>

section \<open>Tokens\<close>

record auth_env =
  sha256 :: "string \<Rightarrow> string"
  base64_url :: "string \<Rightarrow> string"
  json_from_str :: "string \<Rightarrow> json option"
  parse_datetime :: "string \<Rightarrow> int option"
  to_rfc3339 :: "int \<Rightarrow> string"
  sql_datetime :: "int \<Rightarrow> string"
  db_opens :: "string \<Rightarrow> bool"

definition nibble :: "nat \<Rightarrow> char" where
  "nibble n = ''0123456789abcdef'' ! n"

definition encode_lower :: "string \<Rightarrow> string" where
  "encode_lower bytes = concat (map (\<lambda>b. [nibble (byte b div 16), nibble (byte b mod 16)]) bytes)"

definition hash_token :: "auth_env \<Rightarrow> string \<Rightarrow> string" where
  "hash_token env token = encode_lower (sha256 env token)"

definition pat_hash_token :: "auth_env \<Rightarrow> string \<Rightarrow> string" where
  "pat_hash_token env token = base64_url env (sha256 env token)"

definition session_hash_token :: "auth_env \<Rightarrow> string \<Rightarrow> string" where
  "session_hash_token env token = base64_url env (sha256 env token)"

definition PAT_PREFIX :: string where "PAT_PREFIX = ''drust_pat_''"
definition USER_PREFIX :: string where "USER_PREFIX = ''drust_user_''"

definition is_user_token :: "string \<Rightarrow> bool" where
  "is_user_token token = starts_with token USER_PREFIX"

definition bearer_hint :: "string \<Rightarrow> string" where
  "bearer_hint plaintext =
     (let prefix_end = length ''drust_''; dots = [CHR 0xE2, CHR 0x80, CHR 0xA6] in
      if length plaintext > prefix_end + 6 then take (prefix_end + 6) plaintext @ dots
      else plaintext @ dots)"

text \<open>The header is its text, when it is present and visible ASCII.\<close>

definition extract_bearer :: "string option \<Rightarrow> string option" where
  "extract_bearer authorization =
     (case authorization of
        Some raw \<Rightarrow> if starts_with raw ''Bearer '' then Some (drop (length ''Bearer '') raw) else None
      | None \<Rightarrow> None)"

section \<open>User sessions\<close>

record session_row =
  se_token_hash :: string
  se_user_id :: string
  se_created_at :: string
  se_expires_at :: string
  se_last_seen_at :: string
  se_ip :: "string option"

definition DAY :: int where "DAY = 86400000000000"

text \<open>The insert fails on a hash that is taken (the primary key) and on an unknown user.\<close>

definition create_session ::
  "auth_env \<Rightarrow> (string \<Rightarrow> bool) \<Rightarrow> session_row list \<Rightarrow> string \<Rightarrow> string \<Rightarrow> string option \<Rightarrow> int \<Rightarrow> int
   \<Rightarrow> session_row list option" where
  "create_session env user_exists rows token uid ip ttl_days now =
     (let h = session_hash_token env token in
      if h \<in> se_token_hash ` set rows \<or> \<not> user_exists uid then None
      else Some (rows @ [\<lparr> se_token_hash = h, se_user_id = uid, se_created_at = to_rfc3339 env now,
                           se_expires_at = to_rfc3339 env (now + ttl_days * DAY),
                           se_last_seen_at = to_rfc3339 env now, se_ip = ip \<rparr>]))"

definition lookup_session :: "auth_env \<Rightarrow> session_row list \<Rightarrow> string \<Rightarrow> int \<Rightarrow> string option" where
  "lookup_session env rows token now =
     map_option se_user_id
       (find (\<lambda>r. se_token_hash r = session_hash_token env token \<and> to_rfc3339 env now < se_expires_at r) rows)"

definition slide_expiry :: "auth_env \<Rightarrow> session_row list \<Rightarrow> string \<Rightarrow> int \<Rightarrow> int \<Rightarrow> session_row list" where
  "slide_expiry env rows token ttl_days now =
     map (\<lambda>r. if se_token_hash r = session_hash_token env token
               then r\<lparr> se_expires_at := to_rfc3339 env (now + ttl_days * DAY), se_last_seen_at := to_rfc3339 env now \<rparr>
               else r) rows"

definition revoke_session_by_hash :: "session_row list \<Rightarrow> string \<Rightarrow> session_row list" where
  "revoke_session_by_hash rows h = filter (\<lambda>r. se_token_hash r \<noteq> h) rows"

definition revoke_session :: "auth_env \<Rightarrow> session_row list \<Rightarrow> string \<Rightarrow> session_row list" where
  "revoke_session env rows token = revoke_session_by_hash rows (session_hash_token env token)"

definition revoke_all_sessions :: "session_row list \<Rightarrow> string \<Rightarrow> session_row list \<times> nat" where
  "revoke_all_sessions rows uid =
     (filter (\<lambda>r. se_user_id r \<noteq> uid) rows, length (filter (\<lambda>r. se_user_id r = uid) rows))"

section \<open>The host database\<close>

record tenant_row =
  tn_id :: string
  tn_deleted_at :: "string option"
  tn_allow_user_publish :: "int option"
  tn_allow_anon_publish :: "int option"
  tn_file_anon_caps :: "string option"
  tn_file_user_caps :: "string option"
  tn_owner_admin_id :: "int option"
  tn_quota_tier :: "int option"

record token_row =
  tk_tenant_id :: string
  tk_token_hash :: string
  tk_role :: string
  tk_revoked_at :: "string option"

record admin_token_row =
  at_id :: int
  at_admin_id :: int
  at_token_hash :: string
  at_label :: "string option"
  at_expires_at :: "string option"
  at_revoked_at :: "string option"

record admin_row =
  ad_id :: int
  ad_email :: string
  ad_role :: string

record meta_db =
  tenants :: "tenant_row list"
  tokens :: "token_row list"
  admin_tokens :: "admin_token_row list"
  admins :: "admin_row list"

definition live_tenant :: "meta_db \<Rightarrow> string \<Rightarrow> tenant_row option" where
  "live_tenant db tenant = find (\<lambda>t. tn_id t = tenant \<and> tn_deleted_at t = None) (tenants db)"

definition sees_all_tenants :: "string \<Rightarrow> bool" where
  "sees_all_tenants role \<longleftrightarrow> role = ''owner'' \<or> role = ''admin''"

text \<open>The rows of the common table expression \<open>bearer_match\<close>, in the order of its two arms.\<close>

record bearer_match =
  bm_kind :: string
  bm_token_id :: "int option"
  bm_admin_id :: "int option"
  bm_bound_tenant :: "string option"
  bm_expires_at :: "string option"

definition pat_live :: "auth_env \<Rightarrow> int \<Rightarrow> admin_token_row \<Rightarrow> bool" where
  "pat_live env now p \<longleftrightarrow> at_revoked_at p = None \<and>
     (case at_expires_at p of None \<Rightarrow> True | Some e \<Rightarrow> sql_datetime env now < e)"

definition bearer_matches :: "auth_env \<Rightarrow> meta_db \<Rightarrow> string \<Rightarrow> string \<Rightarrow> int \<Rightarrow> bearer_match list" where
  "bearer_matches env db pat_hash hash now =
     map (\<lambda>p. \<lparr> bm_kind = ''admin_pat'', bm_token_id = Some (at_id p), bm_admin_id = Some (at_admin_id p),
                bm_bound_tenant = None, bm_expires_at = at_expires_at p \<rparr>)
       (filter (\<lambda>p. at_token_hash p = pat_hash \<and> pat_live env now p) (admin_tokens db)) @
     map (\<lambda>k. \<lparr> bm_kind = tk_role k, bm_token_id = None, bm_admin_id = None,
                bm_bound_tenant = Some (tk_tenant_id k), bm_expires_at = None \<rparr>)
       (filter (\<lambda>k. tk_token_hash k = hash \<and> tk_revoked_at k = None \<and> live_tenant db (tk_tenant_id k) \<noteq> None)
         (tokens db))"

text \<open>The fourteen columns, with the defaults the row mapping and \<open>unwrap_or\<close> give them.\<close>

record bearer_row =
  br_tenant_ok :: bool
  br_kind :: "string option"
  br_token_id :: "int option"
  br_admin_id :: "int option"
  br_bound_tenant :: "string option"
  br_email :: "string option"
  br_user_publish :: int
  br_anon_publish :: int
  br_file_anon_caps :: string
  br_file_user_caps :: string
  br_expires_at :: "string option"
  br_admin_role :: "string option"
  br_owner_admin_id :: "int option"
  br_quota_tier :: "int option"

definition no_row :: bearer_row where
  "no_row = \<lparr> br_tenant_ok = False, br_kind = None, br_token_id = None, br_admin_id = None, br_bound_tenant = None,
     br_email = None, br_user_publish = 0, br_anon_publish = 0, br_file_anon_caps = ''[]'',
     br_file_user_caps = ''[]'', br_expires_at = None, br_admin_role = None, br_owner_admin_id = None,
     br_quota_tier = None \<rparr>"

definition first_of :: "'a list \<Rightarrow> 'a option" where
  "first_of xs = (case xs of [] \<Rightarrow> None | x # _ \<Rightarrow> Some x)"

definition bearer_cte :: "auth_env \<Rightarrow> meta_db \<Rightarrow> string \<Rightarrow> string \<Rightarrow> string \<Rightarrow> int \<Rightarrow> bearer_row" where
  "bearer_cte env db tenant pat_hash hash now =
     (let m = first_of (bearer_matches env db pat_hash hash now);
          adm = Option.bind m bm_admin_id;
          admin = Option.bind adm (\<lambda>i. find (\<lambda>a. ad_id a = i) (admins db));
          t = live_tenant db tenant
      in \<lparr> br_tenant_ok = (t \<noteq> None), br_kind = map_option bm_kind m, br_token_id = Option.bind m bm_token_id,
           br_admin_id = adm, br_bound_tenant = Option.bind m bm_bound_tenant, br_email = map_option ad_email admin,
           br_user_publish = unwrap_or (Option.bind t tn_allow_user_publish) 0,
           br_anon_publish = unwrap_or (Option.bind t tn_allow_anon_publish) 0,
           br_file_anon_caps = unwrap_or (Option.bind t tn_file_anon_caps) ''[]'',
           br_file_user_caps = unwrap_or (Option.bind t tn_file_user_caps) ''[]'',
           br_expires_at = Option.bind m bm_expires_at, br_admin_role = map_option ad_role admin,
           br_owner_admin_id = Option.bind t tn_owner_admin_id,
           br_quota_tier = map_option (\<lambda>r. unwrap_or (tn_quota_tier r) 1) t \<rparr>)"

text \<open>A query that fails is a missing row.\<close>

definition meta_row :: "auth_env \<Rightarrow> meta_db option \<Rightarrow> string \<Rightarrow> string \<Rightarrow> int \<Rightarrow> bearer_row" where
  "meta_row env db tenant bearer now =
     (case db of
        None \<Rightarrow> no_row
      | Some m \<Rightarrow> bearer_cte env m tenant
          (if starts_with bearer PAT_PREFIX then pat_hash_token env bearer else '''') (hash_token env bearer) now)"

section \<open>What a request is given\<close>

text \<open>
  The request extensions and the audit local \<open>resolved_email_snapshot\<close>; a refusal is a status, a
  code and a message, and a panic of the limiter ends the request without an answer.
\<close>

record request_ext =
  x_ctx :: auth_ctx
  x_tenant :: string
  x_hint :: string
  x_role :: token_role
  x_admin_id :: "int option"
  x_pat_deadline :: "int option"
  x_policy :: tenant_publish_policy
  x_file_caps :: tenant_file_caps
  x_quota_tier :: int
  x_email :: "string option"

datatype auth_result = Refused nat string string | Passed request_ext | AuthPanic

definition tenant_gone :: auth_result where
  "tenant_gone = Refused 404 ''TENANT_NOT_FOUND'' ''tenant data missing''"

definition tenant_denied :: auth_result where
  "tenant_denied = Refused 404 ''TENANT_NOT_FOUND'' ''tenant not accessible''"

definition unauthenticated :: "string \<Rightarrow> auth_result" where
  "unauthenticated msg = Refused 401 ''UNAUTHENTICATED'' msg"

definition caps_from_json :: "auth_env \<Rightarrow> string \<Rightarrow> string \<Rightarrow> tenant_file_caps" where
  "caps_from_json env anon_json user_json =
     \<lparr> caps_anon = parse_file_caps_json (json_from_str env) anon_json,
       caps_user = parse_file_caps_json (json_from_str env) user_json \<rparr>"

definition row_policy :: "bearer_row \<Rightarrow> tenant_publish_policy" where
  "row_policy row = \<lparr> allow_user = (br_user_publish row \<noteq> 0), allow_anon = (br_anon_publish row \<noteq> 0) \<rparr>"

definition row_caps :: "auth_env \<Rightarrow> bearer_row \<Rightarrow> tenant_file_caps" where
  "row_caps env row = caps_from_json env (br_file_anon_caps row) (br_file_user_caps row)"

definition row_tier :: "bearer_row \<Rightarrow> int" where
  "row_tier row = unwrap_or (br_quota_tier row) 1"

definition row_ext :: "auth_env \<Rightarrow> string \<Rightarrow> string \<Rightarrow> bearer_row \<Rightarrow> auth_ctx \<Rightarrow> request_ext" where
  "row_ext env tenant bearer row ctx =
     \<lparr> x_ctx = ctx, x_tenant = tenant, x_hint = bearer_hint bearer, x_role = role_of ctx, x_admin_id = None,
       x_pat_deadline = None, x_policy = row_policy row, x_file_caps = row_caps env row,
       x_quota_tier = row_tier row, x_email = None \<rparr>"

section \<open>The answer from the databases\<close>

text \<open>The three arms: what the request is given and what is put in the cache, if anything.\<close>

definition user_arm ::
  "auth_env \<Rightarrow> string \<Rightarrow> string \<Rightarrow> bearer_row \<Rightarrow> string \<Rightarrow> int \<Rightarrow> auth_result \<times> cached_auth option" where
  "user_arm env tenant bearer row uid now =
     (Passed (row_ext env tenant bearer row (User uid (session_hash_token env bearer))),
      Some (CUser tenant uid (now + 30 * DAY) (allow_user (row_policy row)) (allow_anon (row_policy row))
              (row_caps env row) (row_tier row)))"

definition pat_arm :: "auth_env \<Rightarrow> string \<Rightarrow> string \<Rightarrow> bearer_row \<Rightarrow> auth_result \<times> cached_auth option" where
  "pat_arm env tenant bearer row =
     (case br_admin_id row of
        None \<Rightarrow> (unauthenticated ''invalid token'', None)
      | Some admin \<Rightarrow>
          let sees_all = (case br_admin_role row of Some r \<Rightarrow> sees_all_tenants r | None \<Rightarrow> False) in
          if \<not> (sees_all \<or> br_owner_admin_id row = Some admin)
          then (Refused 403 ''PAT_TENANT_DENIED''
                  ''this personal access token is scoped to tenants owned by its admin'', None)
          else
            let cached_exp = Option.bind (br_expires_at row) (parse_datetime env);
                skip_cache = (br_expires_at row \<noteq> None \<and> cached_exp = None);
                ext = (row_ext env tenant bearer row (Service (Some admin)))
                        \<lparr> x_admin_id := Some admin, x_pat_deadline := cached_exp, x_email := br_email row \<rparr>
            in (Passed ext,
                if skip_cache then None
                else Some (CBearer tenant (CRAdminPat admin) (allow_user (row_policy row))
                       (allow_anon (row_policy row)) (br_email row) (row_caps env row) cached_exp (row_tier row))))"

definition shared_arm ::
  "auth_env \<Rightarrow> string \<Rightarrow> string \<Rightarrow> bearer_row \<Rightarrow> string \<Rightarrow> auth_result \<times> cached_auth option" where
  "shared_arm env tenant bearer row role_str =
     (if br_bound_tenant row \<noteq> Some tenant then (tenant_denied, None)
      else case role_parse role_str of
        None \<Rightarrow> (unauthenticated ''token has invalid role'', None)
      | Some role \<Rightarrow>
          let ctx = (if role = RAnon then Anon else Service None);
              cached = (if role = RAnon then CRAnon else CRService)
          in (Passed (row_ext env tenant bearer row ctx),
              Some (CBearer tenant cached (allow_user (row_policy row)) (allow_anon (row_policy row)) None
                 (row_caps env row) None (row_tier row))))"

text \<open>
  \<open>session\<close> is the result of \<open>lookup_session\<close>; an error there is treated as no session. \<open>now\<close> is
  the wall clock when the entry is made.
\<close>

definition resolve_bearer ::
  "auth_env \<Rightarrow> string \<Rightarrow> string \<Rightarrow> bearer_row \<Rightarrow> string option \<Rightarrow> int \<Rightarrow> auth_result \<times> cached_auth option" where
  "resolve_bearer env tenant bearer row session now =
     (case session of
        Some uid \<Rightarrow> user_arm env tenant bearer row uid now
      | None \<Rightarrow>
          case br_kind row of
            None \<Rightarrow> (unauthenticated ''invalid token'', None)
          | Some kind \<Rightarrow>
              if kind = ''admin_pat'' then pat_arm env tenant bearer row
              else if kind = ''service'' \<or> kind = ''anon'' then shared_arm env tenant bearer row kind
              else (unauthenticated ''invalid token'', None))"

section \<open>The answer from the cache\<close>

text \<open>
  \<open>None\<close> is an entry of another tenant: the request goes on to the databases. The flag says that
  the entry is dropped. \<open>live\<close> is whether \<open>get_if_live\<close> finds the tenant's database.
\<close>

definition cached_policy :: "cached_auth \<Rightarrow> tenant_publish_policy" where
  "cached_policy a = \<lparr> allow_user = ca_publish_user a, allow_anon = ca_publish_anon a \<rparr>"

fun cached_ctx :: "auth_env \<Rightarrow> string \<Rightarrow> cached_auth \<Rightarrow> auth_ctx" where
  "cached_ctx env bearer (CBearer _ CRAnon _ _ _ _ _ _) = Anon"
| "cached_ctx env bearer (CBearer _ CRService _ _ _ _ _ _) = Service None"
| "cached_ctx env bearer (CBearer _ (CRAdminPat i) _ _ _ _ _ _) = Service (Some i)"
| "cached_ctx env bearer (CUser _ uid _ _ _ _ _) = User uid (session_hash_token env bearer)"

definition cached_ext :: "auth_env \<Rightarrow> string \<Rightarrow> string \<Rightarrow> cached_auth \<Rightarrow> request_ext" where
  "cached_ext env tenant bearer a =
     \<lparr> x_ctx = cached_ctx env bearer a, x_tenant = tenant, x_hint = bearer_hint bearer,
       x_role = role_of (cached_ctx env bearer a),
       x_admin_id = (case a of CBearer _ (CRAdminPat i) _ _ _ _ _ _ \<Rightarrow> Some i | _ \<Rightarrow> None),
       x_pat_deadline = (case a of CBearer _ (CRAdminPat i) _ _ _ _ e _ \<Rightarrow> e | _ \<Rightarrow> None),
       x_policy = cached_policy a, x_file_caps = ca_file_caps a, x_quota_tier = ca_tier a,
       x_email = (case a of CBearer _ _ _ _ m _ _ _ \<Rightarrow> m | _ \<Rightarrow> None) \<rparr>"

definition answer_hit ::
  "auth_env \<Rightarrow> string \<Rightarrow> string \<Rightarrow> cached_auth \<Rightarrow> int \<Rightarrow> bool \<Rightarrow> (auth_result \<times> bool) option" where
  "answer_hit env tenant bearer a now live =
     (if ca_tenant a \<noteq> tenant then None
      else case a of
        CBearer _ _ _ _ _ _ expires _ \<Rightarrow>
          if (case expires of Some t \<Rightarrow> t \<le> now | None \<Rightarrow> False) then Some (unauthenticated ''token expired'', True)
          else if \<not> live then Some (tenant_gone, False)
          else Some (Passed (cached_ext env tenant bearer a), False)
      | CUser _ _ expires _ _ _ _ \<Rightarrow>
          if now < expires
          then if \<not> live then Some (tenant_gone, False)
               else Some (Passed (cached_ext env tenant bearer a), False)
          else Some (unauthenticated ''session expired'', True))"

section \<open>Tenant databases\<close>

text \<open>
  A database is a place in the store, so that a pool opened before its directory was moved away
  still reads the old one. \<open>files\<close> are the paths \<open>tenants/<id>/data.sqlite\<close> that exist.
\<close>

record tenant_store =
  ts_dbs :: "session_row list list"
  ts_files :: "(string \<times> nat) list"
  ts_pools :: "(string \<times> nat) list"

definition get_or_create :: "auth_env \<Rightarrow> tenant_store \<Rightarrow> string \<Rightarrow> nat option \<times> tenant_store" where
  "get_or_create env st tenant =
     (case map_of (ts_pools st) tenant of
        Some d \<Rightarrow> (Some d, st)
      | None \<Rightarrow>
          if \<not> db_opens env tenant then (None, st)
          else case map_of (ts_files st) tenant of
            Some d \<Rightarrow> (Some d, st\<lparr> ts_pools := AList.update tenant d (ts_pools st) \<rparr>)
          | None \<Rightarrow>
              let d = length (ts_dbs st)
              in (Some d, st\<lparr> ts_dbs := ts_dbs st @ [[]], ts_files := AList.update tenant d (ts_files st),
                              ts_pools := AList.update tenant d (ts_pools st) \<rparr>))"

definition get_if_live :: "auth_env \<Rightarrow> tenant_store \<Rightarrow> string \<Rightarrow> nat option \<times> tenant_store" where
  "get_if_live env st tenant =
     (case map_of (ts_pools st) tenant of
        Some d \<Rightarrow> (Some d, st)
      | None \<Rightarrow>
          case map_of (ts_files st) tenant of
            None \<Rightarrow> (None, st)
          | Some d \<Rightarrow>
              if db_opens env tenant then (Some d, st\<lparr> ts_pools := AList.update tenant d (ts_pools st) \<rparr>)
              else (None, st))"

definition evict_pool :: "tenant_store \<Rightarrow> string \<Rightarrow> tenant_store" where
  "evict_pool st tenant = st\<lparr> ts_pools := AList.delete tenant (ts_pools st) \<rparr>"

section \<open>The layer\<close>

record auth_world =
  w_meta :: meta_db
  w_store :: tenant_store
  w_cache :: auth_cache
  w_limiter :: rate_limiter
  w_rooms :: room_bus

text \<open>Up to the miss of the cache: an answer, or the bearer to look up.\<close>

datatype auth_entry = Answered auth_result | LookUp string

definition retry_secs :: "int \<Rightarrow> int" where
  "retry_secs wait = max (wait div 1000000000) 1"

definition rate_limited :: "int \<Rightarrow> auth_result" where
  "rate_limited wait = Refused 429 ''RATE_LIMITED''
     (''rate limit exceeded; retry after '' @ nat_to_string (nat (retry_secs wait)) @ ''s'')"

definition auth_hit ::
  "auth_env \<Rightarrow> auth_world \<Rightarrow> string \<Rightarrow> string \<Rightarrow> cached_auth \<Rightarrow> int \<Rightarrow> auth_entry \<times> auth_world" where
  "auth_hit env w tenant bearer a wall =
     (let (pool, st) = (if ca_tenant a = tenant then get_if_live env (w_store w) tenant else (None, w_store w)) in
      case answer_hit env tenant bearer a wall (pool \<noteq> None) of
        None \<Rightarrow> (LookUp bearer, w)
      | Some (r, drops) \<Rightarrow>
          (Answered r,
           if drops then w\<lparr> w_cache := cache_remove (w_cache w) (hash_token env bearer) \<rparr> else w\<lparr> w_store := st \<rparr>))"

definition auth_begin ::
  "auth_env \<Rightarrow> auth_world \<Rightarrow> string option \<Rightarrow> string option \<Rightarrow> int \<Rightarrow> int \<Rightarrow> auth_entry \<times> auth_world" where
  "auth_begin env w tenant_param authorization inst wall =
     (case tenant_param of
        None \<Rightarrow> (Answered (Refused 400 '''' ''missing tenant in path''), w)
      | Some tenant \<Rightarrow>
          case extract_bearer authorization of
            None \<Rightarrow> (Answered (unauthenticated ''missing bearer''), w)
          | Some bearer \<Rightarrow>
              let hash = hash_token env bearer; (acq, rl) = try_acquire (w_limiter w) hash inst;
                  w1 = w\<lparr> w_limiter := rl \<rparr>
              in case acq of
                   AcquirePanic \<Rightarrow> (Answered AuthPanic, w1)
                 | RetryAfter wait \<Rightarrow> (Answered (rate_limited wait), w1)
                 | Acquired \<Rightarrow>
                     let (hit, c) = cache_get (w_cache w1) hash inst; w2 = w1\<lparr> w_cache := c \<rparr>
                     in case hit of
                          Some a \<Rightarrow> auth_hit env w2 tenant bearer a wall
                        | None \<Rightarrow> (LookUp bearer, w2))"

text \<open>The pool, once the row is read; an answer instead of a pool ends the request.\<close>

definition auth_open ::
  "auth_env \<Rightarrow> auth_world \<Rightarrow> string \<Rightarrow> bearer_row \<Rightarrow> (nat, auth_result) result \<times> auth_world" where
  "auth_open env w tenant row =
     (if \<not> br_tenant_ok row then (Inl tenant_denied, w)
      else case get_or_create env (w_store w) tenant of
        (None, st) \<Rightarrow> (Inl tenant_gone, w\<lparr> w_store := st \<rparr>)
      | (Some d, st) \<Rightarrow> (Inr d, w\<lparr> w_store := st \<rparr>))"

definition auth_session :: "auth_env \<Rightarrow> auth_world \<Rightarrow> string \<Rightarrow> nat \<Rightarrow> int \<Rightarrow> string option" where
  "auth_session env w bearer d wall =
     (if is_user_token bearer \<and> d < length (ts_dbs (w_store w))
      then lookup_session env (ts_dbs (w_store w) ! d) bearer wall else None)"

definition auth_fill ::
  "auth_env \<Rightarrow> auth_world \<Rightarrow> string \<Rightarrow> string \<Rightarrow> bearer_row \<Rightarrow> string option \<Rightarrow> int \<Rightarrow> int \<Rightarrow> auth_result \<times> auth_world" where
  "auth_fill env w tenant bearer row session inst wall =
     (let (r, entry) = resolve_bearer env tenant bearer row session wall in
      (r, case entry of
            Some a \<Rightarrow> w\<lparr> w_cache := cache_insert (w_cache w) (hash_token env bearer) a inst \<rparr>
          | None \<Rightarrow> w))"

text \<open>The whole layer when nothing else runs in between, at one instant of the two clocks.\<close>

definition bearer_auth_layer ::
  "auth_env \<Rightarrow> auth_world \<Rightarrow> string option \<Rightarrow> string option \<Rightarrow> int \<Rightarrow> int \<Rightarrow> auth_result \<times> auth_world" where
  "bearer_auth_layer env w tenant_param authorization inst wall =
     (case auth_begin env w tenant_param authorization inst wall of
        (Answered r, w1) \<Rightarrow> (r, w1)
      | (LookUp bearer, w1) \<Rightarrow>
          (case tenant_param of
             None \<Rightarrow> (AuthPanic, w1)
           | Some tenant \<Rightarrow>
               let row = meta_row env (Some (w_meta w1)) tenant bearer wall
               in case auth_open env w1 tenant row of
                    (Inl r, w2) \<Rightarrow> (r, w2)
                  | (Inr d, w2) \<Rightarrow>
                      auth_fill env w2 tenant bearer row (auth_session env w2 bearer d wall) inst wall))"

section \<open>A hit is what the databases answered\<close>

lemma role_parse_eq: "role_parse s = Some r \<longleftrightarrow> (s = ''anon'' \<and> r = RAnon) \<or> (s = ''service'' \<and> r = RService)"
  by (auto simp: role_parse_def)

lemma resolve_caches_answer:
  assumes "resolve_bearer env tenant bearer row session wall = (r, Some a)"
  shows "ca_tenant a = tenant \<and> r = Passed (cached_ext env tenant bearer a)"
  using assms
  by (auto simp: resolve_bearer_def user_arm_def pat_arm_def shared_arm_def Let_def row_ext_def cached_ext_def
      cached_policy_def row_policy_def role_parse_eq split: option.splits if_splits)

text \<open>The expiry of the personal token that an answer rests on is ahead.\<close>

definition deadline_ahead :: "request_ext \<Rightarrow> int \<Rightarrow> bool" where
  "deadline_ahead ext wall \<longleftrightarrow> (\<forall>e. x_pat_deadline ext = Some e \<longrightarrow> wall < e)"

lemma answer_hit_Passed:
  "answer_hit env tenant bearer a wall live = Some (Passed ext, drops) \<Longrightarrow>
   ca_tenant a = tenant \<and> live \<and> \<not> drops \<and> ext = cached_ext env tenant bearer a \<and> deadline_ahead ext wall"
  by (auto simp: answer_hit_def unauthenticated_def tenant_gone_def deadline_ahead_def cached_ext_def
      split: cached_auth.splits if_splits option.splits cached_role.splits)

lemma auth_hit_Passed:
  assumes "auth_hit env w tenant bearer a wall = (Answered (Passed ext), w')"
  shows "ca_tenant a = tenant \<and> ext = cached_ext env tenant bearer a \<and> w_cache w' = w_cache w \<and> deadline_ahead ext wall"
proof -
  obtain pool st where g: "(if ca_tenant a = tenant then get_if_live env (w_store w) tenant else (None, w_store w)) = (pool, st)"
    by (cases "if ca_tenant a = tenant then get_if_live env (w_store w) tenant else (None, w_store w)")
  then obtain drops where h: "answer_hit env tenant bearer a wall (pool \<noteq> None) = Some (Passed ext, drops)"
      "w' = (if drops then w\<lparr> w_cache := cache_remove (w_cache w) (hash_token env bearer) \<rparr> else w\<lparr> w_store := st \<rparr>)"
    using assms by (auto simp: auth_hit_def split: option.splits)
  from answer_hit_Passed [OF h(1)] h(2) show ?thesis by auto
qed

text \<open>How the first half of the layer ends when it does not refuse.\<close>

lemma auth_begin_cases:
  assumes "auth_begin env w (Some tenant) authorization inst wall = (e, w')"
  obtains (refused) st code msg where "e = Answered (Refused st code msg)"
  | (panicked) "e = Answered AuthPanic"
  | (hit) bearer c a rl w1 where "extract_bearer authorization = Some bearer"
      "cache_get (w_cache w) (hash_token env bearer) inst = (Some a, c)"
      "w1 = w\<lparr> w_limiter := rl, w_cache := c \<rparr>" "auth_hit env w1 tenant bearer a wall = (e, w')"
  | (miss) bearer c rl where "extract_bearer authorization = Some bearer"
      "cache_get (w_cache w) (hash_token env bearer) inst = (None, c)"
      "w' = w\<lparr> w_limiter := rl, w_cache := c \<rparr>" "e = LookUp bearer"
  using assms
  by (auto simp: auth_begin_def Let_def unauthenticated_def rate_limited_def
      split: option.splits prod.splits acquire_result.splits)

lemma auth_begin_Passed:
  assumes "auth_begin env w (Some tenant) authorization inst wall = (Answered (Passed ext), w')"
  obtains bearer a c where "extract_bearer authorization = Some bearer"
    "cache_get (w_cache w) (hash_token env bearer) inst = (Some a, c)" "w_cache w' = c"
    "ca_tenant a = tenant" "ext = cached_ext env tenant bearer a" "deadline_ahead ext wall"
  using assms
proof (cases rule: auth_begin_cases)
  case (hit bearer c a rl w1)
  with auth_hit_Passed [OF hit(4)] show ?thesis by (intro that [of bearer a c]) auto
qed auto

lemma auth_begin_LookUp:
  assumes "auth_begin env w (Some tenant) authorization inst wall = (LookUp b, w')"
  shows "extract_bearer authorization = Some b \<and> w_meta w' = w_meta w \<and> w_store w' = w_store w \<and>
    w_cache w' = snd (cache_get (w_cache w) (hash_token env b) inst) \<and>
    (\<forall>a. fst (cache_get (w_cache w) (hash_token env b) inst) = Some a \<longrightarrow> ca_tenant a \<noteq> tenant)"
  using assms
proof (cases rule: auth_begin_cases)
  case (hit bearer c a rl w1)
  then show ?thesis
    by (auto simp: auth_hit_def answer_hit_def Let_def split: prod.splits option.splits if_splits cached_auth.splits)
qed auto

lemma auth_open_Inr:
  "auth_open env w tenant row = (Inr d, w') \<Longrightarrow>
   br_tenant_ok row \<and> w_cache w' = w_cache w \<and> w_meta w' = w_meta w \<and> get_or_create env (w_store w) tenant = (Some d, w_store w')"
  by (auto simp: auth_open_def split: if_splits prod.splits option.splits)

lemma auth_open_Inl: "auth_open env w tenant row = (Inl r, w') \<Longrightarrow> r = tenant_denied \<or> r = tenant_gone"
  by (auto simp: auth_open_def split: if_splits prod.splits option.splits)

lemma cache_get_insert:
  assumes "cache_get (cache_insert c k v t) k t' = (Some v', c')"
  shows "v' = v"
  using assms
  by (auto simp: cache_get_def cache_insert_def Let_def update_conv split: option.splits if_splits)

lemma cache_get_again:
  assumes "cache_get c k t = (Some v, c1)" "cache_get c1 k t' = (Some v', c2)"
  shows "v' = v"
  using assms by (auto simp: cache_get_def Let_def split: option.splits if_splits)

lemma cache_get_second:
  assumes "cache_get c1 k t' = (Some v, c2)" "c1 = snd (cache_get c k t)"
  shows "fst (cache_get c k t) = Some v"
  using assms by (auto simp: cache_get_def Let_def delete_conv split: option.splits if_splits)

text \<open>
  C14. A hit gives the request what the databases gave. When the layer lets a request through, and
  the next request with the same header and tenant is answered from the cache, the second gets the
  same identity, role, token hint, publishing policy, file capabilities, quota tier, token deadline
  and audit address as the first.
\<close>

theorem cache_hit_same_answer:
  assumes "bearer_auth_layer env w (Some tenant) authorization inst wall = (Passed ext, w1)"
    and "auth_begin env w1 (Some tenant) authorization inst' wall' = (Answered (Passed ext'), w2)"
  shows "ext' = ext"
proof -
  from assms(2) obtain b a c where a: "extract_bearer authorization = Some b"
      "cache_get (w_cache w1) (hash_token env b) inst' = (Some a, c)" "ca_tenant a = tenant"
      "ext' = cached_ext env tenant b a"
    by (rule auth_begin_Passed)
  obtain e w0 where e: "auth_begin env w (Some tenant) authorization inst wall = (e, w0)"
    by (cases "auth_begin env w (Some tenant) authorization inst wall")
  show ?thesis
  proof (cases e)
    case (Answered r)
    then have "auth_begin env w (Some tenant) authorization inst wall = (Answered (Passed ext), w1)"
      using assms(1) e by (simp add: bearer_auth_layer_def)
    then show ?thesis
      by (rule auth_begin_Passed) (use a in \<open>auto dest: cache_get_again\<close>)
  next
    case (LookUp b')
    note lk = auth_begin_LookUp [OF e [unfolded LookUp]]
    let ?row = "meta_row env (Some (w_meta w0)) tenant b wall"
    obtain d w' where o: "auth_open env w0 tenant ?row = (Inr d, w')"
        "auth_fill env w' tenant b ?row (auth_session env w' b d wall) inst wall = (Passed ext, w1)"
      using assms(1) e LookUp lk a(1) auth_open_Inl [of env w0 tenant ?row]
      by (auto simp: bearer_auth_layer_def tenant_denied_def tenant_gone_def Let_def split: prod.splits sum.splits)
    obtain entry where r: "resolve_bearer env tenant b ?row (auth_session env w' b d wall) wall = (Passed ext, entry)"
      using o(2) by (auto simp: auth_fill_def split: prod.splits)
    show ?thesis
    proof (cases entry)
      case (Some a')
      with o(2) r a(2) have "a = a'"
        by (auto simp: auth_fill_def dest: cache_get_insert)
      with resolve_caches_answer [OF r [unfolded Some]] a(4) show ?thesis by simp
    next
      case None
      then have "w_cache w1 = snd (cache_get (w_cache w) (hash_token env b) inst)"
        using o r lk auth_open_Inr [OF o(1)] a(1) by (auto simp: auth_fill_def)
      with a(2) have "fst (cache_get (w_cache w) (hash_token env b) inst) = Some a"
        by (rule cache_get_second)
      with lk a(1,3) show ?thesis by auto
    qed
  qed
qed

section \<open>Whom the databases let in\<close>

text \<open>The three credentials, as rows of the two databases.\<close>

definition session_credential :: "auth_env \<Rightarrow> session_row list \<Rightarrow> string \<Rightarrow> int \<Rightarrow> auth_ctx \<Rightarrow> bool" where
  "session_credential env rows bearer wall ctx \<longleftrightarrow> is_user_token bearer \<and>
     (\<exists>r \<in> set rows. se_token_hash r = session_hash_token env bearer \<and> to_rfc3339 env wall < se_expires_at r \<and>
        ctx = User (se_user_id r) (session_hash_token env bearer))"

definition pat_credential :: "auth_env \<Rightarrow> meta_db \<Rightarrow> string \<Rightarrow> string \<Rightarrow> int \<Rightarrow> auth_ctx \<Rightarrow> admin_token_row \<Rightarrow> bool" where
  "pat_credential env m tenant bearer wall ctx p \<longleftrightarrow>
     p \<in> set (admin_tokens m) \<and> at_token_hash p = (if starts_with bearer PAT_PREFIX then pat_hash_token env bearer else '''') \<and>
     pat_live env wall p \<and> ctx = Service (Some (at_admin_id p)) \<and>
     ((\<exists>a \<in> set (admins m). ad_id a = at_admin_id p \<and> sees_all_tenants (ad_role a)) \<or>
      (\<exists>t \<in> set (tenants m). tn_id t = tenant \<and> tn_deleted_at t = None \<and> tn_owner_admin_id t = Some (at_admin_id p)))"

text \<open>A personal token that has no expiry, or one that parses and is ahead.\<close>

definition pat_unexpired :: "auth_env \<Rightarrow> admin_token_row \<Rightarrow> int \<Rightarrow> bool" where
  "pat_unexpired env p now \<longleftrightarrow>
     (case at_expires_at p of
        None \<Rightarrow> True
      | Some e \<Rightarrow> (case parse_datetime env e of Some deadline \<Rightarrow> now < deadline | None \<Rightarrow> False))"

definition token_credential :: "auth_env \<Rightarrow> meta_db \<Rightarrow> string \<Rightarrow> string \<Rightarrow> auth_ctx \<Rightarrow> bool" where
  "token_credential env m tenant bearer ctx \<longleftrightarrow>
     (\<exists>k \<in> set (tokens m). tk_token_hash k = hash_token env bearer \<and> tk_tenant_id k = tenant \<and> tk_revoked_at k = None \<and>
        (tk_role k = ''service'' \<and> ctx = Service None \<or> tk_role k = ''anon'' \<and> ctx = Anon))"

lemma find_SomeD: "find P xs = Some x \<Longrightarrow> x \<in> set xs \<and> P x"
  by (auto simp: find_Some_iff)

lemma lookup_session_SomeD:
  assumes "lookup_session env rows bearer wall = Some uid"
  shows "\<exists>r \<in> set rows. se_token_hash r = session_hash_token env bearer \<and> to_rfc3339 env wall < se_expires_at r \<and> se_user_id r = uid"
  using assms by (auto simp: lookup_session_def dest!: find_SomeD)

lemma bearer_matches_D:
  assumes "first_of (bearer_matches env m ph h wall) = Some x"
  shows "(\<exists>p \<in> set (admin_tokens m). at_token_hash p = ph \<and> pat_live env wall p \<and> bm_kind x = ''admin_pat'' \<and>
            bm_admin_id x = Some (at_admin_id p) \<and> bm_expires_at x = at_expires_at p) \<or>
         (\<exists>k \<in> set (tokens m). tk_token_hash k = h \<and> tk_revoked_at k = None \<and> bm_kind x = tk_role k \<and>
            bm_admin_id x = None \<and> bm_bound_tenant x = Some (tk_tenant_id k))"
proof -
  have "x \<in> set (bearer_matches env m ph h wall)"
    using assms by (cases "bearer_matches env m ph h wall") (auto simp: first_of_def)
  then show ?thesis by (auto simp: bearer_matches_def)
qed

lemma row_kind_D:
  assumes "br_kind (bearer_cte env m tenant ph h wall) = Some kind"
  obtains (pat) p where "p \<in> set (admin_tokens m)" "at_token_hash p = ph" "pat_live env wall p" "kind = ''admin_pat''"
      "br_admin_id (bearer_cte env m tenant ph h wall) = Some (at_admin_id p)"
      "br_expires_at (bearer_cte env m tenant ph h wall) = at_expires_at p"
  | (shared) k where "k \<in> set (tokens m)" "tk_token_hash k = h" "tk_revoked_at k = None" "kind = tk_role k"
      "br_admin_id (bearer_cte env m tenant ph h wall) = None"
      "br_bound_tenant (bearer_cte env m tenant ph h wall) = Some (tk_tenant_id k)"
proof -
  from assms obtain x where x: "first_of (bearer_matches env m ph h wall) = Some x" "kind = bm_kind x"
    by (auto simp: bearer_cte_def Let_def)
  from bearer_matches_D [OF x(1)] x show thesis
    by (auto simp: bearer_cte_def Let_def intro: that)
qed

lemma row_admin_role_D:
  assumes "br_admin_role (bearer_cte env m tenant ph h wall) = Some r" "br_admin_id (bearer_cte env m tenant ph h wall) = Some i"
  shows "\<exists>a \<in> set (admins m). ad_id a = i \<and> ad_role a = r"
  using assms by (auto simp: bearer_cte_def Let_def dest!: find_SomeD split: Option.bind_splits)

lemma row_owner_D:
  assumes "br_owner_admin_id (bearer_cte env m tenant ph h wall) = Some i"
  shows "\<exists>t \<in> set (tenants m). tn_id t = tenant \<and> tn_deleted_at t = None \<and> tn_owner_admin_id t = Some i"
  using assms by (auto simp: bearer_cte_def Let_def live_tenant_def dest!: find_SomeD split: Option.bind_splits)

lemma pat_arm_unexpired:
  assumes "pat_arm env tenant bearer row = (Passed ext, entry)" "br_expires_at row = at_expires_at p"
    and "entry \<noteq> None" "deadline_ahead ext now"
  shows "pat_unexpired env p now"
proof -
  have "x_pat_deadline ext = Option.bind (br_expires_at row) (parse_datetime env) \<and>
      (br_expires_at row \<noteq> None \<longrightarrow> x_pat_deadline ext \<noteq> None)"
    using assms(1,3) by (auto simp: pat_arm_def Let_def unauthenticated_def split: option.splits if_splits)
  then show ?thesis using assms(2,4) by (auto simp: deadline_ahead_def pat_unexpired_def split: option.splits)
qed

lemma resolve_authentic:
  assumes r: "resolve_bearer env tenant bearer (meta_row env m tenant bearer wall) session wall'' = (Passed ext, entry)"
    and s: "session \<noteq> None \<Longrightarrow> session = lookup_session env rows bearer wall' \<and> is_user_token bearer"
  shows "session_credential env rows bearer wall' (x_ctx ext) \<or>
    (\<exists>db. m = Some db \<and>
      ((\<exists>p. pat_credential env db tenant bearer wall (x_ctx ext) p \<and>
          (\<forall>now. entry \<noteq> None \<longrightarrow> deadline_ahead ext now \<longrightarrow> pat_unexpired env p now)) \<or>
       token_credential env db tenant bearer (x_ctx ext)))"
proof (cases session)
  case (Some uid)
  then show ?thesis using r s lookup_session_SomeD [of env rows bearer wall' uid]
    by (auto simp: resolve_bearer_def user_arm_def row_ext_def session_credential_def)
next
  case None
  with r obtain kind where k: "br_kind (meta_row env m tenant bearer wall) = Some kind"
    by (auto simp: resolve_bearer_def unauthenticated_def split: option.splits)
  then obtain db where db: "m = Some db" by (cases m) (auto simp: meta_row_def no_row_def)
  let ?ph = "if starts_with bearer PAT_PREFIX then pat_hash_token env bearer else ''''"
  have row: "meta_row env m tenant bearer wall = bearer_cte env db tenant ?ph (hash_token env bearer) wall"
    by (simp add: meta_row_def db)
  from k [unfolded row] show ?thesis
  proof (cases rule: row_kind_D)
    case (pat p)
    with r None k row have "x_ctx ext = Service (Some (at_admin_id p))"
        "(\<exists>r. br_admin_role (bearer_cte env db tenant ?ph (hash_token env bearer) wall) = Some r \<and> sees_all_tenants r) \<or>
         br_owner_admin_id (bearer_cte env db tenant ?ph (hash_token env bearer) wall) = Some (at_admin_id p)"
      by (auto simp: resolve_bearer_def pat_arm_def Let_def row_ext_def split: option.splits if_splits)
    with pat row_admin_role_D [OF _ pat(5)] row_owner_D have "pat_credential env db tenant bearer wall (x_ctx ext) p"
      unfolding pat_credential_def by blast
    moreover have "pat_arm env tenant bearer (bearer_cte env db tenant ?ph (hash_token env bearer) wall) = (Passed ext, entry)"
      using r None k pat(4) by (simp add: resolve_bearer_def row)
    from pat_arm_unexpired [OF this pat(6)]
    have "\<forall>now. entry \<noteq> None \<longrightarrow> deadline_ahead ext now \<longrightarrow> pat_unexpired env p now" by blast
    ultimately show ?thesis using db by blast
  next
    case (shared k')
    with r None k row have "tk_tenant_id k' = tenant \<and>
        (tk_role k' = ''service'' \<and> x_ctx ext = Service None \<or> tk_role k' = ''anon'' \<and> x_ctx ext = Anon)"
      by (auto simp: resolve_bearer_def shared_arm_def pat_arm_def Let_def row_ext_def role_parse_eq unauthenticated_def
          tenant_denied_def split: option.splits if_splits)
    with shared have "token_credential env db tenant bearer (x_ctx ext)" unfolding token_credential_def by blast
    with db show ?thesis by blast
  qed
qed

end
