(* ===== verification/Auth_Revocation.thy ===== *)
theory Auth_Revocation
  imports Auth_Layer
begin

text \<open>
  The layer among other requests and the handlers that revoke: what a request may be at between its
  readings, what the cache then knows, and what reaches a request after a key was revoked. The
  handlers are those of \<open>mgmt/tokens.rs\<close>, \<open>mgmt/admin_pat.rs\<close>, \<open>mgmt/pat_evict.rs\<close>,
  \<open>tenant/auth_routes.rs\<close>, \<open>tenant/admin_user_routes.rs\<close> and \<open>mgmt/tenants/crud.rs\<close>.
\<close>

section \<open>Requests in flight\<close>

text \<open>
  A request that missed the cache is at one of four points. What it has read is kept with the
  instant and the wall clock of the reading. \<open>y_seen\<close> records every reading of a database and
  \<open>y_served\<close> every request let through.
\<close>

datatype in_flight =
    NeedRow (pn_tenant: string) (pn_bearer: string)
  | HasRow (pn_tenant: string) (pn_bearer: string) "meta_db option" int int
  | HasPool (pn_tenant: string) (pn_bearer: string) meta_db int int nat
  | HasSession (pn_tenant: string) (pn_bearer: string) meta_db int int "string option"

datatype reading = SeenMeta int int meta_db | SeenSessions int int "session_row list"

record served =
  sv_inst :: int
  sv_wall :: int
  sv_tenant :: string
  sv_bearer :: string
  sv_ext :: request_ext

record auth_sys =
  y_world :: auth_world
  y_inst :: int
  y_wall :: int
  y_pending :: "in_flight list"
  y_seen :: "reading list"
  y_served :: "served list"

definition log_answer :: "auth_sys \<Rightarrow> string \<Rightarrow> string \<Rightarrow> auth_result \<Rightarrow> served list" where
  "log_answer s tenant bearer r =
     (case r of
        Passed ext \<Rightarrow> y_served s @ [\<lparr> sv_inst = y_inst s, sv_wall = y_wall s, sv_tenant = tenant, sv_bearer = bearer, sv_ext = ext \<rparr>]
      | _ \<Rightarrow> y_served s)"

text \<open>
  Everything else that runs in the process: it may change the databases, the pools and the rooms
  in any way, and of the cache it may only drop entries.
\<close>

definition cache_shrinks :: "auth_cache \<Rightarrow> auth_cache \<Rightarrow> bool" where
  "cache_shrinks c c' \<longleftrightarrow> safety_ttl c' = safety_ttl c \<and> (cache_wf c \<longrightarrow> cache_wf c') \<and>
     (\<forall>k e. cache_wf c \<longrightarrow> cache_entry c' k = Some e \<longrightarrow> cache_entry c k = Some e)"

definition other_work :: "auth_world \<Rightarrow> auth_world \<Rightarrow> bool" where
  "other_work w w' \<longleftrightarrow> cache_shrinks (w_cache w) (w_cache w')"

text \<open>
  \<open>B\<close> are the bearers that arrive, and \<open>d\<close> bounds the time a request takes from reading its row to
  answering.
\<close>

inductive auth_step :: "auth_env \<Rightarrow> string set \<Rightarrow> int \<Rightarrow> auth_sys \<Rightarrow> auth_sys \<Rightarrow> bool"
  for env :: auth_env and B :: "string set" and d :: int where
  tick: "0 \<le> dt \<Longrightarrow> auth_step env B d s (s\<lparr> y_inst := y_inst s + dt, y_wall := wall \<rparr>)"
| answered: "extract_bearer authorization = Some b \<Longrightarrow> b \<in> B \<Longrightarrow>
    auth_begin env (y_world s) (Some tenant) authorization (y_inst s) (y_wall s) = (Answered r, w) \<Longrightarrow>
    auth_step env B d s (s\<lparr> y_world := w, y_served := log_answer s tenant b r \<rparr>)"
| missed: "b \<in> B \<Longrightarrow>
    auth_begin env (y_world s) (Some tenant) authorization (y_inst s) (y_wall s) = (LookUp b, w) \<Longrightarrow>
    auth_step env B d s (s\<lparr> y_world := w, y_pending := NeedRow tenant b # y_pending s \<rparr>)"
| read_row: "y_pending s = ps @ NeedRow tenant b # qs \<Longrightarrow>
    auth_step env B d s (s\<lparr> y_pending := HasRow tenant b (Some (w_meta (y_world s))) (y_inst s) (y_wall s) # ps @ qs,
      y_seen := SeenMeta (y_inst s) (y_wall s) (w_meta (y_world s)) # y_seen s \<rparr>)"
| row_failed: "y_pending s = ps @ NeedRow tenant b # qs \<Longrightarrow>
    auth_step env B d s (s\<lparr> y_pending := HasRow tenant b None (y_inst s) (y_wall s) # ps @ qs \<rparr>)"
| open_pool: "y_pending s = ps @ HasRow tenant b (Some m) t wall # qs \<Longrightarrow>
    auth_open env (y_world s) tenant (meta_row env (Some m) tenant b wall) = (Inr h, w) \<Longrightarrow>
    auth_step env B d s (s\<lparr> y_world := w, y_pending := HasPool tenant b m t wall h # ps @ qs \<rparr>)"
| open_refused: "y_pending s = ps @ HasRow tenant b m t wall # qs \<Longrightarrow>
    auth_open env (y_world s) tenant (meta_row env m tenant b wall) = (Inl r, w) \<Longrightarrow>
    auth_step env B d s (s\<lparr> y_world := w, y_pending := ps @ qs \<rparr>)"
| read_session: "y_pending s = ps @ HasPool tenant b m t wall h # qs \<Longrightarrow>
    auth_step env B d s (s\<lparr> y_pending := HasSession tenant b m t wall (auth_session env (y_world s) b h (y_wall s)) # ps @ qs,
      y_seen := (if h < length (ts_dbs (w_store (y_world s)))
                 then SeenSessions (y_inst s) (y_wall s) (ts_dbs (w_store (y_world s)) ! h) # y_seen s else y_seen s) \<rparr>)"
| session_failed: "y_pending s = ps @ HasPool tenant b m t wall h # qs \<Longrightarrow>
    auth_step env B d s (s\<lparr> y_pending := HasSession tenant b m t wall None # ps @ qs \<rparr>)"
| fill: "y_pending s = ps @ HasSession tenant b m t wall session # qs \<Longrightarrow> y_inst s - t \<le> d \<Longrightarrow>
    auth_fill env (y_world s) tenant b (meta_row env (Some m) tenant b wall) session (y_inst s) (y_wall s) = (r, w) \<Longrightarrow>
    auth_step env B d s (s\<lparr> y_world := w, y_pending := ps @ qs, y_served := log_answer s tenant b r \<rparr>)"
| abandoned: "y_pending s = ps @ p # qs \<Longrightarrow> auth_step env B d s (s\<lparr> y_pending := ps @ qs \<rparr>)"
| other: "other_work (y_world s) w \<Longrightarrow> auth_step env B d s (s\<lparr> y_world := w \<rparr>)"

definition fresh_sys :: "int \<Rightarrow> auth_sys \<Rightarrow> bool" where
  "fresh_sys ttl s \<longleftrightarrow> ac_map (w_cache (y_world s)) = [] \<and> safety_ttl (w_cache (y_world s)) = ttl \<and>
     y_pending s = [] \<and> y_served s = []"

section \<open>What is known of the cache and of the requests\<close>

definition session_seen :: "auth_env \<Rightarrow> reading list \<Rightarrow> string \<Rightarrow> int \<Rightarrow> string option \<Rightarrow> bool" where
  "session_seen env seen b t session \<longleftrightarrow> session = None \<or>
     (is_user_token b \<and> (\<exists>t' wall rows. SeenSessions t' wall rows \<in> set seen \<and> t \<le> t' \<and>
        session = lookup_session env rows b wall))"

definition row_seen :: "auth_env \<Rightarrow> reading list \<Rightarrow> string \<Rightarrow> string \<Rightarrow> meta_db \<Rightarrow> int \<Rightarrow> int \<Rightarrow> bool" where
  "row_seen env seen tenant b m t wall \<longleftrightarrow> SeenMeta t wall m \<in> set seen \<and>
     br_tenant_ok (meta_row env (Some m) tenant b wall)"

definition db_grant ::
  "auth_env \<Rightarrow> string set \<Rightarrow> reading list \<Rightarrow> int \<Rightarrow> string \<Rightarrow> string \<Rightarrow> int \<Rightarrow> request_ext \<Rightarrow> cached_auth option \<Rightarrow> bool" where
  "db_grant env B seen d tenant b i ext entry \<longleftrightarrow> b \<in> B \<and>
     (\<exists>t wall m session wall'. row_seen env seen tenant b m t wall \<and> t \<le> i \<and> i - t \<le> d \<and>
        session_seen env seen b t session \<and>
        resolve_bearer env tenant b (meta_row env (Some m) tenant b wall) session wall' = (Passed ext, entry))"

definition entry_granted :: "auth_env \<Rightarrow> string set \<Rightarrow> reading list \<Rightarrow> int \<Rightarrow> string \<Rightarrow> int \<Rightarrow> cached_auth \<Rightarrow> bool" where
  "entry_granted env B seen d k i a \<longleftrightarrow>
     (\<exists>tenant b ext. k = hash_token env b \<and> db_grant env B seen d tenant b i ext (Some a))"

fun pending_ok :: "auth_env \<Rightarrow> string set \<Rightarrow> reading list \<Rightarrow> int \<Rightarrow> in_flight \<Rightarrow> bool" where
  "pending_ok env B seen now (NeedRow tenant b) = (b \<in> B)"
| "pending_ok env B seen now (HasRow tenant b m t wall) =
     (b \<in> B \<and> t \<le> now \<and> (\<forall>db. m = Some db \<longrightarrow> SeenMeta t wall db \<in> set seen))"
| "pending_ok env B seen now (HasPool tenant b m t wall h) = (b \<in> B \<and> t \<le> now \<and> row_seen env seen tenant b m t wall)"
| "pending_ok env B seen now (HasSession tenant b m t wall session) =
     (b \<in> B \<and> t \<le> now \<and> row_seen env seen tenant b m t wall \<and> session_seen env seen b t session)"

definition served_ok :: "auth_env \<Rightarrow> string set \<Rightarrow> reading list \<Rightarrow> int \<Rightarrow> int \<Rightarrow> served \<Rightarrow> bool" where
  "served_ok env B seen d ttl sv \<longleftrightarrow> (\<exists>i entry. i \<le> sv_inst sv \<and>
     (i = sv_inst sv \<or> sv_inst sv - i < ttl \<and> entry \<noteq> None \<and> deadline_ahead (sv_ext sv) (sv_wall sv)) \<and>
     db_grant env B seen d (sv_tenant sv) (sv_bearer sv) i (sv_ext sv) entry)"

definition auth_inv :: "auth_env \<Rightarrow> string set \<Rightarrow> int \<Rightarrow> int \<Rightarrow> auth_sys \<Rightarrow> bool" where
  "auth_inv env B d ttl s \<longleftrightarrow> safety_ttl (w_cache (y_world s)) = ttl \<and>
     authc.vouched (\<lambda>k i a. i \<le> y_inst s \<and> entry_granted env B (y_seen s) d k i a) (w_cache (y_world s)) \<and>
     (\<forall>p \<in> set (y_pending s). pending_ok env B (y_seen s) (y_inst s) p) \<and>
     (\<forall>sv \<in> set (y_served s). served_ok env B (y_seen s) d ttl sv)"

lemma seen_mono:
  assumes "set seen \<subseteq> set seen'"
  shows "session_seen env seen b t session \<Longrightarrow> session_seen env seen' b t session"
    and "row_seen env seen tenant b m t wall \<Longrightarrow> row_seen env seen' tenant b m t wall"
    and "db_grant env B seen d tenant b i ext entry \<Longrightarrow> db_grant env B seen' d tenant b i ext entry"
    and "entry_granted env B seen d k i a \<Longrightarrow> entry_granted env B seen' d k i a"
    and "now \<le> now' \<Longrightarrow> pending_ok env B seen now p \<Longrightarrow> pending_ok env B seen' now' p"
    and "served_ok env B seen d ttl sv \<Longrightarrow> served_ok env B seen' d ttl sv"
proof -
  show ss: "session_seen env seen b t session \<Longrightarrow> session_seen env seen' b t session" for b t session
    using assms unfolding session_seen_def by blast
  show rs: "row_seen env seen tenant b m t wall \<Longrightarrow> row_seen env seen' tenant b m t wall" for tenant b m t wall
    using assms unfolding row_seen_def by blast
  show dg: "db_grant env B seen d tenant b i ext entry \<Longrightarrow> db_grant env B seen' d tenant b i ext entry" for tenant b i ext entry
    using ss rs unfolding db_grant_def by meson
  show "entry_granted env B seen d k i a \<Longrightarrow> entry_granted env B seen' d k i a"
    using dg unfolding entry_granted_def by blast
  show "now \<le> now' \<Longrightarrow> pending_ok env B seen now p \<Longrightarrow> pending_ok env B seen' now' p"
    using ss rs assms by (cases p) auto
  show "served_ok env B seen d ttl sv \<Longrightarrow> served_ok env B seen' d ttl sv"
    using dg unfolding served_ok_def by blast
qed

text \<open>The four parts of the invariant move separately.\<close>

lemma auth_invI:
  assumes "auth_inv env B d ttl s" "y_inst s \<le> y_inst s'" "set (y_seen s) \<subseteq> set (y_seen s')"
    and "safety_ttl (w_cache (y_world s')) = ttl"
    and "authc.vouched (\<lambda>k i a. i \<le> y_inst s' \<and> entry_granted env B (y_seen s') d k i a) (w_cache (y_world s'))"
    and "\<And>p. p \<in> set (y_pending s') \<Longrightarrow> p \<in> set (y_pending s) \<or> pending_ok env B (y_seen s') (y_inst s') p"
    and "\<And>sv. sv \<in> set (y_served s') \<Longrightarrow> sv \<in> set (y_served s) \<or> served_ok env B (y_seen s') d ttl sv"
  shows "auth_inv env B d ttl s'"
  using assms seen_mono(5,6) [OF assms(3)] unfolding auth_inv_def by blast

lemma vouched_later:
  assumes "auth_inv env B d ttl s" "y_inst s \<le> now" "set (y_seen s) \<subseteq> set seen"
  shows "authc.vouched (\<lambda>k i a. i \<le> now \<and> entry_granted env B seen d k i a) (w_cache (y_world s))"
  using assms seen_mono(4) [OF assms(3)] unfolding auth_inv_def
  by (elim conjE, elim authc.vouched_mono) (meson order_trans)

lemma auth_hit_cache:
  assumes "auth_hit env w tenant bearer a wall = (e, w')"
  shows "w_cache w' = w_cache w \<or> w_cache w' = cache_remove (w_cache w) (hash_token env bearer)"
  using assms by (auto simp: auth_hit_def split: prod.splits option.splits if_splits)

lemma auth_begin_cache:
  assumes "auth_begin env w (Some tenant) authorization inst wall = (e, w')" "authc.vouched P (w_cache w)"
  shows "authc.vouched P (w_cache w') \<and> safety_ttl (w_cache w') = safety_ttl (w_cache w)"
proof -
  have get: "authc.vouched P c \<and> safety_ttl c = safety_ttl (w_cache w)" if "cache_get (w_cache w) h inst = (x, c)" for h x c
    using authc.vouched_get [OF assms(2) that] authc.window_ops(1) [of "w_cache w" h inst] that by simp
  consider (same) "w_cache w' = w_cache w"
    | (got) b x c where "cache_get (w_cache w) (hash_token env b) inst = (x, c)" "w_cache w' = c \<or> w_cache w' = cache_remove c (hash_token env b)"
    using assms(1)
    by (auto simp: auth_begin_def Let_def split: option.splits prod.splits acquire_result.splits dest!: auth_hit_cache)
  then show ?thesis
  proof cases
    case same
    with assms(2) show ?thesis by simp
  next
    case (got b x c)
    with get [OF got(1)] show ?thesis by (auto simp: authc.vouched_forget authc.window_ops(4))
  qed
qed

lemma vouched_shrinks:
  assumes "cache_shrinks c c'" "authc.vouched P c"
  shows "authc.vouched P c'"
  using assms unfolding cache_shrinks_def authc.vouched_def by blast

lemma inv_vouched:
  "auth_inv env B d ttl s \<Longrightarrow>
   authc.vouched (\<lambda>k i a. i \<le> y_inst s \<and> entry_granted env B (y_seen s) d k i a) (w_cache (y_world s)) \<and>
   safety_ttl (w_cache (y_world s)) = ttl"
  by (simp add: auth_inv_def)

lemma log_answer_D:
  "sv \<in> set (log_answer s tenant b r) \<Longrightarrow> sv \<in> set (y_served s) \<or>
   (\<exists>ext. r = Passed ext \<and> sv = \<lparr> sv_inst = y_inst s, sv_wall = y_wall s, sv_tenant = tenant, sv_bearer = b, sv_ext = ext \<rparr>)"
  by (auto simp: log_answer_def split: auth_result.splits)

lemma grant_answer:
  assumes "db_grant env B seen d tenant b i ext (Some a)"
  shows "ca_tenant a = tenant \<and> ext = cached_ext env tenant b a"
  using assms by (auto simp: db_grant_def dest: resolve_caches_answer)

lemma inv_answered:
  assumes inv: "auth_inv env B d ttl s" and inj: "inj_on (hash_token env) B"
    and b: "extract_bearer authorization = Some b" "b \<in> B"
    and a: "auth_begin env (y_world s) (Some tenant) authorization (y_inst s) (y_wall s) = (Answered r, w)"
  shows "auth_inv env B d ttl (s\<lparr> y_world := w, y_served := log_answer s tenant b r \<rparr>)"
proof (rule auth_invI [OF inv])
  note v = inv_vouched [OF inv]
  note c = auth_begin_cache [OF a conjunct1 [OF v]]
  from c v show "safety_ttl (w_cache (y_world (s\<lparr> y_world := w, y_served := log_answer s tenant b r \<rparr>))) = ttl" by simp
  from c show "authc.vouched (\<lambda>k i aa. i \<le> y_inst (s\<lparr> y_world := w, y_served := log_answer s tenant b r \<rparr>) \<and>
      entry_granted env B (y_seen (s\<lparr> y_world := w, y_served := log_answer s tenant b r \<rparr>)) d k i aa)
      (w_cache (y_world (s\<lparr> y_world := w, y_served := log_answer s tenant b r \<rparr>)))" by simp
  show "sv \<in> set (y_served s) \<or> served_ok env B (y_seen (s\<lparr> y_world := w, y_served := log_answer s tenant b r \<rparr>)) d ttl sv"
    if sv: "sv \<in> set (y_served (s\<lparr> y_world := w, y_served := log_answer s tenant b r \<rparr>))" for sv
  proof (cases "sv \<in> set (y_served s)")
    case False
    with sv obtain ext where r: "r = Passed ext"
        "sv = \<lparr> sv_inst = y_inst s, sv_wall = y_wall s, sv_tenant = tenant, sv_bearer = b, sv_ext = ext \<rparr>"
      by (auto dest: log_answer_D)
    from a [unfolded r] obtain x c where hit: "cache_get (w_cache (y_world s)) (hash_token env b) (y_inst s) = (Some x, c)"
        "ca_tenant x = tenant" "ext = cached_ext env tenant b x" "deadline_ahead ext (y_wall s)"
      by (rule auth_begin_Passed) (use b in auto)
    with authc.vouched_get [OF conjunct1 [OF v] hit(1)] v obtain i where i: "i \<le> y_inst s" "y_inst s - i < ttl"
        "entry_granted env B (y_seen s) d (hash_token env b) i x" by auto
    then obtain t' b' ext' where g: "hash_token env b = hash_token env b'" "db_grant env B (y_seen s) d t' b' i ext' (Some x)"
      by (auto simp: entry_granted_def)
    then have "b' = b" using inj b(2) by (auto simp: db_grant_def inj_on_def)
    with g(2) grant_answer [OF g(2)] hit r i show ?thesis by (auto simp: served_ok_def)
  qed simp
qed auto

lemma inv_fill:
  assumes inv: "auth_inv env B d ttl s" and p: "y_pending s = ps @ HasSession tenant b m t wall session # qs"
    and d: "y_inst s - t \<le> d"
    and a: "auth_fill env (y_world s) tenant b (meta_row env (Some m) tenant b wall) session (y_inst s) (y_wall s) = (r, w)"
  shows "auth_inv env B d ttl (s\<lparr> y_world := w, y_pending := ps @ qs, y_served := log_answer s tenant b r \<rparr>)"
    (is "auth_inv env B d ttl ?s'")
proof (rule auth_invI [OF inv])
  note v = inv_vouched [OF inv]
  obtain entry where e: "resolve_bearer env tenant b (meta_row env (Some m) tenant b wall) session (y_wall s) = (r, entry)"
      "w = (case entry of Some x \<Rightarrow> (y_world s)\<lparr> w_cache := cache_insert (w_cache (y_world s)) (hash_token env b) x (y_inst s) \<rparr>
                        | None \<Rightarrow> y_world s)"
    using a by (auto simp: auth_fill_def split: prod.splits)
  have "pending_ok env B (y_seen s) (y_inst s) (HasSession tenant b m t wall session)"
    using inv p by (simp add: auth_inv_def)
  then have g: "db_grant env B (y_seen s) d tenant b (y_inst s) ext entry" if "r = Passed ext" for ext
    using e(1) d that unfolding db_grant_def pending_ok.simps by blast
  show "safety_ttl (w_cache (y_world ?s')) = ttl" using v e(2) by (cases entry) (simp_all add: authc.window_ops(2))
  show "authc.vouched (\<lambda>k i a. i \<le> y_inst ?s' \<and> entry_granted env B (y_seen ?s') d k i a) (w_cache (y_world ?s'))"
  proof (cases entry)
    case (Some x)
    with resolve_caches_answer e(1) have "r = Passed (cached_ext env tenant b x)" by blast
    with g Some have "entry_granted env B (y_seen s) d (hash_token env b) (y_inst s) x"
      by (auto simp: entry_granted_def)
    with v Some e(2) show ?thesis by (simp add: authc.vouched_put)
  qed (use v e(2) in simp)
  show "sv \<in> set (y_served s) \<or> served_ok env B (y_seen ?s') d ttl sv" if "sv \<in> set (y_served ?s')" for sv
  proof -
    from that consider "sv \<in> set (y_served s)"
      | ext where "r = Passed ext" "sv = \<lparr> sv_inst = y_inst s, sv_wall = y_wall s, sv_tenant = tenant, sv_bearer = b, sv_ext = ext \<rparr>"
      by (auto dest: log_answer_D)
    then show ?thesis using g by cases (auto simp: served_ok_def)
  qed
qed (use p in auto)

lemma inv_step:
  assumes "auth_step env B d s s'" "auth_inv env B d ttl s" "inj_on (hash_token env) B"
  shows "auth_inv env B d ttl s'"
  using assms
proof (cases rule: auth_step.cases)
  case (tick dt wall)
  show ?thesis unfolding tick
    by (rule auth_invI [OF assms(2)]) (use tick vouched_later [OF assms(2)] inv_vouched [OF assms(2)] in auto)
next
  case (answered authorization b tenant r w)
  with inv_answered assms show ?thesis by metis
next
  case (missed b tenant authorization w)
  with auth_begin_cache [OF missed(3)] inv_vouched [OF assms(2)] show ?thesis
    by (intro auth_invI [OF assms(2)]) auto
next
  case (read_row ps tenant b qs)
  have "b \<in> B" using assms(2) read_row by (auto simp: auth_inv_def)
  with read_row vouched_later [OF assms(2), of "y_inst s" "SeenMeta (y_inst s) (y_wall s) (w_meta (y_world s)) # y_seen s"]
    inv_vouched [OF assms(2)] show ?thesis
    by (intro auth_invI [OF assms(2)]) auto
next
  case (row_failed ps tenant b qs)
  have "b \<in> B" using assms(2) row_failed by (auto simp: auth_inv_def)
  with row_failed inv_vouched [OF assms(2)] show ?thesis by (intro auth_invI [OF assms(2)]) auto
next
  case (open_pool ps tenant b m t wall qs h w)
  have "pending_ok env B (y_seen s) (y_inst s) (HasRow tenant b (Some m) t wall)"
    using assms(2) open_pool(2) by (simp add: auth_inv_def)
  with open_pool auth_open_Inr [OF open_pool(3)] inv_vouched [OF assms(2)] show ?thesis
    by (intro auth_invI [OF assms(2)]) (auto simp: row_seen_def)
next
  case (open_refused ps tenant b m t wall qs r w)
  then have "w_cache w = w_cache (y_world s)" by (auto simp: auth_open_def split: if_splits prod.splits option.splits)
  with open_refused inv_vouched [OF assms(2)] show ?thesis by (intro auth_invI [OF assms(2)]) auto
next
  case (read_session ps tenant b m t wall h qs)
  have "pending_ok env B (y_seen s) (y_inst s) (HasPool tenant b m t wall h)"
    using assms(2) read_session(2) by (simp add: auth_inv_def)
  moreover have sub: "set (y_seen s) \<subseteq> set (y_seen s')" using read_session(1) by auto
  moreover have "session_seen env (y_seen s') b t (auth_session env (y_world s) b h (y_wall s))"
    using read_session(1) calculation by (auto simp: session_seen_def auth_session_def)
  ultimately have "pending_ok env B (y_seen s') (y_inst s) (HasSession tenant b m t wall (auth_session env (y_world s) b h (y_wall s)))"
    using seen_mono(2) by auto
  moreover have "y_world s' = y_world s" "y_inst s' = y_inst s" "y_served s' = y_served s"
      "set (y_pending s') = insert (HasSession tenant b m t wall (auth_session env (y_world s) b h (y_wall s))) (set ps \<union> set qs)"
    using read_session(1) by simp_all
  ultimately show ?thesis
    using sub vouched_later [OF assms(2) order_refl sub] inv_vouched [OF assms(2)] read_session(2)
    by (intro auth_invI [OF assms(2)]) auto
next
  case (session_failed ps tenant b m t wall h qs)
  have "pending_ok env B (y_seen s) (y_inst s) (HasPool tenant b m t wall h)"
    using assms(2) session_failed(2) by (simp add: auth_inv_def)
  with session_failed inv_vouched [OF assms(2)] show ?thesis
    by (intro auth_invI [OF assms(2)]) (auto simp: session_seen_def)
next
  case (fill ps tenant b m t wall session qs r w)
  with inv_fill [OF assms(2) fill(2-4)] show ?thesis by simp
next
  case (abandoned ps p qs)
  with inv_vouched [OF assms(2)] show ?thesis by (intro auth_invI [OF assms(2)]) auto
next
  case (other w)
  then have "cache_shrinks (w_cache (y_world s)) (w_cache w)" by (simp add: other_work_def)
  with vouched_shrinks inv_vouched [OF assms(2)] other show ?thesis
    by (intro auth_invI [OF assms(2)]) (auto simp: cache_shrinks_def)
qed

lemma fresh_inv: "fresh_sys ttl s \<Longrightarrow> auth_inv env B d ttl s"
  by (auto simp: fresh_sys_def auth_inv_def authc.vouched_def cache_wf_def cache_entry_def)

lemma inv_reach:
  assumes "(auth_step env B d)\<^sup>*\<^sup>* s0 s" "auth_inv env B d ttl s0" "inj_on (hash_token env) B"
  shows "auth_inv env B d ttl s"
  using assms by (induction rule: rtranclp_induct) (auto intro: inv_step)

lemma resolve_tenant:
  assumes "resolve_bearer env tenant b row session wall = (Passed ext, entry)"
  shows "x_tenant ext = tenant"
  using assms
  by (auto simp: resolve_bearer_def user_arm_def pat_arm_def shared_arm_def Let_def row_ext_def unauthenticated_def
      tenant_denied_def split: option.splits if_splits)

lemma row_tenant_ok: "br_tenant_ok (meta_row env (Some m) tenant b wall) \<longleftrightarrow> live_tenant m tenant \<noteq> None"
  by (simp add: meta_row_def bearer_cte_def Let_def)

text \<open>
  C12. Whoever is let through showed a credential that was good a moment ago. Take the layer from an empty cache
  with a positive safety window \<open>ttl\<close>, with requests and the rest of the process interleaved in any way; the
  bearers that arrive have different hashes, and a request answers within a time \<open>d\<close> of reading its row. For every request
  let through there is a reading of the host database, less than \<open>ttl + d\<close> before, in which the tenant exists and
  in which the bearer is one of: an unrevoked and unexpired personal token of an admin who sees all tenants or owns
  this one, an unrevoked service or anon token of this very tenant, or, read from the tenant's own database
  after that, an unexpired user session; and the identity given is the one of that credential. A personal
  token read longer than \<open>d\<close> ago, that is, one served from the cache, has not expired when it is served either.
\<close>

theorem served_identity_fresh:
  assumes "fresh_sys ttl s0" "0 < ttl" "inj_on (hash_token env) B" "(auth_step env B d)\<^sup>*\<^sup>* s0 s" "sv \<in> set (y_served s)"
  shows "\<exists>t wall m. SeenMeta t wall m \<in> set (y_seen s) \<and> t \<le> sv_inst sv \<and> sv_inst sv - t < ttl + d \<and>
    live_tenant m (sv_tenant sv) \<noteq> None \<and> x_tenant (sv_ext sv) = sv_tenant sv \<and>
    ((\<exists>p. pat_credential env m (sv_tenant sv) (sv_bearer sv) wall (x_ctx (sv_ext sv)) p \<and>
        (sv_inst sv - t \<le> d \<or> pat_unexpired env p (sv_wall sv))) \<or>
     token_credential env m (sv_tenant sv) (sv_bearer sv) (x_ctx (sv_ext sv)) \<or>
     (\<exists>t' wall' rows. SeenSessions t' wall' rows \<in> set (y_seen s) \<and> t \<le> t' \<and>
        session_credential env rows (sv_bearer sv) wall' (x_ctx (sv_ext sv))))"
proof -
  from inv_reach [OF assms(4) fresh_inv [OF assms(1)] assms(3)] assms(5)
  have "served_ok env B (y_seen s) d ttl sv" by (simp add: auth_inv_def)
  then obtain i entry t wall m session wall'' where g: "i \<le> sv_inst sv"
      "i = sv_inst sv \<or> sv_inst sv - i < ttl \<and> entry \<noteq> None \<and> deadline_ahead (sv_ext sv) (sv_wall sv)"
      "row_seen env (y_seen s) (sv_tenant sv) (sv_bearer sv) m t wall" "t \<le> i" "i - t \<le> d"
      "session_seen env (y_seen s) (sv_bearer sv) t session"
      "resolve_bearer env (sv_tenant sv) (sv_bearer sv) (meta_row env (Some m) (sv_tenant sv) (sv_bearer sv) wall)
         session wall'' = (Passed (sv_ext sv), entry)"
    unfolding served_ok_def db_grant_def by blast
  have age: "sv_inst sv - t \<le> d \<or> entry \<noteq> None \<and> deadline_ahead (sv_ext sv) (sv_wall sv)" using g(2,5) by auto
  obtain rows wall' where s: "session \<noteq> None \<Longrightarrow> session = lookup_session env rows (sv_bearer sv) wall' \<and> is_user_token (sv_bearer sv) \<and>
      (\<exists>t'. SeenSessions t' wall' rows \<in> set (y_seen s) \<and> t \<le> t')"
    using g(6) by (cases session) (auto simp: session_seen_def)
  have "(\<exists>p. pat_credential env m (sv_tenant sv) (sv_bearer sv) wall (x_ctx (sv_ext sv)) p \<and>
        (sv_inst sv - t \<le> d \<or> pat_unexpired env p (sv_wall sv))) \<or>
     token_credential env m (sv_tenant sv) (sv_bearer sv) (x_ctx (sv_ext sv)) \<or>
     (\<exists>t' wall' rows. SeenSessions t' wall' rows \<in> set (y_seen s) \<and> t \<le> t' \<and>
        session_credential env rows (sv_bearer sv) wall' (x_ctx (sv_ext sv)))"
  proof (cases session)
    case None
    with resolve_authentic [OF g(7), of "[]" 0] age show ?thesis by (auto simp: session_credential_def)
  next
    case (Some uid)
    with s obtain t' where "SeenSessions t' wall' rows \<in> set (y_seen s)" "t \<le> t'" by auto
    with Some s age resolve_authentic [OF g(7), of rows wall'] show ?thesis by blast
  qed
  moreover have "live_tenant m (sv_tenant sv) \<noteq> None" "SeenMeta t wall m \<in> set (y_seen s)"
    using g(3) row_tenant_ok by (auto simp: row_seen_def)
  moreover have "t \<le> sv_inst sv" "sv_inst sv - t < ttl + d" using g(1,2,4,5) assms(2) by auto
  ultimately show ?thesis using resolve_tenant [OF g(7)] by blast
qed

section \<open>The handlers that revoke\<close>

datatype admin_reply = AdminOk | AdminErr nat string string | AdminPanic

definition validate_role :: "string \<Rightarrow> string option" where
  "validate_role s = (if s = ''anon'' then Some ''anon'' else if s = ''service'' then Some ''service'' else None)"

definition cached_slot_role :: "string \<Rightarrow> cached_role option" where
  "cached_slot_role s = (if s = ''service'' then Some CRService else if s = ''anon'' then Some CRAnon else None)"

definition revoke_slot :: "auth_env \<Rightarrow> meta_db \<Rightarrow> string \<Rightarrow> string \<Rightarrow> int \<Rightarrow> meta_db" where
  "revoke_slot env m tenant role wall =
     m\<lparr> tokens := map (\<lambda>k. if tk_tenant_id k = tenant \<and> tk_role k = role \<and> tk_revoked_at k = None
                             then k\<lparr> tk_revoked_at := Some (sql_datetime env wall) \<rparr> else k) (tokens m) \<rparr>"

text \<open>
  \<open>reroll_token_json\<close> of \<open>mgmt/tokens.rs\<close>, holding the host database throughout. Any one of its statements may
  fail: a failing count is read as no such tenant, a failing revocation as none revoked (\<open>unwrap_or(0)\<close>), and the
  handler goes on; the insert and the commit are unwrapped, so that their failure, or a hash that is taken,
  panics, and the transaction is rolled back. Of the two buses it clears, the event bus is not part of this state.
\<close>

datatype reroll_fault = NoFault | CountFails | BeginFails | RevokeFails | InsertFails | CommitFails

definition reroll_token_json ::
  "auth_env \<Rightarrow> auth_world \<Rightarrow> reroll_fault \<Rightarrow> string \<Rightarrow> string \<Rightarrow> string \<Rightarrow> int \<Rightarrow> admin_reply \<times> auth_world" where
  "reroll_token_json env w fault tenant role plaintext wall =
     (case validate_role role of
        None \<Rightarrow> (AdminErr 400 ''TYPE_MISMATCH'' (''role must be '' @ squoted ''anon'' @ '' or '' @ squoted ''service''), w)
      | Some role_str \<Rightarrow>
          if fault = CountFails \<or> live_tenant (w_meta w) tenant = None then (AdminErr 404 '''' ''no such tenant'', w)
          else if fault = BeginFails then (AdminErr 500 '''' ''transaction'', w)
          else if fault = InsertFails \<or> fault = CommitFails \<or> hash_token env plaintext \<in> tk_token_hash ` set (tokens (w_meta w))
          then (AdminPanic, w)
          else
            let m = (if fault = RevokeFails then w_meta w else revoke_slot env (w_meta w) tenant role_str wall);
                m' = m\<lparr> tokens := tokens m @ [\<lparr> tk_tenant_id = tenant, tk_token_hash = hash_token env plaintext,
                                                  tk_role = role_str, tk_revoked_at = None \<rparr>] \<rparr>;
                c = (case cached_slot_role role_str of
                       Some r \<Rightarrow> clear_tenant_role (w_cache w) tenant r
                     | None \<Rightarrow> w_cache w)
            in (AdminOk, w\<lparr> w_meta := m', w_cache := c, w_rooms := evict_tenant (w_rooms w) tenant \<rparr>))"

text \<open>The tenants a personal token reaches, \<open>mgmt/pat_evict.rs\<close>; an unknown admin reaches all.\<close>

datatype pat_reach = HostWide | Owned "string list"

definition read_pat_reach :: "meta_db \<Rightarrow> int \<Rightarrow> pat_reach" where
  "read_pat_reach m admin =
     (case find (\<lambda>a. ad_id a = admin) (admins m) of
        None \<Rightarrow> HostWide
      | Some a \<Rightarrow>
          if sees_all_tenants (ad_role a) then HostWide
          else Owned (map tn_id (filter (\<lambda>t. tn_owner_admin_id t = Some admin \<and> tn_deleted_at t = None) (tenants m))))"

fun evict_reach :: "room_bus \<Rightarrow> pat_reach \<Rightarrow> room_bus" where
  "evict_reach bus HostWide = evict_all_tenants bus"
| "evict_reach bus (Owned ids) = fold (\<lambda>i b. evict_tenant b i) ids bus"

definition revoke_pats :: "auth_env \<Rightarrow> meta_db \<Rightarrow> (admin_token_row \<Rightarrow> bool) \<Rightarrow> int \<Rightarrow> meta_db" where
  "revoke_pats env m which wall =
     m\<lparr> admin_tokens := map (\<lambda>p. if which p \<and> at_revoked_at p = None
                                  then p\<lparr> at_revoked_at := Some (sql_datetime env wall) \<rparr> else p) (admin_tokens m) \<rparr>"

text \<open>
  \<open>reroll\<close> of \<open>mgmt/admin_pat.rs\<close>: the unlabelled token of the caller is replaced; \<open>new_id\<close> is the
  row id SQLite gives it. A hash that is taken rolls the transaction back.
\<close>

definition reroll_pat :: "auth_env \<Rightarrow> auth_world \<Rightarrow> int \<Rightarrow> string \<Rightarrow> int \<Rightarrow> int \<Rightarrow> admin_reply \<times> auth_world" where
  "reroll_pat env w caller plaintext new_id wall =
     (let h = pat_hash_token env plaintext in
      if h \<in> at_token_hash ` set (admin_tokens (w_meta w))
      then (AdminErr 500 ''INTERNAL'' ''UNIQUE constraint failed: _admin_tokens.token_hash'', w)
      else
        let m = revoke_pats env (w_meta w) (\<lambda>p. at_admin_id p = caller \<and> at_label p = None) wall;
            m' = m\<lparr> admin_tokens := admin_tokens m @ [\<lparr> at_id = new_id, at_admin_id = caller, at_token_hash = h,
                      at_label = None, at_expires_at = None, at_revoked_at = None \<rparr>] \<rparr>
        in (AdminOk, w\<lparr> w_meta := m', w_cache := clear_admin_pat (w_cache w) caller,
                        w_rooms := evict_reach (w_rooms w) (read_pat_reach m' caller) \<rparr>))"

definition cli_pat_of :: "int \<Rightarrow> int \<Rightarrow> admin_token_row \<Rightarrow> bool" where
  "cli_pat_of token_id caller p \<longleftrightarrow> at_id p = token_id \<and> at_admin_id p = caller \<and> at_label p \<noteq> None"

definition cli_pats_active :: "meta_db \<Rightarrow> int \<Rightarrow> int \<Rightarrow> bool" where
  "cli_pats_active m token_id caller \<longleftrightarrow> (\<exists>p \<in> set (admin_tokens m). cli_pat_of token_id caller p \<and> at_revoked_at p = None)"

definition drop_cli_pat :: "auth_env \<Rightarrow> auth_world \<Rightarrow> int \<Rightarrow> int \<Rightarrow> int \<Rightarrow> auth_world" where
  "drop_cli_pat env w token_id caller wall =
     (let m = revoke_pats env (w_meta w) (cli_pat_of token_id caller) wall
      in w\<lparr> w_meta := m, w_cache := clear_admin_pat (w_cache w) caller,
            w_rooms := evict_reach (w_rooms w) (read_pat_reach m caller) \<rparr>)"

definition cli_token_logout :: "auth_env \<Rightarrow> auth_world \<Rightarrow> int \<Rightarrow> int \<Rightarrow> int \<Rightarrow> admin_reply \<times> auth_world" where
  "cli_token_logout env w token_id caller wall =
     (AdminOk, if cli_pats_active (w_meta w) token_id caller then drop_cli_pat env w token_id caller wall else w)"

definition cli_token_revoke :: "auth_env \<Rightarrow> auth_world \<Rightarrow> int \<Rightarrow> int \<Rightarrow> int \<Rightarrow> admin_reply \<times> auth_world" where
  "cli_token_revoke env w token_id caller wall =
     (if cli_pats_active (w_meta w) token_id caller then (AdminOk, drop_cli_pat env w token_id caller wall)
      else (AdminErr 404 ''CLI_TOKEN_NOT_FOUND'' ''no active CLI token with that id for this admin'', w))"

definition revoke_user_realtime :: "auth_world \<Rightarrow> string \<Rightarrow> string \<Rightarrow> auth_world" where
  "revoke_user_realtime w tenant uid =
     w\<lparr> w_cache := clear_user (w_cache w) uid, w_rooms := evict_tenant (w_rooms w) tenant \<rparr>"

definition update_db :: "tenant_store \<Rightarrow> nat \<Rightarrow> (session_row list \<Rightarrow> session_row list) \<Rightarrow> tenant_store" where
  "update_db st h f = (if h < length (ts_dbs st) then st\<lparr> ts_dbs := (ts_dbs st)[h := f (ts_dbs st ! h)] \<rparr> else st)"

text \<open>
  The three REST handlers that end sessions (\<open>logout_handler\<close>, \<open>logout_all_handler\<close> of
  \<open>tenant/auth_routes.rs\<close> and \<open>revoke_sessions_handler\<close> of \<open>tenant/admin_user_routes.rs\<close>); \<open>wrote\<close>
  is whether the delete succeeded, an error being ignored.
\<close>

definition end_sessions ::
  "auth_env \<Rightarrow> auth_world \<Rightarrow> string \<Rightarrow> string \<Rightarrow> (session_row list \<Rightarrow> session_row list) \<Rightarrow> bool \<Rightarrow> admin_reply \<times> auth_world" where
  "end_sessions env w tenant uid f wrote =
     (case get_or_create env (w_store w) tenant of
        (None, st) \<Rightarrow> (AdminErr 404 ''TENANT_NOT_FOUND'' '''', w\<lparr> w_store := st \<rparr>)
      | (Some h, st) \<Rightarrow>
          (AdminOk, revoke_user_realtime (w\<lparr> w_store := (if wrote then update_db st h f else st) \<rparr>) tenant uid))"

definition logout_handler :: "auth_env \<Rightarrow> auth_world \<Rightarrow> string \<Rightarrow> auth_ctx \<Rightarrow> bool \<Rightarrow> admin_reply \<times> auth_world" where
  "logout_handler env w tenant ctx wrote =
     (case ctx of
        User uid h \<Rightarrow> end_sessions env w tenant uid (\<lambda>rows. revoke_session_by_hash rows h) wrote
      | _ \<Rightarrow> (AdminErr 401 ''NOT_USER_TOKEN'' ''logout requires user token'', w))"

definition logout_all_handler :: "auth_env \<Rightarrow> auth_world \<Rightarrow> string \<Rightarrow> auth_ctx \<Rightarrow> bool \<Rightarrow> admin_reply \<times> auth_world" where
  "logout_all_handler env w tenant ctx wrote =
     (case ctx of
        User uid h \<Rightarrow> end_sessions env w tenant uid (\<lambda>rows. fst (revoke_all_sessions rows uid)) wrote
      | _ \<Rightarrow> (AdminErr 401 ''NOT_USER_TOKEN'' ''logout-all requires user token'', w))"

definition revoke_sessions_handler :: "auth_env \<Rightarrow> auth_world \<Rightarrow> string \<Rightarrow> string \<Rightarrow> bool \<Rightarrow> admin_reply \<times> auth_world" where
  "revoke_sessions_handler env w tenant uid wrote =
     end_sessions env w tenant uid (\<lambda>rows. fst (revoke_all_sessions rows uid)) wrote"

text \<open>
  \<open>soft_delete_tenant\<close> of \<open>mgmt/tenants/crud.rs\<close>, from the update on; \<open>moved\<close> is whether the
  directory could be renamed into the trash. The MCP stacks, the event bus, the egress version and
  the cron index it also drops are not part of this state.
\<close>

definition soft_delete_tenant :: "auth_env \<Rightarrow> auth_world \<Rightarrow> string \<Rightarrow> bool \<Rightarrow> int \<Rightarrow> admin_reply \<times> auth_world" where
  "soft_delete_tenant env w tenant moved wall =
     (if live_tenant (w_meta w) tenant = None then (AdminErr 404 '''' ''no such tenant'', w)
      else
        let m = (w_meta w)\<lparr> tenants := map (\<lambda>t. if tn_id t = tenant \<and> tn_deleted_at t = None
                                                then t\<lparr> tn_deleted_at := Some (sql_datetime env wall) \<rparr> else t)
                                         (tenants (w_meta w)) \<rparr>;
            st = (if moved then (w_store w)\<lparr> ts_files := AList.delete tenant (ts_files (w_store w)) \<rparr> else w_store w)
        in (AdminOk, w\<lparr> w_meta := m, w_store := evict_pool st tenant, w_rooms := evict_tenant (w_rooms w) tenant,
                        w_cache := clear_tenant (w_cache w) tenant \<rparr>))"

text \<open>Each of them is work the layer may be interleaved with.\<close>

lemma retain_shrinks: "cache_shrinks c (cache_retain c keep)"
  using authc.window_ops(3) authc.ok_ops authc.evict_entries unfolding cache_shrinks_def by blast

lemma shrinks_refl [simp]: "cache_shrinks c c"
  by (simp add: cache_shrinks_def)

lemma clears_shrink [simp]:
  "cache_shrinks c (clear_tenant c t)" "cache_shrinks c (clear_tenant_role c t r)"
  "cache_shrinks c (clear_admin_pat c i)" "cache_shrinks c (clear_user c u)"
  by (simp_all add: clear_tenant_def clear_tenant_role_def clear_admin_pat_def clear_user_def retain_shrinks)

lemma handlers_interleave:
  "other_work w (snd (reroll_token_json env w fault tenant role plaintext wall))"
  "other_work w (snd (reroll_pat env w caller plaintext new_id wall))"
  "other_work w (snd (cli_token_logout env w token_id caller wall))"
  "other_work w (snd (cli_token_revoke env w token_id caller wall))"
  "other_work w (snd (logout_handler env w tenant ctx wrote))"
  "other_work w (snd (logout_all_handler env w tenant ctx wrote))"
  "other_work w (snd (revoke_sessions_handler env w tenant uid wrote))"
  "other_work w (snd (soft_delete_tenant env w tenant moved wall))"
  by (auto simp: other_work_def reroll_token_json_def reroll_pat_def cli_token_logout_def cli_token_revoke_def
      drop_cli_pat_def logout_handler_def logout_all_handler_def revoke_sessions_handler_def end_sessions_def
      revoke_user_realtime_def soft_delete_tenant_def Let_def split: option.splits auth_ctx.splits prod.splits)

section \<open>A revoked token stays out\<close>

definition shared_bearer :: "string \<Rightarrow> bool" where
  "shared_bearer b \<longleftrightarrow> \<not> is_user_token b \<and> \<not> starts_with b PAT_PREFIX"

text \<open>
  A token's hash belongs to one tenant and role for ever, and no personal token has an empty hash.
\<close>

definition slots_ok :: "(string \<Rightarrow> string \<times> string) \<Rightarrow> meta_db \<Rightarrow> bool" where
  "slots_ok slot m \<longleftrightarrow> (\<forall>k \<in> set (tokens m). slot (tk_token_hash k) = (tk_tenant_id k, tk_role k)) \<and>
     (\<forall>p \<in> set (admin_tokens m). at_token_hash p \<noteq> [])"

definition hash_dead :: "meta_db \<Rightarrow> string \<Rightarrow> bool" where
  "hash_dead m h \<longleftrightarrow> (\<forall>k \<in> set (tokens m). tk_token_hash k = h \<longrightarrow> tk_revoked_at k \<noteq> None) \<and>
     (\<forall>p \<in> set (admin_tokens m). at_token_hash p \<noteq> [])"

fun pending_dead :: "string \<Rightarrow> string \<Rightarrow> in_flight \<Rightarrow> bool" where
  "pending_dead b h (NeedRow _ b') = True"
| "pending_dead b h (HasRow _ b' m _ _) = (b' = b \<longrightarrow> (\<forall>db. m = Some db \<longrightarrow> hash_dead db h))"
| "pending_dead b h (HasPool _ b' m _ _ _) = (b' = b \<longrightarrow> hash_dead m h)"
| "pending_dead b h (HasSession _ b' m _ _ session) = (b' = b \<longrightarrow> hash_dead m h \<and> session = None)"

definition bearer_out :: "auth_env \<Rightarrow> string set \<Rightarrow> string \<Rightarrow> auth_sys \<Rightarrow> bool" where
  "bearer_out env B b s \<longleftrightarrow> cache_wf (w_cache (y_world s)) \<and> cache_entry (w_cache (y_world s)) (hash_token env b) = None \<and>
     hash_dead (w_meta (y_world s)) (hash_token env b) \<and>
     (\<forall>p \<in> set (y_pending s). pn_bearer p \<in> B \<and> pending_dead b (hash_token env b) p)"

lemma dead_refused:
  assumes "hash_dead m (hash_token env b)" "shared_bearer b"
  shows "resolve_bearer env tenant b (meta_row env (Some m) tenant b wall) None wall' = (unauthenticated ''invalid token'', None)"
proof -
  have "bearer_matches env m [] (hash_token env b) wall = []"
    using assms(1) by (auto simp: bearer_matches_def hash_dead_def filter_empty_conv)
  then show ?thesis
    using assms(2) by (simp add: resolve_bearer_def meta_row_def bearer_cte_def shared_bearer_def first_of_def Let_def)
qed

lemma begin_entry:
  assumes "auth_begin env w (Some tenant) authorization inst wall = (e, w')" "cache_wf (w_cache w)"
    "cache_entry (w_cache w) h = None"
  shows "cache_wf (w_cache w') \<and> cache_entry (w_cache w') h = None \<and> w_meta w' = w_meta w"
proof -
  have "authc.vouched (\<lambda>k i a. k \<noteq> h) (w_cache w)" using assms(2,3) by (auto simp: authc.vouched_def)
  from auth_begin_cache [OF assms(1) this] have "cache_wf (w_cache w') \<and> cache_entry (w_cache w') h = None"
    by (auto simp: authc.vouched_def split: option.split) (metis option.exhaust surj_pair)
  moreover have "w_meta w' = w_meta w"
    using assms(1)
    by (auto simp: auth_begin_def auth_hit_def Let_def split: option.splits prod.splits acquire_result.splits if_splits)
  ultimately show ?thesis by simp
qed

lemma insert_entry:
  assumes "cache_wf c" "cache_entry c h = None" "k \<noteq> h"
  shows "cache_wf (cache_insert c k a t) \<and> cache_entry (cache_insert c k a t) h = None"
  using authc.put_entries [OF assms(1), of k a t h] authc.ok_ops [OF assms(1), of k t a] assms(2,3)
  by (cases "cache_entry (cache_insert c k a t) h") auto

definition readings_ok :: "(string \<Rightarrow> string \<times> string) \<Rightarrow> auth_sys \<Rightarrow> bool" where
  "readings_ok slot s \<longleftrightarrow> (\<forall>t wall m. SeenMeta t wall m \<in> set (y_seen s) \<longrightarrow> slots_ok slot m)"

definition no_row_read :: "string \<Rightarrow> auth_sys \<Rightarrow> bool" where
  "no_row_read b s \<longleftrightarrow> (\<forall>p \<in> set (y_pending s). pn_bearer p = b \<longrightarrow> (\<exists>t. p = NeedRow t b))"

lemma fill_out:
  assumes f: "auth_fill env w tenant b' (meta_row env (Some m) tenant b' wall) session inst wall' = (r, w')"
    and "cache_wf (w_cache w)" "cache_entry (w_cache w) (hash_token env b) = None" "shared_bearer b"
    and "pending_dead b (hash_token env b) (HasSession tenant b' m t wall session)"
    and "b' \<in> B" "b \<in> B" "inj_on (hash_token env) B"
  shows "cache_wf (w_cache w') \<and> cache_entry (w_cache w') (hash_token env b) = None \<and> w_meta w' = w_meta w \<and>
    (b' = b \<longrightarrow> (\<nexists>ext. r = Passed ext))"
proof (cases "b' = b")
  case True
  with assms(5) f dead_refused [OF _ assms(4), of m env tenant wall wall'] have "r = unauthenticated ''invalid token''" "w' = w"
    by (auto simp: auth_fill_def)
  with assms show ?thesis by (simp add: unauthenticated_def)
next
  case False
  with assms(6-8) have "hash_token env b' \<noteq> hash_token env b" by (auto simp: inj_on_def)
  with f insert_entry [OF assms(2,3)] assms(2,3) False show ?thesis
    by (auto simp: auth_fill_def split: prod.splits option.splits)
qed

lemma log_answer_other:
  assumes "b' = b \<longrightarrow> (\<nexists>ext. r = Passed ext)" "sv \<in> set (log_answer s tenant b' r)" "sv_bearer sv = b"
  shows "sv \<in> set (y_served s)"
  using assms log_answer_D [OF assms(2)] by auto

lemma out_step:
  assumes st: "auth_step env B d s s'" and out: "bearer_out env B b s" and dead: "hash_dead (w_meta (y_world s')) (hash_token env b)"
    and b: "shared_bearer b" "b \<in> B" "inj_on (hash_token env) B"
  shows "bearer_out env B b s' \<and> (\<forall>sv \<in> set (y_served s'). sv_bearer sv = b \<longrightarrow> sv \<in> set (y_served s))"
proof -
  have o: "cache_wf (w_cache (y_world s))" "cache_entry (w_cache (y_world s)) (hash_token env b) = None"
      "hash_dead (w_meta (y_world s)) (hash_token env b)"
      "\<And>p. p \<in> set (y_pending s) \<Longrightarrow> pn_bearer p \<in> B \<and> pending_dead b (hash_token env b) p"
    using out by (auto simp: bearer_out_def)
  from st show ?thesis
  proof (cases rule: auth_step.cases)
    case (answered authorization b' tenant r w)
    note e = begin_entry [OF answered(4) o(1,2)]
    have "\<nexists>ext. r = Passed ext" if "b' = b"
    proof
      assume "\<exists>ext. r = Passed ext"
      then obtain ext where "auth_begin env (y_world s) (Some tenant) authorization (y_inst s) (y_wall s) = (Answered (Passed ext), w)"
        using answered(4) by blast
      then show False
      proof (rule auth_begin_Passed)
        fix bearer a c
        assume "extract_bearer authorization = Some bearer" "cache_get (w_cache (y_world s)) (hash_token env bearer) (y_inst s) = (Some a, c)"
        with answered(2) that o(2) show False by (auto dest: authc.get_hit)
      qed
    qed
    with answered(1) e dead o log_answer_other [of b' b r] show ?thesis by (auto simp: bearer_out_def)
  next
    case (missed b' tenant authorization w)
    with begin_entry [OF missed(3) o(1,2)] o dead show ?thesis by (auto simp: bearer_out_def)
  next
    case (open_pool ps tenant b' m t wall qs h w)
    with o(4) [of "HasRow tenant b' (Some m) t wall"] auth_open_Inr [OF open_pool(3)] o dead show ?thesis
      by (auto simp: bearer_out_def)
  next
    case (open_refused ps tenant b' m t wall qs r w)
    then have "w_cache w = w_cache (y_world s)" by (auto simp: auth_open_def split: if_splits prod.splits option.splits)
    with open_refused o dead show ?thesis by (auto simp: bearer_out_def)
  next
    case (read_session ps tenant b' m t wall h qs)
    with o(4) [of "HasPool tenant b' m t wall h"] b(1) o dead show ?thesis
      by (auto simp: bearer_out_def auth_session_def shared_bearer_def)
  next
    case (fill ps tenant b' m t wall session qs r w)
    have p: "b' \<in> B" "pending_dead b (hash_token env b) (HasSession tenant b' m t wall session)"
      using o(4) [of "HasSession tenant b' m t wall session"] fill(2) by auto
    note f = fill_out [OF fill(4) o(1,2) b(1) p(2,1) b(2,3)]
    moreover have "pn_bearer q \<in> B \<and> pending_dead b (hash_token env b) q" if "q \<in> set (ps @ qs)" for q
      using o(4) [of q] fill(2) that by auto
    moreover have "\<forall>sv \<in> set (log_answer s tenant b' r). sv_bearer sv = b \<longrightarrow> sv \<in> set (y_served s)"
      using f log_answer_other [of b' b r] by blast
    ultimately show ?thesis using fill(1) dead unfolding bearer_out_def by simp
  next
    case (other w)
    then have c: "cache_shrinks (w_cache (y_world s)) (w_cache w)" by (simp add: other_work_def)
    then have "cache_wf (w_cache w)" "cache_entry (w_cache w) (hash_token env b) = None"
      using o(1,2) unfolding cache_shrinks_def by (metis option.exhaust)+
    with other o dead show ?thesis by (auto simp: bearer_out_def)
  qed (use out dead in \<open>auto simp: bearer_out_def\<close>)
qed

lemma out_steps:
  assumes "(\<lambda>x y. auth_step env B d x y \<and> hash_dead (w_meta (y_world y)) (hash_token env b))\<^sup>*\<^sup>* s s'" "bearer_out env B b s"
    "shared_bearer b" "b \<in> B" "inj_on (hash_token env) B"
  shows "bearer_out env B b s' \<and> (\<forall>sv \<in> set (y_served s'). sv_bearer sv = b \<longrightarrow> sv \<in> set (y_served s))"
  using assms
proof (induction rule: rtranclp_induct)
  case (step y z)
  then show ?case using out_step [of env B d y z b] by blast
qed simp

lemma entry_slot:
  assumes "auth_inv env B d ttl s" "inj_on (hash_token env) B" "b \<in> B" "shared_bearer b"
    and "readings_ok slot s" and "slot (hash_token env b) = (tenant, role)" "cache_entry (w_cache (y_world s)) (hash_token env b) = Some (i, a)"
  shows "\<exists>r u v e c x q. a = CBearer tenant r u v e c x q \<and> cached_slot_role role = Some r"
proof -
  from assms(1,7) have "entry_granted env B (y_seen s) d (hash_token env b) i a"
    by (auto simp: auth_inv_def authc.vouched_def)
  then obtain t' b' ext where g: "hash_token env b = hash_token env b'" "db_grant env B (y_seen s) d t' b' i ext (Some a)"
    by (auto simp: entry_granted_def)
  then have "b' = b" using assms(2,3) by (auto simp: db_grant_def inj_on_def)
  with g(2) obtain t wall m session wall' where
      m: "SeenMeta t wall m \<in> set (y_seen s)" "session_seen env (y_seen s) b t session"
      "resolve_bearer env t' b (meta_row env (Some m) t' b wall) session wall' = (Passed ext, Some a)"
    unfolding db_grant_def row_seen_def by blast
  have s: "session = None" using m(2) assms(4) by (auto simp: session_seen_def shared_bearer_def)
  have row: "meta_row env (Some m) t' b wall = bearer_cte env m t' [] (hash_token env b) wall"
    using assms(4) by (simp add: meta_row_def shared_bearer_def)
  have ok: "slots_ok slot m" using assms(5) m(1) by (auto simp: readings_ok_def)
  note ok = ok [unfolded slots_ok_def]
  obtain kind where k: "br_kind (bearer_cte env m t' [] (hash_token env b) wall) = Some kind"
    using m(3) s row by (auto simp: resolve_bearer_def unauthenticated_def split: option.splits)
  from k show ?thesis
  proof (cases rule: row_kind_D)
    case (pat p)
    with ok show ?thesis by auto
  next
    case (shared tk)
    with ok assms(6) have "tk_tenant_id tk = tenant" "kind = role" by auto
    with m(3) s row shared k show ?thesis
      by (auto simp: resolve_bearer_def shared_arm_def pat_arm_def Let_def role_parse_eq unauthenticated_def
          cached_slot_role_def split: option.splits if_splits)
  qed
qed

lemma reroll_kills_slot:
  assumes r: "reroll_token_json env w fault tenant role plaintext wall = (AdminOk, w')" "fault \<noteq> RevokeFails"
    and "slots_ok slot (w_meta w)" "slot h = (tenant, role)" "hash_token env plaintext \<noteq> h"
  shows "hash_dead (w_meta w') h \<and> (\<forall>r. cached_slot_role role = Some r \<longrightarrow> w_cache w' = clear_tenant_role (w_cache w) tenant r)"
  using assms
  by (auto simp: reroll_token_json_def validate_role_def hash_dead_def revoke_slot_def slots_ok_def Let_def
      cached_slot_role_def split: option.splits if_splits)

text \<open>
  C13. A rerolled key is out at once. When an admin rerolls the service or the anon key of a tenant, the answer is
  success and the statement that revokes the old keys did not fail, no request with the old key is let through any
  more, whatever else runs, as long as no request with that key had already read its row when the reroll ran and no
  later write puts the key back. (Each stored hash belongs to one tenant and role, the new key has another hash, and the
  bearers that arrive have different hashes.) Where the revoking statement fails, the answer is success and the old key
  stays good: \<open>failed_revoke_keeps_key\<close>.
\<close>

theorem rerolled_key_stays_out:
  assumes "fresh_sys ttl s0" "inj_on (hash_token env) B" "(auth_step env B d)\<^sup>*\<^sup>* s0 s"
    and "b \<in> B" "shared_bearer b" "slot (hash_token env b) = (tenant, role)" "hash_token env plaintext \<noteq> hash_token env b"
    and slots: "slots_ok slot (w_meta (y_world s))" "readings_ok slot s" and idle: "no_row_read b s"
    and r: "reroll_token_json env (y_world s) fault tenant role plaintext (y_wall s) = (AdminOk, w)" "fault \<noteq> RevokeFails"
    and later: "(\<lambda>x y. auth_step env B d x y \<and> hash_dead (w_meta (y_world y)) (hash_token env b))\<^sup>*\<^sup>* (s\<lparr> y_world := w \<rparr>) s'"
    and sv: "sv \<in> set (y_served s')" "sv_bearer sv = b"
  shows "sv \<in> set (y_served s)"
proof -
  note inv = inv_reach [OF assms(3) fresh_inv [OF assms(1)] assms(2)]
  note kill = reroll_kills_slot [OF r(1) r(2) slots(1) assms(6,7)]
  have wf: "cache_wf (w_cache (y_world s))" using inv by (auto simp: auth_inv_def authc.vouched_def)
  obtain cr where cr: "cached_slot_role role = Some cr"
    using r(1) by (auto simp: reroll_token_json_def validate_role_def cached_slot_role_def split: option.splits if_splits)
  with kill have wc: "w_cache w = clear_tenant_role (w_cache (y_world s)) tenant cr" by blast
  have "cache_entry (w_cache w) (hash_token env b) = None"
  proof (rule ccontr)
    assume "cache_entry (w_cache w) (hash_token env b) \<noteq> None"
    then obtain i a where "cache_entry (w_cache w) (hash_token env b) = Some (i, a)" by auto
    with wf wc have a: "cache_entry (w_cache (y_world s)) (hash_token env b) = Some (i, a)"
        "case a of CBearer t r _ _ _ _ _ _ \<Rightarrow> \<not> (t = tenant \<and> r = cr) | CUser _ _ _ _ _ _ _ \<Rightarrow> True"
      by (simp_all add: clear_tenant_role_def authc.evict_entries)
    with entry_slot [OF inv assms(2,4,5) slots(2) assms(6) a(1)] cr show False by auto
  qed
  moreover have "pn_bearer p \<in> B \<and> pending_dead b (hash_token env b) p" if p: "p \<in> set (y_pending s)" for p
  proof -
    have "pending_ok env B (y_seen s) (y_inst s) p" using inv p by (simp add: auth_inv_def)
    then show ?thesis using idle p by (cases p) (auto simp: no_row_read_def)
  qed
  moreover have "cache_wf (w_cache w)" using wf by (simp add: wc clear_tenant_role_def authc.ok_ops)
  ultimately have "bearer_out env B b (s\<lparr> y_world := w \<rparr>)" using kill by (auto simp: bearer_out_def)
  from out_steps [OF later this assms(5,4,2)] sv show ?thesis by auto
qed

section \<open>Examples\<close>

definition ex_env :: auth_env where
  "ex_env = \<lparr> sha256 = (\<lambda>s. s), base64_url = (\<lambda>s. CHR ''b'' # s), json_from_str = (\<lambda>_. None),
     parse_datetime = (\<lambda>_. None), to_rfc3339 = (\<lambda>_. ''now''), sql_datetime = (\<lambda>_. ''now''), db_opens = (\<lambda>_. True) \<rparr>"

definition ex_meta :: meta_db where
  "ex_meta = \<lparr> tenants = [\<lparr> tn_id = ''t1'', tn_deleted_at = None, tn_allow_user_publish = Some 1, tn_allow_anon_publish = None,
       tn_file_anon_caps = None, tn_file_user_caps = None, tn_owner_admin_id = Some 7, tn_quota_tier = Some 2 \<rparr>],
     tokens = [\<lparr> tk_tenant_id = ''t1'', tk_token_hash = ''6b'', tk_role = ''service'', tk_revoked_at = None \<rparr>],
     admin_tokens = [], admins = [] \<rparr>"

definition ex_world :: auth_world where
  "ex_world = \<lparr> w_meta = ex_meta, w_store = \<lparr> ts_dbs = [[]], ts_files = [(''t1'', 0)], ts_pools = [] \<rparr>,
     w_cache = cache_new 10 100, w_limiter = rl_new 5 100, w_rooms = bus_new \<rparr>"

definition ex_start :: auth_sys where
  "ex_start = \<lparr> y_world = ex_world, y_inst = 0, y_wall = 0, y_pending = [], y_seen = [], y_served = [] \<rparr>"

definition ex_slot :: "string \<Rightarrow> string \<times> string" where
  "ex_slot h = (''t1'', ''service'')"

lemma ex_start_fields [simp]:
  "y_world ex_start = ex_world" "y_inst ex_start = 0" "y_wall ex_start = 0" "y_pending ex_start = []"
  "y_seen ex_start = []" "y_served ex_start = []"
  by (simp_all add: ex_start_def)

definition ex_begun :: auth_world where
  "ex_begun = snd (auth_begin ex_env ex_world (Some ''t1'') (Some ''Bearer k'') 0 0)"

definition ex_read :: auth_sys where
  "ex_read = ex_start\<lparr> y_world := ex_begun, y_pending := [HasRow ''t1'' ''k'' (Some ex_meta) 0 0],
     y_seen := [SeenMeta 0 0 ex_meta] \<rparr>"

lemma ex_begin:
  "auth_begin ex_env ex_world (Some ''t1'') (Some ''Bearer k'') 0 0 = (LookUp ''k'', ex_begun)" "w_meta ex_begun = ex_meta"
  unfolding ex_begun_def by code_simp+

lemma ex_read_reached: "(auth_step ex_env {''k''} 5)\<^sup>*\<^sup>* ex_start ex_read"
proof -
  have "auth_step ex_env {''k''} 5 ex_start (ex_start\<lparr> y_world := ex_begun, y_pending := [NeedRow ''t1'' ''k''] \<rparr>)"
    using auth_step.missed [of "''k''" "{''k''}" ex_env ex_start "''t1''" "Some ''Bearer k''" ex_begun 5] ex_begin(1) by simp
  moreover have "auth_step ex_env {''k''} 5 (ex_start\<lparr> y_world := ex_begun, y_pending := [NeedRow ''t1'' ''k''] \<rparr>) ex_read"
    using auth_step.read_row [of "ex_start\<lparr> y_world := ex_begun, y_pending := [NeedRow ''t1'' ''k''] \<rparr>" "[]" "''t1''" "''k''" "[]"
        ex_env "{''k''}" 5] ex_begin(2)
    by (simp add: ex_read_def)
  ultimately show ?thesis by (meson converse_rtranclp_into_rtranclp r_into_rtranclp)
qed

text \<open>The rest of a request that has read its row, from any world.\<close>

abbreviation ex_row :: bearer_row where "ex_row \<equiv> meta_row ex_env (Some ex_meta) ''t1'' ''k'' 0"

definition ex_opened :: "auth_sys \<Rightarrow> auth_world" where
  "ex_opened s = snd (auth_open ex_env (y_world s) ''t1'' ex_row)"

definition ex_filled :: "auth_sys \<Rightarrow> auth_result \<times> auth_world" where
  "ex_filled s = auth_fill ex_env (ex_opened s) ''t1'' ''k'' ex_row None (y_inst s) (y_wall s)"

definition ex_finish :: "auth_sys \<Rightarrow> auth_sys" where
  "ex_finish s = s\<lparr> y_seen := SeenSessions (y_inst s) (y_wall s) [] # y_seen s, y_world := snd (ex_filled s), y_pending := [],
     y_served := log_answer s ''t1'' ''k'' (fst (ex_filled s)) \<rparr>"

lemma log_answer_cong:
  "y_served s = y_served s' \<Longrightarrow> y_inst s = y_inst s' \<Longrightarrow> y_wall s = y_wall s' \<Longrightarrow> log_answer s tenant b r = log_answer s' tenant b r"
  by (cases r) (simp_all add: log_answer_def)

lemma rtranclp_three: "R a b \<Longrightarrow> R b c \<Longrightarrow> R c e \<Longrightarrow> R\<^sup>*\<^sup>* a e"
  by (meson converse_rtranclp_into_rtranclp r_into_rtranclp)

lemma ex_finish_reached:
  assumes p: "y_pending s = [HasRow ''t1'' ''k'' (Some ex_meta) 0 0]" "y_inst s \<le> 5"
    and o: "auth_open ex_env (y_world s) ''t1'' ex_row = (Inr h, ex_opened s)"
      "ts_dbs (w_store (ex_opened s)) ! h = []" "h < length (ts_dbs (w_store (ex_opened s)))"
    and P: "\<And>x. w_meta (y_world x) = w_meta (y_world s) \<Longrightarrow> P x"
  shows "(\<lambda>x y. auth_step ex_env {''k''} 5 x y \<and> P y)\<^sup>*\<^sup>* s (ex_finish s)"
proof -
  let ?s1 = "s\<lparr> y_world := ex_opened s, y_pending := [HasPool ''t1'' ''k'' ex_meta 0 0 h] \<rparr>"
  let ?s2 = "?s1\<lparr> y_pending := [HasSession ''t1'' ''k'' ex_meta 0 0 None], y_seen := SeenSessions (y_inst s) (y_wall s) [] # y_seen s \<rparr>"
  have m: "w_meta (ex_opened s) = w_meta (y_world s)" using auth_open_Inr [OF o(1)] by simp
  have m2: "w_meta (snd (ex_filled s)) = w_meta (y_world s)"
    using m by (auto simp: ex_filled_def auth_fill_def split: prod.splits option.splits)
  have "auth_step ex_env {''k''} 5 s ?s1"
    using auth_step.open_pool [of s "[]" "''t1''" "''k''" ex_meta 0 0 "[]" ex_env h "ex_opened s" "{''k''}" 5] p(1) o(1) by simp
  moreover have "auth_step ex_env {''k''} 5 ?s1 ?s2"
    using auth_step.read_session [of ?s1 "[]" "''t1''" "''k''" ex_meta 0 0 h "[]" ex_env "{''k''}" 5] o(2,3)
    by (simp add: auth_session_def is_user_token_def USER_PREFIX_def starts_with_def)
  moreover have "auth_step ex_env {''k''} 5 ?s2 (ex_finish s)"
    using auth_step.fill [of ?s2 "[]" "''t1''" "''k''" ex_meta 0 0 None "[]" 5 ex_env "fst (ex_filled s)" "snd (ex_filled s)" "{''k''}"]
      p(2) log_answer_cong [of ?s2 s "''t1''" "''k''" "fst (ex_filled s)"]
    by (simp add: ex_finish_def ex_filled_def)
  moreover have "P ?s1" "P ?s2" "P (ex_finish s)" using m m2 by (auto intro!: P simp: ex_finish_def)
  ultimately show ?thesis by (intro rtranclp_three [of _ s ?s1 ?s2]) simp_all
qed


definition ex_done :: auth_sys where "ex_done = ex_finish ex_read"

definition ex_served :: served where
  "ex_served = \<lparr> sv_inst = 0, sv_wall = 0, sv_tenant = ''t1'', sv_bearer = ''k'',
     sv_ext = row_ext ex_env ''t1'' ''k'' ex_row (Service None) \<rparr>"

lemma ex_done_reached:
  "(auth_step ex_env {''k''} 5)\<^sup>*\<^sup>* ex_start ex_done" "y_served ex_done = [ex_served]" "y_pending ex_done = []"
  "w_meta (y_world ex_done) = ex_meta" "y_seen ex_done = [SeenSessions 0 0 [], SeenMeta 0 0 ex_meta]" "y_wall ex_done = 0"
proof -
  have f: "fst (ex_filled ex_read) = Passed (row_ext ex_env ''t1'' ''k'' ex_row (Service None))" by code_simp
  have "auth_open ex_env (y_world ex_read) ''t1'' ex_row = (Inr 0, ex_opened ex_read)"
      "ts_dbs (w_store (ex_opened ex_read)) ! 0 = []" "0 < length (ts_dbs (w_store (ex_opened ex_read)))"
    unfolding ex_opened_def by code_simp+
  from ex_finish_reached [OF _ _ this, of "\<lambda>_. True"]
  have "(auth_step ex_env {''k''} 5)\<^sup>*\<^sup>* ex_read ex_done" by (simp add: ex_done_def ex_read_def)
  with ex_read_reached show "(auth_step ex_env {''k''} 5)\<^sup>*\<^sup>* ex_start ex_done" by (rule rtranclp_trans)
  show "y_served ex_done = [ex_served]"
    using f by (simp add: ex_done_def ex_finish_def log_answer_def ex_read_def ex_served_def)
  show "w_meta (y_world ex_done) = ex_meta" by code_simp
qed (simp_all add: ex_done_def ex_finish_def ex_read_def)

lemma ex_fresh: "fresh_sys 10 ex_start"
  unfolding fresh_sys_def by (simp, code_simp)

theorem served_identity_fresh_witness:
  "\<exists>t wall m. SeenMeta t wall m \<in> set (y_seen ex_done) \<and> t \<le> sv_inst ex_served \<and> sv_inst ex_served - t < 10 + 5 \<and>
    live_tenant m (sv_tenant ex_served) \<noteq> None \<and> x_tenant (sv_ext ex_served) = sv_tenant ex_served \<and>
    ((\<exists>p. pat_credential ex_env m (sv_tenant ex_served) (sv_bearer ex_served) wall (x_ctx (sv_ext ex_served)) p \<and>
        (sv_inst ex_served - t \<le> 5 \<or> pat_unexpired ex_env p (sv_wall ex_served))) \<or>
     token_credential ex_env m (sv_tenant ex_served) (sv_bearer ex_served) (x_ctx (sv_ext ex_served)) \<or>
     (\<exists>t' wall' rows. SeenSessions t' wall' rows \<in> set (y_seen ex_done) \<and> t \<le> t' \<and>
        session_credential ex_env rows (sv_bearer ex_served) wall' (x_ctx (sv_ext ex_served))))"
  by (rule served_identity_fresh [OF ex_fresh _ _ ex_done_reached(1)]) (simp_all add: ex_done_reached(2))

definition ex_rerolled :: auth_world where
  "ex_rerolled = snd (reroll_token_json ex_env (y_world ex_done) NoFault ''t1'' ''service'' ''new'' 0)"

lemma ex_slots:
  "ex_slot (hash_token ex_env ''k'') = (''t1'', ''service'')" "slots_ok ex_slot ex_meta" "shared_bearer ''k''"
  "hash_token ex_env ''new'' \<noteq> hash_token ex_env ''k''"
  by (simp add: ex_slot_def, code_simp+)

theorem rerolled_key_stays_out_witness:
  "ex_served \<in> set (y_served (ex_done\<lparr> y_world := ex_rerolled \<rparr>)) \<and> ex_served \<in> set (y_served ex_done)"
proof -
  have r: "reroll_token_json ex_env (y_world ex_done) NoFault ''t1'' ''service'' ''new'' (y_wall ex_done) = (AdminOk, ex_rerolled)"
    unfolding ex_done_reached(6) ex_rerolled_def by code_simp
  have ok: "readings_ok ex_slot ex_done" "no_row_read ''k'' ex_done" "slots_ok ex_slot (w_meta (y_world ex_done))"
    using ex_slots(2) by (simp_all add: readings_ok_def no_row_read_def ex_done_reached)
  have s: "ex_served \<in> set (y_served (ex_done\<lparr> y_world := ex_rerolled \<rparr>))" by (simp add: ex_done_reached(2))
  have "ex_served \<in> set (y_served ex_done)"
    using rerolled_key_stays_out [OF ex_fresh _ ex_done_reached(1) _ ex_slots(3) ex_slots(1) ex_slots(4) ok(3,1,2) r _ _ s]
    by (simp add: ex_served_def)
  with s show ?thesis ..
qed

text \<open>
  The condition on the revoking statement is needed: \<open>unwrap_or(0)\<close> turns its failure into a success that revoked nothing,
  the new key is inserted and announced, and a request with the old key is let through.
\<close>

theorem failed_revoke_keeps_key:
  "\<exists>w ext w'. reroll_token_json ex_env ex_world RevokeFails ''t1'' ''service'' ''new'' 0 = (AdminOk, w) \<and>
     bearer_auth_layer ex_env w (Some ''t1'') (Some ''Bearer k'') 0 0 = (Passed ext, w')"
proof -
  have "case reroll_token_json ex_env ex_world RevokeFails ''t1'' ''service'' ''new'' 0 of
      (AdminOk, w) \<Rightarrow> (case bearer_auth_layer ex_env w (Some ''t1'') (Some ''Bearer k'') 0 0 of (Passed _, _) \<Rightarrow> True | _ \<Rightarrow> False)
    | _ \<Rightarrow> False"
    by code_simp
  then show ?thesis
    by (cases "reroll_token_json ex_env ex_world RevokeFails ''t1'' ''service'' ''new'' 0")
      (auto split: admin_reply.splits auth_result.splits prod.splits)
qed

text \<open>
  The condition on requests in flight is needed. A request that read its row before the reroll
  fills the cache after it, and the next request with the revoked key is let through from there.
\<close>

theorem reroll_races_with_lookup:
  "\<exists>s w s' ext w'. (auth_step ex_env {''k''} 5)\<^sup>*\<^sup>* ex_start s \<and>
     reroll_token_json ex_env (y_world s) NoFault ''t1'' ''service'' ''new'' (y_wall s) = (AdminOk, w) \<and>
     (\<lambda>x y. auth_step ex_env {''k''} 5 x y \<and> hash_dead (w_meta (y_world y)) (hash_token ex_env ''k''))\<^sup>*\<^sup>*
       (s\<lparr> y_world := w \<rparr>) s' \<and> y_pending s' = [] \<and>
     auth_begin ex_env (y_world s') (Some ''t1'') (Some ''Bearer k'') (y_inst s') (y_wall s') = (Answered (Passed ext), w')"
proof -
  define w where "w = snd (reroll_token_json ex_env ex_begun NoFault ''t1'' ''service'' ''new'' 0)"
  define s where "s = ex_read\<lparr> y_world := w \<rparr>"
  have r: "reroll_token_json ex_env ex_begun NoFault ''t1'' ''service'' ''new'' 0 = (AdminOk, w)" unfolding w_def by code_simp
  have o: "auth_open ex_env w ''t1'' ex_row = (Inr 0, snd (auth_open ex_env w ''t1'' ex_row))"
      "ts_dbs (w_store (snd (auth_open ex_env w ''t1'' ex_row))) ! 0 = []"
      "0 < length (ts_dbs (w_store (snd (auth_open ex_env w ''t1'' ex_row))))"
      "hash_dead (w_meta w) (hash_token ex_env ''k'')"
    unfolding w_def by code_simp+
  have e: "y_world (ex_finish s) = snd (auth_fill ex_env (snd (auth_open ex_env w ''t1'' ex_row)) ''t1'' ''k'' ex_row None 0 0)"
      "y_inst (ex_finish s) = 0" "y_wall (ex_finish s) = 0" "y_pending (ex_finish s) = []"
    by (simp_all add: ex_finish_def ex_filled_def ex_opened_def s_def ex_read_def)
  have "(\<lambda>x y. auth_step ex_env {''k''} 5 x y \<and> hash_dead (w_meta (y_world y)) (hash_token ex_env ''k''))\<^sup>*\<^sup>* s (ex_finish s)"
    using o by (intro ex_finish_reached [of _ 0]) (simp_all add: s_def ex_read_def ex_opened_def)
  moreover have "\<exists>ext w'. auth_begin ex_env (y_world (ex_finish s)) (Some ''t1'') (Some ''Bearer k'') 0 0 = (Answered (Passed ext), w')"
    unfolding e w_def by (intro exI) code_simp
  ultimately show ?thesis
    using ex_read_reached r e unfolding s_def
    by (intro exI [of _ ex_read] exI [of _ w] exI [of _ "ex_finish (ex_read\<lparr> y_world := w \<rparr>)"]) (auto simp: ex_read_def)
qed

text \<open>
  In the same way a tenant deleted between the row and the pool gets a new, empty database in the
  live tree, where \<open>get_or_create\<close> makes it.
\<close>

theorem soft_delete_races_with_lookup:
  "\<exists>s w s'. (auth_step ex_env {''k''} 5)\<^sup>*\<^sup>* ex_start s \<and>
     soft_delete_tenant ex_env (y_world s) ''t1'' True (y_wall s) = (AdminOk, w) \<and> map_of (ts_files (w_store w)) ''t1'' = None \<and>
     (auth_step ex_env {''k''} 5)\<^sup>*\<^sup>* (s\<lparr> y_world := w \<rparr>) s' \<and>
     live_tenant (w_meta (y_world s')) ''t1'' = None \<and> map_of (ts_files (w_store (y_world s'))) ''t1'' = Some 1"
proof -
  define w where "w = snd (soft_delete_tenant ex_env ex_begun ''t1'' True 0)"
  define w' where "w' = snd (auth_open ex_env w ''t1'' ex_row)"
  let ?s = "ex_read\<lparr> y_world := w \<rparr>"
  have r: "soft_delete_tenant ex_env ex_begun ''t1'' True 0 = (AdminOk, w)" "map_of (ts_files (w_store w)) ''t1'' = None"
    unfolding w_def by code_simp+
  have o: "auth_open ex_env w ''t1'' ex_row = (Inr 1, w')" "live_tenant (w_meta w') ''t1'' = None"
      "map_of (ts_files (w_store w')) ''t1'' = Some 1"
    unfolding w_def w'_def by code_simp+
  have "auth_step ex_env {''k''} 5 ?s (?s\<lparr> y_world := w', y_pending := HasPool ''t1'' ''k'' ex_meta 0 0 1 # [] @ [] \<rparr>)"
    by (rule auth_step.open_pool [where ps = "[]"]) (use o(1) in \<open>simp_all add: ex_read_def\<close>)
  then show ?thesis
    using ex_read_reached r o(2,3)
    by (intro exI [of _ ex_read] exI [of _ w] exI [of _ "?s\<lparr> y_world := w', y_pending := HasPool ''t1'' ''k'' ex_meta 0 0 1 # [] @ [] \<rparr>"])
      (simp add: ex_read_def)
qed

theorem cache_hit_same_answer_witness:
  "\<exists>ext w1 w2. bearer_auth_layer ex_env ex_world (Some ''t1'') (Some ''Bearer k'') 0 0 = (Passed ext, w1) \<and>
     auth_begin ex_env w1 (Some ''t1'') (Some ''Bearer k'') 3 3 = (Answered (Passed ext), w2)"
proof -
  obtain r w1 where a: "bearer_auth_layer ex_env ex_world (Some ''t1'') (Some ''Bearer k'') 0 0 = (r, w1)"
    by (cases "bearer_auth_layer ex_env ex_world (Some ''t1'') (Some ''Bearer k'') 0 0")
  obtain e w2 where b: "auth_begin ex_env w1 (Some ''t1'') (Some ''Bearer k'') 3 3 = (e, w2)"
    by (cases "auth_begin ex_env w1 (Some ''t1'') (Some ''Bearer k'') 3 3")
  have "case bearer_auth_layer ex_env ex_world (Some ''t1'') (Some ''Bearer k'') 0 0 of
      (Passed _, w) \<Rightarrow> (case auth_begin ex_env w (Some ''t1'') (Some ''Bearer k'') 3 3 of (Answered (Passed _), _) \<Rightarrow> True | _ \<Rightarrow> False)
    | _ \<Rightarrow> False"
    by code_simp
  then obtain ext ext' where x: "r = Passed ext" "e = Answered (Passed ext')"
    using a b by (auto split: auth_result.splits auth_entry.splits)
  from cache_hit_same_answer [OF a [unfolded x] b [unfolded x]] a b x show ?thesis by blast
qed

end
