(* ===== verification/Rest_Records.thy ===== *)
theory Rest_Records
  imports Record_Write Auth_Revocation
begin

text \<open>
  The REST face of the records, \<open>tenant/records.rs\<close>: create, update, delete with its dry run, and
  reading one record or the record history, each as the request arrives from the bearer layer. Rows,
  SQLite and transactions are those of the record writes; of an error response the status and the
  code are kept, its message only where the body is plain text.
\<close>

section \<open>Responses and gates\<close>

datatype rest_resp = RestJson nat json | RestErr nat string | RestText nat string | RestEmpty nat

type_synonym rest_out = "rest_resp \<times> tenant_db \<times> event list"

definition cached_schema :: "write_env \<Rightarrow> string \<Rightarrow> (collection_schema, rest_resp) result" where
  "cached_schema env coll =
     (if is_protected_collection coll then Inl (RestErr 404 ''NOT_FOUND'')
      else case we_cache env coll of
          Inr (Some s) \<Rightarrow> Inr s
        | Inr None \<Rightarrow> Inl (RestErr 404 ''NOT_FOUND'')
        | Inl _ \<Rightarrow> Inl (RestErr 500 ''DB_ERROR''))"

definition require_dml_cap ::
  "write_env \<Rightarrow> token_role \<Rightarrow> string \<Rightarrow> dml_verb \<Rightarrow> (collection_schema, rest_resp) result" where
  "require_dml_cap env role coll verb =
     bind_r (cached_schema env coll) (\<lambda>schema.
       if role = RAnon \<and> s_owner_field schema \<noteq> None then Inl (RestErr 403 ''ANON_FORBIDDEN_OWNER_SCOPED'')
       else if \<not> has_dml_cap role verb schema then Inl (RestErr 403 ''ANON_CAP_DENIED'')
       else Inr schema)"

definition require_write_cap ::
  "write_env \<Rightarrow> token_role \<Rightarrow> auth_ctx \<Rightarrow> string \<Rightarrow> dml_verb \<Rightarrow> (collection_schema, rest_resp) result" where
  "require_write_cap env role ctx coll verb =
     bind_r (cached_schema env coll) (\<lambda>schema.
       if ctx = Anon \<and> s_owner_field schema \<noteq> None then Inl (RestErr 403 ''ANON_FORBIDDEN_OWNER_SCOPED'')
       else if \<not> has_dml_cap role verb schema then Inl (RestErr 403 ''ANON_CAP_DENIED'')
       else Inr schema)"

section \<open>Rows\<close>

definition row_to_json :: "db_row \<Rightarrow> jmap" where
  "row_to_json row = foldl (\<lambda>obj (n, v). jmap_insert n (value_ref_to_json v) obj) [] row"

text \<open>\<open>obj.retain(|k, _| !vector_names.contains(k))\<close>.\<close>

definition retain_plain :: "string list \<Rightarrow> jmap \<Rightarrow> jmap" where
  "retain_plain vnames m = filter (\<lambda>(k, _). k \<notin> set vnames) m"

definition vector_code :: "vector_codec_error \<Rightarrow> string" where
  "vector_code e =
     (case e of DimMismatch _ _ _ \<Rightarrow> ''VECTOR_DIM_MISMATCH'' | NonFinite _ _ \<Rightarrow> ''VECTOR_NON_FINITE''
      | _ \<Rightarrow> ''VECTOR_TYPE_ERROR'')"

text \<open>
  The error of an unknown field is \<open>rusqlite::Error::InvalidQuery\<close>; \<open>display\<close> is rusqlite's text of
  an error, by which the sentinels of the quota and of a policy are recognised.
\<close>

abbreviation InvalidQuery :: db_error where "InvalidQuery \<equiv> OtherDbError ''InvalidQuery''"

definition policy_check_sentinel :: db_error where
  "policy_check_sentinel = SqlInputError ''POLICY_CHECK_FAILED'' [] 0"

definition is_policy_check_failure :: "(db_error \<Rightarrow> string) \<Rightarrow> db_error \<Rightarrow> bool" where
  "is_policy_check_failure display e = str_contains (display e) ''POLICY_CHECK_FAILED''"

definition is_quota_exceeded :: "(db_error \<Rightarrow> string) \<Rightarrow> db_error \<Rightarrow> bool" where
  "is_quota_exceeded display e = str_contains (display e) ''TENANT_QUOTA_EXCEEDED''"

text \<open>Inside a transaction of this file every error is a database error.\<close>

fun tx_db_error :: "tx_error \<Rightarrow> db_error" where
  "tx_db_error (TxDb e) = e"
| "tx_db_error (TxQuota e) = quota_exceeded_error e"
| "tx_db_error TxPolicyCheck = policy_check_sentinel"
| "tx_db_error TxNoRows = QueryReturnedNoRows"
| "tx_db_error (TxCheckViolation e) = e"
| "tx_db_error _ = InvalidQuery"

definition write_error_resp :: "(db_error \<Rightarrow> string) \<Rightarrow> db_error \<Rightarrow> rest_resp" where
  "write_error_resp display e =
     (if is_policy_check_failure display e then RestErr 403 ''POLICY_CHECK_FAILED''
      else if is_check_violation e then RestErr 400 ''CHECK_CONSTRAINT_FAILED''
      else if str_contains (display e) ''InvalidQuery'' then RestErr 400 ''FIELD_NOT_FOUND''
      else RestText 400 (display e))"

definition check_allowed :: "collection_schema \<Rightarrow> jmap \<Rightarrow> (unit, tx_error) result" where
  "check_allowed schema data =
     try_for_each (\<lambda>k. if has_field schema k then Inr () else Inl (TxDb InvalidQuery)) (map fst data)"

definition live_table :: "tenant_db \<Rightarrow> string \<Rightarrow> (coll_table, tx_error) result" where
  "live_table tx coll = (case describe tx coll of Some t \<Rightarrow> Inr t | None \<Rightarrow> Inl (TxDb InvalidQuery))"

definition body_object :: "json \<Rightarrow> (jmap, rest_resp) result" where
  "body_object data = (case as_object data of Some m \<Rightarrow> Inr m | None \<Rightarrow> Inl (RestErr 400 ''TYPE_MISMATCH''))"

definition encode_vectors :: "collection_schema \<Rightarrow> jmap \<Rightarrow> ((string \<times> string) list, rest_resp) result" where
  "encode_vectors schema m = map_err (\<lambda>e. RestErr 422 (vector_code e)) (pre_encode_vectors (s_vector_fields schema) m)"

definition compiled_using ::
  "auth_ctx \<Rightarrow> collection_schema \<Rightarrow> dml_verb \<Rightarrow> ((string \<times> sqlval list) option, rest_resp) result" where
  "compiled_using ctx schema verb =
     map_err (\<lambda>_. RestErr 500 ''POLICY_COMPILE_ERROR'') (policy_using_sql ctx schema verb)"

section \<open>Create\<close>

definition create_tx ::
  "write_env \<Rightarrow> int \<Rightarrow> tenant_db \<Rightarrow> string \<Rightarrow> jmap \<Rightarrow> (string \<times> string) list \<Rightarrow> string list \<Rightarrow> policy_check option
     \<Rightarrow> audit_actor \<Rightarrow> ((int \<times> jmap) \<times> tenant_db, tx_error) result" where
  "create_tx env tier tx coll data vbytes vnames check actor =
     (let sq = we_sqlite env in
      bind_r (map_err TxDb (tx_usage sq tx)) (\<lambda>usage.
      bind_r (map_err TxQuota (check_tenant_quota usage 0 tier)) (\<lambda>_.
      bind_r (live_table tx coll) (\<lambda>t.
      bind_r (check_allowed (ct_schema t) data) (\<lambda>_.
      bind_r (map_err TxDb (sq_insert sq t (bind_values (we_to_string env) vbytes data))) (\<lambda>(rowid, row).
      let rec = retain_plain vnames (row_to_json row);
          i = (case Option.bind (map_of rec ''id'') json_i64 of Some i \<Rightarrow> i | None \<Rightarrow> rowid)
      in
      bind_r (enforce_opt (we_regex env) check rec) (\<lambda>_.
      bind_r (capture sq (put_rows tx coll (ct_rows t @ [(rowid, row)])) coll HInsert i None (Some rec) actor
                (s_audit_enabled (ct_schema t))) (\<lambda>tx'.
        Inr ((i, rec), tx')))))))))"

text \<open>A service caller must name the owner; an anonymous one was refused by the gate.\<close>

definition create_owner :: "auth_ctx \<Rightarrow> collection_schema \<Rightarrow> json \<Rightarrow> (unit, rest_resp) result" where
  "create_owner ctx schema data =
     (case s_owner_field schema of
        None \<Rightarrow> Inr ()
      | Some fld \<Rightarrow>
          (case ctx of
             Anon \<Rightarrow> Inl (RestErr 403 ''ANON_FORBIDDEN_OWNER_SCOPED'')
           | Service _ \<Rightarrow>
               (case Option.bind (Option.bind (as_object data) (\<lambda>m. map_of m fld)) as_str of
                  Some s \<Rightarrow> if s \<noteq> [] then Inr () else Inl (RestErr 409 ''OWNER_FIELD_REQUIRED'')
                | None \<Rightarrow> Inl (RestErr 409 ''OWNER_FIELD_REQUIRED''))
           | User _ _ \<Rightarrow> Inr ()))"

definition create_data :: "auth_ctx \<Rightarrow> collection_schema \<Rightarrow> jmap \<Rightarrow> jmap" where
  "create_data ctx schema m =
     (case (s_owner_field schema, ctx) of
        (Some fld, User uid _) \<Rightarrow> jmap_insert fld (JString uid) m
      | _ \<Rightarrow> m)"

text \<open>What precedes the transaction: the gate, the owner, the body, the vectors.\<close>

definition create_prepare ::
  "write_env \<Rightarrow> request_ext \<Rightarrow> string \<Rightarrow> json \<Rightarrow> (collection_schema \<times> jmap \<times> (string \<times> string) list, rest_resp) result" where
  "create_prepare env ext coll data =
     (let ctx = x_ctx ext in
      bind_r (require_write_cap env (x_role ext) ctx coll Insert) (\<lambda>schema.
      bind_r (create_owner ctx schema data) (\<lambda>_.
      bind_r (body_object data) (\<lambda>m.
      let m' = create_data ctx schema m in
      bind_r (encode_vectors schema m') (\<lambda>vbytes. Inr (schema, m', vbytes))))))"

definition create_handler ::
  "write_env \<Rightarrow> (db_error \<Rightarrow> string) \<Rightarrow> request_ext \<Rightarrow> tenant_db \<Rightarrow> string \<Rightarrow> json \<Rightarrow> rest_out" where
  "create_handler env display ext db coll data =
     (case create_prepare env ext coll data of
        Inl r \<Rightarrow> (r, db, [])
      | Inr (schema, m, vbytes) \<Rightarrow>
          (case with_writer_tx (\<lambda>tx. create_tx env (x_quota_tier ext) tx coll m vbytes (vector_names schema)
                  (write_policy_check (x_ctx ext) schema Insert) (actor_from_auth_ctx (x_ctx ext))) db of
             (Inr (i, rec), db') \<Rightarrow>
               (RestJson 201 (JObject [(''id'', JNumber (jnum_of_int i)), (''record'', JObject rec)]), db', [Created rec])
           | (Inl e, db') \<Rightarrow>
               (if is_quota_exceeded display (tx_db_error e) then RestErr 507 ''TENANT_QUOTA_EXCEEDED''
                else write_error_resp display (tx_db_error e), db', [])))"

section \<open>Update\<close>

definition patch_tx ::
  "write_env \<Rightarrow> int \<Rightarrow> tenant_db \<Rightarrow> string \<Rightarrow> int \<Rightarrow> jmap \<Rightarrow> (string \<times> string) list \<Rightarrow> string list
     \<Rightarrow> (string \<times> string) option \<Rightarrow> (string \<times> sqlval list) option \<Rightarrow> policy_check option \<Rightarrow> audit_actor
     \<Rightarrow> (jmap \<times> tenant_db, tx_error) result" where
  "patch_tx env tier tx coll i data vbytes vnames owner using check actor =
     (let sq = we_sqlite env in
      bind_r (map_err TxDb (tx_usage sq tx)) (\<lambda>before.
      bind_r (live_table tx coll) (\<lambda>t.
      let schema = ct_schema t in
      bind_r (check_allowed schema data) (\<lambda>_.
      bind_r (using_row sq t i using) (\<lambda>visible.
      if \<not> visible then Inl TxNoRows else
      bind_r (if s_audit_enabled schema then select_row_json_owner sq t i owner vnames else Inr None) (\<lambda>old.
      bind_r (owner_row sq t i owner) (\<lambda>target.
      case target of
        None \<Rightarrow> Inl TxNoRows
      | Some row \<Rightarrow>
          bind_r (map_err TxDb (sq_update sq t row (bind_values (we_to_string env) vbytes data))) (\<lambda>row'.
          let rec = retain_plain vnames (row_to_json row') in
          bind_r (enforce_opt (we_regex env) check rec) (\<lambda>_.
          bind_r (capture sq (put_rows tx coll (replace_row i row' (ct_rows t))) coll HUpdate i old (Some rec) actor
                    (s_audit_enabled schema)) (\<lambda>tx'.
          bind_r (map_err TxDb (check_update_growth (tx_usage sq tx') before tier)) (\<lambda>_.
            Inr (rec, tx'))))))))))))"

definition update_data :: "auth_ctx \<Rightarrow> collection_schema \<Rightarrow> jmap \<Rightarrow> jmap" where
  "update_data ctx schema m =
     (case (ctx, s_owner_field schema) of (User _ _, Some fld) \<Rightarrow> jmap_remove fld m | _ \<Rightarrow> m)"

definition update_prepare ::
  "write_env \<Rightarrow> request_ext \<Rightarrow> string \<Rightarrow> json
     \<Rightarrow> (collection_schema \<times> (string \<times> sqlval list) option \<times> jmap \<times> (string \<times> string) list, rest_resp) result" where
  "update_prepare env ext coll data =
     (let ctx = x_ctx ext in
      bind_r (require_write_cap env (x_role ext) ctx coll Update) (\<lambda>schema.
      bind_r (compiled_using ctx schema Update) (\<lambda>using.
      bind_r (body_object data) (\<lambda>m.
      let m' = update_data ctx schema m in
      if m' = [] then Inl (RestErr 400 ''TYPE_MISMATCH'') else
      bind_r (encode_vectors schema m') (\<lambda>vbytes. Inr (schema, using, m', vbytes))))))"

definition update_handler ::
  "write_env \<Rightarrow> (db_error \<Rightarrow> string) \<Rightarrow> request_ext \<Rightarrow> tenant_db \<Rightarrow> string \<Rightarrow> int \<Rightarrow> json \<Rightarrow> rest_out" where
  "update_handler env display ext db coll i data =
     (case update_prepare env ext coll data of
        Inl r \<Rightarrow> (r, db, [])
      | Inr (schema, using, m, vbytes) \<Rightarrow>
          (case with_writer_tx (\<lambda>tx. patch_tx env (x_quota_tier ext) tx coll i m vbytes (vector_names schema)
                  (compute_owner_write_filter (x_ctx ext) schema) using (write_policy_check (x_ctx ext) schema Update)
                  (actor_from_auth_ctx (x_ctx ext))) db of
             (Inr rec, db') \<Rightarrow> (RestJson 200 (JObject [(''record'', JObject rec)]), db', [Updated rec])
           | (Inl e, db') \<Rightarrow>
               (if is_quota_exceeded display (tx_db_error e) then RestErr 507 ''TENANT_QUOTA_EXCEEDED''
                else if tx_db_error e = QueryReturnedNoRows then RestText 404 ''no such record''
                else write_error_resp display (tx_db_error e), db', [])))"

section \<open>Delete\<close>

text \<open>The audit gate and the vector names are those of the cached schema.\<close>

definition remove_tx ::
  "write_env \<Rightarrow> tenant_db \<Rightarrow> string \<Rightarrow> int \<Rightarrow> collection_schema \<Rightarrow> (string \<times> string) option
     \<Rightarrow> (string \<times> sqlval list) option \<Rightarrow> audit_actor \<Rightarrow> (nat \<times> tenant_db, tx_error) result" where
  "remove_tx env tx coll i schema owner using actor =
     (let sq = we_sqlite env in
      case describe tx coll of
        None \<Rightarrow> Inl (TxDb (SqliteFailure 1 (Some (''no such table: '' @ coll))))
      | Some t \<Rightarrow>
          bind_r (using_row sq t i using) (\<lambda>visible.
          if \<not> visible then Inr (0, tx) else
          bind_r (if s_audit_enabled schema then select_row_json_owner sq t i owner (vector_names schema) else Inr None)
            (\<lambda>old.
          bind_r (owner_row sq t i owner) (\<lambda>target.
          case target of
            None \<Rightarrow> Inr (0, tx)
          | Some row \<Rightarrow>
              bind_r (map_err TxDb (sq_delete sq t row)) (\<lambda>_.
              bind_r (capture sq (put_rows tx coll (filter (\<lambda>(j, _). j \<noteq> i) (ct_rows t))) coll HDelete i old None
                        actor (s_audit_enabled schema))
                (\<lambda>tx'. Inr (1, tx')))))))"

text \<open>
  The dry run looks the row up on a reader, with the owner condition and the policy joined into one
  WHERE clause; \<open>blast\<close> is the report on the rows that refer to it (\<open>storage/blast_radius.rs\<close>).
\<close>

definition target_condition ::
  "(string \<times> string) option \<Rightarrow> (string \<times> sqlval list) option \<Rightarrow> (string \<times> sqlval list) option" where
  "target_condition owner using =
     (case (owner, using) of
        (None, None) \<Rightarrow> None
      | (Some fu, None) \<Rightarrow> Some (owner_condition fu, [])
      | (None, Some (frag, b)) \<Rightarrow> Some (''('' @ frag @ '')'', b)
      | (Some fu, Some (frag, b)) \<Rightarrow> Some (owner_condition fu @ '' AND ('' @ frag @ '')'', b))"

definition is_target ::
  "sqlite \<Rightarrow> tenant_db \<Rightarrow> string \<Rightarrow> int \<Rightarrow> (string \<times> string) option \<Rightarrow> (string \<times> sqlval list) option
     \<Rightarrow> (bool, db_error) result" where
  "is_target sq db coll i owner using =
     (case describe db coll of
        None \<Rightarrow> Inl (SqliteFailure 1 (Some (''no such table: '' @ coll)))
      | Some t \<Rightarrow>
          (case map_of (ct_rows t) i of
             None \<Rightarrow> Inr False
           | Some row \<Rightarrow>
               (case target_condition owner using of
                  None \<Rightarrow> Inr True
                | Some (cond, binds) \<Rightarrow> sq_where sq cond binds row)))"

definition delete_prepare ::
  "write_env \<Rightarrow> request_ext \<Rightarrow> string \<Rightarrow> (collection_schema \<times> (string \<times> sqlval list) option, rest_resp) result" where
  "delete_prepare env ext coll =
     bind_r (require_write_cap env (x_role ext) (x_ctx ext) coll Delete) (\<lambda>schema.
     bind_r (compiled_using (x_ctx ext) schema Delete) (\<lambda>using. Inr (schema, using)))"

definition delete_handler ::
  "write_env \<Rightarrow> (db_error \<Rightarrow> string) \<Rightarrow> (string \<Rightarrow> int \<Rightarrow> (json, string) result) \<Rightarrow> request_ext \<Rightarrow> tenant_db \<Rightarrow> string \<Rightarrow> int
     \<Rightarrow> bool option \<Rightarrow> rest_out" where
  "delete_handler env display blast ext db coll i dry_run =
     (case delete_prepare env ext coll of
        Inl r \<Rightarrow> (r, db, [])
      | Inr (schema, using) \<Rightarrow>
          let owner = compute_owner_write_filter (x_ctx ext) schema in
          if dry_run = Some True then
            ((case is_target (we_sqlite env) (we_reader env) coll i owner using of
                Inr True \<Rightarrow> (case blast coll i of Inr br \<Rightarrow> RestJson 200 br | Inl _ \<Rightarrow> RestErr 500 ''INTERNAL_ERROR'')
              | Inr False \<Rightarrow> RestText 404 ''no such record''
              | Inl _ \<Rightarrow> RestErr 500 ''INTERNAL_ERROR''), db, [])
          else
            (case with_writer_tx (\<lambda>tx. remove_tx env tx coll i schema owner using (actor_from_auth_ctx (x_ctx ext))) db of
               (Inr n, db') \<Rightarrow> if n = 0 then (RestText 404 ''no such record'', db', []) else (RestEmpty 204, db', [Deleted i])
             | (Inl e, db') \<Rightarrow> (RestText 500 (display (tx_db_error e)), db', [])))"

section \<open>Reading\<close>

text \<open>
  One record: the policy in a look-up of its own, then the row with the owner as a bound parameter; \<open>owner_bound_condition\<close> is that comparison.
\<close>

definition owner_bound_condition :: "string \<Rightarrow> string" where
  "owner_bound_condition f = q f @ '' = ?2''"

definition read_record ::
  "sqlite \<Rightarrow> tenant_db \<Rightarrow> string \<Rightarrow> int \<Rightarrow> string list \<Rightarrow> (string \<times> string) option \<Rightarrow> (string \<times> sqlval list) option
     \<Rightarrow> (jmap option, tx_error) result" where
  "read_record sq db coll i vnames owner using =
     (case describe db coll of
        None \<Rightarrow> Inr None
      | Some t \<Rightarrow>
          bind_r (using_row sq t i using) (\<lambda>visible.
          if \<not> visible then Inr None
          else case map_of (ct_rows t) i of
              None \<Rightarrow> Inr None
            | Some row \<Rightarrow>
                bind_r (case owner of
                    None \<Rightarrow> Inr True
                  | Some (f, uid) \<Rightarrow> map_err TxDb (sq_where sq (owner_bound_condition f) [Integer i, Text uid] row))
                  (\<lambda>own. Inr (if own then Some (retain_plain vnames (row_to_json row)) else None))))"

definition get_handler ::
  "write_env \<Rightarrow> (db_error \<Rightarrow> string) \<Rightarrow> request_ext \<Rightarrow> string \<Rightarrow> int \<Rightarrow> rest_resp" where
  "get_handler env display ext coll i =
     (case bind_r (require_dml_cap env (x_role ext) coll Select) (\<lambda>schema.
           bind_r (compiled_using (x_ctx ext) schema Select) (\<lambda>using. Inr (schema, using))) of
        Inl r \<Rightarrow> r
      | Inr (schema, using) \<Rightarrow>
          (case read_record (we_sqlite env) (we_reader env) coll i (vector_names schema)
                  (compute_owner_filter (x_ctx ext) schema) using of
             Inr (Some rec) \<Rightarrow> RestJson 200 (JObject [(''record'', JObject rec)])
           | Inr None \<Rightarrow> RestText 404 ''not found''
           | Inl e \<Rightarrow> RestText 500 (display (tx_db_error e))))"

section \<open>The record history\<close>

text \<open>
  A page of the history, newest first. The row id and the time of an entry, which SQLite assigns, are
  not part of the model's history rows.
\<close>

record history_qs =
  hq_record_id :: "int option"
  hq_page :: "u32 option"
  hq_per_page :: "u32 option"

definition clamp_nat :: "nat \<Rightarrow> nat \<Rightarrow> nat \<Rightarrow> nat" where
  "clamp_nat lo hi n = (if n < lo then lo else if hi < n then hi else n)"

definition history_json :: "history_row \<Rightarrow> json" where
  "history_json h =
     JObject [(''op'', JString (h_op h)),
       (''old'', case h_old h of Some m \<Rightarrow> JObject m | None \<Rightarrow> JNull),
       (''new'', case h_new h of Some m \<Rightarrow> JObject m | None \<Rightarrow> JNull),
       (''actor_kind'', JString (aa_kind (h_actor h))),
       (''actor_id'', case aa_id (h_actor h) of Some a \<Rightarrow> JString a | None \<Rightarrow> JNull)]"

definition history_matches :: "string \<Rightarrow> int option \<Rightarrow> history_row \<Rightarrow> bool" where
  "history_matches coll rid h \<longleftrightarrow> h_collection h = coll \<and> (case rid of Some r \<Rightarrow> h_record_id h = r | None \<Rightarrow> True)"

definition history_handler :: "(tenant_db, db_error) result \<Rightarrow> auth_ctx \<Rightarrow> string \<Rightarrow> history_qs \<Rightarrow> rest_resp" where
  "history_handler conn ctx coll qs =
     (if \<not> is_service ctx then RestErr 403 ''HISTORY_READ_DENIED''
      else
        let per_page = clamp_nat 1 200 (unat (unwrap_or (hq_per_page qs) 50));
            page = max 1 (unat (unwrap_or (hq_page qs) 1));
            offset = (page - 1) * per_page
        in case conn of
             Inl _ \<Rightarrow> RestErr 500 ''DB_ERROR''
           | Inr db \<Rightarrow>
               let hits = filter (history_matches coll (hq_record_id qs)) (db_history db) in
               RestJson 200 (JObject
                 [(''rows'', JArray (map history_json (take per_page (drop offset (rev hits))))),
                  (''page'', JNumber (PosInt page)), (''per_page'', JNumber (PosInt per_page)),
                  (''total'', JNumber (PosInt (length hits)))]))"

text \<open>Switching the capture; the last component is whether the cached schema is dropped.\<close>

definition write_audit_enabled :: "tenant_db \<Rightarrow> string \<Rightarrow> bool \<Rightarrow> tenant_db" where
  "write_audit_enabled db coll enabled =
     db\<lparr> db_tables := map (\<lambda>(n, t). if n = coll then (n, t\<lparr> ct_schema := (ct_schema t)\<lparr> s_audit_enabled := enabled \<rparr> \<rparr>)
                                     else (n, t)) (db_tables db) \<rparr>"

definition put_audit_handler ::
  "(unit, db_error) result \<Rightarrow> token_role \<Rightarrow> tenant_db \<Rightarrow> string \<Rightarrow> bool \<Rightarrow> rest_resp \<times> tenant_db \<times> bool" where
  "put_audit_handler wrote role db coll enabled =
     (if role \<noteq> RService then (RestErr 403 ''WRITE_DENIED'', db, False)
      else if is_protected_collection coll then (RestErr 403 ''PROTECTED_COLLECTION'', db, False)
      else case wrote of
          Inl _ \<Rightarrow> (RestErr 500 ''DB_ERROR'', db, False)
        | Inr _ \<Rightarrow>
            if describe db coll = None then (RestErr 404 ''COLLECTION_NOT_FOUND'', db, False)
            else (RestJson 200 (JObject [(''ok'', JBool True), (''collection'', JString coll), (''audit_enabled'', JBool enabled)]),
                  write_audit_enabled db coll enabled, True))"

section \<open>The legacy list\<close>

text \<open>\<open>query/filter.rs\<close>: raw filter text, spliced.\<close>

datatype legacy_sort_dir = Asc | Desc

record list_params =
  lq_filter :: "string option"
  lq_sort_field :: string
  lq_sort_dir :: legacy_sort_dir
  lq_page :: u32
  lq_per_page :: u32
  lq_owner :: "(string \<times> string) option"

definition parse_sort :: "string \<Rightarrow> string \<times> legacy_sort_dir" where
  "parse_sort raw = (case raw of c # s \<Rightarrow> if c = CHR ''-'' then (s, Desc) else (raw, Asc) | [] \<Rightarrow> (raw, Asc))"

definition legacy_wheres ::
  "string option \<Rightarrow> (string \<times> sqlval list) option \<Rightarrow> (string \<times> string) option \<Rightarrow> string list" where
  "legacy_wheres flt policy owner =
     (case flt of Some f \<Rightarrow> [''('' @ f @ '')''] | None \<Rightarrow> []) @
     (case policy of Some (frag, _) \<Rightarrow> [''('' @ frag @ '')''] | None \<Rightarrow> []) @
     (case owner of Some fu \<Rightarrow> [owner_condition fu] | None \<Rightarrow> [])"

definition legacy_where_text :: "string list \<Rightarrow> string" where
  "legacy_where_text ws = (if ws = [] then [] else '' WHERE '' @ join '' AND '' ws)"

definition build_list_sql :: "string \<Rightarrow> list_params \<Rightarrow> (string \<times> sqlval list) option \<Rightarrow> string" where
  "build_list_sql coll p policy =
     (let per_page = clamp_nat 1 500 (unat (lq_per_page p)); page = max 1 (unat (lq_page p)) in
      ''SELECT * FROM '' @ q coll @ legacy_where_text (legacy_wheres (lq_filter p) policy (lq_owner p)) @
      '' ORDER BY '' @ q (lq_sort_field p) @ '' '' @ (case lq_sort_dir p of Asc \<Rightarrow> ''ASC'' | Desc \<Rightarrow> ''DESC'') @
      '' LIMIT '' @ nat_to_string per_page @ '' OFFSET '' @ nat_to_string ((page - 1) * per_page))"

definition build_count_sql ::
  "string \<Rightarrow> string option \<Rightarrow> (string \<times> string) option \<Rightarrow> (string \<times> sqlval list) option \<Rightarrow> string" where
  "build_count_sql coll flt owner policy =
     ''SELECT COUNT(*) FROM '' @ q coll @ legacy_where_text (legacy_wheres flt policy owner)"

record list_qs =
  ls_filter :: "string option"
  ls_sort :: "string option"
  ls_page :: "u32 option"
  ls_per_page :: "u32 option"

text \<open>
  The statement runs under the read-only authorizer, which is part of the reader; without a policy
  its text may have at most 32768 bytes. A count that fails is zero.
\<close>

definition list_rows :: "reader \<Rightarrow> string \<Rightarrow> (string \<times> sqlval list) option \<Rightarrow> string list \<Rightarrow> (jmap list, unit) result" where
  "list_rows c sql policy vnames =
     (if policy = None \<and> length sql > 32768 then Inl ()
      else case rd_query c sql (case policy of Some (_, b) \<Rightarrow> b | None \<Rightarrow> []) of
          Inl _ \<Rightarrow> Inl ()
        | Inr (cols, rows) \<Rightarrow> Inr (map (\<lambda>row. materialize_row vnames (zip cols row)) (take 500 rows)))"

definition list_handler :: "write_env \<Rightarrow> reader \<Rightarrow> request_ext \<Rightarrow> string \<Rightarrow> list_qs \<Rightarrow> rest_resp" where
  "list_handler env c ext coll qs =
     (let ctx = x_ctx ext; raw = (ls_filter qs \<noteq> None \<or> ls_sort qs \<noteq> None) in
      case require_dml_cap env (x_role ext) coll Select of
        Inl r \<Rightarrow> r
      | Inr schema \<Rightarrow>
          if user_id ctx \<noteq> None \<and> s_owner_field schema \<noteq> None \<and> s_read_scope schema = Some ''own'' \<and> raw
          then RestErr 400 ''USER_FILTER_DENIED_ON_OWNER_SCOPED''
          else case policy_using_sql ctx schema Select of
              Inl _ \<Rightarrow> RestErr 500 ''POLICY_COMPILE_ERROR''
            | Inr policy \<Rightarrow>
                if raw \<and> (policy \<noteq> None \<or> ctx = Anon \<and> (s_owner_field schema \<noteq> None \<or> \<not> policies_is_empty (s_policies schema)))
                then RestErr 403 ''ANON_QUERY_DENIED_ON_POLICY''
                else if \<not> is_service ctx \<and> raw then RestErr 403 ''RAW_FILTER_DENIED''
                else
                  let owner = compute_owner_filter ctx schema;
                      (sort_field, dir) = (case ls_sort qs of Some s \<Rightarrow> parse_sort s | None \<Rightarrow> (''created_at'', Desc));
                      p = \<lparr> lq_filter = ls_filter qs, lq_sort_field = sort_field, lq_sort_dir = dir,
                            lq_page = unwrap_or (ls_page qs) 1, lq_per_page = unwrap_or (ls_per_page qs) 20, lq_owner = owner \<rparr>
                  in case list_rows c (build_list_sql coll p policy) policy (vector_names schema) of
                       Inl _ \<Rightarrow> RestErr 400 ''QUERY_FORBIDDEN''
                     | Inr records \<Rightarrow>
                         let total = (case rd_count c (build_count_sql coll (ls_filter qs) owner policy)
                                        (case policy of Some (_, b) \<Rightarrow> b | None \<Rightarrow> []) of Inr n \<Rightarrow> n | Inl _ \<Rightarrow> 0);
                             per_page = clamp_nat 1 500 (unat (lq_per_page p))
                         in RestJson 200 (JObject
                              [(''records'', JArray (map JObject records)), (''page'', JNumber (PosInt (unat (lq_page p)))),
                               (''perPage'', JNumber (PosInt per_page)), (''total'', JNumber (jnum_of_int total)),
                               (''totalPages'', JNumber (PosInt ((unat (u64_of_i64 total) + per_page - 1) div per_page)))]))"

section \<open>The REST handlers and the enforcement core agree\<close>

lemma filter_jmap_insert:
  "filter (\<lambda>(k, _). k \<notin> X) (jmap_insert k v m) =
     (if k \<in> X then filter (\<lambda>(k, _). k \<notin> X) m else jmap_insert k v (filter (\<lambda>(k, _). k \<notin> X) m))"
  by (induction k v m rule: jmap_insert.induct) auto

lemma retain_row: "retain_plain vnames (row_to_json row) = materialize_row vnames row"
proof -
  have "filter (\<lambda>(k, _). k \<notin> set vnames) (foldl (\<lambda>obj (n, v). jmap_insert n (value_ref_to_json v) obj) obj row) =
      foldl (\<lambda>obj (n, v). if n \<in> set vnames then obj else jmap_insert n (value_ref_to_json v) obj)
        (filter (\<lambda>(k, _). k \<notin> set vnames) obj) row" for obj
    by (induction row arbitrary: obj) (auto simp: filter_jmap_insert)
  from this [of "[]"] show ?thesis by (simp add: retain_plain_def row_to_json_def materialize_row_def)
qed

lemma require_write_cap_ok:
  "require_write_cap env (role_of ctx) ctx coll verb = Inr s \<longleftrightarrow>
     enforce_load_schema env coll = Inr s \<and> enforce_gate ctx verb s coll = Inr ()"
  by (auto simp: require_write_cap_def cached_schema_def enforce_load_schema_def enforce_gate_def
      split: sum.splits option.splits if_splits)

lemma create_data_stamps:
  "stamp_owner ctx schema data = Inr (JObject m') \<longleftrightarrow>
     create_owner ctx schema data = Inr () \<and> (\<exists>m. data = JObject m \<and> m' = create_data ctx schema m)"
  by (cases data) (auto simp: stamp_owner_def create_owner_def create_data_def split: option.splits auth_ctx.splits if_splits)

lemma strip_owner_object:
  "as_object (strip_owner ctx schema data) = Some m' \<longleftrightarrow> (\<exists>m. data = JObject m \<and> m' = update_data ctx schema m)"
  by (cases data) (auto simp: strip_owner_def update_data_def split: option.splits auth_ctx.splits)

lemma body_object_ok [simp]: "body_object data = Inr m \<longleftrightarrow> data = JObject m"
  by (cases data) (auto simp: body_object_def)

text \<open>What the enforcement core refuses before SQLite sees the row: a declared constraint, or an owner left empty.\<close>

definition field_refusal :: "tx_error \<Rightarrow> bool" where
  "field_refusal e \<longleftrightarrow>
     (case e of TxMin _ _ \<Rightarrow> True | TxMax _ _ \<Rightarrow> True | TxEnum _ \<Rightarrow> True | TxMaxLength _ _ \<Rightarrow> True
      | TxOwnerRequired _ _ \<Rightarrow> True | _ \<Rightarrow> False)"

lemma field_refusal_simps [simp]:
  "field_refusal (TxMin f x)" "field_refusal (TxMax f x)" "field_refusal (TxEnum f)" "field_refusal (TxMaxLength f n)"
  "field_refusal (TxOwnerRequired f c)"
  by (simp_all add: field_refusal_def)

lemma check_field_refusal: "check_field p f c v = Inl e \<Longrightarrow> field_refusal e"
  unfolding check_field_def Let_def bind_r_eq_Inl
  by (elim disjE exE conjE) (auto split: option.splits if_splits)

lemma constraint_refusal: "check_constraints p schema data = Inl e \<Longrightarrow> field_refusal e"
  unfolding check_constraints_def
  by (drule try_for_each_err) (auto dest: check_field_refusal split: option.splits if_splits)

lemma owner_refusal: "owner_supplied schema data = Inl e \<Longrightarrow> field_refusal e"
  by (auto simp: owner_supplied_def field_refusal_def split: option.splits if_splits)

lemma check_allowed_ok: "check_allowed schema data = Inr () \<longleftrightarrow> check_known schema coll data = Inr ()"
  by (simp add: check_allowed_def check_known_def try_for_each_ok)

lemma create_tx_of_insert:
  assumes "describe tx coll = Some t" "s_name (ct_schema t) = coll"
    and "insert_row_in_tx env tx coll t m vbytes vnames check actor = Inr r"
  shows "create_tx env (we_tier env) tx coll m vbytes vnames check actor = Inr r"
  using assms
  by (auto simp: insert_row_in_tx_def create_tx_def live_table_def Let_def retain_row check_allowed_ok [of _ _ coll])

lemma insert_of_create_tx:
  assumes "describe tx coll = Some t" "s_name (ct_schema t) = coll"
    and "create_tx env (we_tier env) tx coll m vbytes vnames check actor = Inr r"
  shows "insert_row_in_tx env tx coll t m vbytes vnames check actor = Inr r \<or>
    (\<exists>e. insert_row_in_tx env tx coll t m vbytes vnames check actor = Inl e \<and> field_refusal e)"
proof (cases "owner_supplied (ct_schema t) m = Inr () \<and> check_constraints (we_parse_f64 env) (ct_schema t) m = Inr ()")
  case True
  with assms show ?thesis
    by (auto simp: insert_row_in_tx_def create_tx_def live_table_def Let_def retain_row check_allowed_ok [of _ _ coll])
next
  case False
  then obtain e where e: "owner_supplied (ct_schema t) m = Inl e \<or>
      owner_supplied (ct_schema t) m = Inr () \<and> check_constraints (we_parse_f64 env) (ct_schema t) m = Inl e"
    by (cases "owner_supplied (ct_schema t) m"; cases "check_constraints (we_parse_f64 env) (ct_schema t) m") auto
  with assms have "insert_row_in_tx env tx coll t m vbytes vnames check actor = Inl e"
    by (auto simp: insert_row_in_tx_def create_tx_def live_table_def Let_def check_allowed_ok [of _ _ coll])
  with e show ?thesis by (auto dest: owner_refusal constraint_refusal)
qed

lemma guarded_Inr:
  "(if b then x else Inl e) = Inr r \<longleftrightarrow> b \<and> x = Inr r"
  "(if b then Inl e else x) = Inr r \<longleftrightarrow> \<not> b \<and> x = Inr r"
  "(case opt of None \<Rightarrow> Inl e | Some a \<Rightarrow> f a) = Inr r \<longleftrightarrow> (\<exists>a. opt = Some a \<and> f a = Inr r)"
  by (auto split: option.splits)

lemma patch_tx_ok_iff:
  assumes "describe tx coll = Some t" "check_constraints (we_parse_f64 env) (ct_schema t) m = Inr ()"
  shows "patch_tx env (we_tier env) tx coll i m vbytes vnames owner us check actor = Inr r \<longleftrightarrow>
    update_row_in_tx env tx coll i m vbytes vnames owner us check actor = Inr r"
  using assms
  by (simp add: update_row_in_tx_def patch_tx_def live_table_def Let_def retain_row check_allowed_ok [of _ _ coll] guarded_Inr)

lemma patch_tx_table:
  "patch_tx env tier tx coll i m vbytes vnames owner us check actor = Inr r \<Longrightarrow> \<exists>t. describe tx coll = Some t"
  by (auto simp: patch_tx_def live_table_def split: option.splits)

lemma patch_tx_of_update:
  assumes "update_row_in_tx env tx coll i m vbytes vnames owner us check actor = Inr r"
  shows "patch_tx env (we_tier env) tx coll i m vbytes vnames owner us check actor = Inr r"
proof -
  from assms obtain t where "describe tx coll = Some t" "check_constraints (we_parse_f64 env) (ct_schema t) m = Inr ()"
    by (auto simp: update_row_in_tx_def Let_def guarded_Inr)
  with assms show ?thesis by (simp add: patch_tx_ok_iff)
qed

lemma update_of_patch_tx:
  assumes "patch_tx env (we_tier env) tx coll i m vbytes vnames owner us check actor = Inr r"
  shows "update_row_in_tx env tx coll i m vbytes vnames owner us check actor = Inr r \<or>
    (\<exists>e. update_row_in_tx env tx coll i m vbytes vnames owner us check actor = Inl e \<and> field_refusal e)"
proof -
  from patch_tx_table [OF assms] obtain t where t: "describe tx coll = Some t" by blast
  show ?thesis
  proof (cases "check_constraints (we_parse_f64 env) (ct_schema t) m")
    case (Inl e)
    with assms t have "update_row_in_tx env tx coll i m vbytes vnames owner us check actor = Inl e"
      by (auto simp: update_row_in_tx_def patch_tx_def live_table_def Let_def check_allowed_ok [of _ _ coll])
    with Inl show ?thesis by (auto dest: constraint_refusal)
  qed (use assms t in \<open>simp add: patch_tx_ok_iff\<close>)
qed

lemma remove_tx_is_delete:
  assumes "\<And>t. describe tx coll = Some t \<Longrightarrow> schema = ct_schema t"
  shows "remove_tx env tx coll i schema owner us actor = delete_row_in_tx env tx coll i owner us actor"
proof (cases "describe tx coll")
  case (Some t)
  with assms have "schema = ct_schema t" by simp
  with Some show ?thesis by (simp add: remove_tx_def delete_row_in_tx_def Let_def)
qed (simp add: remove_tx_def delete_row_in_tx_def)

lemma tx_ok: "with_writer_tx f db = (Inr a, db') \<longleftrightarrow> f db = Inr (a, db')"
  by (auto simp: with_writer_tx_def split: sum.splits)

lemma write_error_no_json [simp]: "write_error_resp display e \<noteq> RestJson st j"
  by (simp add: write_error_resp_def)

definition created :: "int \<Rightarrow> jmap \<Rightarrow> json" where
  "created i rec = JObject [(''id'', JNumber (jnum_of_int i)), (''record'', JObject rec)]"

lemma gate_refusal:
  "require_write_cap env role ctx coll verb = Inl r \<Longrightarrow> \<exists>st c. r = RestErr st c"
  "create_owner ctx schema data = Inl r \<Longrightarrow> \<exists>st c. r = RestErr st c"
  "body_object data = Inl r \<Longrightarrow> \<exists>st c. r = RestErr st c"
  "encode_vectors schema m = Inl r \<Longrightarrow> \<exists>st c. r = RestErr st c"
  "compiled_using ctx schema verb = Inl r \<Longrightarrow> \<exists>st c. r = RestErr st c"
  by (auto simp: require_write_cap_def cached_schema_def create_owner_def body_object_def encode_vectors_def
      compiled_using_def result_Inl split: sum.splits option.splits auth_ctx.splits if_splits)

lemma prepare_refusal:
  "create_prepare env ext coll data = Inl r \<Longrightarrow> \<exists>st c. r = RestErr st c"
  "update_prepare env ext coll data = Inl r \<Longrightarrow> \<exists>st c. r = RestErr st c"
  "delete_prepare env ext coll = Inl r \<Longrightarrow> \<exists>st c. r = RestErr st c"
  by (auto simp: create_prepare_def update_prepare_def delete_prepare_def Let_def result_Inl
      dest: gate_refusal split: if_splits)

lemma create_prepare_ok:
  assumes "x_role ext = role_of (x_ctx ext)"
  shows "create_prepare env ext coll data = Inr (schema, m, vbytes) \<longleftrightarrow>
    enforce_load_schema env coll = Inr schema \<and> enforce_gate (x_ctx ext) Insert schema coll = Inr () \<and>
    stamp_owner (x_ctx ext) schema data = Inr (JObject m) \<and> pre_encode_vectors (s_vector_fields schema) m = Inr vbytes"
  using assms by (auto simp: create_prepare_def Let_def require_write_cap_ok create_data_stamps encode_vectors_def)

lemma create_handler_ok:
  "create_handler env display ext db coll data = (RestJson st p, db', ev) \<longleftrightarrow>
    st = 201 \<and> (\<exists>schema m vbytes i rec. create_prepare env ext coll data = Inr (schema, m, vbytes) \<and>
       create_tx env (x_quota_tier ext) db coll m vbytes (vector_names schema) (write_policy_check (x_ctx ext) schema Insert)
         (actor_from_auth_ctx (x_ctx ext)) = Inr ((i, rec), db') \<and> p = created i rec \<and> ev = [Created rec])"
  by (cases "create_prepare env ext coll data")
     (auto simp: create_handler_def created_def with_writer_tx_def dest: prepare_refusal split: sum.splits prod.splits)

text \<open>The cache holds what a reader describes.\<close>

definition cache_fresh :: "write_env \<Rightarrow> string \<Rightarrow> bool" where
  "cache_fresh env coll \<longleftrightarrow> we_cache env coll = Inr (map_option ct_schema (describe (we_reader env) coll))"

lemma load_schema_fresh:
  assumes "cache_fresh env coll"
  shows "enforce_load_schema env coll = Inr schema \<longleftrightarrow>
    \<not> is_protected_collection coll \<and> (\<exists>t. describe (we_reader env) coll = Some t \<and> schema = ct_schema t)"
  using assms by (auto simp: cache_fresh_def enforce_load_schema_def split: option.splits)

lemma enforced_insert_runs:
  assumes "cache_fresh env coll" "x_role ext = role_of (x_ctx ext)"
    and "create_prepare env ext coll data = Inr (schema, m, vbytes)"
  shows "enforced_insert env (x_ctx ext) db coll data =
    finish (with_writer_tx (\<lambda>tx. case describe tx coll of
        None \<Rightarrow> Inl (TxUnknownCollection coll)
      | Some t \<Rightarrow> insert_row_in_tx env tx coll t m vbytes (vector_names schema) (write_policy_check (x_ctx ext) schema Insert)
          (actor_from_auth_ctx (x_ctx ext))) db) (\<lambda>(i, rec). created i rec) (\<lambda>(i, rec). Created rec)"
proof -
  note p = assms(3) [unfolded create_prepare_ok [OF assms(2)]]
  from p load_schema_fresh [OF assms(1)] obtain t where t: "\<not> is_protected_collection coll"
      "describe (we_reader env) coll = Some t" "schema = ct_schema t" by blast
  with p show ?thesis
    unfolding t(3) by (simp add: enforced_insert_def insert_record_checked_def created_def)
qed

lemma enforced_insert_prepared:
  assumes "cache_fresh env coll" "x_role ext = role_of (x_ctx ext)"
    and "enforced_insert env (x_ctx ext) db coll data = (Inr p, db', ev)"
  shows "\<exists>schema m vbytes. create_prepare env ext coll data = Inr (schema, m, vbytes)"
  using assms(3)
proof (cases rule: enforced_insert_ok)
  case (1 schema m vbytes vnames t i rec)
  then have "enforce_load_schema env coll = Inr schema" by (simp add: enforce_load_schema_def)
  moreover from this obtain t0 where "describe (we_reader env) coll = Some t0" "schema = ct_schema t0"
    using load_schema_fresh [OF assms(1)] by blast
  ultimately show ?thesis using 1 by (auto simp: create_prepare_ok [OF assms(2)])
qed

lemma finish_ok:
  "finish (with_writer_tx f db) pay evt = (Inr p, db', ev) \<longleftrightarrow> (\<exists>a. f db = Inr (a, db') \<and> p = pay a \<and> ev = [evt a])"
  by (auto simp: finish_def with_writer_tx_def split: sum.splits)

lemma finish_err: "f db = Inl e \<Longrightarrow> finish (with_writer_tx f db) pay evt = (Inl (WTx e), db, [])"
  by (simp add: finish_def with_writer_tx_def)

lemma rest_insert_agrees:
  assumes c: "cache_fresh env coll" and r: "x_role ext = role_of (x_ctx ext)" and q: "x_quota_tier ext = we_tier env"
    and n: "\<And>t. describe db coll = Some t \<Longrightarrow> s_name (ct_schema t) = coll"
  shows "enforced_insert env (x_ctx ext) db coll data = (Inr p, db', ev) \<Longrightarrow>
      create_handler env display ext db coll data = (RestJson 201 p, db', ev)"
    and "create_handler env display ext db coll data = (RestJson 201 p, db', ev) \<Longrightarrow>
      enforced_insert env (x_ctx ext) db coll data = (Inr p, db', ev) \<or>
      (\<exists>e. enforced_insert env (x_ctx ext) db coll data = (Inl (WTx e), db, []) \<and> field_refusal e)"
proof -
  assume e: "enforced_insert env (x_ctx ext) db coll data = (Inr p, db', ev)"
  with enforced_insert_prepared [OF c r] obtain schema m vbytes
    where prep: "create_prepare env ext coll data = Inr (schema, m, vbytes)" by blast
  from e [unfolded enforced_insert_runs [OF c r prep] finish_ok] obtain t i rec where t: "describe db coll = Some t"
    and i: "insert_row_in_tx env db coll t m vbytes (vector_names schema) (write_policy_check (x_ctx ext) schema Insert)
          (actor_from_auth_ctx (x_ctx ext)) = Inr ((i, rec), db')" and p: "p = created i rec" "ev = [Created rec]"
    by (auto simp: guarded_Inr)
  from create_tx_of_insert [OF t n [OF t] i] show "create_handler env display ext db coll data = (RestJson 201 p, db', ev)"
    by (auto simp: create_handler_ok prep q p)
next
  assume h: "create_handler env display ext db coll data = (RestJson 201 p, db', ev)"
  then obtain schema m vbytes i rec where prep: "create_prepare env ext coll data = Inr (schema, m, vbytes)"
    and tx: "create_tx env (we_tier env) db coll m vbytes (vector_names schema) (write_policy_check (x_ctx ext) schema Insert)
         (actor_from_auth_ctx (x_ctx ext)) = Inr ((i, rec), db')" and p: "p = created i rec" "ev = [Created rec]"
    by (auto simp: create_handler_ok q)
  from tx obtain t where t: "describe db coll = Some t"
    by (auto simp: create_tx_def live_table_def split: option.splits)
  from insert_of_create_tx [OF t n [OF t] tx]
  show "enforced_insert env (x_ctx ext) db coll data = (Inr p, db', ev) \<or>
      (\<exists>e. enforced_insert env (x_ctx ext) db coll data = (Inl (WTx e), db, []) \<and> field_refusal e)"
    unfolding enforced_insert_runs [OF c r prep] finish_ok by (auto simp: t p finish_err)
qed

lemma as_object_Some: "as_object j = Some m \<longleftrightarrow> j = JObject m"
  by (cases j) auto

lemma update_prepare_ok:
  assumes "x_role ext = role_of (x_ctx ext)"
  shows "update_prepare env ext coll data = Inr (schema, us, m, vbytes) \<longleftrightarrow>
    enforce_load_schema env coll = Inr schema \<and> enforce_gate (x_ctx ext) Update schema coll = Inr () \<and>
    policy_using_sql (x_ctx ext) schema Update = Inr us \<and> strip_owner (x_ctx ext) schema data = JObject m \<and> m \<noteq> [] \<and>
    pre_encode_vectors (s_vector_fields schema) m = Inr vbytes"
  using assms strip_owner_object [of "x_ctx ext" schema data m]
  by (auto simp: update_prepare_def Let_def require_write_cap_ok compiled_using_def encode_vectors_def guarded_Inr as_object_Some)

lemma update_handler_ok:
  "update_handler env display ext db coll i data = (RestJson st p, db', ev) \<longleftrightarrow>
    st = 200 \<and> (\<exists>schema us m vbytes rec. update_prepare env ext coll data = Inr (schema, us, m, vbytes) \<and>
       patch_tx env (x_quota_tier ext) db coll i m vbytes (vector_names schema) (compute_owner_write_filter (x_ctx ext) schema) us
         (write_policy_check (x_ctx ext) schema Update) (actor_from_auth_ctx (x_ctx ext)) = Inr (rec, db') \<and>
       p = JObject [(''record'', JObject rec)] \<and> ev = [Updated rec])"
  by (cases "update_prepare env ext coll data")
     (auto simp: update_handler_def with_writer_tx_def dest: prepare_refusal split: sum.splits prod.splits if_splits)

lemma enforced_update_runs:
  assumes "cache_fresh env coll" "x_role ext = role_of (x_ctx ext)"
    and "update_prepare env ext coll data = Inr (schema, us, m, vbytes)"
  shows "enforced_update env (x_ctx ext) db coll i data =
    update_not_found (finish (with_writer_tx (\<lambda>tx. update_row_in_tx env tx coll i m vbytes (vector_names schema)
        (compute_owner_write_filter (x_ctx ext) schema) us (write_policy_check (x_ctx ext) schema Update)
        (actor_from_auth_ctx (x_ctx ext))) db) (\<lambda>rec. JObject [(''record'', JObject rec)]) Updated)"
proof -
  note p = assms(3) [unfolded update_prepare_ok [OF assms(2)]]
  from p load_schema_fresh [OF assms(1)] obtain t where t: "\<not> is_protected_collection coll"
      "describe (we_reader env) coll = Some t" "schema = ct_schema t" by blast
  with p show ?thesis
    unfolding t(3) by (simp add: enforced_update_def update_record_checked_def Let_def)
qed

lemma enforced_update_prepared:
  assumes "cache_fresh env coll" "x_role ext = role_of (x_ctx ext)"
    and "enforced_update env (x_ctx ext) db coll i data = (Inr p, db', ev)"
  shows "\<exists>schema us m vbytes. update_prepare env ext coll data = Inr (schema, us, m, vbytes)"
proof -
  from assms(3) obtain schema us m t vb where
    s: "enforce_load_schema env coll = Inr schema" "enforce_gate (x_ctx ext) Update schema coll = Inr ()"
      "policy_using_sql (x_ctx ext) schema Update = Inr us" "as_object (strip_owner (x_ctx ext) schema data) = Some m" "m \<noteq> []"
    and t: "describe (we_reader env) coll = Some t" "pre_encode_vectors (s_vector_fields (ct_schema t)) m = Inr vb"
    by (auto simp: enforced_update_def update_record_checked_def update_not_found_def Let_def guarded_Inr
        split: sum.splits option.splits if_splits prod.splits)
  from s(1) t have "schema = ct_schema t" using load_schema_fresh [OF assms(1)] by auto
  with s t show ?thesis by (auto simp: update_prepare_ok [OF assms(2)] as_object_Some)
qed

lemma update_not_found_ok: "update_not_found out = (Inr p, db', ev) \<longleftrightarrow> out = (Inr p, db', ev)"
  by (auto simp: update_not_found_def split: prod.splits sum.splits write_error.splits tx_error.splits)

lemma update_not_found_refusal: "field_refusal e \<Longrightarrow> update_not_found (Inl (WTx e), db, ev) = (Inl (WTx e), db, ev)"
  by (cases e) (auto simp: update_not_found_def field_refusal_def)

lemma rest_update_agrees:
  assumes c: "cache_fresh env coll" and r: "x_role ext = role_of (x_ctx ext)" and q: "x_quota_tier ext = we_tier env"
  shows "enforced_update env (x_ctx ext) db coll i data = (Inr p, db', ev) \<Longrightarrow>
      update_handler env display ext db coll i data = (RestJson 200 p, db', ev)"
    and "update_handler env display ext db coll i data = (RestJson 200 p, db', ev) \<Longrightarrow>
      enforced_update env (x_ctx ext) db coll i data = (Inr p, db', ev) \<or>
      (\<exists>e. enforced_update env (x_ctx ext) db coll i data = (Inl (WTx e), db, []) \<and> field_refusal e)"
proof -
  assume e: "enforced_update env (x_ctx ext) db coll i data = (Inr p, db', ev)"
  with enforced_update_prepared [OF c r] obtain schema us m vbytes
    where prep: "update_prepare env ext coll data = Inr (schema, us, m, vbytes)" by blast
  from e [unfolded enforced_update_runs [OF c r prep] update_not_found_ok finish_ok]
  show "update_handler env display ext db coll i data = (RestJson 200 p, db', ev)"
    by (auto simp: update_handler_ok prep q intro: patch_tx_of_update)
next
  assume h: "update_handler env display ext db coll i data = (RestJson 200 p, db', ev)"
  then obtain schema us m vbytes rec where prep: "update_prepare env ext coll data = Inr (schema, us, m, vbytes)"
    and tx: "patch_tx env (we_tier env) db coll i m vbytes (vector_names schema) (compute_owner_write_filter (x_ctx ext) schema) us
         (write_policy_check (x_ctx ext) schema Update) (actor_from_auth_ctx (x_ctx ext)) = Inr (rec, db')"
    and p: "p = JObject [(''record'', JObject rec)]" "ev = [Updated rec]"
    by (auto simp: update_handler_ok q)
  from update_of_patch_tx [OF tx]
  show "enforced_update env (x_ctx ext) db coll i data = (Inr p, db', ev) \<or>
      (\<exists>e. enforced_update env (x_ctx ext) db coll i data = (Inl (WTx e), db, []) \<and> field_refusal e)"
    unfolding enforced_update_runs [OF c r prep] update_not_found_ok finish_ok
    by (auto simp: p finish_err update_not_found_refusal)
qed

lemma delete_prepare_ok:
  assumes "x_role ext = role_of (x_ctx ext)"
  shows "delete_prepare env ext coll = Inr (schema, us) \<longleftrightarrow>
    enforce_load_schema env coll = Inr schema \<and> enforce_gate (x_ctx ext) Delete schema coll = Inr () \<and>
    policy_using_sql (x_ctx ext) schema Delete = Inr us"
  using assms by (auto simp: delete_prepare_def require_write_cap_ok compiled_using_def)

text \<open>A delete has no constraint to check, so the two agree on every outcome of the transaction.\<close>

lemma rest_delete_agrees:
  assumes c: "cache_fresh env coll" and r: "x_role ext = role_of (x_ctx ext)"
    and l: "describe (we_reader env) coll = describe db coll"
  shows "delete_handler env display blast ext db coll i None = (RestEmpty 204, db', ev) \<longleftrightarrow>
      enforced_delete env (x_ctx ext) db coll i = (Inr (JObject [(''ok'', JBool True)]), db', ev)"
    and "delete_handler env display blast ext db coll i None = (RestText 404 ''no such record'', db', ev) \<longleftrightarrow>
      enforced_delete env (x_ctx ext) db coll i = (Inl WRecordNotFound, db', ev)"
proof -
  consider (no) x where "delete_prepare env ext coll = Inl x"
    | (yes) schema us where "delete_prepare env ext coll = Inr (schema, us)"
    by (cases "delete_prepare env ext coll") auto
  then have "(delete_handler env display blast ext db coll i None = (RestEmpty 204, db', ev) \<longleftrightarrow>
      enforced_delete env (x_ctx ext) db coll i = (Inr (JObject [(''ok'', JBool True)]), db', ev)) \<and>
    (delete_handler env display blast ext db coll i None = (RestText 404 ''no such record'', db', ev) \<longleftrightarrow>
      enforced_delete env (x_ctx ext) db coll i = (Inl WRecordNotFound, db', ev))"
  proof cases
    case no
    then obtain e where "enforced_delete env (x_ctx ext) db coll i = (Inl e, db, [])" "e \<noteq> WRecordNotFound"
      using r by (auto simp: delete_prepare_def require_write_cap_def cached_schema_def enforced_delete_def enforce_load_schema_def
          enforce_gate_def compiled_using_def result_Inl split: sum.splits option.splits if_splits)
    with no prepare_refusal(3) [OF no] show ?thesis by (auto simp: delete_handler_def)
  next
    case yes
    note p = yes [unfolded delete_prepare_ok [OF r]]
    from p load_schema_fresh [OF c] l have t: "\<not> is_protected_collection coll" "\<And>t. describe db coll = Some t \<Longrightarrow> schema = ct_schema t"
      by auto
    with p yes show ?thesis
      by (auto simp: delete_handler_def enforced_delete_def delete_record_filtered_def delete_not_found_def not_found_payload_def
          Let_def remove_tx_is_delete [OF t(2)] with_writer_tx_def split: sum.splits prod.splits)
  qed
  then show "delete_handler env display blast ext db coll i None = (RestEmpty 204, db', ev) \<longleftrightarrow>
      enforced_delete env (x_ctx ext) db coll i = (Inr (JObject [(''ok'', JBool True)]), db', ev)"
    and "delete_handler env display blast ext db coll i None = (RestText 404 ''no such record'', db', ev) \<longleftrightarrow>
      enforced_delete env (x_ctx ext) db coll i = (Inl WRecordNotFound, db', ev)"
    by blast+
qed

text \<open>The bearer layer hands a handler the role of the identity it resolved.\<close>

lemma resolved_role:
  assumes "resolve_bearer env tenant b row session wall = (Passed ext, entry)"
  shows "x_role ext = role_of (x_ctx ext)"
  using assms
  by (auto simp: resolve_bearer_def user_arm_def pat_arm_def shared_arm_def Let_def row_ext_def unauthenticated_def
      tenant_denied_def split: option.splits if_splits)

lemma passed_role:
  assumes "bearer_auth_layer aenv w tenant authorization inst wall = (Passed ext, w')"
  shows "x_role ext = role_of (x_ctx ext)"
proof (cases tenant)
  case None
  with assms show ?thesis by (simp add: bearer_auth_layer_def auth_begin_def)
next
  case (Some t)
  obtain e w1 where b: "auth_begin aenv w (Some t) authorization inst wall = (e, w1)" by force
  show ?thesis
  proof (cases e)
    case (Answered r)
    with assms Some b have "auth_begin aenv w (Some t) authorization inst wall = (Answered (Passed ext), w1)"
      by (simp add: bearer_auth_layer_def)
    then show ?thesis by (rule auth_begin_Passed) (auto simp: cached_ext_def)
  next
    case (LookUp bearer)
    with assms Some b show ?thesis
      by (auto simp: bearer_auth_layer_def auth_open_def auth_fill_def Let_def tenant_denied_def tenant_gone_def
          split: if_splits option.splits prod.splits dest!: resolved_role)
  qed
qed

text \<open>
  C7. The two ways to write a record agree. A request that the bearer layer let through runs through
  the REST handlers, a function of the tenant through the enforcement core. With the schema cache
  fresh: whatever the core writes the handler writes too, with the same payload, the same database
  (data, history and attribution) and the same event; and whatever the handler writes the core writes
  too, unless it refuses the data for a declared field constraint or an empty owner, which over REST is left
  to the table's own checks. A delete succeeds, and does not find its target, in the same cases.
\<close>

theorem rest_writes_agree:
  assumes "bearer_auth_layer aenv w tenant authorization inst wall = (Passed ext, w')"
    and "cache_fresh env coll" "x_quota_tier ext = we_tier env" "describe (we_reader env) coll = describe db coll"
    and "\<And>t. describe db coll = Some t \<Longrightarrow> s_name (ct_schema t) = coll"
  shows "(enforced_insert env (x_ctx ext) db coll data = (Inr p, db', ev) \<longrightarrow>
       create_handler env display ext db coll data = (RestJson 201 p, db', ev)) \<and>
    (create_handler env display ext db coll data = (RestJson 201 p, db', ev) \<longrightarrow>
       enforced_insert env (x_ctx ext) db coll data = (Inr p, db', ev) \<or>
       (\<exists>e. enforced_insert env (x_ctx ext) db coll data = (Inl (WTx e), db, []) \<and> field_refusal e)) \<and>
    (enforced_update env (x_ctx ext) db coll i data = (Inr p, db', ev) \<longrightarrow>
       update_handler env display ext db coll i data = (RestJson 200 p, db', ev)) \<and>
    (update_handler env display ext db coll i data = (RestJson 200 p, db', ev) \<longrightarrow>
       enforced_update env (x_ctx ext) db coll i data = (Inr p, db', ev) \<or>
       (\<exists>e. enforced_update env (x_ctx ext) db coll i data = (Inl (WTx e), db, []) \<and> field_refusal e)) \<and>
    (delete_handler env display blast ext db coll i None = (RestEmpty 204, db', ev) \<longleftrightarrow>
       enforced_delete env (x_ctx ext) db coll i = (Inr (JObject [(''ok'', JBool True)]), db', ev)) \<and>
    (delete_handler env display blast ext db coll i None = (RestText 404 ''no such record'', db', ev) \<longleftrightarrow>
       enforced_delete env (x_ctx ext) db coll i = (Inl WRecordNotFound, db', ev))"
proof -
  note r = passed_role [OF assms(1)]
  note agree = rest_insert_agrees [OF assms(2) r assms(3)] rest_update_agrees [OF assms(2) r assms(3)]
    rest_delete_agrees [OF assms(2) r assms(4)]
  show ?thesis by (intro conjI impI agree(5,6)) (rule agree(1-4), (erule assms(5) | assumption)+)+
qed

section \<open>The dry run of a delete\<close>









section \<open>Reading one record\<close>

text \<open>
  SQLite evaluates the text of the policy and the comparison with the bound owner as the engine that the
  list is stated over does.
\<close>

definition same_conditions ::
  "(sql_expr \<Rightarrow> sqlval list \<Rightarrow> sql_row \<Rightarrow> tri) \<Rightarrow> sqlite \<Rightarrow> auth_ctx \<Rightarrow> collection_schema \<Rightarrow> int \<Rightarrow> db_row \<Rightarrow> bool" where
  "same_conditions eval sq ctx schema i row \<longleftrightarrow>
     (\<forall>e b. using_expr ctx schema Select = Some (e, b) \<longrightarrow>
        sq_where sq (render e) b row = Inr (eval e b (row_value (row_to_json row)) = TTrue)) \<and>
     (\<forall>f uid. compute_owner_filter ctx schema = Some (f, uid) \<longrightarrow>
        sq_where sq (owner_bound_condition f) [Integer i, Text uid] row = Inr (row_value (row_to_json row) f = Text uid))"

text \<open>
  C9. Reading one record shows exactly what the list shows. For a caller that passes the capability
  gate, GET on an existing row gives the row, without its vectors, if and only if the row belongs to
  the caller where reads are scoped to the owner and the SELECT policy admits it: the condition the
  list statement puts on a row. Otherwise the answer is the one of a row that does not exist.
\<close>

theorem get_shows_what_list_shows:
  assumes "sqlite_engine eval" "regex_engine rx" "require_dml_cap env (x_role ext) coll Select = Inr schema"
    and "policy_using_sql (x_ctx ext) schema Select = Inr us"
    and "describe (we_reader env) coll = Some t" "map_of (ct_rows t) i = Some row"
    and "policies_valid schema" "stored_row schema (row_to_json row)"
    and "same_conditions eval (we_sqlite env) (x_ctx ext) schema i row"
  shows "get_handler env display ext coll i =
    (if owner_admits (x_ctx ext) schema (row_value (row_to_json row)) \<and> select_admits rx (x_ctx ext) schema (row_to_json row)
     then RestJson 200 (JObject [(''record'', JObject (materialize_row (vector_names schema) row))])
     else RestText 404 ''not found'')"
proof -
  let ?ctx = "x_ctx ext"
  have us: "us = map_option clause_of (using_expr ?ctx schema Select)"
    using policy_using_sql_expr assms(4) by blast
  have sel: "(\<forall>e b. using_expr ?ctx schema Select = Some (e, b) \<longrightarrow> eval e b (row_value (row_to_json row)) = TTrue) \<longleftrightarrow>
      select_admits rx ?ctx schema (row_to_json row)"
    using assms(1,7,8) regex_engine_like [OF assms(2)] by (intro sqlite_engine.using_expr_select) (auto simp: stored_row_def)
  then have u: "using_row (we_sqlite env) t i us = Inr (select_admits rx ?ctx schema (row_to_json row))"
    using assms(6,9) us by (cases "using_expr ?ctx schema Select") (auto simp: using_row_def clause_of_def same_conditions_def)
  have o: "(case compute_owner_filter ?ctx schema of None \<Rightarrow> Inr True
      | Some (f, uid) \<Rightarrow> map_err TxDb (sq_where (we_sqlite env) (owner_bound_condition f) [Integer i, Text uid] row)) =
      Inr (owner_admits ?ctx schema (row_value (row_to_json row)))"
    using assms(9) by (auto simp: same_conditions_def owner_admits_def split: option.splits simp del: compute_owner_filter.simps)
  show ?thesis
    using assms(3,4,5,6) u o
    by (simp add: get_handler_def compiled_using_def read_record_def retain_row split: option.splits
        del: compute_owner_filter.simps)
qed

section \<open>The legacy list\<close>

text \<open>The raw text of a filter or an order runs for a service caller only: for everybody else the answer does not depend on the reader.\<close>

lemma read_gate_refusal: "require_dml_cap env role coll verb = Inl r \<Longrightarrow> \<exists>st c. r = RestErr st c"
  by (auto simp: require_dml_cap_def cached_schema_def result_Inl split: sum.splits option.splits if_splits)

lemma raw_filter_needs_service:
  assumes "\<not> is_service (x_ctx ext)" "ls_filter qs \<noteq> None \<or> ls_sort qs \<noteq> None"
  shows "\<exists>st code. \<forall>c. list_handler env c ext coll qs = RestErr st code"
proof (cases "require_dml_cap env (x_role ext) coll Select")
  case (Inl r)
  from read_gate_refusal [OF this] Inl show ?thesis by (auto simp: list_handler_def)
next
  case (Inr schema)
  note gate = Inr
  let ?own = "user_id (x_ctx ext) \<noteq> None \<and> s_owner_field schema \<noteq> None \<and> s_read_scope schema = Some ''own''"
  show ?thesis
  proof (cases ?own)
    case True
    with gate assms(2) have "\<forall>c. list_handler env c ext coll qs = RestErr 400 ''USER_FILTER_DENIED_ON_OWNER_SCOPED''"
      by (simp add: list_handler_def Let_def)
    then show ?thesis by blast
  next
    case False
    then have no: "(user_id (x_ctx ext) \<noteq> None \<and> s_owner_field schema \<noteq> None \<and> s_read_scope schema = Some ''own'' \<and> b) = False" for b
      by blast
    show ?thesis
    proof (cases "policy_using_sql (x_ctx ext) schema Select")
      case (Inl e)
      with gate have "\<forall>c. list_handler env c ext coll qs = RestErr 500 ''POLICY_COMPILE_ERROR''"
        by (simp only: list_handler_def Let_def sum.case no if_False simp_thms)
      then show ?thesis by blast
    next
      case (Inr us)
      let ?rule = "us \<noteq> None \<or> x_ctx ext = Anon \<and> (s_owner_field schema \<noteq> None \<or> \<not> policies_is_empty (s_policies schema))"
      from Inr gate assms have "\<forall>c. list_handler env c ext coll qs =
          (if ?rule then RestErr 403 ''ANON_QUERY_DENIED_ON_POLICY'' else RestErr 403 ''RAW_FILTER_DENIED'')"
        by (simp only: list_handler_def Let_def sum.case no False if_False if_True simp_thms)
      then show ?thesis by (auto split: if_splits)
    qed
  qed
qed

section \<open>Unknown fields\<close>

text \<open>
  The handlers look for the name of the error in its text. rusqlite's text of \<open>InvalidQuery\<close> is
  another one, so that a field the collection does not have is not reported as \<open>FIELD_NOT_FOUND\<close>.
\<close>

theorem unknown_field_untyped:
  assumes "display InvalidQuery = ''Query is not read-only''" "create_prepare env ext coll data = Inr (schema, m, vbytes)"
    and "tx_usage (we_sqlite env) db = Inr u" "check_tenant_quota u 0 (x_quota_tier ext) = Inr ()"
    and "describe db coll = Some t" "k \<in> fst ` set m" "\<not> has_field (ct_schema t) k"
  shows "create_handler env display ext db coll data = (RestText 400 ''Query is not read-only'', db, [])"
proof -
  have "check_allowed (ct_schema t) m \<noteq> Inr ()" using assms(6,7) by (auto simp: check_allowed_def try_for_each_ok)
  moreover have "check_allowed (ct_schema t) m = Inl e \<Longrightarrow> e = TxDb InvalidQuery" for e
    by (auto simp: check_allowed_def dest!: try_for_each_err split: if_splits)
  ultimately have "check_allowed (ct_schema t) m = Inl (TxDb InvalidQuery)" by (cases "check_allowed (ct_schema t) m") auto
  then have "create_tx env (x_quota_tier ext) db coll m vbytes (vector_names schema) (write_policy_check (x_ctx ext) schema Insert)
      (actor_from_auth_ctx (x_ctx ext)) = Inl (TxDb InvalidQuery)"
    using assms(3-5) by (simp add: create_tx_def live_table_def)
  moreover have "\<not> str_contains ''Query is not read-only'' ''TENANT_QUOTA_EXCEEDED''"
    "\<not> str_contains ''Query is not read-only'' ''POLICY_CHECK_FAILED''" "\<not> str_contains ''Query is not read-only'' ''InvalidQuery''"
    by code_simp+
  ultimately show ?thesis
    using assms(1,2)
    by (simp add: create_handler_def with_writer_tx_def is_quota_exceeded_def write_error_resp_def is_policy_check_failure_def
        is_check_violation_def)
qed

section \<open>Examples\<close>

text \<open>The request of the key \<open>k\<close> of the authentication example, on the tables of the record example.\<close>

abbreviation rest_env :: write_env where "rest_env \<equiv> example_env\<lparr> we_tier := 2 \<rparr>"

abbreviation ex_insert :: "auth_ctx \<Rightarrow> outcome" where
  "ex_insert ctx \<equiv> enforced_insert rest_env ctx example_db ''notes'' example_data"

lemma rest_env_fresh:
  "cache_fresh rest_env ''notes''" "describe (we_reader rest_env) ''notes'' = describe example_db ''notes''"
  "describe example_db ''notes'' = Some t \<Longrightarrow> s_name (ct_schema t) = ''notes''"
  by (simp_all add: cache_fresh_def example_env_simps)
     (auto simp: example_table_def owned_schema_def example_schema_def)

theorem rest_writes_agree_witness:
  "\<exists>ext w p db ev. bearer_auth_layer ex_env ex_world (Some ''t1'') (Some ''Bearer k'') 0 0 = (Passed ext, w) \<and>
     ex_insert (x_ctx ext) = (Inr p, db, ev) \<and>
     create_handler rest_env (\<lambda>_. ''err'') ext example_db ''notes'' example_data = (RestJson 201 p, db, ev)"
proof -
  have "case bearer_auth_layer ex_env ex_world (Some ''t1'') (Some ''Bearer k'') 0 0 of
      (Passed ext, w) \<Rightarrow> x_quota_tier ext = 2 \<and> is_ok (fst (ex_insert (x_ctx ext)))
    | _ \<Rightarrow> False"
    by code_simp
  then obtain ext w where a: "bearer_auth_layer ex_env ex_world (Some ''t1'') (Some ''Bearer k'') 0 0 = (Passed ext, w)"
    and q: "x_quota_tier ext = we_tier rest_env" and ok: "is_ok (fst (ex_insert (x_ctx ext)))"
    by (auto split: prod.splits auth_result.splits)
  from example_outcome [OF ok] obtain p db ev where e: "ex_insert (x_ctx ext) = (Inr p, db, ev)" .
  with rest_writes_agree [OF a rest_env_fresh(1) q rest_env_fresh(2,3), where data = example_data and p = p and db' = db and ev = ev]
  have "create_handler rest_env (\<lambda>_. ''err'') ext example_db ''notes'' example_data = (RestJson 201 p, db, ev)" by blast
  with a e show ?thesis by blast
qed

text \<open>The author of a note asks what deleting it would do, and reads it.\<close>

definition user_ext :: request_ext where
  "user_ext = \<lparr> x_ctx = example_user, x_tenant = ''t1'', x_hint = ''hash'', x_role = RUser, x_admin_id = None, x_pat_deadline = None,
     x_policy = \<lparr> allow_user = False, allow_anon = False \<rparr>, x_file_caps = \<lparr> caps_anon = [], caps_user = [] \<rparr>,
     x_quota_tier = 1, x_email = None \<rparr>"

lemma user_ext_ctx [simp]: "x_ctx user_ext = example_user"
  by (simp add: user_ext_def)






text \<open>An engine that reads the policy of the notes and the bound owner as the list's engine does.\<close>

definition notes_using :: "(sql_expr \<times> sqlval list) option" where
  "notes_using = using_expr example_user owned_schema Select"

definition notes_where :: "string \<Rightarrow> sqlval list \<Rightarrow> db_row \<Rightarrow> (bool, db_error) result" where
  "notes_where cond binds row =
     (if cond = owner_bound_condition ''title'' then Inr (row_value (row_to_json row) ''title'' = binds ! 1)
      else case notes_using of
          Some (e, _) \<Rightarrow> Inr (ref_eval e binds (row_value (row_to_json row)) = TTrue)
        | None \<Rightarrow> Inr False)"

definition notes_row :: db_row where
  "notes_row = [(''id'', Integer 7), (''title'', Text ''u1''), (''views'', Integer 0), (''created_at'', Text ''2024''),
     (''updated_at'', Text ''2024'')]"

definition notes_db :: tenant_db where
  "notes_db = \<lparr> db_tables = [(''notes'', \<lparr> ct_schema = owned_schema, ct_rows = [(7, notes_row)] \<rparr>)], db_history = [] \<rparr>"

definition notes_env :: write_env where
  "notes_env = example_env\<lparr> we_sqlite := ref_sqlite\<lparr> sq_where := notes_where \<rparr>, we_cache := \<lambda>_. Inr (Some owned_schema),
     we_reader := notes_db \<rparr>"

lemma notes_conditions: "same_conditions ref_eval (we_sqlite notes_env) example_user owned_schema 7 notes_row"
proof -
  have "case notes_using of None \<Rightarrow> False | Some (e, b) \<Rightarrow> render e \<noteq> owner_bound_condition ''title''" by code_simp
  moreover have "compute_owner_filter example_user owned_schema = Some (''title'', ''u1'')" by code_simp
  ultimately show ?thesis
    by (auto simp: same_conditions_def notes_env_def notes_where_def notes_using_def)
qed

theorem get_shows_what_list_shows_witness:
  "get_handler notes_env (\<lambda>_. ''err'') user_ext ''notes'' 7 =
     RestJson 200 (JObject [(''record'', JObject (materialize_row (vector_names owned_schema) notes_row))])"
proof -
  have "require_dml_cap notes_env (x_role user_ext) ''notes'' Select = Inr owned_schema"
    "describe (we_reader notes_env) ''notes'' = Some \<lparr> ct_schema = owned_schema, ct_rows = [(7, notes_row)] \<rparr>"
    "policies_valid owned_schema" "row_typed owned_schema (row_to_json notes_row)"
    "row_value (row_to_json notes_row) ''title'' = Text ''u1''"
    by code_simp+
  moreover have "\<exists>us. policy_using_sql (x_ctx user_ext) owned_schema Select = Inr us"
  proof -
    have "is_ok (policy_using_sql example_user owned_schema Select)" by code_simp
    then show ?thesis by (auto simp: is_ok_iff)
  qed
  moreover have "owner_admits example_user owned_schema (row_value (row_to_json notes_row))"
    "select_admits like_rx example_user owned_schema (row_to_json notes_row)"
    by code_simp+
  moreover from calculation have "stored_row owned_schema (row_to_json notes_row)"
    by (auto simp: stored_row_def owned_schema_def)
  ultimately show ?thesis
    using get_shows_what_list_shows [OF ref.sqlite_engine_axioms like_rx_engine, of notes_env user_ext "''notes''" owned_schema]
      notes_conditions
    by auto
qed

end
