(* ===== verification/Batch_Write.thy ===== *)
theory Batch_Write
  imports Rest_Records
begin

text \<open>
  Writing many records at once: \<open>mcp/tools/batch.rs\<close>, the upsert of one row and the validation of its
  conflict target in \<open>mcp/tools/write.rs\<close>, and the REST face of both in \<open>tenant/records.rs\<close>. All rows of
  a call are written in one transaction.
\<close>

section \<open>Errors\<close>

datatype batch_error =
    BProtected
  | BEmpty
  | BTooLarge nat nat
  | BRowNotObject
  | BUnknownCollection string
  | BOwnerRequired nat string
  | BVector vector_codec_error
  | BNoConflictCols
  | BDuplicateColumn string
  | BNoUnique "string list" string
  | BMissingKey string
  | BDuplicateInBatch
  | BTx tx_error

text \<open>\<open>DRUST_BATCH_MAX_ROWS\<close>; anything that is not a positive number gives the default.\<close>

definition batch_max_rows :: "string option \<Rightarrow> nat" where
  "batch_max_rows var =
     (case Option.bind var (parse_unsigned 64) of Some n \<Rightarrow> if n > 0 then n else 1000 | None \<Rightarrow> 1000)"

fun parse_rows :: "json list \<Rightarrow> (jmap list, batch_error) result" where
  "parse_rows [] = Inr []"
| "parse_rows (r # rs) =
     (case as_object r of
        None \<Rightarrow> Inl BRowNotObject
      | Some m \<Rightarrow> bind_r (parse_rows rs) (\<lambda>ms. Inr (m # ms)))"

definition row_owned :: "string \<Rightarrow> jmap \<Rightarrow> bool" where
  "row_owned of' m = (case Option.bind (map_of m of') as_str of Some s \<Rightarrow> s \<noteq> [] | None \<Rightarrow> False)"

definition owners_supplied :: "collection_schema \<Rightarrow> jmap list \<Rightarrow> (unit, batch_error) result" where
  "owners_supplied schema rows =
     (case s_owner_field schema of
        None \<Rightarrow> Inr ()
      | Some of' \<Rightarrow>
          try_for_each (\<lambda>(i, m). if row_owned of' m then Inr () else Inl (BOwnerRequired i of'))
            (zip [0..<length rows] rows))"

fun encode_rows ::
  "collection_schema \<Rightarrow> jmap list \<Rightarrow> ((jmap \<times> (string \<times> string) list) list, batch_error) result" where
  "encode_rows schema [] = Inr []"
| "encode_rows schema (m # ms) =
     bind_r (map_err BVector (pre_encode_vectors (s_vector_fields schema) m)) (\<lambda>vb.
     bind_r (encode_rows schema ms) (\<lambda>rest. Inr ((m, vb) # rest)))"

text \<open>What both calls do before the transaction: the size, the shape, the owners and the vectors of the rows.\<close>

definition batch_prepare ::
  "write_env \<Rightarrow> nat \<Rightarrow> string \<Rightarrow> json list \<Rightarrow> (string list \<times> (jmap \<times> (string \<times> string) list) list, batch_error) result" where
  "batch_prepare env limit coll records =
     (if records = [] then Inl BEmpty
      else if length records > limit then Inl (BTooLarge (length records) limit)
      else
        bind_r (parse_rows records) (\<lambda>rows.
        bind_r (case describe (we_reader env) coll of Some t \<Rightarrow> Inr (ct_schema t) | None \<Rightarrow> Inl (BUnknownCollection coll)) (\<lambda>schema.
        bind_r (owners_supplied schema rows) (\<lambda>_.
        bind_r (encode_rows schema rows) (\<lambda>encoded. Inr (vector_names schema, encoded))))))"

definition batch_tx ::
  "(tenant_db \<Rightarrow> ('a \<times> tenant_db, batch_error) result) \<Rightarrow> tenant_db \<Rightarrow> ('a, batch_error) result \<times> tenant_db" where
  "batch_tx f db = (case f db of Inl e \<Rightarrow> (Inl e, db) | Inr (a, db') \<Rightarrow> (Inr a, db'))"

text \<open>The collection as the transaction describes it once, with the rows as they are by now.\<close>

definition live_rows :: "tenant_db \<Rightarrow> string \<Rightarrow> collection_schema \<Rightarrow> coll_table" where
  "live_rows tx coll schema =
     \<lparr> ct_schema = schema, ct_rows = (case describe tx coll of Some t \<Rightarrow> ct_rows t | None \<Rightarrow> []) \<rparr>"

definition described :: "tenant_db \<Rightarrow> string \<Rightarrow> (collection_schema, batch_error) result" where
  "described tx coll = (case describe tx coll of Some t \<Rightarrow> Inr (ct_schema t) | None \<Rightarrow> Inl (BTx (TxUnknownCollection coll)))"

section \<open>Inserting a batch\<close>

fun insert_rows ::
  "write_env \<Rightarrow> string \<Rightarrow> collection_schema \<Rightarrow> string list \<Rightarrow> audit_actor \<Rightarrow> (jmap \<times> (string \<times> string) list) list \<Rightarrow> tenant_db
     \<Rightarrow> (jmap list \<times> tenant_db, batch_error) result" where
  "insert_rows env coll schema vnames actor [] tx = Inr ([], tx)"
| "insert_rows env coll schema vnames actor ((m, vb) # rest) tx =
     bind_r (map_err BTx (insert_row_in_tx env tx coll (live_rows tx coll schema) m vb vnames None actor)) (\<lambda>((_, rec), tx').
     bind_r (insert_rows env coll schema vnames actor rest tx') (\<lambda>(recs, tx'').
       Inr (rec # recs, tx'')))"

type_synonym batch_out = "(json, batch_error) result \<times> tenant_db \<times> event list"

definition batch_insert_core ::
  "write_env \<Rightarrow> nat \<Rightarrow> tenant_db \<Rightarrow> string \<Rightarrow> json list \<Rightarrow> audit_actor \<Rightarrow> batch_out" where
  "batch_insert_core env limit db coll records actor =
     (if is_protected_collection coll then (Inl BProtected, db, [])
      else case batch_prepare env limit coll records of
          Inl e \<Rightarrow> (Inl e, db, [])
        | Inr (vnames, encoded) \<Rightarrow>
            (case batch_tx (\<lambda>tx. bind_r (described tx coll) (\<lambda>schema.
                    insert_rows env coll schema vnames actor encoded tx)) db of
               (Inl e, db') \<Rightarrow> (Inl e, db', [])
             | (Inr recs, db') \<Rightarrow>
                 (Inr (JObject [(''inserted'', JArray (map JObject recs)), (''count'', JNumber (PosInt (length recs)))]),
                  db', map Created recs)))"

text \<open>The tools of the service key: the tier is the tenant's, \<open>1\<close> without a meta database.\<close>

definition tool_tier :: "(int, db_error) result option \<Rightarrow> int" where
  "tool_tier meta = (case meta of Some row \<Rightarrow> read_tier row | None \<Rightarrow> 1)"

definition batch_insert ::
  "write_env \<Rightarrow> nat \<Rightarrow> (int, db_error) result option \<Rightarrow> tenant_db \<Rightarrow> string \<Rightarrow> json list \<Rightarrow> audit_actor \<Rightarrow> batch_out" where
  "batch_insert env limit meta db coll records actor =
     batch_insert_core (env\<lparr> we_tier := tool_tier meta \<rparr>) limit db coll records actor"

section \<open>The conflict target\<close>

text \<open>
  What the pragmas tell of a table: its indexes (name, unique, partial), the columns of an index (key,
  name, collation) and the columns of the table (position in the primary key, name); and the upsert
  statement, run on a table with its values, its conflict columns, the columns its update arm takes
  from \<open>excluded\<close>, and whether that arm sets \<open>updated_at\<close>: the row it wrote, under a new or an old rowid.
\<close>

datatype upserted = Fresh int db_row | Merged int db_row

record upsert_sqlite =
  us_index_list :: "tenant_db \<Rightarrow> string \<Rightarrow> ((string \<times> int \<times> int) list, db_error) result"
  us_index_xinfo :: "tenant_db \<Rightarrow> string \<Rightarrow> ((int \<times> string option \<times> string option) list, db_error) result"
  us_table_info :: "tenant_db \<Rightarrow> string \<Rightarrow> ((int \<times> string) list, db_error) result"
  us_upsert :: "coll_table \<Rightarrow> (string \<times> sqlval) list \<Rightarrow> string list \<Rightarrow> string list \<Rightarrow> bool \<Rightarrow> (upserted, db_error) result"

definition check_conflict_distinct :: "string list \<Rightarrow> (unit, batch_error) result" where
  "check_conflict_distinct cols =
     try_for_each (\<lambda>i. if cols ! i \<in> set (take i cols) then Inl (BDuplicateColumn (cols ! i)) else Inr ()) [0..<length cols]"

text \<open>One index: its key columns with their collations, when all are plain columns and they are the wanted ones.\<close>

definition index_columns :: "(int \<times> string option \<times> string option) list \<Rightarrow> (string option \<times> string) list" where
  "index_columns info =
     map (\<lambda>(_, n, c). (n, unwrap_or c ''BINARY'')) (filter (\<lambda>(key, _, _). key = 1) info)"

definition index_matches :: "string list \<Rightarrow> (string option \<times> string) list \<Rightarrow> bool" where
  "index_matches want cols \<longleftrightarrow>
     list_all (\<lambda>(n, _). n \<noteq> None) cols \<and> cols \<noteq> [] \<and> set (map (the \<circ> fst) cols) = set want"

fun find_index ::
  "upsert_sqlite \<Rightarrow> tenant_db \<Rightarrow> string list \<Rightarrow> string list \<Rightarrow> ((string \<times> string) list option, batch_error) result" where
  "find_index us tx want [] = Inr None"
| "find_index us tx want (n # ns) =
     bind_r (map_err (BTx \<circ> TxDb) (us_index_xinfo us tx n)) (\<lambda>info.
       if index_matches want (index_columns info)
       then Inr (Some (map (\<lambda>(c, k). (the c, k)) (index_columns info)))
       else find_index us tx want ns)"

definition validate_conflict_target ::
  "upsert_sqlite \<Rightarrow> tenant_db \<Rightarrow> string \<Rightarrow> string list \<Rightarrow> ((string \<times> string) list, batch_error) result" where
  "validate_conflict_target us tx table on_conflict =
     (if on_conflict = [] then Inl BNoConflictCols
      else
        bind_r (check_conflict_distinct on_conflict) (\<lambda>_.
        bind_r (map_err (BTx \<circ> TxDb) (us_index_list us tx table)) (\<lambda>idx.
        bind_r (find_index us tx on_conflict (map fst (filter (\<lambda>(_, uniq, partial). uniq = 1 \<and> partial = 0) idx))) (\<lambda>found.
        case found of
          Some cols \<Rightarrow> Inr cols
        | None \<Rightarrow>
            bind_r (map_err (BTx \<circ> TxDb) (us_table_info us tx table)) (\<lambda>info.
            let pk = map snd (filter (\<lambda>(pos, _). pos > 0) info) in
            if pk \<noteq> [] \<and> set pk = set on_conflict then Inr (map (\<lambda>n. (n, ''BINARY'')) pk)
            else Inl (BNoUnique on_conflict table))))))"

section \<open>Upserting one row\<close>

text \<open>
  The row a key condition finds first. A key column whose index compares in a collation of its own is
  probed in that collation.
\<close>

fun first_match ::
  "sqlite \<Rightarrow> string \<Rightarrow> sqlval list \<Rightarrow> (int \<times> db_row) list \<Rightarrow> (db_row option, db_error) result" where
  "first_match sq cond binds [] = Inr None"
| "first_match sq cond binds ((_, row) # rest) =
     bind_r (sq_where sq cond binds row) (\<lambda>hit. if hit then Inr (Some row) else first_match sq cond binds rest)"

definition key_condition :: "string list \<Rightarrow> (string \<times> string) list \<Rightarrow> string" where
  "key_condition on_conflict collations =
     join '' AND '' (map (\<lambda>(i, c).
       let k = unwrap_or (map_of (rev collations) c) ''BINARY''
       in q c @ '' = ?'' @ nat_to_string (i + 1) @
          (if to_ascii_lowercase k = ''binary'' then [] else '' COLLATE '' @ k))
       (zip [0..<length on_conflict] on_conflict))"

definition key_params :: "write_env \<Rightarrow> (string \<times> string) list \<Rightarrow> jmap \<Rightarrow> string list \<Rightarrow> sqlval list" where
  "key_params env vbytes data on_conflict = map (\<lambda>c. the (map_of (bind_values (we_to_string env) vbytes data) c)) on_conflict"

definition check_keys :: "jmap \<Rightarrow> string list \<Rightarrow> (unit, batch_error) result" where
  "check_keys data on_conflict =
     try_for_each (\<lambda>c. if map_of data c = None then Inl (BMissingKey c) else Inr ()) on_conflict"

definition SYSTEM_COLUMNS :: "string list" where
  "SYSTEM_COLUMNS = [''id'', ''created_at'', ''updated_at'']"

text \<open>The columns the update arm assigns: what the row supplies, less the key and what the server keeps.\<close>

definition update_columns :: "collection_schema \<Rightarrow> jmap \<Rightarrow> string list \<Rightarrow> string list" where
  "update_columns schema data on_conflict =
     (let assigned = filter (\<lambda>c. c \<notin> set on_conflict \<and> c \<notin> set SYSTEM_COLUMNS) (map fst data)
      in if assigned = [] \<and> \<not> has_field schema ''updated_at'' then [hd on_conflict] else assigned)"

fun up_row :: "upserted \<Rightarrow> db_row" where
  "up_row (Fresh _ row) = row"
| "up_row (Merged _ row) = row"

fun up_rowid :: "upserted \<Rightarrow> int" where
  "up_rowid (Fresh i _) = i"
| "up_rowid (Merged i _) = i"

fun up_rows :: "upserted \<Rightarrow> (int \<times> db_row) list \<Rightarrow> (int \<times> db_row) list" where
  "up_rows (Fresh i row) rows = rows @ [(i, row)]"
| "up_rows (Merged i row) rows = replace_row i row rows"

text \<open>
  The record's id is its column \<open>id\<close>; the connection's last insert rowid, which would stand in for a
  row without one, is here the rowid of the row written.
\<close>

definition upsert_row_in_tx ::
  "write_env \<Rightarrow> upsert_sqlite \<Rightarrow> tenant_db \<Rightarrow> string \<Rightarrow> coll_table \<Rightarrow> jmap \<Rightarrow> (string \<times> string) list \<Rightarrow> string list
     \<Rightarrow> string list \<Rightarrow> (string \<times> string) list \<Rightarrow> audit_actor \<Rightarrow> ((history_op \<times> jmap) \<times> tenant_db, batch_error) result" where
  "upsert_row_in_tx env us tx coll t data vbytes vnames on_conflict collations actor =
     (let sq = we_sqlite env; schema = ct_schema t; params = bind_values (we_to_string env) vbytes data in
      bind_r (map_err BTx (check_known schema (s_name schema) data)) (\<lambda>_.
      bind_r (check_keys data on_conflict) (\<lambda>_.
      bind_r (map_err BTx (check_constraints (we_parse_f64 env) schema data)) (\<lambda>_.
      bind_r (map_err (BTx \<circ> TxDb) (first_match sq (key_condition on_conflict collations)
                (key_params env vbytes data on_conflict) (ct_rows t))) (\<lambda>hit.
      let pre = map_option (materialize_row vnames) hit; op = (if pre \<noteq> None then HUpdate else HInsert) in
      bind_r (map_err (BTx \<circ> TxDb) (tx_usage sq tx)) (\<lambda>before.
      bind_r (if op = HInsert then map_err (BTx \<circ> TxQuota) (check_tenant_quota before 0 (we_tier env)) else Inr ()) (\<lambda>_.
      bind_r (map_err (BTx \<circ> map_check_violation) (us_upsert us t params on_conflict
                (update_columns schema data on_conflict) (has_field schema ''updated_at''))) (\<lambda>u.
      let rec = materialize_row vnames (up_row u);
          i = (case Option.bind (map_of rec ''id'') json_i64 of Some i \<Rightarrow> i | None \<Rightarrow> up_rowid u)
      in
      bind_r (map_err BTx (capture sq (put_rows tx coll (up_rows u (ct_rows t))) (s_name schema) op i pre (Some rec) actor
                (s_audit_enabled schema))) (\<lambda>tx'.
      bind_r (if op = HUpdate then map_err (BTx \<circ> TxDb) (check_update_growth (tx_usage sq tx') before (we_tier env)) else Inr ()) (\<lambda>_.
        Inr ((op, rec), tx')))))))))))"

section \<open>Upserting a batch\<close>

definition dedup_key :: "(json \<Rightarrow> string) \<Rightarrow> string list \<Rightarrow> jmap \<Rightarrow> jmap \<Rightarrow> string" where
  "dedup_key to_string on_conflict data rec =
     (case Option.bind (map_of rec ''id'') json_i64 of
        Some i \<Rightarrow> ''id:'' @ int_to_string i
      | None \<Rightarrow> ''k:'' @ join [CHR 0x01] (map (\<lambda>c. case map_of data c of Some v \<Rightarrow> to_string v | None \<Rightarrow> []) on_conflict))"

fun upsert_rows ::
  "write_env \<Rightarrow> upsert_sqlite \<Rightarrow> string \<Rightarrow> collection_schema \<Rightarrow> string list \<Rightarrow> string list \<Rightarrow> (string \<times> string) list \<Rightarrow> audit_actor
     \<Rightarrow> string list \<Rightarrow> (jmap \<times> (string \<times> string) list) list \<Rightarrow> tenant_db
     \<Rightarrow> ((history_op \<times> jmap) list \<times> tenant_db, batch_error) result" where
  "upsert_rows env us coll schema vnames on_conflict collations actor touched [] tx = Inr ([], tx)"
| "upsert_rows env us coll schema vnames on_conflict collations actor touched ((m, vb) # rest) tx =
     bind_r (upsert_row_in_tx env us tx coll (live_rows tx coll schema) m vb vnames on_conflict collations actor) (\<lambda>((op, rec), tx').
     let key = dedup_key (we_to_string env) on_conflict m rec in
     if key \<in> set touched then Inl BDuplicateInBatch
     else
       bind_r (upsert_rows env us coll schema vnames on_conflict collations actor (key # touched) rest tx') (\<lambda>(out, tx'').
         Inr ((op, rec) # out, tx'')))"

definition upsert_json :: "history_op \<times> jmap \<Rightarrow> json" where
  "upsert_json r =
     JObject [(''op'', JString (if fst r = HInsert then ''inserted'' else ''updated'')), (''record'', JObject (snd r))]"

definition upsert_event :: "history_op \<times> jmap \<Rightarrow> event" where
  "upsert_event r = (if fst r = HInsert then Created (snd r) else Updated (snd r))"

definition batch_upsert_core ::
  "write_env \<Rightarrow> upsert_sqlite \<Rightarrow> nat \<Rightarrow> tenant_db \<Rightarrow> string \<Rightarrow> json list \<Rightarrow> string list \<Rightarrow> audit_actor \<Rightarrow> batch_out" where
  "batch_upsert_core env us limit db coll records on_conflict actor =
     (if is_protected_collection coll then (Inl BProtected, db, [])
      else if on_conflict = [] then (Inl BNoConflictCols, db, [])
      else case batch_prepare env limit coll records of
          Inl e \<Rightarrow> (Inl e, db, [])
        | Inr (vnames, encoded) \<Rightarrow>
            (case batch_tx (\<lambda>tx. bind_r (described tx coll) (\<lambda>schema.
                    bind_r (validate_conflict_target us tx coll on_conflict) (\<lambda>collations.
                    upsert_rows env us coll schema vnames on_conflict collations actor [] encoded tx))) db of
               (Inl e, db') \<Rightarrow> (Inl e, db', [])
             | (Inr results, db') \<Rightarrow>
                 (Inr (JObject [(''results'', JArray (map upsert_json results)), (''count'', JNumber (PosInt (length results)))]),
                  db', map upsert_event results)))"

definition batch_upsert ::
  "write_env \<Rightarrow> upsert_sqlite \<Rightarrow> nat \<Rightarrow> (int, db_error) result option \<Rightarrow> tenant_db \<Rightarrow> string \<Rightarrow> json list \<Rightarrow> string list \<Rightarrow> audit_actor
     \<Rightarrow> batch_out" where
  "batch_upsert env us limit meta db coll records on_conflict actor =
     batch_upsert_core (env\<lparr> we_tier := tool_tier meta \<rparr>) us limit db coll records on_conflict actor"

section \<open>Over REST\<close>

text \<open>
  The text of an error, of which the response takes the code before the first colon; \<open>detail\<close> is the
  rest of a message that starts with a fixed code, and \<open>display\<close> rusqlite's text of a database error.
\<close>

definition tx_text :: "(db_error \<Rightarrow> string) \<Rightarrow> string \<Rightarrow> tx_error \<Rightarrow> string" where
  "tx_text display detail e =
     (case e of
        TxDb d \<Rightarrow> display d
      | TxNoRows \<Rightarrow> display QueryReturnedNoRows
      | TxQuota x \<Rightarrow> display (quota_exceeded_error x)
      | TxOwnerRequired _ _ \<Rightarrow> ''OWNER_FIELD_REQUIRED: '' @ detail
      | TxUnknownCollection c \<Rightarrow> ''unknown collection: '' @ squoted c
      | TxUnknownField k c names \<Rightarrow>
          ''unknown field '' @ squoted k @ '' for collection '' @ squoted c @ '' (allowed: '' @ join '', '' names @ '')''
      | TxCheckViolation d \<Rightarrow> ''CHECK_CONSTRAINT_FAILED: '' @ display d
      | TxPolicyCheck \<Rightarrow> display policy_check_sentinel
      | _ \<Rightarrow> ''CHECK_CONSTRAINT_FAILED: '' @ detail)"

definition batch_text :: "(db_error \<Rightarrow> string) \<Rightarrow> string \<Rightarrow> batch_error \<Rightarrow> string" where
  "batch_text display detail e =
     (case e of
        BProtected \<Rightarrow> ''PROTECTED_COLLECTION: '' @ detail
      | BEmpty \<Rightarrow> ''BATCH_EMPTY: '' @ detail
      | BTooLarge _ _ \<Rightarrow> ''BATCH_TOO_LARGE: '' @ detail
      | BRowNotObject \<Rightarrow> ''BATCH_ROW_NOT_OBJECT: '' @ detail
      | BUnknownCollection c \<Rightarrow> ''unknown collection: '' @ squoted c
      | BOwnerRequired _ _ \<Rightarrow> ''OWNER_FIELD_REQUIRED: '' @ detail
      | BVector v \<Rightarrow> vector_code v @ '': '' @ detail
      | BNoConflictCols \<Rightarrow> ''UPSERT_NO_CONFLICT_COLS: '' @ detail
      | BDuplicateColumn _ \<Rightarrow> ''UPSERT_DUPLICATE_COLUMN: '' @ detail
      | BNoUnique _ _ \<Rightarrow> ''UPSERT_NO_UNIQUE: '' @ detail
      | BMissingKey _ \<Rightarrow> ''UPSERT_MISSING_KEY: '' @ detail
      | BDuplicateInBatch \<Rightarrow> ''UPSERT_DUPLICATE_IN_BATCH: '' @ detail
      | BTx x \<Rightarrow> tx_text display detail x)"

definition map_batch_error :: "string \<Rightarrow> rest_resp" where
  "map_batch_error msg =
     (let code = trim (hd (split_on (CHR '':'') msg)) in
      if code = ''TENANT_QUOTA_EXCEEDED'' then RestErr 507 code
      else if code = ''OWNER_FIELD_REQUIRED'' then RestErr 409 code
      else if code = ''PROTECTED_COLLECTION'' then RestErr 404 code
      else if code = ''CHECK_CONSTRAINT_FAILED'' then RestErr 400 code
      else if code = ''POLICY_CHECK_FAILED'' then RestErr 403 code
      else if code \<in> {''VECTOR_DIM_MISMATCH'', ''VECTOR_NON_FINITE'', ''VECTOR_TYPE_ERROR''} then RestErr 422 code
      else if code \<in> {''UPSERT_NO_UNIQUE'', ''UPSERT_NO_CONFLICT_COLS'', ''UPSERT_MISSING_KEY'', ''UPSERT_DUPLICATE_COLUMN'',
                       ''UPSERT_DUPLICATE_IN_BATCH''} then RestErr 400 code
      else if code \<in> {''BATCH_EMPTY'', ''BATCH_TOO_LARGE'', ''BATCH_ROW_NOT_OBJECT''} then RestErr 400 code
      else if str_contains msg ''unknown collection'' then RestErr 404 ''COLLECTION_NOT_FOUND''
      else RestErr 400 ''BATCH_ROW_INVALID'')"

definition batch_response :: "(db_error \<Rightarrow> string) \<Rightarrow> string \<Rightarrow> batch_out \<Rightarrow> rest_out" where
  "batch_response display detail out =
     (case out of (Inr v, db, ev) \<Rightarrow> (RestJson 200 v, db, ev) | (Inl e, db, ev) \<Rightarrow> (map_batch_error (batch_text display detail e), db, ev))"

definition post_batch ::
  "write_env \<Rightarrow> (db_error \<Rightarrow> string) \<Rightarrow> string \<Rightarrow> nat \<Rightarrow> request_ext \<Rightarrow> tenant_db \<Rightarrow> string \<Rightarrow> json list \<Rightarrow> rest_out" where
  "post_batch env display detail limit ext db coll records =
     (if \<not> is_service (x_ctx ext) then (RestErr 403 ''WRITE_DENIED'', db, [])
      else batch_response display detail
        (batch_insert_core (env\<lparr> we_tier := x_quota_tier ext \<rparr>) limit db coll records (actor_from_auth_ctx (x_ctx ext))))"

definition post_upsert ::
  "write_env \<Rightarrow> upsert_sqlite \<Rightarrow> (db_error \<Rightarrow> string) \<Rightarrow> string \<Rightarrow> nat \<Rightarrow> request_ext \<Rightarrow> tenant_db \<Rightarrow> string \<Rightarrow> json list \<Rightarrow> string list
     \<Rightarrow> rest_out" where
  "post_upsert env us display detail limit ext db coll records on_conflict =
     (if \<not> is_service (x_ctx ext) then (RestErr 403 ''WRITE_DENIED'', db, [])
      else batch_response display detail
        (batch_upsert_core (env\<lparr> we_tier := x_quota_tier ext \<rparr>) us limit db coll records on_conflict (actor_from_auth_ctx (x_ctx ext))))"

section \<open>A batch is its inserts, all or none\<close>

text \<open>The reference: the rows inserted one call after the other, up to the first that is refused.\<close>

fun insert_each :: "write_env \<Rightarrow> string \<Rightarrow> audit_actor \<Rightarrow> json list \<Rightarrow> tenant_db \<Rightarrow> (json list, write_error) result \<times> tenant_db \<times> event list" where
  "insert_each env coll actor [] db = (Inr [], db, [])"
| "insert_each env coll actor (r # rs) db =
     (case insert_record_checked env db coll r None actor of
        (Inl e, db', ev) \<Rightarrow> (Inl e, db', ev)
      | (Inr p, db', ev) \<Rightarrow>
          (case insert_each env coll actor rs db' of
             (Inl e, db'', ev') \<Rightarrow> (Inl e, db'', ev @ ev')
           | (Inr ps, db'', ev') \<Rightarrow> (Inr (p # ps), db'', ev @ ev')))"

lemma insert_each_Cons:
  "insert_each env coll actor (r # rs) db = (Inr ps, db2, ev) \<longleftrightarrow>
     (\<exists>p db1 ev1 ps' ev'. insert_record_checked env db coll r None actor = (Inr p, db1, ev1) \<and>
        insert_each env coll actor rs db1 = (Inr ps', db2, ev') \<and> ps = p # ps' \<and> ev = ev1 @ ev')"
  by (auto split: prod.splits sum.splits)

lemma live_rows_described: "describe tx coll = Some t \<Longrightarrow> live_rows tx coll (ct_schema t) = t"
  by (simp add: live_rows_def)

lemma insert_single:
  assumes "\<not> is_protected_collection coll" "describe (we_reader env) coll = Some t0" "ct_schema t0 = schema"
    and "describe db coll = Some t" "ct_schema t = schema"
  shows "insert_record_checked env db coll r None actor = (Inr p, db', ev) \<longleftrightarrow>
    (\<exists>m vb i rec. as_object r = Some m \<and> pre_encode_vectors (s_vector_fields schema) m = Inr vb \<and>
       insert_row_in_tx env db coll (live_rows db coll schema) m vb (vector_names schema) None actor = Inr ((i, rec), db') \<and>
       p = JObject [(''id'', JNumber (jnum_of_int i)), (''record'', JObject rec)] \<and> ev = [Created rec])"
  using assms live_rows_described [OF assms(4)]
  by (auto simp: insert_record_checked_def finish_def with_writer_tx_def split: option.splits sum.splits)

lemma insert_row_keeps_schema:
  assumes "insert_row_in_tx env db coll t m vb vnames check actor = Inr ((i, rec), db')" "describe db coll = Some t"
  shows "\<exists>t'. describe db' coll = Some t' \<and> ct_schema t' = ct_schema t \<and> owner_supplied (ct_schema t) m = Inr ()"
  using assms by (auto simp: insert_row_in_tx_def capture_def Let_def describe_put_rows split: if_splits)

lemma insert_rows_each:
  assumes "\<not> is_protected_collection coll" "describe (we_reader env) coll = Some t0" "ct_schema t0 = schema"
    and "describe db coll = Some t" "ct_schema t = schema"
  shows "(\<exists>rows enc. parse_rows rs = Inr rows \<and> list_all (\<lambda>m. owner_supplied schema m = Inr ()) rows \<and>
       encode_rows schema rows = Inr enc \<and>
       insert_rows env coll schema (vector_names schema) actor enc db = Inr (recs, db')) \<longleftrightarrow>
    (\<exists>ps. insert_each env coll actor rs db = (Inr ps, db', map Created recs))"
  using assms(4,5)
proof (induction rs arbitrary: db t recs)
  case Nil
  then show ?case by (auto simp: eq_commute)
next
  case (Cons r rs)
  note single = insert_single [OF assms(1-3) Cons.prems]
  show ?case (is "?batch \<longleftrightarrow> ?each")
  proof
    assume ?batch
    then obtain m ms vb enc rec recs' i db1 where
      "as_object r = Some m" "parse_rows rs = Inr ms" "list_all (\<lambda>m. owner_supplied schema m = Inr ()) ms"
      "pre_encode_vectors (s_vector_fields schema) m = Inr vb" "encode_rows schema ms = Inr enc"
      and row: "insert_row_in_tx env db coll (live_rows db coll schema) m vb (vector_names schema) None actor = Inr ((i, rec), db1)"
      and "insert_rows env coll schema (vector_names schema) actor enc db1 = Inr (recs', db')" "recs = rec # recs'"
      by (auto split: option.splits)
    moreover from insert_row_keeps_schema [OF row] Cons.prems obtain t1 where "describe db1 coll = Some t1" "ct_schema t1 = schema"
      by (auto simp: live_rows_def)
    ultimately show ?each
      using Cons.IH [of db1 t1 recs'] single by (fastforce simp: insert_each_Cons simp del: insert_each.simps)
  next
    assume ?each
    then obtain ps p db1 ev1 ps' ev' where s: "insert_record_checked env db coll r None actor = (Inr p, db1, ev1)"
      and e: "insert_each env coll actor rs db1 = (Inr ps', db', ev')" "map Created recs = ev1 @ ev'"
      by (auto simp: insert_each_Cons simp del: insert_each.simps)
    from s obtain m vb i rec where m: "as_object r = Some m" "pre_encode_vectors (s_vector_fields schema) m = Inr vb"
      and row: "insert_row_in_tx env db coll (live_rows db coll schema) m vb (vector_names schema) None actor = Inr ((i, rec), db1)"
      and "ev1 = [Created rec]"
      by (auto simp: single)
    with e obtain recs' where r: "recs = rec # recs'" "ev' = map Created recs'" by (cases recs) auto
    from insert_row_keeps_schema [OF row] Cons.prems obtain t1 where t1: "describe db1 coll = Some t1" "ct_schema t1 = schema"
        "owner_supplied schema m = Inr ()"
      by (auto simp: live_rows_def)
    from Cons.IH [OF t1(1,2), of recs'] e(1) r(2) obtain ms enc where
      "parse_rows rs = Inr ms" "list_all (\<lambda>m. owner_supplied schema m = Inr ()) ms" "encode_rows schema ms = Inr enc"
      "insert_rows env coll schema (vector_names schema) actor enc db1 = Inr (recs', db')" by auto
    with m row r(1) t1(3) show ?batch by (intro exI [of _ "m # ms"] exI [of _ "(m, vb) # enc"]) auto
  qed
qed

lemma owners_supplied_ok:
  "owners_supplied schema rows = Inr () \<longleftrightarrow> list_all (\<lambda>m. owner_supplied schema m = Inr ()) rows"
proof (cases "s_owner_field schema")
  case None
  then show ?thesis by (simp add: owners_supplied_def owner_supplied_def list_all_iff)
next
  case (Some f)
  have "owner_supplied schema m = Inr () \<longleftrightarrow> row_owned f m" for m
    using Some by (auto simp: owner_supplied_def row_owned_def split: option.splits)
  moreover have "owners_supplied schema rows = Inr () \<longleftrightarrow> (\<forall>(i, m) \<in> set (zip [0..<length rows] rows). row_owned f m)"
    using Some by (simp add: owners_supplied_def try_for_each_ok) (auto split: if_splits)
  moreover have "(\<forall>(i, m) \<in> set (zip [0..<length rows] rows). row_owned f m) \<longleftrightarrow> list_all (row_owned f) rows"
    by (auto simp: set_zip list_all_length)
  ultimately show ?thesis by (simp add: list_all_iff)
qed

lemma batch_refused:
  "batch_insert_core env limit db coll records actor = (Inl e, db', ev) \<Longrightarrow> db' = db \<and> ev = []"
  "batch_upsert_core env us limit db coll records on_conflict actor = (Inl e, db', ev) \<Longrightarrow> db' = db \<and> ev = []"
  by (auto simp: batch_insert_core_def batch_upsert_core_def batch_tx_def split: if_splits sum.splits)

lemma batch_committed:
  "batch_insert_core env limit db coll records actor = (Inr v, db', ev) \<longleftrightarrow>
     \<not> is_protected_collection coll \<and> (\<exists>vnames enc schema recs. batch_prepare env limit coll records = Inr (vnames, enc) \<and>
       described db coll = Inr schema \<and> insert_rows env coll schema vnames actor enc db = Inr (recs, db') \<and>
       v = JObject [(''inserted'', JArray (map JObject recs)), (''count'', JNumber (PosInt (length recs)))] \<and> ev = map Created recs)"
  by (auto simp: batch_insert_core_def batch_tx_def split: sum.splits)

text \<open>
  C10. A batch insert is its single inserts, all or none. A batch of one row up to the limit commits
  exactly when every one of its rows, inserted one call after the other, is accepted; then it leaves
  the same database (rows, history and attribution) and publishes the same events in the same order.
  When one row is refused, nothing of the batch is written and nothing is published.
\<close>

theorem batch_is_its_inserts:
  assumes "records \<noteq> []" "length records \<le> limit"
    and "map_option ct_schema (describe (we_reader env) coll) = map_option ct_schema (describe db coll)"
  shows "(batch_insert_core env limit db coll records actor = (Inr v, db', ev) \<longleftrightarrow>
       (\<exists>ps recs. insert_each env coll actor records db = (Inr ps, db', ev) \<and> ev = map Created recs \<and>
          v = JObject [(''inserted'', JArray (map JObject recs)), (''count'', JNumber (PosInt (length recs)))])) \<and>
     ((\<forall>ps db2 ev2. insert_each env coll actor records db \<noteq> (Inr ps, db2, ev2)) \<longrightarrow>
       (\<exists>e. batch_insert_core env limit db coll records actor = (Inl e, db, [])))"
proof (cases "\<not> is_protected_collection coll \<and> describe db coll \<noteq> None")
  case False
  with assms(3) have n: "is_protected_collection coll \<or> describe (we_reader env) coll = None" by (cases "describe db coll") auto
  from assms(1) obtain r rs where records: "records = r # rs" by (cases records) auto
  from n have "insert_each env coll actor records db \<noteq> (Inr ps, db2, ev2)" for ps db2 ev2
    unfolding records insert_each_Cons by (auto simp: insert_record_checked_def split: option.splits)
  moreover from n have "batch_insert_core env limit db coll records actor \<noteq> (Inr x, db2, ev2)" for x db2 ev2
    by (auto simp: batch_committed batch_prepare_def split: if_splits)
  ultimately show ?thesis
    using batch_refused(1) [of env limit db coll records actor]
    by (cases "batch_insert_core env limit db coll records actor"; cases "fst (batch_insert_core env limit db coll records actor)") auto
next
  case True
  then obtain t where t: "describe db coll = Some t" and np: "\<not> is_protected_collection coll" by auto
  with assms(3) obtain t0 where t0: "describe (we_reader env) coll = Some t0" "ct_schema t0 = ct_schema t"
    by (cases "describe (we_reader env) coll") auto
  note each = insert_rows_each [OF np t0 t refl, of records actor]
  have batch: "batch_insert_core env limit db coll records actor = (Inr x, db2, ev2) \<longleftrightarrow>
       (\<exists>ps recs. insert_each env coll actor records db = (Inr ps, db2, ev2) \<and> ev2 = map Created recs \<and>
          x = JObject [(''inserted'', JArray (map JObject recs)), (''count'', JNumber (PosInt (length recs)))])" for x db2 ev2
  proof -
    have "batch_insert_core env limit db coll records actor = (Inr x, db2, ev2) \<longleftrightarrow>
        (\<exists>recs. (\<exists>rows enc. parse_rows records = Inr rows \<and> list_all (\<lambda>m. owner_supplied (ct_schema t) m = Inr ()) rows \<and>
           encode_rows (ct_schema t) rows = Inr enc \<and>
           insert_rows env coll (ct_schema t) (vector_names (ct_schema t)) actor enc db = Inr (recs, db2)) \<and>
         x = JObject [(''inserted'', JArray (map JObject recs)), (''count'', JNumber (PosInt (length recs)))] \<and> ev2 = map Created recs)"
      using assms(1,2) np t t0 by (auto simp: batch_committed batch_prepare_def described_def owners_supplied_ok)
    then show ?thesis unfolding each by auto
  qed
  have "\<exists>e. batch_insert_core env limit db coll records actor = (Inl e, db, [])"
    if "\<forall>ps db2 ev2. insert_each env coll actor records db \<noteq> (Inr ps, db2, ev2)"
  proof -
    obtain r db2 ev2 where out: "batch_insert_core env limit db coll records actor = (r, db2, ev2)"
      by (cases "batch_insert_core env limit db coll records actor")
    with that batch [of _ db2 ev2] obtain e where "r = Inl e" by (cases r) auto
    with out batch_refused(1) show ?thesis by blast
  qed
  with batch show ?thesis by blast
qed

section \<open>Upserts\<close>

















section \<open>Responses\<close>

lemma hd_split_on: "c \<notin> set s \<Longrightarrow> hd (split_on c (s @ c # d)) = s"
proof (induction s)
  case (Cons x s)
  moreover have "split_on c (s @ c # d) \<noteq> []" by (cases "s @ c # d") (auto split: list.splits)
  ultimately show ?case by (cases "split_on c (s @ c # d)") auto
qed simp

lemma error_code:
  assumes "CHR '':'' \<notin> set code" "trim code = code"
  shows "trim (hd (split_on (CHR '':'') (code @ '': '' @ detail))) = code"
  using hd_split_on [OF assms(1), of "CHR '' '' # detail"] assms(2) by simp

text \<open>A refusal keeps the code of its error; the statuses are those of the single writes.\<close>

lemma batch_statuses:
  "map_batch_error (batch_text display detail BEmpty) = RestErr 400 ''BATCH_EMPTY''"
  "map_batch_error (batch_text display detail (BTooLarge n k)) = RestErr 400 ''BATCH_TOO_LARGE''"
  "map_batch_error (batch_text display detail BRowNotObject) = RestErr 400 ''BATCH_ROW_NOT_OBJECT''"
  "map_batch_error (batch_text display detail (BOwnerRequired r f)) = RestErr 409 ''OWNER_FIELD_REQUIRED''"
  "map_batch_error (batch_text display detail (BNoUnique oc coll)) = RestErr 400 ''UPSERT_NO_UNIQUE''"
  "map_batch_error (batch_text display detail BDuplicateInBatch) = RestErr 400 ''UPSERT_DUPLICATE_IN_BATCH''"
  "map_batch_error (batch_text display detail (BVector v)) = RestErr 422 (vector_code v)"
proof -
  have c: "trim (hd (split_on (CHR '':'') (code @ '': '' @ detail))) = code"
    if "code \<in> {''BATCH_EMPTY'', ''BATCH_TOO_LARGE'', ''BATCH_ROW_NOT_OBJECT'', ''OWNER_FIELD_REQUIRED'', ''UPSERT_NO_UNIQUE'',
      ''UPSERT_DUPLICATE_IN_BATCH'', ''VECTOR_DIM_MISMATCH'', ''VECTOR_NON_FINITE'', ''VECTOR_TYPE_ERROR''}" for code
  proof -
    have "list_all (\<lambda>code. CHR '':'' \<notin> set code \<and> trim code = code) [''BATCH_EMPTY'', ''BATCH_TOO_LARGE'', ''BATCH_ROW_NOT_OBJECT'',
      ''OWNER_FIELD_REQUIRED'', ''UPSERT_NO_UNIQUE'', ''UPSERT_DUPLICATE_IN_BATCH'', ''VECTOR_DIM_MISMATCH'', ''VECTOR_NON_FINITE'',
      ''VECTOR_TYPE_ERROR'']"
      by code_simp
    with that show ?thesis by (intro error_code) (auto simp: list_all_iff)
  qed
  show "map_batch_error (batch_text display detail BEmpty) = RestErr 400 ''BATCH_EMPTY''"
    using c [of "''BATCH_EMPTY''"] by (simp add: map_batch_error_def batch_text_def)
  show "map_batch_error (batch_text display detail (BTooLarge n k)) = RestErr 400 ''BATCH_TOO_LARGE''"
    using c [of "''BATCH_TOO_LARGE''"] by (simp add: map_batch_error_def batch_text_def)
  show "map_batch_error (batch_text display detail BRowNotObject) = RestErr 400 ''BATCH_ROW_NOT_OBJECT''"
    using c [of "''BATCH_ROW_NOT_OBJECT''"] by (simp add: map_batch_error_def batch_text_def)
  show "map_batch_error (batch_text display detail (BOwnerRequired r f)) = RestErr 409 ''OWNER_FIELD_REQUIRED''"
    using c [of "''OWNER_FIELD_REQUIRED''"] by (simp add: map_batch_error_def batch_text_def)
  show "map_batch_error (batch_text display detail (BNoUnique oc coll)) = RestErr 400 ''UPSERT_NO_UNIQUE''"
    using c [of "''UPSERT_NO_UNIQUE''"] by (simp add: map_batch_error_def batch_text_def)
  show "map_batch_error (batch_text display detail BDuplicateInBatch) = RestErr 400 ''UPSERT_DUPLICATE_IN_BATCH''"
    using c [of "''UPSERT_DUPLICATE_IN_BATCH''"] by (simp add: map_batch_error_def batch_text_def)
  have "vector_code v \<in> {''VECTOR_DIM_MISMATCH'', ''VECTOR_NON_FINITE'', ''VECTOR_TYPE_ERROR''}"
    by (auto simp: vector_code_def split: vector_codec_error.splits)
  with c [of "vector_code v"] show "map_batch_error (batch_text display detail (BVector v)) = RestErr 422 (vector_code v)"
    by (simp add: map_batch_error_def batch_text_def) auto
qed

section \<open>A reference engine\<close>











section \<open>Examples\<close>

definition example_batch :: "json list" where
  "example_batch = [JObject [(''title'', JString ''u1''), (''views'', JNumber (PosInt 9))],
     JObject [(''title'', JString ''u3''), (''views'', JNumber (PosInt 5))]]"

theorem batch_is_its_inserts_witness:
  "\<exists>v db ev ps. batch_insert_core example_env 1000 example_db ''notes'' example_batch actor_service = (Inr v, db, ev) \<and>
     insert_each example_env ''notes'' actor_service example_batch example_db = (Inr ps, db, ev)"
proof -
  have "is_ok (fst (batch_insert_core example_env 1000 example_db ''notes'' example_batch actor_service))" by code_simp
  then obtain v db ev where b: "batch_insert_core example_env 1000 example_db ''notes'' example_batch actor_service = (Inr v, db, ev)"
    by (cases "batch_insert_core example_env 1000 example_db ''notes'' example_batch actor_service") (auto simp: is_ok_iff)
  with batch_is_its_inserts [of example_batch 1000 example_env "''notes''" example_db actor_service v db ev]
  show ?thesis by (auto simp: example_env_simps example_batch_def)
qed




end
