(* ===== verification/Room_Ws.thy ===== *)
theory Room_Ws
  imports Room_Bus
begin

text \<open>
  The WebSocket face of the rooms, \<open>tenant/rooms/ws.rs\<close>: the connection loop with its eviction
  checkpoints and the handling of one text frame, and the REST face \<open>publish_handler\<close> of
  \<open>tenant/rooms/rest.rs\<close>. All connections, the bus and the bucket form one system whose steps are
  the branches of the loops, the evictions and the sweep.

  The parser of a client operation (\<open>serde_json::from_str::<ClientOp>\<close>) and the printer are
  arguments. Whether the peer still accepts a frame is the argument \<open>ok\<close>. The durations in the
  audit rows are left out.
\<close>

section \<open>Messages\<close>

datatype client_op =
    Subscribe string "string option"
  | Unsubscribe string "string option"
  | Publish string json "string option"
  | PingOp "string option"

datatype server_message =
    Ack "string option" string "string option" "nat option"
  | Error "string option" string string "string option"
  | Pong "string option"

datatype ws_out =
    Send server_message
  | SendFrame string
  | SendPing
  | SendPong string
  | SendClose nat string

datatype audit_row =
    PublishAudit string string string nat string nat "int option"
  | PublishAuditFailure string string string nat string string "int option"

text \<open>1008 is the policy-violation close code.\<close>

definition POLICY :: nat where "POLICY = 1008"

definition token_hint :: "auth_ctx \<Rightarrow> string" where
  "token_hint ctx = (case ctx of Service _ \<Rightarrow> ''service'' | User _ _ \<Rightarrow> ''user'' | Anon \<Rightarrow> ''anon'')"

section \<open>Connections\<close>

record ws_conn =
  c_id :: nat
  c_tenant :: string
  c_ctx :: auth_ctx
  c_policy :: tenant_publish_policy
  c_epoch :: nat
  c_epoch0 :: "64 word"
  c_deadline :: "int option"
  c_streams :: "(string \<times> nat) list"

record rooms_sys =
  s_bus :: room_bus
  s_bucket :: publish_bucket
  s_conns :: "ws_conn list"
  s_next_id :: nat

text \<open>The receivers of a channel that are alive: the streams the open connections hold.\<close>

definition receiver_count :: "ws_conn list \<Rightarrow> nat \<Rightarrow> nat" where
  "receiver_count conns tx = length (filter (\<lambda>(_, c). c = tx) (concat (map c_streams conns)))"

record ws_env =
  parse_op :: "string \<Rightarrow> client_op option"
  to_json :: "json \<Rightarrow> string"
  cfg :: rooms_config
  ok :: "ws_out \<Rightarrow> bool"
  now_ms :: int
  ts_ms :: int

text \<open>What one branch of the loop leaves behind.\<close>

record ws_effect =
  e_continue :: bool
  e_streams :: "(string \<times> nat) list"
  e_bus :: room_bus
  e_bucket :: publish_bucket
  e_out :: "ws_out list"
  e_sent :: "(nat \<times> room_message) option"
  e_audit :: "audit_row list"

definition effect :: "(string \<times> nat) list \<Rightarrow> room_bus \<Rightarrow> publish_bucket \<Rightarrow> ws_effect" where
  "effect streams bus bucket =
     \<lparr> e_continue = True, e_streams = streams, e_bus = bus, e_bucket = bucket, e_out = [], e_sent = None,
       e_audit = [] \<rparr>"

text \<open>\<open>sink.send(m).await.is_ok()\<close> decides whether the loop goes on.\<close>

definition send_out :: "ws_env \<Rightarrow> ws_out \<Rightarrow> ws_effect \<Rightarrow> ws_effect" where
  "send_out env m e = (if ok env m then e\<lparr> e_out := e_out e @ [m] \<rparr> else e\<lparr> e_continue := False \<rparr>)"

definition send_error ::
  "ws_env \<Rightarrow> string option \<Rightarrow> string \<Rightarrow> string \<Rightarrow> string option \<Rightarrow> ws_effect \<Rightarrow> ws_effect" where
  "send_error env client_ref code msg room e = send_out env (Send (Error client_ref code msg room)) e"

definition send_ack ::
  "ws_env \<Rightarrow> string option \<Rightarrow> string \<Rightarrow> string option \<Rightarrow> nat option \<Rightarrow> ws_effect \<Rightarrow> ws_effect" where
  "send_ack env client_ref op room delivered_to e =
     (if client_ref = None then e else send_out env (Send (Ack client_ref op room delivered_to)) e)"

definition room_pattern_msg :: string where
  "room_pattern_msg = ''room name does not match ^[a-zA-Z][a-zA-Z0-9_:.-]{0,127}$''"

fun ws_publish_error :: "publish_error \<Rightarrow> string \<times> string" where
  "ws_publish_error RoomNameInvalid = (ROOM_NAME_INVALID, ''room name invalid'')"
| "ws_publish_error ProtectedRoom = (PROTECTED_ROOM, ''_system_ prefix forbidden'')"
| "ws_publish_error PayloadTooLarge = (PAYLOAD_TOO_LARGE, ''payload too large'')"
| "ws_publish_error (RateLimited d) =
     (RATE_LIMITED, ''retry after '' @ nat_to_string (nat d) @ ''ms'')"

definition handle_subscribe ::
  "ws_env \<Rightarrow> string \<Rightarrow> (nat \<Rightarrow> nat) \<Rightarrow> string \<Rightarrow> string option \<Rightarrow> ws_effect \<Rightarrow> ws_effect" where
  "handle_subscribe env tenant rc room client_ref e =
     (let streams = e_streams e; bus = e_bus e in
      case validate_room_name room of
        Inl code \<Rightarrow> send_error env client_ref code room_pattern_msg (Some room) e
      | Inr _ \<Rightarrow>
          if map_of streams room = None \<and> length streams \<ge> client_room_max (cfg env)
          then send_error env client_ref CLIENT_ROOM_MAX ''this connection has subscribed to too many rooms'' (Some room) e
          else if map_of streams room = None
          then (if current_subscriber_count rc bus tenant room \<ge> room_subscriber_max (cfg env)
                then send_error env client_ref ROOM_FULL ''room subscriber cap reached'' (Some room) e
                else let (bus', rx) = subscribe bus tenant room
                     in send_ack env client_ref ''subscribe'' (Some room) None
                          (e\<lparr> e_streams := streams @ [(room, rx)], e_bus := bus' \<rparr>))
          else send_ack env client_ref ''subscribe'' (Some room) None e)"

definition handle_publish ::
  "ws_env \<Rightarrow> string \<Rightarrow> auth_ctx \<Rightarrow> tenant_publish_policy \<Rightarrow> (nat \<Rightarrow> nat) \<Rightarrow> string \<Rightarrow> json \<Rightarrow> string option
     \<Rightarrow> ws_effect \<Rightarrow> ws_effect" where
  "handle_publish env tenant ctx policy rc room payload client_ref e =
     (case check_publish_allowed ctx policy of
        DenyUser \<Rightarrow>
          send_error env client_ref WS_PUBLISH_USER_DENIED
            ''user tokens cannot publish on this tenant; admin must enable `allow_user_publish`'' (Some room) e
      | DenyAnon \<Rightarrow>
          send_error env client_ref WS_PUBLISH_ANON_DENIED
            ''anon tokens cannot publish on this tenant; admin must enable `allow_anon_publish`'' (Some room) e
      | Allow \<Rightarrow>
          let byte_count = length (to_json env payload) in
          case publish_into_bus (to_json env) (cfg env) rc (e_bus e) (e_bucket e) tenant room payload (now_ms env) (ts_ms env) of
            (Inr n, bucket', sent) \<Rightarrow>
              send_ack env client_ref ''publish'' (Some room) (Some n)
                (e\<lparr> e_bucket := bucket', e_sent := sent,
                    e_audit := e_audit e @
                      [PublishAudit tenant (token_hint ctx) room byte_count ''ws'' n (auth_admin_id ctx)] \<rparr>)
          | (Inl err, bucket', sent) \<Rightarrow>
              (let (code, msg) = ws_publish_error err
               in send_error env client_ref code msg (Some room)
                    (e\<lparr> e_bucket := bucket',
                        e_audit := e_audit e @
                          [PublishAuditFailure tenant (token_hint ctx) room byte_count ''ws'' code (auth_admin_id ctx)] \<rparr>)))"

definition handle_text_frame :: "ws_env \<Rightarrow> ws_conn \<Rightarrow> (nat \<Rightarrow> nat) \<Rightarrow> string \<Rightarrow> ws_effect \<Rightarrow> ws_effect" where
  "handle_text_frame env c rc txt e =
     (case parse_op env txt of
        None \<Rightarrow> send_error env None MALFORMED_FRAME ''frame is not valid JSON or missing required fields'' None e
      | Some (Subscribe room client_ref) \<Rightarrow> handle_subscribe env (c_tenant c) rc room client_ref e
      | Some (Unsubscribe room client_ref) \<Rightarrow>
          send_ack env client_ref ''unsubscribe'' (Some room) None
            (e\<lparr> e_streams := filter (\<lambda>(r, _). r \<noteq> room) (e_streams e) \<rparr>)
      | Some (Publish room payload client_ref) \<Rightarrow>
          handle_publish env (c_tenant c) (c_ctx c) (c_policy c) rc room payload client_ref e
      | Some (PingOp client_ref) \<Rightarrow> send_out env (Send (Pong client_ref)) e)"

section \<open>The connection loop\<close>

datatype ws_frame = FText string | FPing string | FClose | FBinary | FPong

datatype stream_item = Delivered room_message | Lagged nat

text \<open>
  The branches of the \<open>select!\<close>: the credential's expiry, the keepalive tick, an inbound frame
  (or the end of the stream, or a protocol error), an item of a subscribed room, and the end
  of a room's stream, on which the \<open>StreamMap\<close> drops the room by itself.
\<close>

datatype ws_event =
    Expiry
  | Tick
  | Inbound ws_frame
  | InboundEnd
  | InboundError
  | Fanout string stream_item
  | StreamEnd string

text \<open>Both frames of a closing handshake are sent as well as can be; the connection ends anyway.\<close>

definition close_conn :: "ws_env \<Rightarrow> string \<Rightarrow> string \<Rightarrow> string \<Rightarrow> ws_effect \<Rightarrow> ws_effect" where
  "close_conn env code msg reason e =
     e\<lparr> e_continue := False,
        e_out := e_out e @ filter (ok env) [Send (Error None code msg None), SendClose POLICY reason] \<rparr>"

definition check_epoch_evicted :: "ws_env \<Rightarrow> ws_conn \<Rightarrow> ws_effect \<Rightarrow> (ws_effect \<Rightarrow> ws_effect) \<Rightarrow> ws_effect" where
  "check_epoch_evicted env c e k =
     (if epoch_load (e_bus e) (c_epoch c) = c_epoch0 c then k e
      else close_conn env CONN_EVICTED ''connection evicted; reconnect and re-authenticate'' ''evicted'' e)"

definition stop :: "ws_effect \<Rightarrow> ws_effect" where
  "stop e = e\<lparr> e_continue := False \<rparr>"

definition dispatch_frame :: "ws_env \<Rightarrow> ws_conn \<Rightarrow> (nat \<Rightarrow> nat) \<Rightarrow> ws_frame \<Rightarrow> ws_effect \<Rightarrow> ws_effect" where
  "dispatch_frame env c rc frame e =
     (case frame of
        FText txt \<Rightarrow> handle_text_frame env c rc txt e
      | FPing p \<Rightarrow> send_out env (SendPong p) e
      | FClose \<Rightarrow> stop e
      | FBinary \<Rightarrow> e
      | FPong \<Rightarrow> e)"

definition fanout :: "ws_env \<Rightarrow> string \<Rightarrow> stream_item \<Rightarrow> ws_effect \<Rightarrow> ws_effect" where
  "fanout env room item e =
     (case item of
        Delivered m \<Rightarrow> send_out env (SendFrame (rm_frame_bytes m)) e
      | Lagged n \<Rightarrow>
          let e' = send_out env (Send (Error None LAGGED
                (''dropped '' @ nat_to_string n @ '' messages on room '' @ room @ ''; resubscribe to recover'') (Some room))) e
          in if e_continue e' then e'\<lparr> e_streams := filter (\<lambda>(r, _). r \<noteq> room) (e_streams e') \<rparr> else e')"

definition conn_event :: "ws_env \<Rightarrow> ws_conn \<Rightarrow> (nat \<Rightarrow> nat) \<Rightarrow> ws_event \<Rightarrow> room_bus \<Rightarrow> publish_bucket \<Rightarrow> ws_effect" where
  "conn_event env c rc ev bus bucket =
     (let e = effect (c_streams c) bus bucket in
      case ev of
        Expiry \<Rightarrow> close_conn env CONN_EXPIRED ''credential expired; reconnect with a newly issued token'' ''expired'' e
      | Tick \<Rightarrow> check_epoch_evicted env c e (send_out env SendPing)
      | Inbound frame \<Rightarrow> check_epoch_evicted env c e (dispatch_frame env c rc frame)
      | InboundEnd \<Rightarrow> stop e
      | InboundError \<Rightarrow> stop e
      | Fanout room item \<Rightarrow> fanout env room item e
      | StreamEnd room \<Rightarrow> e\<lparr> e_streams := filter (\<lambda>(r, _). r \<noteq> room) (e_streams e) \<rparr>)"

text \<open>The \<open>select!\<close> is biased: once the deadline has passed, no other branch runs.\<close>

definition event_enabled :: "ws_env \<Rightarrow> ws_conn \<Rightarrow> ws_event \<Rightarrow> bool" where
  "event_enabled env c ev =
     (let expired = (case c_deadline c of Some d \<Rightarrow> d \<le> now_ms env | None \<Rightarrow> False)
      in (ev = Expiry) = expired \<and>
         (case ev of
            Fanout room _ \<Rightarrow> map_of (c_streams c) room \<noteq> None
          | StreamEnd room \<Rightarrow> map_of (c_streams c) room \<noteq> None
          | _ \<Rightarrow> True))"

section \<open>The REST face\<close>

datatype rest_reply =
    Published nat
  | Refused nat string string "nat option"

fun rest_publish_error :: "publish_error \<Rightarrow> rest_reply" where
  "rest_publish_error RoomNameInvalid = Refused 400 ROOM_NAME_INVALID room_pattern_msg None"
| "rest_publish_error ProtectedRoom =
     Refused 403 PROTECTED_ROOM ''room names starting with _system_ are reserved'' None"
| "rest_publish_error PayloadTooLarge =
     Refused 413 PAYLOAD_TOO_LARGE ''payload exceeds DRUST_BROADCAST_PAYLOAD_MAX_BYTES'' None"
| "rest_publish_error (RateLimited wait) =
     (let secs = max (nat wait div 1000) 1
      in Refused 429 RATE_LIMITED (''publish QPS exhausted; retry after '' @ nat_to_string secs @ ''s'') (Some secs))"

definition publish_handler ::
  "ws_env \<Rightarrow> auth_ctx \<Rightarrow> tenant_publish_policy option \<Rightarrow> (nat \<Rightarrow> nat) \<Rightarrow> room_bus \<Rightarrow> publish_bucket \<Rightarrow> string \<Rightarrow> string
     \<Rightarrow> json \<Rightarrow> rest_reply \<times> publish_bucket \<times> (nat \<times> room_message) option \<times> audit_row list" where
  "publish_handler env ctx policy rc bus bucket tenant room payload =
     (case check_publish_allowed ctx (case policy of Some p \<Rightarrow> p | None \<Rightarrow> \<lparr> allow_user = False, allow_anon = False \<rparr>) of
        DenyUser \<Rightarrow>
          (Refused 403 ''PUBLISH_USER_DENIED''
             ''user tokens cannot publish on this tenant; admin must enable `allow_user_publish` via PATCH /admin/tenants/<id>/publish-policy''
             None, bucket, None, [])
      | DenyAnon \<Rightarrow>
          (Refused 403 ''PUBLISH_ANON_DENIED''
             ''anon tokens cannot publish on this tenant; admin must enable `allow_anon_publish` via PATCH /admin/tenants/<id>/publish-policy''
             None, bucket, None, [])
      | Allow \<Rightarrow>
          let byte_count = length (to_json env payload) in
          case publish_into_bus (to_json env) (cfg env) rc bus bucket tenant room payload (now_ms env) (ts_ms env) of
            (Inr n, bucket', sent) \<Rightarrow>
              (Published n, bucket', sent,
               [PublishAudit tenant (token_hint ctx) room byte_count ''rest'' n (auth_admin_id ctx)])
          | (Inl err, bucket', sent) \<Rightarrow>
              (rest_publish_error err, bucket', sent,
               [PublishAuditFailure tenant (token_hint ctx) room byte_count ''rest'' (fst (ws_publish_error err))
                  (auth_admin_id ctx)]))"

section \<open>The system\<close>

datatype sys_label =
    LConnect string auth_ctx tenant_publish_policy "int option"
  | LConn nat ws_event ws_effect
  | LRest string string rest_reply
  | LBus bus_op

fun label_evictions :: "sys_label \<Rightarrow> string \<Rightarrow> nat" where
  "label_evictions (LBus o') t = bumps o' t"
| "label_evictions _ t = 0"

definition update_conn :: "ws_conn \<Rightarrow> ws_effect \<Rightarrow> ws_conn list \<Rightarrow> ws_conn list" where
  "update_conn c e conns =
     (if e_continue e then map (\<lambda>k. if c_id k = c_id c then k\<lparr> c_streams := e_streams e \<rparr> else k) conns
      else filter (\<lambda>k. c_id k \<noteq> c_id c) conns)"

definition new_conn ::
  "rooms_sys \<Rightarrow> string \<Rightarrow> auth_ctx \<Rightarrow> tenant_publish_policy \<Rightarrow> int option \<Rightarrow> rooms_sys" where
  "new_conn s tenant ctx policy deadline =
     (let (bus', h) = tenant_epoch_handle (s_bus s) tenant
      in s\<lparr> s_bus := bus', s_next_id := Suc (s_next_id s),
            s_conns := s_conns s @
              [\<lparr> c_id = s_next_id s, c_tenant = tenant, c_ctx = ctx, c_policy = policy, c_epoch = h,
                 c_epoch0 = epoch_load bus' h, c_deadline = deadline, c_streams = [] \<rparr>] \<rparr>)"

text \<open>
  The baseline is captured when the request is admitted (\<open>ws_baseline_capture\<close>), which is the
  connect step; the socket's own branches come later, interleaved with everything else.
\<close>

inductive sys_step :: "rooms_config \<Rightarrow> rooms_sys \<Rightarrow> sys_label \<Rightarrow> rooms_sys \<Rightarrow> bool" for config where
  connect: "sys_step config s (LConnect tenant ctx policy deadline) (new_conn s tenant ctx policy deadline)"
| conn: "sys_step config s (LConn (c_id c) ev e)
     (s\<lparr> s_bus := e_bus e, s_bucket := e_bucket e, s_conns := update_conn c e (s_conns s) \<rparr>)"
  if "c \<in> set (s_conns s)" "cfg env = config" "event_enabled env c ev"
    "e = conn_event env c (receiver_count (s_conns s)) ev (s_bus s) (s_bucket s)"
| rest: "sys_step config s (LRest tenant room reply) (s\<lparr> s_bucket := bucket' \<rparr>)"
  if "cfg env = config"
    "publish_handler env ctx policy (receiver_count (s_conns s)) (s_bus s) (s_bucket s) tenant room payload =
       (reply, bucket', sent, audit)"
| evict_tenant: "sys_step config s (LBus (OEvictTenant tenant)) (s\<lparr> s_bus := evict_tenant (s_bus s) tenant \<rparr>)"
| evict_room: "sys_step config s (LBus (OEvictRoom tenant room)) (s\<lparr> s_bus := fst (evict_room (s_bus s) tenant room) \<rparr>)"
| evict_all: "sys_step config s (LBus OEvictAll) (s\<lparr> s_bus := evict_all_tenants (s_bus s) \<rparr>)"
| sweep: "sys_step config s (LBus (OSweep rc)) (s\<lparr> s_bus := fst (sweep_empty rc (s_bus s)) \<rparr>)"
  if "rc = receiver_count (s_conns s)"

inductive sys_steps :: "rooms_config \<Rightarrow> rooms_sys \<Rightarrow> sys_label list \<Rightarrow> rooms_sys \<Rightarrow> bool" for config where
  refl: "sys_steps config s [] s"
| step: "sys_steps config s (ls @ [l]) s''" if "sys_steps config s ls s'" "sys_step config s' l s''"

definition sys_init :: "rooms_config \<Rightarrow> rooms_sys" where
  "sys_init config = \<lparr> s_bus = bus_new, s_bucket = bucket_new (publish_qps config), s_conns = [], s_next_id = 0 \<rparr>"

inductive_cases conn_stepE: "sys_step config s (LConn i ev e) s'"
inductive_cases connect_stepE: "sys_step config s (LConnect tenant ctx policy deadline) s'"
inductive_simps connect_step: "sys_step config s (LConnect tenant ctx policy deadline) s'"

section \<open>Effects of one branch\<close>

lemma send_simps [simp]:
  "e_streams (send_out env m e) = e_streams e" "e_bus (send_out env m e) = e_bus e"
  "e_bucket (send_out env m e) = e_bucket e" "e_sent (send_out env m e) = e_sent e"
  "e_streams (send_error env cr code msg room e) = e_streams e" "e_bus (send_error env cr code msg room e) = e_bus e"
  "e_bucket (send_error env cr code msg room e) = e_bucket e" "e_sent (send_error env cr code msg room e) = e_sent e"
  "e_streams (send_ack env cr op r d e) = e_streams e" "e_bus (send_ack env cr op r d e) = e_bus e"
  "e_bucket (send_ack env cr op r d e) = e_bucket e" "e_sent (send_ack env cr op r d e) = e_sent e"
  by (simp_all add: send_out_def send_error_def send_ack_def)

lemma handle_publish_streams [simp]:
  "e_streams (handle_publish env tenant ctx policy rc room payload cr e) = e_streams e"
  "e_bus (handle_publish env tenant ctx policy rc room payload cr e) = e_bus e"
  by (auto simp: handle_publish_def Let_def split: publish_gate.splits prod.splits sum.splits)

text \<open>The streams and the bus after a branch: unchanged, fewer, or one subscription more.\<close>

definition streams_step :: "ws_conn \<Rightarrow> room_bus \<Rightarrow> nat \<Rightarrow> ws_effect \<Rightarrow> bool" where
  "streams_step c bus cap e \<longleftrightarrow>
     e_bus e = bus \<and> (\<exists>P. e_streams e = filter P (c_streams c)) \<or>
     (\<exists>room. map_of (c_streams c) room = None \<and> length (c_streams c) < cap \<and>
        e_bus e = fst (subscribe bus (c_tenant c) room) \<and>
        e_streams e = c_streams c @ [(room, snd (subscribe bus (c_tenant c) room))])"

lemma streams_same: "e_bus e = bus \<Longrightarrow> e_streams e = c_streams c \<Longrightarrow> streams_step c bus cap e"
  unfolding streams_step_def by (rule disjI1) (auto intro!: exI [of _ "\<lambda>_. True"])

lemma streams_fewer: "e_bus e = bus \<Longrightarrow> e_streams e = filter P (c_streams c) \<Longrightarrow> streams_step c bus cap e"
  unfolding streams_step_def by blast

lemma handle_subscribe_streams:
  assumes "e_bus e = bus" "e_streams e = c_streams c"
  shows "streams_step c bus (client_room_max (cfg env)) (handle_subscribe env (c_tenant c) rc room cr e)"
proof (cases "is_ok (validate_room_name room) \<and> map_of (c_streams c) room = None \<and>
    length (c_streams c) < client_room_max (cfg env) \<and>
    current_subscriber_count rc bus (c_tenant c) room < room_subscriber_max (cfg env)")
  case True
  then show ?thesis
    using assms by (auto simp: streams_step_def handle_subscribe_def is_ok_iff Let_def split: prod.splits)
next
  case False
  then show ?thesis
    using assms
    by (intro streams_same) (auto simp: handle_subscribe_def Let_def split: sum.splits prod.splits)
qed

lemma conn_event_streams:
  "streams_step c bus (client_room_max (cfg env)) (conn_event env c rc ev bus bucket)"
proof -
  let ?e = "effect (c_streams c) bus bucket"
  have e: "e_bus ?e = bus" "e_streams ?e = c_streams c" by (simp_all add: effect_def)
  have frame: "streams_step c bus (client_room_max (cfg env)) (dispatch_frame env c rc frame ?e)" for frame
  proof (cases frame)
    case (FText t)
    then show ?thesis
      using handle_subscribe_streams [OF e] e
      by (auto simp: dispatch_frame_def handle_text_frame_def split: option.splits client_op.splits
          intro: streams_same streams_fewer)
  qed (auto simp: dispatch_frame_def stop_def e intro: streams_same)
  have closed: "streams_step c bus (client_room_max (cfg env)) (close_conn env code msg reason ?e)" for code msg reason
    by (rule streams_same) (simp_all add: close_conn_def e)
  have sent: "streams_step c bus (client_room_max (cfg env)) (send_out env m ?e)" for m
    by (rule streams_same) (simp_all add: e)
  have fan: "streams_step c bus (client_room_max (cfg env)) (fanout env room item ?e)" for room item
  proof (cases item)
    case (Lagged n)
    then show ?thesis
      unfolding fanout_def Let_def by (simp add: streams_same streams_fewer e)
  qed (simp add: fanout_def sent)
  show ?thesis
  proof (cases ev)
    case (StreamEnd room)
    then show ?thesis by (intro streams_fewer) (simp_all add: conn_event_def Let_def e)
  qed (simp_all add: conn_event_def Let_def check_epoch_evicted_def closed sent frame fan stop_def streams_same e)
qed

section \<open>The invariant\<close>

text \<open>
  A connection holds its tenant's own epoch cell, and each of its streams belongs to a room of
  its tenant under the name it subscribed by.
\<close>

definition conn_ok :: "rooms_config \<Rightarrow> room_bus \<Rightarrow> ws_conn \<Rightarrow> bool" where
  "conn_ok config bus c \<longleftrightarrow>
     map_of (epochs bus) (c_tenant c) = Some (c_epoch c) \<and> distinct (map fst (c_streams c)) \<and>
     length (c_streams c) \<le> client_room_max config \<and>
     (\<forall>(room, tx) \<in> set (c_streams c). bus_channels.reserved bus (c_tenant c) room tx)"

definition sys_ok :: "rooms_config \<Rightarrow> rooms_sys \<Rightarrow> bool" where
  "sys_ok config s \<longleftrightarrow>
     bus_wf (s_bus s) \<and> distinct (map c_id (s_conns s)) \<and>
     (\<forall>c \<in> set (s_conns s). c_id c < s_next_id s \<and> conn_ok config (s_bus s) c)"

lemma conn_ok_ops: "bus_wf bus \<Longrightarrow> conn_ok config bus c \<Longrightarrow> conn_ok config (fold bus_apply ps bus) c"
  using bus_epochs.load_ops [of bus "c_tenant c" "c_epoch c" ps] bus_channels.reserved_ops [of bus "c_tenant c" _ _ ps]
  by (auto simp: conn_ok_def)

lemma conn_ok_streams:
  assumes "bus_wf bus" "conn_ok config bus c" "streams_step c bus (client_room_max config) e"
  shows "conn_ok config (e_bus e) (c\<lparr> c_streams := e_streams e \<rparr>)"
  using assms(3) unfolding streams_step_def
proof (elim disjE exE conjE)
  fix P
  assume "e_bus e = bus" "e_streams e = filter P (c_streams c)"
  then show ?thesis
    using assms(2) le_trans [OF length_filter_le [of P "c_streams c"]]
    by (auto simp: conn_ok_def intro: distinct_map_filter)
next
  fix room
  let ?bus = "fst (subscribe bus (c_tenant c) room)"
  assume a: "map_of (c_streams c) room = None" "length (c_streams c) < client_room_max config" "e_bus e = ?bus"
    "e_streams e = c_streams c @ [(room, snd (subscribe bus (c_tenant c) room))]"
  have "bus_channels.reserved ?bus (c_tenant c) room (snd (subscribe bus (c_tenant c) room))"
    by (rule bus_channels.reserved_lookup) (simp_all add: channel_of_subscribe bus_wf_subscribe [OF assms(1)])
  moreover have "conn_ok config ?bus c" using conn_ok_ops [OF assms(1,2), of "[OSubscribe (c_tenant c) room]"] by simp
  ultimately show ?thesis using a by (auto simp: conn_ok_def map_of_eq_None_iff)
qed

lemma streams_step_ops:
  "streams_step c bus cap e \<Longrightarrow> \<exists>ps. e_bus e = fold bus_apply ps bus \<and> (\<forall>t. bus_epochs.evictions_of ps t = 0)"
proof (unfold streams_step_def, elim disjE exE conjE)
  assume "e_bus e = bus"
  then show ?thesis by (intro exI [of _ "[]"]) (simp add: bus_epochs.evictions_of_def)
next
  fix room
  assume "e_bus e = fst (subscribe bus (c_tenant c) room)"
  then show ?thesis
    by (intro exI [of _ "[OSubscribe (c_tenant c) room]"]) (simp add: bus_epochs.evictions_of_def)
qed

lemma sys_step_ops:
  assumes "sys_step config s l s'"
  shows "\<exists>ps. s_bus s' = fold bus_apply ps (s_bus s) \<and> (\<forall>t. bus_epochs.evictions_of ps t = label_evictions l t)"
  using assms
proof cases
  case (connect tenant ctx policy deadline)
  then show ?thesis
    by (intro exI [of _ "[OHandle tenant]"])
       (simp add: new_conn_def Let_def bus_epochs.evictions_of_def split: prod.splits)
next
  case (conn c env ev e)
  then show ?thesis
    using streams_step_ops [OF conn_event_streams [of c "s_bus s" env "receiver_count (s_conns s)" ev "s_bucket s"]] by simp
next
  case rest
  then show ?thesis by (intro exI [of _ "[]"]) (simp add: bus_epochs.evictions_of_def)
next
  case (evict_tenant t)
  then show ?thesis by (intro exI [of _ "[OEvictTenant t]"]) (simp add: bus_epochs.evictions_of_def)
next
  case (evict_room t r)
  then show ?thesis by (intro exI [of _ "[OEvictRoom t r]"]) (simp add: bus_epochs.evictions_of_def)
next
  case evict_all
  then show ?thesis by (intro exI [of _ "[OEvictAll]"]) (simp add: bus_epochs.evictions_of_def)
next
  case (sweep rc)
  then show ?thesis by (intro exI [of _ "[OSweep rc]"]) (simp add: bus_epochs.evictions_of_def)
qed

lemma sys_ok_bus:
  assumes "sys_ok config s" "s_bus s' = fold bus_apply ps (s_bus s)" "s_conns s' = s_conns s" "s_next_id s' = s_next_id s"
  shows "sys_ok config s'"
  using assms bus_channels.wf_ops [of "s_bus s" ps] conn_ok_ops [of "s_bus s" config _ ps]
  by (auto simp: sys_ok_def)

lemma sys_ok_step:
  assumes "sys_step config s l s'" "sys_ok config s"
  shows "sys_ok config s'"
  using assms(1)
proof cases
  case (connect tenant ctx policy deadline)
  obtain bus' h where h: "tenant_epoch_handle (s_bus s) tenant = (bus', h)" by fastforce
  have wf: "bus_wf bus'" using bus_wf_handle [of "s_bus s" tenant] assms(2) h by (simp add: sys_ok_def)
  have old: "conn_ok config bus' c" if "c \<in> set (s_conns s)" for c
    using conn_ok_ops [of "s_bus s" config c "[OHandle tenant]"] that assms(2) h by (simp add: sys_ok_def)
  have "map_of (epochs bus') tenant = Some h" using handle_epochs [of "s_bus s" tenant tenant] h by simp
  with wf old assms(2) connect h show ?thesis
    by (auto simp: sys_ok_def new_conn_def conn_ok_def less_Suc_eq)
next
  case (conn c env ev e)
  let ?k = "c\<lparr> c_streams := e_streams e \<rparr>"
  have st: "streams_step c (s_bus s) (client_room_max config) e" using conn conn_event_streams by metis
  have w: "bus_wf (s_bus s)" "conn_ok config (s_bus s) c" using assms(2) conn by (auto simp: sys_ok_def)
  obtain ps where ps: "e_bus e = fold bus_apply ps (s_bus s)" using streams_step_ops [OF st] by blast
  have same: "k = c" if "k \<in> set (s_conns s)" "c_id k = c_id c" for k
    using that assms(2) conn by (auto simp: sys_ok_def distinct_map inj_on_def)
  have "conn_ok config (e_bus e) k" if "k \<in> set (s_conns s)" for k
    using conn_ok_ops [OF w(1)] ps that assms(2) by (auto simp: sys_ok_def)
  moreover have ids: "map c_id (map (\<lambda>k. if c_id k = c_id c then k\<lparr> c_streams := e_streams e \<rparr> else k) xs) = map c_id xs" for xs
    by (induction xs) auto
  then have "distinct (map c_id (update_conn c e (s_conns s)))"
    using assms(2) by (simp add: sys_ok_def update_conn_def ids distinct_map_filter del: map_map)
  ultimately show ?thesis
    using conn conn_ok_streams [OF w st] same assms(2) ps bus_channels.wf_ops [OF w(1), of ps]
    by (auto simp: sys_ok_def update_conn_def split: if_splits)
qed (use sys_ok_bus [OF assms(2)] sys_step_ops [OF assms(1)] in \<open>auto\<close>)

lemma sys_ok_init: "sys_ok config (sys_init config)"
  by (simp add: sys_ok_def sys_init_def bus_wf_new)

lemma sys_ok_steps: "sys_steps config s ls s' \<Longrightarrow> sys_ok config s \<Longrightarrow> sys_ok config s'"
  by (induction rule: sys_steps.induct) (auto intro: sys_ok_step)

lemma sys_steps_ops:
  assumes "sys_steps config s ls s'"
  shows "\<exists>ps. s_bus s' = fold bus_apply ps (s_bus s) \<and>
    (\<forall>t. bus_epochs.evictions_of ps t = sum_list (map (\<lambda>l. label_evictions l t) ls))"
  using assms
proof induction
  case (refl s)
  show ?case by (intro exI [of _ "[]"]) (simp add: bus_epochs.evictions_of_def)
next
  case (step s ls s' l s'')
  then obtain ps qs where "s_bus s' = fold bus_apply ps (s_bus s)" "s_bus s'' = fold bus_apply qs (s_bus s')"
    "\<forall>t. bus_epochs.evictions_of ps t = sum_list (map (\<lambda>l. label_evictions l t) ls)"
    "\<forall>t. bus_epochs.evictions_of qs t = label_evictions l t"
    using sys_step_ops by blast
  then show ?case by (intro exI [of _ "ps @ qs"]) (simp add: bus_epochs.evictions_of_def)
qed

text \<open>A connection keeps its identity and its baseline for as long as it lives.\<close>

lemma update_conn_fixed:
  "c' \<in> set (update_conn c e conns) \<Longrightarrow>
     \<exists>k \<in> set conns. c_id c' = c_id k \<and> c_tenant c' = c_tenant k \<and> c_epoch c' = c_epoch k \<and> c_epoch0 c' = c_epoch0 k"
proof -
  assume "c' \<in> set (update_conn c e conns)"
  then obtain k where "k \<in> set conns" "c' = k \<or> c' = k\<lparr> c_streams := e_streams e \<rparr>"
    by (auto simp: update_conn_def split: if_splits)
  then show ?thesis by (intro bexI [of _ k]) auto
qed

lemma conn_fixed_step:
  assumes "sys_step config s l s'" "sys_ok config s" "c' \<in> set (s_conns s')" "c_id c' < s_next_id s"
  shows "\<exists>c \<in> set (s_conns s). c_id c' = c_id c \<and> c_tenant c' = c_tenant c \<and> c_epoch c' = c_epoch c \<and>
    c_epoch0 c' = c_epoch0 c"
  using assms
  by cases (auto simp: new_conn_def split: prod.splits dest: update_conn_fixed)

lemma next_id_step: "sys_step config s l s' \<Longrightarrow> s_next_id s \<le> s_next_id s'"
  by (induction rule: sys_step.induct) (auto simp: new_conn_def split: prod.splits)

lemma conn_fixed_steps:
  assumes "sys_steps config s ls s'" "sys_ok config s" "c' \<in> set (s_conns s')" "c_id c' < s_next_id s"
  shows "\<exists>c \<in> set (s_conns s). c_id c' = c_id c \<and> c_tenant c' = c_tenant c \<and> c_epoch c' = c_epoch c \<and>
    c_epoch0 c' = c_epoch0 c"
  using assms
proof (induction arbitrary: c')
  case (step s ls s' l s'')
  have "s_next_id s \<le> s_next_id s'" using step.hyps(1)
    by (induction) (auto dest: next_id_step)
  with step obtain c1 where "c1 \<in> set (s_conns s')" "c_id c' = c_id c1" "c_tenant c' = c_tenant c1"
    "c_epoch c' = c_epoch c1" "c_epoch0 c' = c_epoch0 c1"
    using conn_fixed_step [OF step.hyps(2) sys_ok_steps [OF step.hyps(1)]] by (metis order_less_le_trans)
  with step.IH [of c1] step.prems show ?case by auto
qed auto

lemma conn_event_evicted:
  assumes "epoch_load bus (c_epoch c) \<noteq> c_epoch0 c" "\<not> (\<exists>room. (\<exists>item. ev = Fanout room item) \<or> ev = StreamEnd room)"
  shows "\<not> e_continue (conn_event env c rc ev bus bucket)" "e_bus (conn_event env c rc ev bus bucket) = bus"
    and "e_bucket (conn_event env c rc ev bus bucket) = bucket" "e_sent (conn_event env c rc ev bus bucket) = None"
  using assms
  by (cases ev; simp add: conn_event_def Let_def check_epoch_evicted_def close_conn_def stop_def effect_def)+

lemma fanout_holder_count:
  assumes "sys_ok config s" "channel_of (s_bus s) tenant room = Some tx" "c \<in> set (s_conns s)"
  shows "length (filter (\<lambda>(_, c). c = tx) (c_streams c)) =
    (if c_tenant c = tenant \<and> map_of (c_streams c) room = Some tx then 1 else 0)"
proof -
  have ok: "conn_ok config (s_bus s) c" using assms by (simp add: sys_ok_def)
  have own: "c_tenant c = tenant \<and> r = room" if "(r, tx) \<in> set (c_streams c)" for r
    using ok that assms(2) by (auto simp: conn_ok_def bus_channels.reserved_def)
  show ?thesis
  proof (cases "c_tenant c = tenant \<and> map_of (c_streams c) room = Some tx")
    case True
    then have m: "(room, tx) \<in> set (c_streams c)" by (simp add: map_of_SomeD)
    have "filter (\<lambda>(_, c). c = tx) (c_streams c) = filter (\<lambda>x. x = (room, tx)) (c_streams c)"
      using own by (intro filter_cong) auto
    also have "length \<dots> = 1"
      using m ok by (simp add: conn_ok_def distinct_map distinct_length_filter)
    finally show ?thesis using True by simp
  next
    case False
    have "(room, tx) \<notin> set (c_streams c)"
      using False own ok by (auto simp: conn_ok_def dest: map_of_is_SomeI)
    then show ?thesis using own False by (auto simp: filter_empty_conv)
  qed
qed

lemma receiver_count_holders:
  assumes "sys_ok config s" "channel_of (s_bus s) tenant room = Some tx"
  shows "receiver_count (s_conns s) tx =
    length (filter (\<lambda>c. c_tenant c = tenant \<and> map_of (c_streams c) room = Some tx) (s_conns s))"
proof -
  have "length (filter (\<lambda>(_, c). c = tx) (concat (map c_streams cs))) =
      length (filter (\<lambda>c. c_tenant c = tenant \<and> map_of (c_streams c) room = Some tx) cs)"
    if "set cs \<subseteq> set (s_conns s)" for cs
    using that fanout_holder_count [OF assms] by (induction cs) auto
  then show ?thesis by (simp add: receiver_count_def)
qed

section \<open>Properties\<close>

text \<open>
  An evicted socket does nothing more. (A step of a connection checks the epoch and handles its event at once; an eviction
  that falls between the two, which the code accepts, is taken as coming after.) Take a connection opened at some point and any
  later history, interleaved in any way with other connections, publishes, sweeps and
  evictions, in which its tenant was evicted at least once (and fewer than $2^{64}$ times, where
  the epoch would come round). If the connection is still there, then the next inbound frame or
  keepalive tick it handles, or its expiry or disconnect, removes it, and leaves the bus, the
  publish bucket and every other connection as they were and publishes nothing.
\<close>

theorem evicted_socket_silenced:
  assumes "sys_steps config (sys_init config) ls0 s0" "sys_step config s0 (LConnect tenant ctx policy deadline) s1"
    and "sys_steps config s1 ls s2"
    and "0 < sum_list (map (\<lambda>l. label_evictions l tenant) ls)"
      "sum_list (map (\<lambda>l. label_evictions l tenant) ls) < 2 ^ 64"
    and "sys_step config s2 (LConn (s_next_id s0) ev e) s3"
    and "\<not> (\<exists>room. (\<exists>item. ev = Fanout room item) \<or> ev = StreamEnd room)"
  shows "s_conns s3 = filter (\<lambda>c. c_id c \<noteq> s_next_id s0) (s_conns s2) \<and> s_bus s3 = s_bus s2 \<and>
    s_bucket s3 = s_bucket s2 \<and> e_sent e = None"
proof -
  have ok0: "sys_ok config s0" using sys_ok_steps [OF assms(1) sys_ok_init] .
  have ok1: "sys_ok config s1" using sys_ok_step [OF assms(2) ok0] .
  have s1: "s1 = new_conn s0 tenant ctx policy deadline" using assms(2) by (simp add: connect_step)
  obtain bus1 h where h: "tenant_epoch_handle (s_bus s0) tenant = (bus1, h)" by fastforce
  have b1: "s_bus s1 = bus1" "s_next_id s1 = Suc (s_next_id s0)" using s1 h by (simp_all add: new_conn_def)
  have hh: "map_of (epochs bus1) tenant = Some h" using handle_epochs [of "s_bus s0" tenant tenant] h by simp
  obtain ps where ps: "s_bus s2 = fold bus_apply ps bus1"
    "bus_epochs.evictions_of ps tenant = sum_list (map (\<lambda>l. label_evictions l tenant) ls)"
    using sys_steps_ops [OF assms(3)] b1 by auto
  have moved: "epoch_load (s_bus s2) h \<noteq> epoch_load bus1 h"
    using bus_epochs.eviction_seen [of bus1 tenant h ps] ok1 b1 hh ps assms(4,5) by (simp add: sys_ok_def)
  from assms(6) obtain c env where c: "c \<in> set (s_conns s2)" "c_id c = s_next_id s0"
    "e = conn_event env c (receiver_count (s_conns s2)) ev (s_bus s2) (s_bucket s2)"
    "s3 = s2\<lparr> s_bus := e_bus e, s_bucket := e_bucket e, s_conns := update_conn c e (s_conns s2) \<rparr>"
    by (elim conn_stepE) auto
  obtain c1 where c1: "c1 \<in> set (s_conns s1)" "c_id c1 = s_next_id s0" "c_epoch c = c_epoch c1" "c_epoch0 c = c_epoch0 c1"
    using conn_fixed_steps [OF assms(3) ok1 c(1)] c(2) b1 by auto
  have "c_epoch c1 = h \<and> c_epoch0 c1 = epoch_load bus1 h"
    using c1(1,2) s1 h ok0 by (auto simp: new_conn_def sys_ok_def)
  with c1 moved have "epoch_load (s_bus s2) (c_epoch c) \<noteq> c_epoch0 c" by simp
  from conn_event_evicted [OF this assms(7)] c show ?thesis by (simp add: update_conn_def)
qed

text \<open>
  C15. Rooms are isolated between tenants and from one another. In every reachable state, a
  publish on a room of a tenant is received by exactly the connections of that tenant that hold
  a live subscription under that room's name, each once: no connection of another tenant, and
  none subscribed to another room, holds the channel it goes out on.
\<close>

theorem room_publish_isolated:
  assumes "sys_steps config (sys_init config) ls s" "channel_of (s_bus s) tenant room = Some tx"
  shows "publish (receiver_count (s_conns s)) (s_bus s) tenant room =
      length (filter (\<lambda>c. c_tenant c = tenant \<and> map_of (c_streams c) room = Some tx) (s_conns s)) \<and>
    (\<forall>c \<in> set (s_conns s). \<forall>r. (r, tx) \<in> set (c_streams c) \<longrightarrow> c_tenant c = tenant \<and> r = room) \<and>
    (\<forall>c \<in> set (s_conns s). length (c_streams c) \<le> client_room_max config)"
proof -
  have ok: "sys_ok config s" using sys_ok_steps [OF assms(1) sys_ok_init] .
  then have "\<forall>c \<in> set (s_conns s). \<forall>r. (r, tx) \<in> set (c_streams c) \<longrightarrow> c_tenant c = tenant \<and> r = room"
    using assms(2) by (fastforce simp: sys_ok_def conn_ok_def bus_channels.reserved_def)
  moreover have "publish (receiver_count (s_conns s)) (s_bus s) tenant room = receiver_count (s_conns s) tx"
    using assms(2) by (simp add: publish_def broadcast_send_def)
  ultimately show ?thesis
    using receiver_count_holders [OF ok assms(2)] ok by (auto simp: sys_ok_def conn_ok_def)
qed

definition example_rooms_config :: rooms_config where
  "example_rooms_config =
     \<lparr> publish_qps = 100, payload_max_bytes = 16, room_subscriber_max = 4, client_room_max = 2,
       sweeper_interval_secs = 0, keepalive_secs = 30 \<rparr>"

definition example_ws_env :: ws_env where
  "example_ws_env =
     \<lparr> parse_op = (\<lambda>s. if s = ''join'' then Some (Subscribe ''lobby'' None) else None), to_json = (\<lambda>_. ''{}''),
       cfg = example_rooms_config, ok = (\<lambda>_. True), now_ms = 0, ts_ms = 0 \<rparr>"

definition example_policy_off :: tenant_publish_policy where
  "example_policy_off = \<lparr> allow_user = False, allow_anon = False \<rparr>"

definition example_s1 :: rooms_sys where
  "example_s1 = new_conn (sys_init example_rooms_config) ''t'' Anon example_policy_off None"

definition example_event :: "rooms_sys \<Rightarrow> ws_event \<Rightarrow> ws_effect" where
  "example_event s ev =
     conn_event example_ws_env (hd (s_conns s)) (receiver_count (s_conns s)) ev (s_bus s) (s_bucket s)"

definition example_after :: "rooms_sys \<Rightarrow> ws_event \<Rightarrow> rooms_sys" where
  "example_after s ev =
     (let e = example_event s ev
      in s\<lparr> s_bus := e_bus e, s_bucket := e_bucket e, s_conns := update_conn (hd (s_conns s)) e (s_conns s) \<rparr>)"

lemma example_connect: "sys_step example_rooms_config (sys_init example_rooms_config) (LConnect ''t'' Anon example_policy_off None) example_s1"
  by (simp add: example_s1_def sys_step.connect)

lemma example_step:
  assumes "s_conns s \<noteq> []" "event_enabled example_ws_env (hd (s_conns s)) ev" "c_id (hd (s_conns s)) = i"
  shows "sys_step example_rooms_config s (LConn i ev (example_event s ev)) (example_after s ev)"
  unfolding example_after_def Let_def assms(3) [symmetric]
  by (rule sys_step.conn [of _ _ example_ws_env]) (use assms in \<open>simp_all add: example_event_def example_ws_env_def\<close>)

lemmas sys_steps_one = sys_steps.step [OF sys_steps.refl, simplified]

text \<open>Connecting, being evicted, and trying to join a room.\<close>

theorem evicted_socket_silenced_witness:
  "let s2 = example_s1\<lparr> s_bus := evict_tenant (s_bus example_s1) ''t'' \<rparr>;
       s3 = example_after s2 (Inbound (FText ''join''))
   in length (s_conns s2) = 1 \<and> s_conns s3 = [] \<and> s_bus s3 = s_bus s2"
proof -
  let ?s2 = "example_s1\<lparr> s_bus := evict_tenant (s_bus example_s1) ''t'' \<rparr>"
  let ?ev = "Inbound (FText ''join'')"
  have s2: "s_conns ?s2 \<noteq> []" "event_enabled example_ws_env (hd (s_conns ?s2)) ?ev"
    "c_id (hd (s_conns ?s2)) = s_next_id (sys_init example_rooms_config)" "map c_id (s_conns ?s2) = [0]"
    "s_next_id (sys_init example_rooms_config) = 0"
    by code_simp+
  have "sys_steps example_rooms_config example_s1 [LBus (OEvictTenant ''t'')] ?s2"
    by (intro sys_steps_one sys_step.evict_tenant)
  from evicted_socket_silenced [OF sys_steps.refl example_connect this _ _ example_step [OF s2(1-3)]]
  have "s_conns (example_after ?s2 ?ev) = filter (\<lambda>c. c_id c \<noteq> 0) (s_conns ?s2) \<and>
      s_bus (example_after ?s2 ?ev) = s_bus ?s2"
    using s2(5) by simp
  moreover have "filter (\<lambda>c. c_id c \<noteq> 0) (s_conns ?s2) = []" "length (s_conns ?s2) = 1"
    using s2(4) by (auto simp: filter_empty_conv dest: map_eq_imp_length_eq)
  ultimately show ?thesis by (simp add: Let_def)
qed

theorem room_publish_isolated_witness:
  "let s = example_after example_s1 (Inbound (FText ''join''))
   in publish (receiver_count (s_conns s)) (s_bus s) ''t'' ''lobby'' = 1"
proof -
  let ?ev = "Inbound (FText ''join'')"
  let ?s = "example_after example_s1 ?ev"
  have s1: "s_conns example_s1 \<noteq> []" "event_enabled example_ws_env (hd (s_conns example_s1)) ?ev"
    "c_id (hd (s_conns example_s1)) = 0"
    "channel_of (s_bus ?s) ''t'' ''lobby'' = Some 0"
    "length (filter (\<lambda>c. c_tenant c = ''t'' \<and> map_of (c_streams c) ''lobby'' = Some 0) (s_conns ?s)) = 1"
    by code_simp+
  have "sys_steps example_rooms_config (sys_init example_rooms_config)
      ([LConnect ''t'' Anon example_policy_off None] @ [LConn 0 ?ev (example_event example_s1 ?ev)]) ?s"
    by (rule sys_steps.step [OF sys_steps_one [OF example_connect] example_step [OF s1(1-3)]])
  from room_publish_isolated [OF this s1(4)] s1(5) show ?thesis by (simp add: Let_def)
qed

end
