(* ===== verification/Rpc_Template.thy ===== *)
theory Rpc_Template
  imports Read_Path
begin

text \<open>
  Stored calls, the pure half: the declared parameters and their coercion
  (\<open>rpc/params.rs\<close>) and the curated filter templates (\<open>rpc/query_template.rs\<close>), whose
  operands are substituted at the JSON level before the filter is parsed.
  \<open>serde_json\<close>'s text parser is a parameter of \<open>parse_template\<close>.
\<close>

section \<open>Parameters\<close>

datatype param_type = PText | PInteger | PReal | PBoolean

record param_spec =
  ps_name :: string
  ps_ty :: param_type
  ps_required :: bool
  ps_default :: "json option"

datatype param_error =
    Missing string
  | TypeMismatch string param_type string
  | Unknown string
  | BadParamsJson string

datatype bound_value = BText string | BInt int | BReal f64 | BBool bool | BNull

definition coerce :: "param_spec \<Rightarrow> json \<Rightarrow> (bound_value, param_error) result" where
  "coerce spec v =
     (let mismatch = (\<lambda>got. Inl (TypeMismatch (ps_name spec) (ps_ty spec) got)) in
      case v of
        JNull \<Rightarrow> Inr BNull
      | JString s \<Rightarrow> if ps_ty spec = PText then Inr (BText s) else mismatch ''string''
      | JNumber n \<Rightarrow>
          (case ps_ty spec of
             PInteger \<Rightarrow> (case as_i64 n of Some i \<Rightarrow> Inr (BInt i) | None \<Rightarrow> mismatch ''non-integer number'')
           | PReal \<Rightarrow> (case as_f64 n of Some f \<Rightarrow> Inr (BReal f) | None \<Rightarrow> mismatch ''non-finite number'')
           | _ \<Rightarrow> mismatch ''number'')
      | JBool b \<Rightarrow> if ps_ty spec = PBoolean then Inr (BBool b) else mismatch ''boolean''
      | JArray _ \<Rightarrow> mismatch ''array''
      | JObject _ \<Rightarrow> mismatch ''object'')"

fun to_sql :: "bound_value \<Rightarrow> sqlval" where
  "to_sql (BText s) = Text s"
| "to_sql (BInt i) = Integer i"
| "to_sql (BReal r) = Real r"
| "to_sql (BBool b) = Integer (if b then 1 else 0)"
| "to_sql BNull = Null"

text \<open>The loop over the keys of a body, and the value a declared parameter takes from it.\<close>

definition check_known_params :: "param_spec list \<Rightarrow> jmap \<Rightarrow> (unit, param_error) result" where
  "check_known_params declared body =
     try_for_each (\<lambda>(k, _). if list_ex (\<lambda>p. ps_name p = k) declared then Inr () else Inl (Unknown k)) body"

definition arg_value :: "param_spec \<Rightarrow> jmap \<Rightarrow> (json, param_error) result" where
  "arg_value spec body =
     (case map_of body (ps_name spec) of
        Some v \<Rightarrow> Inr v
      | None \<Rightarrow>
          (case (ps_required spec, ps_default spec) of
             (True, _) \<Rightarrow> Inl (Missing (ps_name spec))
           | (False, Some d) \<Rightarrow> Inr d
           | (False, None) \<Rightarrow> Inr JNull))"

fun bind_params ::
  "param_spec list \<Rightarrow> jmap \<Rightarrow> (string \<rightharpoonup> bound_value) \<Rightarrow> (string \<rightharpoonup> bound_value, param_error) result" where
  "bind_params [] body bound = Inr bound"
| "bind_params (spec # specs) body bound =
     bind_r (arg_value spec body) (\<lambda>value.
     bind_r (coerce spec value) (\<lambda>b. bind_params specs body (bound(ps_name spec \<mapsto> b))))"

definition validate_and_bind ::
  "param_spec list \<Rightarrow> jmap \<Rightarrow> (string \<rightharpoonup> bound_value, param_error) result" where
  "validate_and_bind declared body =
     bind_r (check_known_params declared body) (\<lambda>_. bind_params declared body Map.empty)"

section \<open>Templates\<close>

definition PARAM_KEY :: string where "PARAM_KEY = ''$param''"
definition AUTH_KEY :: string where "AUTH_KEY = ''$auth''"
definition AUTH_ID :: string where "AUTH_ID = ''id''"
definition MAX_TEMPLATE_BYTES :: nat where "MAX_TEMPLATE_BYTES = 64 * 1024"

record query_template =
  qt_collection :: string
  qt_filter :: "json option"
  qt_sort :: "sort_spec option"
  qt_select :: "string list option"

text \<open>The text of a \<open>BadShape\<close>, or the typed error whose rendering it is.\<close>

datatype bad_shape =
    ShapeText string
  | ShapeSerde string
  | ShapeHint
  | ShapeList list_error
  | ShapePolicy policy_error

datatype template_error =
    NotScalar string
  | UndeclaredParam string
  | UnusedParam string
  | BadAuthKey json
  | BadShape bad_shape
  | Arg param_error

definition parse_template ::
  "(string \<Rightarrow> (query_template, string) result) \<Rightarrow> string \<Rightarrow> (query_template, template_error) result" where
  "parse_template from_str query_json =
     (if length query_json > MAX_TEMPLATE_BYTES
      then Inl (BadShape (ShapeText (''template too large: '' @ nat_to_string (length query_json) @
             '' bytes (max '' @ nat_to_string MAX_TEMPLATE_BYTES @ '')'')))
      else map_err (\<lambda>e. BadShape (ShapeSerde e)) (from_str query_json))"

definition single_key :: "jmap \<Rightarrow> string \<Rightarrow> json option" where
  "single_key obj key = (if length obj = 1 then map_of obj key else None)"

fun collect_params :: "json \<Rightarrow> string list"
  and collect_params_list :: "json list \<Rightarrow> string list"
  and collect_params_map :: "jmap \<Rightarrow> string list"
where
  "collect_params (JObject obj) =
     (case single_key obj PARAM_KEY of
        Some v \<Rightarrow> (case v of JString name \<Rightarrow> [name] | _ \<Rightarrow> [])
      | None \<Rightarrow> if single_key obj AUTH_KEY \<noteq> None then [] else collect_params_map obj)"
| "collect_params (JArray items) = collect_params_list items"
| "collect_params _ = []"
| "collect_params_list [] = []"
| "collect_params_list (v # vs) = collect_params v @ collect_params_list vs"
| "collect_params_map [] = []"
| "collect_params_map ((_, v) # m) = collect_params v @ collect_params_map m"

text \<open>A \<open>BTreeSet\<close> is the sorted list of its elements.\<close>

definition referenced_params :: "json \<Rightarrow> string list" where
  "referenced_params flt = sort (remdups (collect_params flt))"

section \<open>Arguments\<close>

fun is_compound :: "json \<Rightarrow> bool" where
  "is_compound (JObject _) = True"
| "is_compound (JArray _) = True"
| "is_compound _ = False"

definition check_args :: "param_spec list \<Rightarrow> jmap \<Rightarrow> (unit, template_error) result" where
  "check_args specs args =
     bind_r (map_err Arg (check_known_params specs args)) (\<lambda>_.
     bind_r (try_for_each (\<lambda>(k, v). if is_compound v then Inl (NotScalar k) else Inr ()) args) (\<lambda>_.
     try_for_each (\<lambda>spec. map_err Arg (bind_r (arg_value spec args)
       (\<lambda>value. bind_r (coerce spec value) (\<lambda>_. Inr ())))) specs))"

definition apply_defaults :: "param_spec list \<Rightarrow> jmap \<Rightarrow> jmap" where
  "apply_defaults specs args =
     foldl (\<lambda>out spec. case ps_default spec of
         Some d \<Rightarrow> if contains_key out (ps_name spec) then out else jmap_insert (ps_name spec) d out
       | None \<Rightarrow> out) args specs"

definition resolve_args :: "param_spec list \<Rightarrow> jmap \<Rightarrow> (jmap, template_error) result" where
  "resolve_args specs args = bind_r (check_args specs args) (\<lambda>_. Inr (apply_defaults specs args))"

section \<open>Substitution\<close>

definition check_auth_operand :: "json \<Rightarrow> (unit, template_error) result" where
  "check_auth_operand key = (if as_str key = Some AUTH_ID then Inr () else Inl (BadAuthKey key))"

fun substitute :: "jmap \<Rightarrow> string option \<Rightarrow> json \<Rightarrow> (json, template_error) result"
  and substitute_list :: "jmap \<Rightarrow> string option \<Rightarrow> json list \<Rightarrow> (json list, template_error) result"
  and substitute_map :: "jmap \<Rightarrow> string option \<Rightarrow> jmap \<Rightarrow> (jmap, template_error) result"
where
  "substitute args auth_id (JObject obj) =
     (case single_key obj PARAM_KEY of
        Some v \<Rightarrow>
          (case as_str v of
             None \<Rightarrow> Inl (BadShape (ShapeText (PARAM_KEY @ '' must be a string param name'')))
           | Some name \<Rightarrow>
               (case map_of args name of
                  Some arg \<Rightarrow> if is_compound arg then Inl (NotScalar name) else Inr arg
                | None \<Rightarrow> Inr JNull))
      | None \<Rightarrow>
          (case single_key obj AUTH_KEY of
             Some key \<Rightarrow> bind_r (check_auth_operand key)
               (\<lambda>_. Inr (case auth_id of Some i \<Rightarrow> JString i | None \<Rightarrow> JNull))
           | None \<Rightarrow> bind_r (substitute_map args auth_id obj) (\<lambda>m. Inr (JObject m))))"
| "substitute args auth_id (JArray items) =
     bind_r (substitute_list args auth_id items) (\<lambda>xs. Inr (JArray xs))"
| "substitute args auth_id scalar = Inr scalar"
| "substitute_list args auth_id [] = Inr []"
| "substitute_list args auth_id (v # vs) =
     bind_r (substitute args auth_id v) (\<lambda>x. bind_r (substitute_list args auth_id vs) (\<lambda>xs. Inr (x # xs)))"
| "substitute_map args auth_id [] = Inr []"
| "substitute_map args auth_id ((k, v) # m) =
     bind_r (substitute args auth_id v) (\<lambda>x. bind_r (substitute_map args auth_id m) (\<lambda>xs. Inr ((k, x) # xs)))"

definition substitute_to_filter_ast ::
  "json \<Rightarrow> jmap \<Rightarrow> string option \<Rightarrow> (filter_ast, template_error) result" where
  "substitute_to_filter_ast node args auth_id =
     bind_r (substitute args auth_id node) (\<lambda>j.
       case ast_of_json j of Some a \<Rightarrow> Inr a | None \<Rightarrow> Inl (BadShape ShapeHint))"

fun check_auth_keys :: "json \<Rightarrow> (unit, template_error) result"
  and check_auth_keys_list :: "json list \<Rightarrow> (unit, template_error) result"
  and check_auth_keys_map :: "jmap \<Rightarrow> (unit, template_error) result"
where
  "check_auth_keys (JObject obj) =
     (case single_key obj AUTH_KEY of
        Some key \<Rightarrow> check_auth_operand key
      | None \<Rightarrow> check_auth_keys_map obj)"
| "check_auth_keys (JArray items) = check_auth_keys_list items"
| "check_auth_keys _ = Inr ()"
| "check_auth_keys_list [] = Inr ()"
| "check_auth_keys_list (v # vs) = bind_r (check_auth_keys v) (\<lambda>_. check_auth_keys_list vs)"
| "check_auth_keys_map [] = Inr ()"
| "check_auth_keys_map ((_, v) # m) = bind_r (check_auth_keys v) (\<lambda>_. check_auth_keys_map m)"

section \<open>Saving a template\<close>

fun dummy_for :: "param_type \<Rightarrow> json" where
  "dummy_for PText = JString ''x''"
| "dummy_for PInteger = JNumber (PosInt 1)"
| "dummy_for PReal = JNumber (Float 1)"
| "dummy_for PBoolean = JBool True"

definition dummies :: "param_spec list \<Rightarrow> jmap" where
  "dummies specs = foldl (\<lambda>m s. jmap_insert (ps_name s) (dummy_for (ps_ty s)) m) [] specs"

definition template_request :: "query_template \<Rightarrow> filter_ast option \<Rightarrow> u32 option \<Rightarrow> u32 option \<Rightarrow> list_request" where
  "template_request tpl flt page per_page =
     \<lparr> lr_filter = flt, lr_sort = qt_sort tpl, lr_page = page, lr_per_page = per_page, lr_select = qt_select tpl \<rparr>"

definition check_params_agree :: "query_template \<Rightarrow> param_spec list \<Rightarrow> (unit, template_error) result" where
  "check_params_agree tpl specs =
     (let referenced = (case qt_filter tpl of Some f \<Rightarrow> referenced_params f | None \<Rightarrow> []);
          declared = sort (remdups (map ps_name specs))
      in case filter (\<lambda>n. n \<notin> set declared) referenced of
           n # _ \<Rightarrow> Inl (UndeclaredParam n)
         | [] \<Rightarrow> (case filter (\<lambda>n. n \<notin> set referenced) declared of
             n # _ \<Rightarrow> Inl (UnusedParam n)
           | [] \<Rightarrow> Inr ()))"

definition check_defaults :: "param_spec list \<Rightarrow> (unit, template_error) result" where
  "check_defaults specs =
     try_for_each (\<lambda>spec. case ps_default spec of
         None \<Rightarrow> Inr ()
       | Some d \<Rightarrow> if is_compound d then Inl (NotScalar (ps_name spec))
                   else map_err Arg (bind_r (coerce spec d) (\<lambda>_. Inr ()))) specs"

definition validate_template ::
  "collection_schema \<Rightarrow> query_template \<Rightarrow> param_spec list \<Rightarrow> (unit, template_error) result" where
  "validate_template schema tpl specs =
     (if s_name schema \<noteq> qt_collection tpl
      then Inl (BadShape (ShapeText (''schema/template collection mismatch: '' @ squoted (s_name schema) @
             '' != '' @ squoted (qt_collection tpl))))
      else if is_protected_collection (qt_collection tpl)
      then Inl (BadShape (ShapeText (''collection is protected: '' @ squoted (qt_collection tpl))))
      else
        bind_r (check_params_agree tpl specs) (\<lambda>_.
        bind_r (check_defaults specs) (\<lambda>_.
        bind_r (case qt_filter tpl of Some f \<Rightarrow> check_auth_keys f | None \<Rightarrow> Inr ()) (\<lambda>_.
        bind_r (case qt_filter tpl of
                  Some f \<Rightarrow> bind_r (substitute_to_filter_ast f (dummies specs) (Some ''dummy'')) (\<lambda>a. Inr (Some a))
                | None \<Rightarrow> Inr None) (\<lambda>flt.
        bind_r (map_err (\<lambda>e. BadShape (ShapeList e))
                  (build_structured_list_sql schema (template_request tpl flt None None) None None)) (\<lambda>_.
        case flt of
          Some f \<Rightarrow> map_err (\<lambda>e. BadShape (ShapePolicy e)) (check_template_operand_classes schema f)
        | None \<Rightarrow> Inr ()))))))"

section \<open>What an argument can change\<close>

text \<open>
  \<open>shaped j j0\<close>: \<open>j\<close> and \<open>j0\<close> have the same arrays and the same objects with the same keys,
  scalars in the same places, and each scalar of \<open>j\<close> is null or of the storage class of its
  counterpart. What stands under \<open>$fts\<close> is the same in both.
\<close>

definition class_fits_json :: "json \<Rightarrow> json \<Rightarrow> bool" where
  "class_fits_json j j0 \<longleftrightarrow> literal_class j = None \<or> literal_class j = literal_class j0"

inductive shaped :: "json \<Rightarrow> json \<Rightarrow> bool" where
  scalar: "shaped j j0" if "\<not> is_compound j" "\<not> is_compound j0" "class_fits_json j j0"
| arr: "shaped (JArray xs) (JArray ys)" if "list_all2 shaped xs ys"
| obj: "shaped (JObject m) (JObject m0)"
  if "list_all2 (\<lambda>e e0. fst e = fst e0 \<and> shaped (snd e) (snd e0) \<and> (fst e = ''$fts'' \<longrightarrow> snd e = snd e0)) m m0"

inductive_cases shaped_arrE: "shaped (JArray xs) j0"
inductive_cases shaped_objE: "shaped (JObject m) j0"
inductive_cases shaped_obj2E: "shaped j (JObject m)"

abbreviation entries_shaped :: "jmap \<Rightarrow> jmap \<Rightarrow> bool" where
  "entries_shaped \<equiv> list_all2 (\<lambda>e e0. fst e = fst e0 \<and> shaped (snd e) (snd e0) \<and> (fst e = ''$fts'' \<longrightarrow> snd e = snd e0))"

text \<open>No substitution site, and none below any \<open>$fts\<close> key.\<close>

fun site_free :: "json \<Rightarrow> bool"
  and site_free_list :: "json list \<Rightarrow> bool"
  and site_free_map :: "jmap \<Rightarrow> bool"
where
  "site_free (JObject obj) =
     (single_key obj PARAM_KEY = None \<and> single_key obj AUTH_KEY = None \<and> site_free_map obj)"
| "site_free (JArray items) = site_free_list items"
| "site_free _ = True"
| "site_free_list [] = True"
| "site_free_list (v # vs) = (site_free v \<and> site_free_list vs)"
| "site_free_map [] = True"
| "site_free_map ((_, v) # m) = (site_free v \<and> site_free_map m)"

fun fts_closed :: "json \<Rightarrow> bool"
  and fts_closed_list :: "json list \<Rightarrow> bool"
  and fts_closed_map :: "jmap \<Rightarrow> bool"
where
  "fts_closed (JObject obj) = fts_closed_map obj"
| "fts_closed (JArray items) = fts_closed_list items"
| "fts_closed _ = True"
| "fts_closed_list [] = True"
| "fts_closed_list (v # vs) = (fts_closed v \<and> fts_closed_list vs)"
| "fts_closed_map [] = True"
| "fts_closed_map ((k, v) # m) =
     ((k = ''$fts'' \<longrightarrow> site_free v) \<and> fts_closed v \<and> fts_closed_map m)"

lemma site_free_substitute:
  "site_free j \<Longrightarrow> substitute args auth j = Inr j"
  "site_free_list js \<Longrightarrow> substitute_list args auth js = Inr js"
  "site_free_map m \<Longrightarrow> substitute_map args auth m = Inr m"
  by (induction j and js and m rule: site_free_site_free_list_site_free_map.induct) auto

lemma shaped_scalar_iff:
  "\<not> is_compound j \<Longrightarrow> shaped j j0 \<longleftrightarrow> \<not> is_compound j0 \<and> class_fits_json j j0"
  by (cases j) (auto intro: shaped.scalar elim: shaped.cases)

lemma substitute_shaped:
  assumes "\<And>n. n \<in> S \<Longrightarrow> \<exists>d. map_of args0 n = Some d \<and> \<not> is_compound d \<and>
      (case map_of args n of None \<Rightarrow> True | Some v \<Rightarrow> \<not> is_compound v \<and> class_fits_json v d)"
  shows "substitute args0 (Some u) j = Inr j0 \<Longrightarrow> fts_closed j \<Longrightarrow> set (collect_params j) \<subseteq> S \<Longrightarrow>
      \<exists>j'. substitute args auth j = Inr j' \<and> shaped j' j0"
    and "substitute_list args0 (Some u) js = Inr js0 \<Longrightarrow> fts_closed_list js \<Longrightarrow> set (collect_params_list js) \<subseteq> S \<Longrightarrow>
      \<exists>js'. substitute_list args auth js = Inr js' \<and> list_all2 shaped js' js0"
    and "substitute_map args0 (Some u) m = Inr m0 \<Longrightarrow> fts_closed_map m \<Longrightarrow> set (collect_params_map m) \<subseteq> S \<Longrightarrow>
      \<exists>m'. substitute_map args auth m = Inr m' \<and> entries_shaped m' m0"
proof (induction j and js and m arbitrary: j0 and js0 and m0 rule: collect_params_collect_params_list_collect_params_map.induct)
  case (1 obj)
  show ?case
  proof (cases "single_key obj PARAM_KEY")
    case (Some v)
    with 1 obtain n where n: "v = JString n" by (cases v) auto
    with 1 Some have "n \<in> S" by simp
    from assms [OF this] obtain d where "map_of args0 n = Some d" "\<not> is_compound d"
      "case map_of args n of None \<Rightarrow> True | Some v \<Rightarrow> \<not> is_compound v \<and> class_fits_json v d" by blast
    with 1 Some n show ?thesis
      by (auto simp: shaped_scalar_iff class_fits_json_def split: option.splits)
  next
    case None
    note nokey = None
    show ?thesis
    proof (cases "single_key obj AUTH_KEY")
      case (Some key)
      with 1 nokey show ?thesis
        by (auto simp: shaped_scalar_iff class_fits_json_def split: option.splits)
    next
      case None
      from 1(2) nokey None obtain m0 where m0: "substitute_map args0 (Some u) obj = Inr m0" "j0 = JObject m0" by auto
      from 1(1) [OF nokey _ m0(1)] 1(3,4) nokey None
      obtain m' where "substitute_map args auth obj = Inr m'" "entries_shaped m' m0" by auto
      with m0 nokey None show ?thesis by (auto intro: shaped.obj)
    qed
  qed
next
  case (2 items)
  then show ?case by (fastforce intro: shaped.arr)
next
  case (5 v vs)
  then show ?case by fastforce
next
  case (7 k v m)
  from 7(3) obtain x xs where x: "substitute args0 (Some u) v = Inr x" "substitute_map args0 (Some u) m = Inr xs"
    "m0 = (k, x) # xs" by auto
  from 7(1) [OF x(1)] 7(4,5) obtain x' where x': "substitute args auth v = Inr x'" "shaped x' x" by auto
  from 7(2) [OF x(2)] 7(4,5) obtain xs' where "substitute_map args auth m = Inr xs'" "entries_shaped xs' xs" by auto
  moreover have "k = ''$fts'' \<longrightarrow> x' = x" using 7(4) x(1) x'(1) by (auto simp: site_free_substitute)
  ultimately show ?case using x x' by auto
qed (auto simp: shaped_scalar_iff class_fits_json_def)

lemma entries_shaped_map_of:
  "entries_shaped m m0 \<Longrightarrow> rel_option (\<lambda>v v0. shaped v v0 \<and> (k = ''$fts'' \<longrightarrow> v = v0)) (map_of m k) (map_of m0 k)"
  by (induction rule: list_all2_induct) auto

lemma shaped_arr_iff: "shaped (JArray xs) j0 \<longleftrightarrow> (\<exists>ys. j0 = JArray ys \<and> list_all2 shaped xs ys)"
  by (auto elim: shaped_arrE intro: shaped.arr)

lemma shaped_obj_iff: "shaped (JObject m) j0 \<longleftrightarrow> (\<exists>m0. j0 = JObject m0 \<and> entries_shaped m m0)"
  by (auto elim: shaped_objE intro: shaped.obj)

lemma shaped_JArray_right: "shaped j (JArray ys) \<longleftrightarrow> (\<exists>xs. j = JArray xs \<and> list_all2 shaped xs ys)"
  by (auto elim: shaped.cases intro: shaped.arr)

text \<open>The same, one level up: on parsed filters.\<close>

inductive ast_shaped :: "filter_ast \<Rightarrow> filter_ast \<Rightarrow> bool" where
  "ast_shaped (FAnd as) (FAnd bs)" if "list_all2 ast_shaped as bs"
| "ast_shaped (FOr as) (FOr bs)" if "list_all2 ast_shaped as bs"
| "ast_shaped (FNot a) (FNot b)" if "ast_shaped a b"
| "ast_shaped (FLeaf m) (FLeaf m0)" if "entries_shaped m m0"

lemma array_entry_shaped:
  assumes "entries_shaped m m0"
  shows "(\<exists>xs ys. map_of m k = Some (JArray xs) \<and> map_of m0 k = Some (JArray ys) \<and> list_all2 shaped xs ys) \<or>
    (\<forall>xs. map_of m k \<noteq> Some (JArray xs) \<and> map_of m0 k \<noteq> Some (JArray xs))"
  using entries_shaped_map_of [OF assms, of k]
  by (cases "map_of m k"; cases "map_of m0 k") (auto simp: shaped_arr_iff shaped_JArray_right)

lemma not_compound_parse [simp]: "\<not> is_compound j \<Longrightarrow> ast_of_json j = None" "\<not> is_compound j \<Longrightarrow> as_array j = None"
  by (cases j; simp)+

lemma as_f64_not_None [simp]: "as_f64 n \<noteq> None"
  by (cases n) auto

lemma rel_or_else:
  "rel_option R a b \<Longrightarrow> rel_option R c d \<Longrightarrow> rel_option R (or_else a c) (or_else b d)"
  by (cases a; cases b) auto

lemma ast_of_json_shaped:
  "shaped j j0 \<Longrightarrow> rel_option ast_shaped (ast_of_json j) (ast_of_json j0)"
  and asts_of_json_shaped:
  "list_all2 shaped js js0 \<Longrightarrow> rel_option (list_all2 ast_shaped) (asts_of_json js) (asts_of_json js0)"
proof (induction j and js arbitrary: j0 and js0 rule: ast_of_json_asts_of_json.induct)
  case (1 m)
  then obtain m0 where m0: "j0 = JObject m0" "entries_shaped m m0" by (auto simp: shaped_obj_iff)
  have conn: "rel_option ast_shaped
      (map_option F (case map_of m k of Some (JArray xs) \<Rightarrow> asts_of_json xs | _ \<Rightarrow> None))
      (map_option F (case map_of m0 k of Some (JArray xs) \<Rightarrow> asts_of_json xs | _ \<Rightarrow> None))"
    if "\<And>as bs. list_all2 ast_shaped as bs \<Longrightarrow> ast_shaped (F as) (F bs)"
      and ih: "\<And>xs js0. map_of m k = Some (JArray xs) \<Longrightarrow> list_all2 shaped xs js0 \<Longrightarrow>
        rel_option (list_all2 ast_shaped) (asts_of_json xs) (asts_of_json js0)" for F k
    using array_entry_shaped [OF m0(2), of k]
  proof
    assume "\<exists>xs ys. map_of m k = Some (JArray xs) \<and> map_of m0 k = Some (JArray ys) \<and> list_all2 shaped xs ys"
    then obtain xs ys where "map_of m k = Some (JArray xs)" "map_of m0 k = Some (JArray ys)"
      "rel_option (list_all2 ast_shaped) (asts_of_json xs) (asts_of_json ys)" using ih by blast
    with that(1) show ?thesis by (auto simp: option.rel_map elim: option.rel_mono_strong)
  next
    assume "\<forall>xs. map_of m k \<noteq> Some (JArray xs) \<and> map_of m0 k \<noteq> Some (JArray xs)"
    then have "(case map_of m k of Some (JArray xs) \<Rightarrow> asts_of_json xs | _ \<Rightarrow> None) = None"
      "(case map_of m0 k of Some (JArray xs) \<Rightarrow> asts_of_json xs | _ \<Rightarrow> None) = None"
      by (auto split: option.splits json.splits)
    then show ?thesis by simp
  qed
  have "rel_option ast_shaped
      (case map_of m ''not'' of Some j \<Rightarrow> ast_of_json j | None \<Rightarrow> None)
      (case map_of m0 ''not'' of Some j \<Rightarrow> ast_of_json j | None \<Rightarrow> None)"
    using entries_shaped_map_of [OF m0(2), of "''not''"] "1.IH"(3)
    by (cases "map_of m ''not''"; cases "map_of m0 ''not''") auto
  then have neg: "rel_option ast_shaped
      (map_option FNot (case map_of m ''not'' of Some j \<Rightarrow> ast_of_json j | None \<Rightarrow> None))
      (map_option FNot (case map_of m0 ''not'' of Some j \<Rightarrow> ast_of_json j | None \<Rightarrow> None))"
    unfolding option.rel_map by (rule option.rel_mono_strong) (rule ast_shaped.intros)
  show ?case
    unfolding m0(1) ast_of_json.simps
    by (intro rel_or_else conn neg) (auto intro: ast_shaped.intros "1.IH" m0(2))
next
  case (4 j js)
  then obtain k ks where k: "js0 = k # ks" "shaped j k" "list_all2 shaped js ks" by (auto simp: list_all2_Cons1)
  have a: "rel_option ast_shaped (ast_of_json j) (ast_of_json k)" using 4(1) k by blast
  show ?case
  proof (cases "ast_of_json j")
    case None
    with a k show ?thesis by simp
  next
    case (Some x)
    with a obtain y where "ast_of_json k = Some y" "ast_shaped x y" by (auto simp: option_rel_Some1)
    moreover have "rel_option (list_all2 ast_shaped) (asts_of_json js) (asts_of_json ks)"
      using 4(2) [OF Some] k by blast
    ultimately show ?thesis using Some k by (auto simp: option_rel_Some1 split: option.splits)
  qed
qed (auto simp: shaped_scalar_iff shaped_arr_iff elim: shaped.cases)


text \<open>Shaped filters compile alike: same acceptance, same text, values of the same class.\<close>

definition value_class :: "sqlval \<Rightarrow> string option" where
  "value_class v = (case v of Text _ \<Rightarrow> Some ''text'' | Integer _ \<Rightarrow> Some ''num'' | Real _ \<Rightarrow> Some ''num'' | _ \<Rightarrow> None)"

definition bind_fits :: "sqlval \<Rightarrow> sqlval \<Rightarrow> bool" where
  "bind_fits v v0 \<longleftrightarrow> v = Null \<or> value_class v = value_class v0"

lemma value_class_json: "value_class (json_to_value j) = literal_class j"
  by (cases j) (auto simp: value_class_def split: option.splits)

lemma json_to_value_Null: "literal_class j = None \<longleftrightarrow> json_to_value j = Null"
  by (cases j) (auto split: option.splits)

lemma shaped_bind_fits: "shaped j j0 \<Longrightarrow> bind_fits (json_to_value j) (json_to_value j0)"
  by (induction rule: shaped.induct)
     (auto simp: bind_fits_def value_class_json class_fits_json_def json_to_value_Null)

lemma shaped_binds_fit: "list_all2 shaped xs ys \<Longrightarrow> list_all2 bind_fits (map json_to_value xs) (map json_to_value ys)"
  by (auto simp: list_all2_conv_all_nth shaped_bind_fits)

lemma shaped_compound: "shaped j j0 \<Longrightarrow> is_compound j = is_compound j0"
  by (auto elim: shaped.cases)

lemma as_array_shaped:
  "shaped j j0 \<Longrightarrow> rel_option (list_all2 shaped) (as_array j) (as_array j0)"
  by (erule shaped.cases) auto

lemma body_shaped_cases:
  assumes "shaped b b0"
  obtains (obj1) op v v0 where "b = JObject [(op, v)]" "b0 = JObject [(op, v0)]" "shaped v v0"
    | (obj) m m0 where "b = JObject m" "b0 = JObject m0" "length m \<noteq> 1" "length m0 \<noteq> 1"
    | (plain) "\<forall>m. b \<noteq> JObject m" "\<forall>m. b0 \<noteq> JObject m"
proof (cases b)
  case (JObject m)
  with assms obtain m0 where m0: "b0 = JObject m0" "entries_shaped m m0" by (auto simp: shaped_obj_iff)
  show ?thesis
  proof (cases "length m = 1")
    case True
    then obtain op v where m: "m = [(op, v)]" by (cases m) auto
    with m0 obtain v0 where "m0 = [(op, v0)]" "shaped v v0" by (auto simp: list_all2_Cons1)
    with m JObject m0 obj1 show ?thesis by blast
  qed (use JObject m0 obj in \<open>auto dest: list_all2_lengthD\<close>)
next
  case (JArray xs)
  with assms plain show ?thesis by (auto simp: shaped_arr_iff)
qed (use shaped_compound [OF assms] plain in \<open>cases b0; simp\<close>)+

lemma length_not_1: "length m \<noteq> Suc 0 \<Longrightarrow> m = [] \<or> (\<exists>x y zs. m = x # y # zs)"
  by (cases m; cases "tl m") auto

lemma leaf_shaped:
  assumes "shaped b b0"
  shows "body_ok b = body_ok b0 \<and> fst (leaf_expr fld b) = fst (leaf_expr fld b0) \<and>
    list_all2 bind_fits (snd (leaf_expr fld b)) (snd (leaf_expr fld b0))"
  using assms
proof (cases rule: body_shaped_cases)
  case (obj1 op v v0)
  then show ?thesis
    using shaped_bind_fits [OF obj1(3)] as_array_shaped [OF obj1(3)]
    by (cases "as_array v"; cases "as_array v0")
       (auto simp: body_ok_def leaf_expr_def option_rel_Some1 shaped_binds_fit shaped_bind_fits
          split: option.splits list.splits dest: list_all2_lengthD)
next
  case (obj m m0)
  then show ?thesis
    using length_not_1 [of m] length_not_1 [of m0]
    by (auto simp: body_ok_def leaf_expr_def bind_fits_def)
next
  case plain
  then show ?thesis
    using shaped_bind_fits [OF assms]
    by (cases b; cases b0) (auto simp: body_ok_def leaf_expr_def)
qed


text \<open>The leaf's single entry, if it has one.\<close>

lemma entries_shaped_single:
  assumes "entries_shaped m m0"
  obtains (one) k v v0 where "m = [(k, v)]" "m0 = [(k, v0)]" "shaped v v0" "k = ''$fts'' \<longrightarrow> v = v0"
    | (none) "length m \<noteq> Suc 0" "length m0 \<noteq> Suc 0"
proof (cases "length m = Suc 0")
  case True
  then obtain k v where "m = [(k, v)]" by (cases m) auto
  with assms one show ?thesis by (auto simp: list_all2_Cons1)
qed (use none list_all2_lengthD [OF assms] in simp)

lemma fts_expr_binds_fit: "list_all2 bind_fits (snd (fts_expr schema b)) (snd (fts_expr schema b))"
  by (simp add: bind_fits_def list_all2_same)

abbreviation compiles_alike :: "collection_schema \<Rightarrow> filter_ast \<Rightarrow> filter_ast \<Rightarrow> bool" where
  "compiles_alike schema a b \<equiv>
     accepts schema a = accepts schema b \<and> ast_height a = ast_height b \<and>
     fst (filter_expr schema a) = fst (filter_expr schema b) \<and>
     list_all2 bind_fits (snd (filter_expr schema a)) (snd (filter_expr schema b))"

lemma compiles_alike_list:
  assumes "list_all2 (compiles_alike schema) as bs"
  shows "(\<forall>a \<in> set as. accepts schema a) = (\<forall>b \<in> set bs. accepts schema b) \<and>
    map ast_height as = map ast_height bs \<and> (as = [] \<longleftrightarrow> bs = []) \<and>
    map (fst \<circ> filter_expr schema) as = map (fst \<circ> filter_expr schema) bs \<and>
    list_all2 bind_fits (concat (map (snd \<circ> filter_expr schema) as)) (concat (map (snd \<circ> filter_expr schema) bs))"
  using assms by (induction rule: list_all2_induct) (auto intro: list_all2_appendI)

lemma ast_shaped_compile: "ast_shaped a b \<Longrightarrow> compiles_alike schema a b"
proof (induction rule: ast_shaped.induct)
  case (1 as bs)
  then have "list_all2 (compiles_alike schema) as bs" by (rule list_all2_mono) blast
  from compiles_alike_list [OF this] show ?case by simp
next
  case (2 as bs)
  then have "list_all2 (compiles_alike schema) as bs" by (rule list_all2_mono) blast
  from compiles_alike_list [OF this] show ?case by simp
next
  case (4 m m0)
  from 4 show ?case
  proof (cases rule: entries_shaped_single)
    case (one k v v0)
    with leaf_shaped [OF one(3), of k] show ?thesis by (auto simp: leaf_ok_def fts_expr_binds_fit)
  next
    case none
    with length_not_1 [of m] length_not_1 [of m0] show ?thesis by (auto simp: leaf_ok_def)
  qed
qed simp

section \<open>Accepted arguments\<close>

lemma dummies_map_of:
  "n \<in> ps_name ` set specs \<Longrightarrow>
     \<exists>spec \<in> set specs. ps_name spec = n \<and> map_of (dummies specs) n = Some (dummy_for (ps_ty spec))"
  by (induction specs rule: rev_induct) (auto simp: dummies_def map_of_jmap_insert)

lemma dummy_scalar: "\<not> is_compound (dummy_for ty)"
  by (cases ty) auto

lemma coerce_fits:
  "coerce spec v = Inr b \<Longrightarrow> \<not> is_compound v \<and> class_fits_json v (dummy_for (ps_ty spec))"
  by (cases v; cases "ps_ty spec") (auto simp: coerce_def class_fits_json_def split: if_splits)

lemma apply_defaults_snoc:
  "apply_defaults (specs @ [spec]) args =
     (case ps_default spec of
        Some d \<Rightarrow> if contains_key (apply_defaults specs args) (ps_name spec) then apply_defaults specs args
                 else jmap_insert (ps_name spec) d (apply_defaults specs args)
      | None \<Rightarrow> apply_defaults specs args)"
  by (cases "ps_default spec") (simp_all add: apply_defaults_def)

lemma apply_defaults_keeps: "map_of args n = Some v \<Longrightarrow> map_of (apply_defaults specs args) n = Some v"
  by (induction specs rule: rev_induct)
     (auto simp: apply_defaults_snoc contains_key_def map_of_jmap_insert apply_defaults_def [of "[]"] split: option.splits)

lemma apply_defaults_map_of:
  "map_of (apply_defaults specs args) n = Some v \<Longrightarrow>
     map_of args n = Some v \<or>
     (map_of args n = None \<and> (\<exists>spec \<in> set specs. ps_name spec = n \<and> ps_default spec = Some v))"
proof (cases "map_of args n")
  case None
  then show "map_of (apply_defaults specs args) n = Some v \<Longrightarrow> ?thesis"
    by (induction specs rule: rev_induct)
       (auto simp: apply_defaults_snoc map_of_jmap_insert apply_defaults_def [of "[]"] split: option.splits if_splits)
qed (simp add: apply_defaults_keeps)

lemma check_args_coerced:
  "check_args specs args = Inr () \<Longrightarrow> spec \<in> set specs \<Longrightarrow>
     \<exists>v b. arg_value spec args = Inr v \<and> coerce spec v = Inr b"
  by (fastforce simp: check_args_def try_for_each_ok)

lemma resolved_arg_fits:
  assumes "resolve_args specs args = Inr r" "distinct (map ps_name specs)" "spec \<in> set specs"
    and "map_of r (ps_name spec) = Some v"
  shows "\<not> is_compound v \<and> class_fits_json v (dummy_for (ps_ty spec))"
proof -
  have r: "r = apply_defaults specs args" "check_args specs args = Inr ()"
    using assms(1) by (auto simp: resolve_args_def)
  obtain w b where w: "arg_value spec args = Inr w" "coerce spec w = Inr b"
    using check_args_coerced [OF r(2) assms(3)] by blast
  have "w = v"
    using apply_defaults_map_of [of specs args "ps_name spec" v] assms(2-4) r(1) w(1)
    by (auto simp: arg_value_def distinct_map inj_on_def split: option.splits bool.splits)
  with coerce_fits [OF w(2)] show ?thesis by simp
qed

lemma check_params_agree_subset:
  "check_params_agree tpl specs = Inr () \<Longrightarrow> qt_filter tpl = Some f \<Longrightarrow>
     set (collect_params f) \<subseteq> ps_name ` set specs"
  by (auto simp: check_params_agree_def Let_def referenced_params_def filter_empty_conv split: list.splits)

text \<open>The statement the save-time dry run compiles.\<close>

definition dry_compile ::
  "collection_schema \<Rightarrow> json \<Rightarrow> param_spec list \<Rightarrow> (string \<times> sqlval list) option" where
  "dry_compile schema f specs =
     (case substitute_to_filter_ast f (dummies specs) (Some ''dummy'') of
        Inr a \<Rightarrow> (case compile schema a of Inr r \<Rightarrow> Some r | Inl _ \<Rightarrow> None)
      | Inl _ \<Rightarrow> None)"

lemma validated_dry_run:
  assumes "validate_template schema tpl specs = Inr ()" "qt_filter tpl = Some f"
  obtains a sql binds where "substitute_to_filter_ast f (dummies specs) (Some ''dummy'') = Inr a"
    "compile schema a = Inr (sql, binds)" "check_template_operand_classes schema a = Inr ()"
    "check_params_agree tpl specs = Inr ()"
proof -
  from assms obtain a where a: "substitute_to_filter_ast f (dummies specs) (Some ''dummy'') = Inr a"
    "\<exists>x. build_structured_list_sql schema (template_request tpl (Some a) None None) None None = Inr x"
    "check_template_operand_classes schema a = Inr ()" "check_params_agree tpl specs = Inr ()"
    unfolding validate_template_def by (auto split: if_splits)
  from a(2) have "\<exists>w b. build_where_clause schema (Some a) None None = Inr (w, b)"
    unfolding build_structured_list_sql_def by (fastforce simp: template_request_def)
  then obtain sql binds where "compile schema a = Inr (sql, binds)"
    by (auto simp: build_where_clause_def split: sum.splits)
  with a that show ?thesis by blast
qed

text \<open>The filter a call substitutes has the shape of the one dry-run at save time, and so its SQL.\<close>

lemma validated_template_compiles:
  assumes "validate_template schema tpl specs = Inr ()" "qt_filter tpl = Some f" "fts_closed f"
    and "distinct (map ps_name specs)" "resolve_args specs args = Inr r"
  shows "\<exists>ast sql binds binds0. substitute_to_filter_ast f r auth_id = Inr ast \<and>
    compile schema ast = Inr (sql, binds) \<and> dry_compile schema f specs = Some (sql, binds0) \<and>
    list_all2 bind_fits binds binds0"
proof -
  obtain a0 sql binds0 where dry: "substitute_to_filter_ast f (dummies specs) (Some ''dummy'') = Inr a0"
    "compile schema a0 = Inr (sql, binds0)" "check_params_agree tpl specs = Inr ()"
    using validated_dry_run [OF assms(1,2)] by blast
  obtain j0 where j0: "substitute (dummies specs) (Some ''dummy'') f = Inr j0" "ast_of_json j0 = Some a0"
    using dry(1) by (auto simp: substitute_to_filter_ast_def split: option.splits)
  have args: "\<exists>d. map_of (dummies specs) n = Some d \<and> \<not> is_compound d \<and>
      (case map_of r n of None \<Rightarrow> True | Some v \<Rightarrow> \<not> is_compound v \<and> class_fits_json v d)"
    if n: "n \<in> ps_name ` set specs" for n
    using dummies_map_of [OF n] resolved_arg_fits [OF assms(5,4)] dummy_scalar
    by (auto split: option.splits)
  obtain j where j: "substitute r auth_id f = Inr j" "shaped j j0"
    using substitute_shaped(1) [OF args j0(1) assms(3) check_params_agree_subset [OF dry(3) assms(2)]] by blast
  obtain a where a: "ast_of_json j = Some a" "ast_shaped a a0"
    using ast_of_json_shaped [OF j(2)] j0(2) by (auto simp: option_rel_Some2)
  have "substitute_to_filter_ast f r auth_id = Inr a" using j a by (simp add: substitute_to_filter_ast_def)
  moreover have "\<exists>binds. compile schema a = Inr (sql, binds) \<and> list_all2 bind_fits binds binds0"
    using dry(2) ast_shaped_compile [OF a(2), of schema] by (auto simp: compile_Inr)
  ultimately show ?thesis using dry(1,2) by (auto simp: dry_compile_def)
qed

section \<open>Properties\<close>

text \<open>
  C33. A saved template cannot be bent by its arguments. For a template that passed save-time
  validation (its parameter names distinct, no substitution inside a full-text operand), every
  body that passes the argument check and every caller give a filter that compiles, to the very
  SQL text of the save-time dry run, whatever the arguments are; and each bound value is null or
  of the storage class of its dry-run counterpart, so the class check made at save time still
  holds at every call.
\<close>

theorem validated_template_runs:
  assumes "validate_template schema tpl specs = Inr ()" "qt_filter tpl = Some f" "fts_closed f"
    and "distinct (map ps_name specs)" "resolve_args specs args = Inr r"
  shows "\<exists>ast sql binds binds0. substitute_to_filter_ast f r auth_id = Inr ast \<and>
    compile schema ast = Inr (sql, binds) \<and> dry_compile schema f specs = Some (sql, binds0) \<and>
    list_all2 bind_fits binds binds0"
  by (rule validated_template_compiles [OF assms])

definition example_template :: query_template where
  "example_template =
     \<lparr> qt_collection = ''notes'',
       qt_filter = Some (JObject [(''and'', JArray
         [JObject [(''title'', JObject [(''like'', JObject [(''$param'', JString ''pat'')])])],
          JObject [(''views'', JObject [(''gte'', JObject [(''$param'', JString ''least'')])])],
          JObject [(''title'', JObject [(''$auth'', JString ''id'')])]])]),
       qt_sort = None, qt_select = None \<rparr>"

definition example_specs :: "param_spec list" where
  "example_specs =
     [\<lparr> ps_name = ''pat'', ps_ty = PText, ps_required = True, ps_default = None \<rparr>,
      \<lparr> ps_name = ''least'', ps_ty = PInteger, ps_required = False, ps_default = Some (JNumber (PosInt 3)) \<rparr>]"

definition example_body :: jmap where
  "example_body = [(''pat'', JString [CHR 0x27, CHR '';'', CHR ''-'', CHR ''-''])]"

lemma example_validated: "validate_template example_schema example_template example_specs = Inr ()"
  by code_simp

lemma example_resolved:
  "resolve_args example_specs example_body = Inr (example_body @ [(''least'', JNumber (PosInt 3))])"
  by code_simp


theorem validated_template_runs_witness:
  "\<exists>ast sql binds binds0.
     substitute_to_filter_ast (the (qt_filter example_template)) (example_body @ [(''least'', JNumber (PosInt 3))])
       (Some ''u1'') = Inr ast \<and>
     compile example_schema ast = Inr (sql, binds) \<and>
     dry_compile example_schema (the (qt_filter example_template)) example_specs = Some (sql, binds0) \<and>
     list_all2 bind_fits binds binds0"
proof -
  have "qt_filter example_template = Some (the (qt_filter example_template))" by (simp add: example_template_def)
  moreover have "fts_closed (the (qt_filter example_template))" by code_simp
  moreover have "distinct (map ps_name example_specs)" by (simp add: example_specs_def)
  ultimately show ?thesis
    using validated_template_runs [OF example_validated _ _ _ example_resolved] by blast
qed

text \<open>
  The two arms judge arguments alike. On a body whose values are all scalars, the check a
  template call makes accepts exactly the bodies the binding of an SQL call accepts, and refuses
  the others with the same error.
\<close>

theorem arg_checks_agree:
  assumes "list_all (\<lambda>(_, v). \<not> is_compound v) args"
  shows "check_args specs args =
    (case validate_and_bind specs args of Inr _ \<Rightarrow> Inr () | Inl e \<Rightarrow> Inl (Arg e))"
proof -
  have shape: "try_for_each (\<lambda>(k, v). if is_compound v then Inl (NotScalar k) else Inr ()) args = Inr ()"
    using assms by (auto simp: try_for_each_ok list_all_iff)
  have "try_for_each (\<lambda>spec. map_err Arg (bind_r (arg_value spec args) (\<lambda>value. bind_r (coerce spec value) (\<lambda>_. Inr ())))) specs =
      (case bind_params specs args bound of Inr _ \<Rightarrow> Inr () | Inl e \<Rightarrow> Inl (Arg e))" for bound
  proof (induction specs arbitrary: bound)
    case (Cons spec specs)
    show ?case
    proof (cases "arg_value spec args")
      case (Inr v)
      note argv = Inr
      show ?thesis
      proof (cases "coerce spec v")
        case (Inr b)
        with Cons.IH [of "bound(ps_name spec \<mapsto> b)"] argv show ?thesis by (simp add: fun_upd_def)
      qed (simp add: argv)
    qed simp
  qed simp
  with shape show ?thesis
    by (cases "check_known_params specs args") (simp_all add: check_args_def validate_and_bind_def)
qed

theorem arg_checks_agree_witness:
  "check_args example_specs [(''least'', JNumber (PosInt 4))] = Inl (Arg (Missing ''pat''))"
proof -
  have "validate_and_bind example_specs [(''least'', JNumber (PosInt 4))] = Inl (Missing ''pat'')"
    by (simp add: validate_and_bind_def check_known_params_def example_specs_def arg_value_def)
  with arg_checks_agree [of "[(''least'', JNumber (PosInt 4))]" example_specs] show ?thesis by simp
qed

text \<open>The save-time walk over \<open>$auth\<close> keys refuses nothing the dry run would accept.\<close>

lemma auth_check_redundant:
  "substitute args auth j = Inr j' \<Longrightarrow> check_auth_keys j = Inr ()"
  "substitute_list args auth js = Inr js' \<Longrightarrow> check_auth_keys_list js = Inr ()"
  "substitute_map args auth m = Inr m' \<Longrightarrow> check_auth_keys_map m = Inr ()"
proof (induction j and js and m arbitrary: j' and js' and m' rule: check_auth_keys_check_auth_keys_list_check_auth_keys_map.induct)
  case (1 obj)
  show ?case
  proof (cases "single_key obj AUTH_KEY")
    case None
    note noauth = None
    show ?thesis
    proof (cases "single_key obj PARAM_KEY")
      case (Some v)
      then obtain k where "obj = [(k, v)]" by (cases obj) (auto simp: single_key_def split: if_splits)
      with 1(2) Some noauth show ?thesis by (cases v) auto
    qed (use 1 noauth in auto)
  next
    case (Some key)
    then have "single_key obj PARAM_KEY = None"
      by (cases obj) (auto simp: single_key_def PARAM_KEY_def AUTH_KEY_def split: if_splits)
    with 1(2) Some show ?thesis by auto
  qed
qed auto

text \<open>
  A parameter in the index position of a full-text operand is not a bound value: where the
  schema has an index by the dummy's name the template is accepted, and the argument then picks
  the index that is searched.
\<close>

definition two_index_schema :: collection_schema where
  "two_index_schema = example_schema\<lparr> s_fts_indexes :=
     [\<lparr> fts_name = ''x'', fts_fields = [''title''], fts_tokenizer = ''unicode61'' \<rparr>,
      \<lparr> fts_name = ''secret'', fts_fields = [''title''], fts_tokenizer = ''unicode61'' \<rparr>] \<rparr>"

definition index_template :: json where
  "index_template = JObject [(''$fts'', JObject
     [(''index'', JObject [(''$param'', JString ''pat'')]), (''query'', JString ''a'')])]"

lemma fts_index_follows_argument:
  "validate_template two_index_schema (example_template\<lparr> qt_filter := Some index_template \<rparr>) [hd example_specs] = Inr ()"
  "\<exists>r. resolve_args [hd example_specs] [(''pat'', JString ''secret'')] = Inr r \<and>
     (case substitute_to_filter_ast index_template r None of
        Inr a \<Rightarrow> (case compile two_index_schema a of
          Inr (sql, _) \<Rightarrow> Some sql \<noteq> map_option fst (dry_compile two_index_schema index_template [hd example_specs])
        | Inl _ \<Rightarrow> False)
      | Inl _ \<Rightarrow> False)"
proof -
  show "validate_template two_index_schema (example_template\<lparr> qt_filter := Some index_template \<rparr>) [hd example_specs] = Inr ()"
    by code_simp
  have "resolve_args [hd example_specs] [(''pat'', JString ''secret'')] = Inr [(''pat'', JString ''secret'')]" by code_simp
  moreover have "case substitute_to_filter_ast index_template [(''pat'', JString ''secret'')] None of
        Inr a \<Rightarrow> (case compile two_index_schema a of
          Inr (sql, _) \<Rightarrow> Some sql \<noteq> map_option fst (dry_compile two_index_schema index_template [hd example_specs])
        | Inl _ \<Rightarrow> False)
      | Inl _ \<Rightarrow> False" by code_simp
  ultimately show "\<exists>r. resolve_args [hd example_specs] [(''pat'', JString ''secret'')] = Inr r \<and>
     (case substitute_to_filter_ast index_template r None of
        Inr a \<Rightarrow> (case compile two_index_schema a of
          Inr (sql, _) \<Rightarrow> Some sql \<noteq> map_option fst (dry_compile two_index_schema index_template [hd example_specs])
        | Inl _ \<Rightarrow> False)
      | Inl _ \<Rightarrow> False)" by blast
qed

text \<open>
  With two declarations of one name, each default is checked against its own type only: an
  omitted argument can then reach a text column as a number, which every text exceeds.
\<close>

definition twice_declared :: "param_spec list" where
  "twice_declared =
     [\<lparr> ps_name = ''p'', ps_ty = PInteger, ps_required = False, ps_default = Some (JNumber (PosInt 5)) \<rparr>,
      \<lparr> ps_name = ''p'', ps_ty = PText, ps_required = False, ps_default = None \<rparr>]"

definition twice_template :: query_template where
  "twice_template = example_template\<lparr> qt_filter :=
     Some (JObject [(''title'', JObject [(''gt'', JObject [(''$param'', JString ''p'')])])]) \<rparr>"

lemma twice_declared_escapes_class_check:
  "validate_template example_schema twice_template twice_declared = Inr ()"
  "resolve_args twice_declared [] = Inr [(''p'', JNumber (PosInt 5))]"
  by code_simp+

end
