(* ===== verification/Authorizer.thy ===== *)
theory Authorizer
  imports Schema
begin

text \<open>
  SQLite's authorizer callbacks as \<open>query/authorizer.rs\<close> installs them, with the
  classification of the search tables of \<open>storage/search_names.rs\<close>, and the statement
  splitter of \<open>rpc/exec_write.rs\<close>.

  Preparing a statement is SQLite's own work and is the parameter \<open>prep_engine\<close>: the sequence of
  authorization requests it makes for a statement, or its syntax error. A request answered with
  Deny makes the preparation fail; an ignored one does not. \<open>sqlite3_complete\<close> is part of the
  same parameter.
\<close>

section \<open>Requests and answers\<close>

datatype auth_action =
    ASelect
  | ARead string string
  | AFunction string
  | ARecursive
  | APragma string
  | AInsert string
  | AUpdate string string
  | ADelete string
  | AOther string

record auth_context =
  ac_action :: auth_action
  ac_accessor :: "string option"

datatype authorization = AuthAllow | AuthDeny | AuthIgnore

record prep_engine =
  pe_actions :: "string \<Rightarrow> (auth_context list, string) result"
  pe_complete :: "string \<Rightarrow> bool"
  pe_table_list :: "((string \<times> string) list, string) result"

definition prepare_under :: "(auth_context \<Rightarrow> authorization) \<Rightarrow> prep_engine \<Rightarrow> string \<Rightarrow> (unit, string) result" where
  "prepare_under auth sq stmt =
     bind_r (pe_actions sq stmt) (\<lambda>acts.
       if list_ex (\<lambda>a. auth a = AuthDeny) acts then Inl ''not authorized'' else Inr ())"

section \<open>Search tables\<close>

definition SEARCH_PREFIX :: string where "SEARCH_PREFIX = ''_system_search_''"

record search_tables =
  st_heads :: "string list"
  st_internals :: "string list"

text \<open>The rows of \<open>pragma_table_list\<close> under the prefix (\<open>LIKE\<close> ignores case), by their type.\<close>

definition snapshot_search_tables :: "prep_engine \<Rightarrow> (search_tables, string) result" where
  "snapshot_search_tables sq =
     bind_r (pe_table_list sq) (\<lambda>rows.
       let named = filter (\<lambda>(n, _). starts_with (to_ascii_lowercase n) SEARCH_PREFIX) rows
       in Inr \<lparr> st_heads = map fst (filter (\<lambda>(_, ty). ty = ''virtual'') named),
                st_internals = map fst (filter (\<lambda>(_, ty). ty = ''shadow'') named) \<rparr>)"

definition is_head :: "search_tables \<Rightarrow> string \<Rightarrow> bool" where
  "is_head s t = (t \<in> set (st_heads s))"

definition is_internal :: "search_tables \<Rightarrow> string \<Rightarrow> bool" where
  "is_internal s t = (t \<in> set (st_internals s))"

section \<open>The three authorizers\<close>

definition readable_pragmas :: "string list" where
  "readable_pragmas = [''table_info'', ''index_list'', ''index_info'', ''foreign_key_list'', ''table_xinfo'']"

definition unless_protected :: "string \<Rightarrow> authorization" where
  "unless_protected t = (if is_protected_collection t then AuthDeny else AuthAllow)"

definition readonly_authorizer :: "auth_context \<Rightarrow> authorization" where
  "readonly_authorizer ctx =
     (case ac_action ctx of
        ASelect \<Rightarrow> AuthAllow
      | ARead t _ \<Rightarrow> unless_protected t
      | AFunction _ \<Rightarrow> AuthAllow
      | APragma p \<Rightarrow> if p \<in> set readable_pragmas then AuthAllow else AuthIgnore
      | ARecursive \<Rightarrow> AuthAllow
      | _ \<Rightarrow> AuthDeny)"

definition search_readonly_authorizer :: "auth_context \<Rightarrow> authorization" where
  "search_readonly_authorizer ctx =
     (case ac_action ctx of
        ASelect \<Rightarrow> AuthAllow
      | ARead t _ \<Rightarrow> if starts_with t SEARCH_PREFIX then AuthAllow else unless_protected t
      | AInsert t \<Rightarrow> if starts_with t SEARCH_PREFIX then AuthAllow else AuthDeny
      | AUpdate t _ \<Rightarrow> if starts_with t SEARCH_PREFIX then AuthAllow else AuthDeny
      | ADelete t \<Rightarrow> if starts_with t SEARCH_PREFIX then AuthAllow else AuthDeny
      | AFunction _ \<Rightarrow> AuthAllow
      | APragma p \<Rightarrow> if p \<in> set readable_pragmas then AuthAllow else AuthIgnore
      | ARecursive \<Rightarrow> AuthAllow
      | AOther _ \<Rightarrow> AuthDeny)"

text \<open>The decision on an insert, update or delete of a table.\<close>

definition dml_decision :: "search_tables \<Rightarrow> string option \<Rightarrow> string \<Rightarrow> authorization" where
  "dml_decision search accessor t =
     (if is_head search t
      then (case accessor of
              Some a \<Rightarrow> if starts_with a SEARCH_PREFIX then AuthAllow else AuthDeny
            | None \<Rightarrow> AuthDeny)
      else if is_internal search t then AuthAllow
      else unless_protected t)"

definition writable_authorizer :: "search_tables \<Rightarrow> auth_context \<Rightarrow> authorization" where
  "writable_authorizer search ctx =
     (case ac_action ctx of
        ASelect \<Rightarrow> AuthAllow
      | ARead t _ \<Rightarrow> if starts_with t SEARCH_PREFIX then AuthAllow else unless_protected t
      | AFunction _ \<Rightarrow> AuthAllow
      | APragma p \<Rightarrow> if p \<in> set readable_pragmas then AuthAllow else AuthIgnore
      | ARecursive \<Rightarrow> AuthAllow
      | AInsert t \<Rightarrow> dml_decision search (ac_accessor ctx) t
      | AUpdate t _ \<Rightarrow> dml_decision search (ac_accessor ctx) t
      | ADelete t \<Rightarrow> dml_decision search (ac_accessor ctx) t
      | AOther _ \<Rightarrow> AuthDeny)"

section \<open>Splitting a body into statements\<close>

record statement_error =
  se_index :: nat
  se_message :: string
  se_authorizer_denied :: bool
  se_capture_limit_exceeded :: bool
  se_quota_exceeded :: bool

definition plain_error :: "nat \<Rightarrow> string \<Rightarrow> statement_error" where
  "plain_error i msg =
     \<lparr> se_index = i, se_message = msg, se_authorizer_denied = False, se_capture_limit_exceeded = False,
       se_quota_exceeded = False \<rparr>"

text \<open>\<open>CString::new\<close> refuses an interior NUL; the text of its error is not kept.\<close>

definition nul_error :: "nat \<Rightarrow> statement_error" where
  "nul_error i = plain_error i ''statement contains NUL byte''"

fun split_go :: "(string \<Rightarrow> bool) \<Rightarrow> string \<Rightarrow> string \<Rightarrow> string list \<Rightarrow> (string list, statement_error) result" where
  "split_go is_complete [] current out =
     (let tail = trim current in
      if tail = [] then Inr out
      else if CHR 0x00 \<in> set tail then Inl (nul_error (length out + 1))
      else if is_complete (tail @ '';'') then Inr (out @ [tail])
      else Inl (plain_error (length out + 1) (''incomplete statement at end of body: '' @ tail)))"
| "split_go is_complete (c # cs) current out =
     (let cur = current @ [c] in
      if c \<noteq> CHR '';'' then split_go is_complete cs cur out
      else if CHR 0x00 \<in> set cur then Inl (nul_error (length out + 1))
      else if is_complete cur
      then split_go is_complete cs [] (if trim cur = [] then out else out @ [trim cur])
      else split_go is_complete cs cur out)"

definition split_statements :: "(string \<Rightarrow> bool) \<Rightarrow> string \<Rightarrow> (string list, statement_error) result" where
  "split_statements is_complete sql = split_go is_complete sql [] []"

section \<open>What a body may touch\<close>

lemma prepare_under_ok:
  "prepare_under auth sq stmt = Inr () \<longleftrightarrow>
     (\<exists>acts. pe_actions sq stmt = Inr acts \<and> (\<forall>a \<in> set acts. auth a \<noteq> AuthDeny))"
  by (auto simp: prepare_under_def list_ex_iff)

text \<open>The statements are the trimmed parts of the body, in order; nothing of the body is lost.\<close>

lemma split_go_parts:
  "split_go is_complete s current out = Inr stmts \<Longrightarrow>
     \<exists>chunks. concat chunks = current @ s \<and> stmts = out @ filter (\<lambda>t. t \<noteq> []) (map trim chunks) \<and>
       (\<forall>c \<in> set (butlast chunks). is_complete c)"
proof (induction is_complete s current out rule: split_go.induct)
  case (1 is_complete current out)
  then have "stmts = out @ filter (\<lambda>t. t \<noteq> []) (map trim [current])"
    by (auto simp: Let_def split: if_splits)
  then show ?case by (intro exI [of _ "[current]"]) simp
next
  case (2 is_complete c cs current out)
  show ?case
  proof (cases "c = CHR '';'' \<and> is_complete (current @ [c])")
    case True
    with 2(4) have "split_go is_complete cs [] (if trim (current @ [c]) = [] then out else out @ [trim (current @ [c])]) = Inr stmts"
      by (auto simp: Let_def split: if_splits)
    with True 2(2) 2(4) obtain chunks where ch: "concat chunks = cs"
      "stmts = (if trim (current @ [c]) = [] then out else out @ [trim (current @ [c])]) @ filter (\<lambda>t. t \<noteq> []) (map trim chunks)"
      "\<forall>c \<in> set (butlast chunks). is_complete c"
      by (fastforce simp: Let_def split: if_splits)
    then show ?thesis
      using True by (intro exI [of _ "(current @ [c]) # chunks"]) (auto simp: Let_def)
  next
    case False
    with 2 show ?thesis by (auto simp: Let_def split: if_splits)
  qed
qed

text \<open>
  Splitting loses nothing. Whatever SQLite calls complete, the statements a body is split
  into are the trimmed pieces of the body cut into consecutive chunks, blank ones left out, and
  every chunk but the last is one SQLite calls complete.
\<close>

theorem split_statements_partition:
  assumes "split_statements is_complete sql = Inr stmts"
  shows "\<exists>chunks. concat chunks = sql \<and> stmts = filter (\<lambda>t. t \<noteq> []) (map trim chunks) \<and>
    (\<forall>c \<in> set (butlast chunks). is_complete c)"
  using split_go_parts [of is_complete sql "[]" "[]" stmts] assms by (simp add: split_statements_def)

theorem split_statements_partition_witness:
  "\<exists>chunks. concat chunks = ''a;b'' \<and> [''a;'', ''b''] = filter (\<lambda>t. t \<noteq> []) (map trim chunks) \<and>
     (\<forall>c \<in> set (butlast chunks). c \<noteq> [])"
proof -
  have "split_statements (\<lambda>s. s \<noteq> []) ''a;b'' = Inr [''a;'', ''b'']" by code_simp
  from split_statements_partition [OF this] show ?thesis .
qed

end
