(* ===== verification/Rpc_Registry.thy ===== *)
theory Rpc_Registry
  imports Rpc_Template Authorizer
begin

text \<open>
  The stored-call registry of \<open>rpc/registry.rs\<close>, the checks made when a call is saved and when a
  collection's row rules change (\<open>rpc/prepare.rs\<close>), and the faces that run them: \<open>create_rpc\<close>,
  \<open>update_rpc\<close> and \<open>delete_rpc\<close> of \<open>mcp/handler.rs\<close>, \<open>tenant/owner_field.rs\<close> and
  \<open>tenant/policy_routes.rs\<close>. The state is what these touch of a tenant's database: the rows of
  \<open>_system_rpc\<close>, and per collection the owner field, the read scope and the policies of
  \<open>_system_collection_meta\<close>. \<open>serde_json\<close>'s parsers and printers are the parameter \<open>serde\<close>.
\<close>

section \<open>Rows\<close>

datatype rpc_mode = RpcRead | RpcWrite

fun mode_as_str :: "rpc_mode \<Rightarrow> string" where
  "mode_as_str RpcRead = ''read''"
| "mode_as_str RpcWrite = ''write''"

definition mode_from_db_str :: "string \<Rightarrow> rpc_mode" where
  "mode_from_db_str s = (if s = ''write'' then RpcWrite else RpcRead)"

datatype rpc_kind = KSql | KQuery

fun kind_as_str :: "rpc_kind \<Rightarrow> string" where
  "kind_as_str KSql = ''sql''"
| "kind_as_str KQuery = ''query''"

definition kind_from_db_str :: "string \<Rightarrow> rpc_kind" where
  "kind_from_db_str s = (if s = ''query'' then KQuery else KSql)"

text \<open>A row of \<open>_system_rpc\<close>, and the value \<open>lookup\<close> builds from it.\<close>

record rpc_row =
  rr_name :: string
  rr_sql :: string
  rr_params_json :: string
  rr_description :: "string option"
  rr_anon_callable :: bool
  rr_mode :: string
  rr_kind :: string
  rr_query_json :: "string option"
  rr_anon_calls :: int
  rr_service_calls :: int
  rr_last_called_at :: "string option"
  rr_created_at :: string
  rr_updated_at :: string

record stored_rpc =
  sr_name :: string
  sr_sql :: string
  sr_params :: "param_spec list"
  sr_anon_callable :: bool
  sr_mode :: rpc_mode
  sr_kind :: rpc_kind
  sr_query_json :: "string option"

datatype registry_error =
    RegNotFound string
  | AlreadyExists string
  | BadParams string
  | KindInvalid string

record serde =
  sd_parse_params :: "string \<Rightarrow> (param_spec list, string) result"
  sd_print_params :: "param_spec list \<Rightarrow> string"
  sd_parse_template :: "string \<Rightarrow> (query_template, string) result"
  sd_print_query :: "json \<Rightarrow> string"

definition row_to_stored :: "serde \<Rightarrow> rpc_row \<Rightarrow> (stored_rpc, registry_error) result" where
  "row_to_stored sd r =
     bind_r (map_err BadParams (sd_parse_params sd (rr_params_json r))) (\<lambda>ps.
       Inr \<lparr> sr_name = rr_name r, sr_sql = rr_sql r, sr_params = ps, sr_anon_callable = rr_anon_callable r,
             sr_mode = mode_from_db_str (rr_mode r), sr_kind = kind_from_db_str (rr_kind r),
             sr_query_json = rr_query_json r \<rparr>)"

definition rpc_lookup :: "serde \<Rightarrow> rpc_row list \<Rightarrow> string \<Rightarrow> (stored_rpc option, registry_error) result" where
  "rpc_lookup sd rows name =
     (case find (\<lambda>r. rr_name r = name) rows of
        None \<Rightarrow> Inr None
      | Some r \<Rightarrow> bind_r (row_to_stored sd r) (\<lambda>s. Inr (Some s)))"

fun rows_to_stored :: "serde \<Rightarrow> rpc_row list \<Rightarrow> (stored_rpc list, registry_error) result" where
  "rows_to_stored sd [] = Inr []"
| "rows_to_stored sd (r # rs) =
     bind_r (row_to_stored sd r) (\<lambda>s. bind_r (rows_to_stored sd rs) (\<lambda>ss. Inr (s # ss)))"

definition rpc_list :: "serde \<Rightarrow> rpc_row list \<Rightarrow> (stored_rpc list, registry_error) result" where
  "rpc_list sd rows = rows_to_stored sd (sort_key rr_name rows)"

section \<open>Writing rows\<close>

record query_json_view =
  qv_after :: "string option"
  qv_set :: "string option"

definition check_kind_rules ::
  "rpc_kind \<Rightarrow> string \<Rightarrow> rpc_mode \<Rightarrow> query_json_view \<Rightarrow> (unit, registry_error) result" where
  "check_kind_rules kind sql mode qj =
     (case kind of
        KQuery \<Rightarrow>
          if qv_after qj = None then Inl (KindInvalid ''kind=query requires a query_json template'')
          else if sql \<noteq> [] then Inl (KindInvalid ''kind=query carries no sql body; its body is query_json'')
          else if mode \<noteq> RpcRead then Inl (KindInvalid ''kind=query is always mode=read'')
          else Inr ()
      | KSql \<Rightarrow>
          if qv_set qj \<noteq> None then Inl (KindInvalid ''kind=sql carries no query_json template; its body is sql'')
          else Inr ())"

fun name_kind_err :: "string \<Rightarrow> registry_error \<Rightarrow> registry_error" where
  "name_kind_err name (KindInvalid msg) = KindInvalid (''rpc '' @ squoted name @ '': '' @ msg)"
| "name_kind_err name e = e"

record rpc_create =
  rc_name :: string
  rc_sql :: string
  rc_params_json :: string
  rc_description :: "string option"
  rc_anon_callable :: bool
  rc_mode :: rpc_mode
  rc_kind :: rpc_kind
  rc_query_json :: "string option"

definition new_row :: "string \<Rightarrow> rpc_create \<Rightarrow> rpc_row" where
  "new_row now c =
     \<lparr> rr_name = rc_name c, rr_sql = rc_sql c, rr_params_json = rc_params_json c,
       rr_description = rc_description c, rr_anon_callable = rc_anon_callable c,
       rr_mode = mode_as_str (rc_mode c), rr_kind = kind_as_str (rc_kind c),
       rr_query_json = rc_query_json c, rr_anon_calls = 0, rr_service_calls = 0,
       rr_last_called_at = None, rr_created_at = now, rr_updated_at = now \<rparr>"

definition registry_create ::
  "string \<Rightarrow> rpc_create \<Rightarrow> rpc_row list \<Rightarrow> (unit, registry_error) result \<times> rpc_row list" where
  "registry_create now c rows =
     (case map_err (name_kind_err (rc_name c)) (check_kind_rules (rc_kind c) (rc_sql c) (rc_mode c)
             \<lparr> qv_after = rc_query_json c, qv_set = rc_query_json c \<rparr>) of
        Inl e \<Rightarrow> (Inl e, rows)
      | Inr _ \<Rightarrow>
          if list_ex (\<lambda>r. rr_name r = rc_name c) rows then (Inl (AlreadyExists (rc_name c)), rows)
          else (Inr (), rows @ [new_row now c]))"

record rpc_update =
  ru_sql :: "string option"
  ru_params_json :: "string option"
  ru_description :: "string option option"
  ru_anon_callable :: "bool option"
  ru_mode :: "rpc_mode option"
  ru_query_json :: "string option"

definition row_update :: "string \<Rightarrow> rpc_update \<Rightarrow> rpc_row \<Rightarrow> rpc_row" where
  "row_update now up r =
     r\<lparr> rr_sql := unwrap_or (ru_sql up) (rr_sql r),
        rr_params_json := unwrap_or (ru_params_json up) (rr_params_json r),
        rr_description := unwrap_or (ru_description up) (rr_description r),
        rr_anon_callable := unwrap_or (ru_anon_callable up) (rr_anon_callable r),
        rr_mode := (case ru_mode up of Some m \<Rightarrow> mode_as_str m | None \<Rightarrow> rr_mode r),
        rr_query_json := or_else (ru_query_json up) (rr_query_json r),
        rr_updated_at := now \<rparr>"

definition no_op :: "rpc_update \<Rightarrow> bool" where
  "no_op up \<longleftrightarrow> ru_sql up = None \<and> ru_params_json up = None \<and> ru_description up = None \<and>
     ru_anon_callable up = None \<and> ru_mode up = None \<and> ru_query_json up = None"

definition registry_update ::
  "string \<Rightarrow> string \<Rightarrow> rpc_update \<Rightarrow> rpc_row list \<Rightarrow> (unit, registry_error) result \<times> rpc_row list" where
  "registry_update now name up rows =
     (case find (\<lambda>r. rr_name r = name) rows of
        None \<Rightarrow> (Inl (RegNotFound name), rows)
      | Some stored \<Rightarrow>
          (case map_err (name_kind_err name)
                  (check_kind_rules (kind_from_db_str (rr_kind stored)) (unwrap_or (ru_sql up) (rr_sql stored))
                     (unwrap_or (ru_mode up) (mode_from_db_str (rr_mode stored)))
                     \<lparr> qv_after = or_else (ru_query_json up) (rr_query_json stored), qv_set = ru_query_json up \<rparr>) of
             Inl e \<Rightarrow> (Inl e, rows)
           | Inr _ \<Rightarrow>
               if no_op up then (Inr (), rows)
               else (Inr (), map (\<lambda>r. if rr_name r = name then row_update now up r else r) rows)))"

definition registry_delete :: "string \<Rightarrow> rpc_row list \<Rightarrow> (unit, registry_error) result \<times> rpc_row list" where
  "registry_delete name rows =
     (if list_ex (\<lambda>r. rr_name r = name) rows then (Inr (), filter (\<lambda>r. rr_name r \<noteq> name) rows)
      else (Inl (RegNotFound name), rows))"

definition count_call :: "string \<Rightarrow> token_role \<Rightarrow> rpc_row \<Rightarrow> rpc_row" where
  "count_call now role r =
     (if role = RService then r\<lparr> rr_service_calls := rr_service_calls r + 1, rr_last_called_at := Some now \<rparr>
      else r\<lparr> rr_anon_calls := rr_anon_calls r + 1, rr_last_called_at := Some now \<rparr>)"

definition registry_increment :: "string \<Rightarrow> string \<Rightarrow> token_role \<Rightarrow> rpc_row list \<Rightarrow> rpc_row list" where
  "registry_increment now name role rows = map (\<lambda>r. if rr_name r = name then count_call now role r else r) rows"

end
