(* ===== verification/Rpc_Guard.thy ===== *)
theory Rpc_Guard
  imports Rpc_Registry
begin

text \<open>
  The save-time checks of \<open>rpc/prepare.rs\<close> and the faces that run them. Stored SQL is never
  rewritten, so nothing filters its rows at call time; what keeps an anonymously callable SQL
  body away from protected rows is the agreement of these checks, whichever side changes: the
  call, or the rules of a collection it touches.
\<close>

section \<open>Checking a body\<close>

text \<open>A rejection is its text, or one of the sentences below with what it interpolates.\<close>

datatype rejection =
    RjText string
  | RjTemplate template_error
  | RjRegistry string registry_error
  | RjAnonPolicy string
  | RjAnonNoUserId string string
  | RjAnonUnbound string string
  | RjOwnerChange string string string
  | RjPolicyChange string string
  | RjGrantActive string string string
  | RjKind string
  | RjUserIdParam
  | RjProtected string
  | RjNoCollection string

definition mode_authorizer :: "search_tables \<Rightarrow> rpc_mode \<Rightarrow> auth_context \<Rightarrow> authorization" where
  "mode_authorizer search mode =
     (case mode of RpcRead \<Rightarrow> readonly_authorizer | RpcWrite \<Rightarrow> writable_authorizer search)"

definition validate_rpc_sql :: "prep_engine \<Rightarrow> string \<Rightarrow> rpc_mode \<Rightarrow> (unit, rejection) result" where
  "validate_rpc_sql sq sql mode =
     (if trim sql = [] then Inl (RjText ''rpc sql body is empty'')
      else
        bind_r (map_err (\<lambda>e. RjText (se_message e)) (split_statements (pe_complete sq) sql)) (\<lambda>stmts.
        if stmts = [] then Inl (RjText ''rpc sql body has no statements'')
        else
          bind_r (map_err (\<lambda>e. RjText (''search-table classifier probe failed: '' @ e)) (snapshot_search_tables sq)) (\<lambda>search.
          try_for_each (\<lambda>stmt. map_err RjText (prepare_under (mode_authorizer search mode) sq stmt)) stmts)))"

definition RPC_ANON_OWNER_SCOPED :: string where "RPC_ANON_OWNER_SCOPED = ''RPC_ANON_OWNER_SCOPED''"
definition RPC_KIND_INVALID :: string where "RPC_KIND_INVALID = ''RPC_KIND_INVALID''"
definition RPC_QUERY_GRANT_ACTIVE :: string where "RPC_QUERY_GRANT_ACTIVE = ''RPC_QUERY_GRANT_ACTIVE''"

text \<open>The capturing authorizer: its answer, and the tables it notes.\<close>

definition capture_table :: "string \<Rightarrow> string list" where
  "capture_table t = (if \<not> starts_with t ''sqlite_'' \<and> \<not> is_protected_collection t then [t] else [])"

definition capture_answer :: "bool \<Rightarrow> auth_context \<Rightarrow> authorization" where
  "capture_answer is_write ctx =
     (case ac_action ctx of
        ARead _ _ \<Rightarrow> AuthAllow
      | AInsert _ \<Rightarrow> if is_write then AuthAllow else AuthDeny
      | AUpdate _ _ \<Rightarrow> if is_write then AuthAllow else AuthDeny
      | ADelete _ \<Rightarrow> if is_write then AuthAllow else AuthDeny
      | ASelect \<Rightarrow> AuthAllow
      | AFunction _ \<Rightarrow> AuthAllow
      | ARecursive \<Rightarrow> AuthAllow
      | APragma p \<Rightarrow> if p \<in> set readable_pragmas then AuthAllow else AuthIgnore
      | AOther _ \<Rightarrow> AuthDeny)"

definition capture_tables :: "bool \<Rightarrow> auth_context \<Rightarrow> string list" where
  "capture_tables is_write ctx =
     (case ac_action ctx of
        ARead t _ \<Rightarrow> capture_table t
      | AInsert t \<Rightarrow> if is_write then capture_table t else []
      | AUpdate t _ \<Rightarrow> if is_write then capture_table t else []
      | ADelete t \<Rightarrow> if is_write then capture_table t else []
      | _ \<Rightarrow> [])"

fun capture_statements :: "prep_engine \<Rightarrow> bool \<Rightarrow> string list \<Rightarrow> string list \<Rightarrow> (string list, rejection) result" where
  "capture_statements sq is_write [] tables = Inr tables"
| "capture_statements sq is_write (stmt # stmts) tables =
     bind_r (map_err RjText (prepare_under (capture_answer is_write) sq stmt)) (\<lambda>_.
       capture_statements sq is_write stmts
         (tables @ concat (map (capture_tables is_write) (case pe_actions sq stmt of Inr acts \<Rightarrow> acts | Inl _ \<Rightarrow> []))))"

text \<open>A \<open>HashSet\<close> is a list here; the order in which it is walked decides only which error comes first.\<close>

definition referenced_user_tables :: "prep_engine \<Rightarrow> string \<Rightarrow> rpc_mode \<Rightarrow> (string list, rejection) result" where
  "referenced_user_tables sq sql mode =
     bind_r (map_err (\<lambda>e. RjText (se_message e)) (split_statements (pe_complete sq) sql)) (\<lambda>stmts.
       capture_statements sq (mode = RpcWrite) stmts [])"

section \<open>The owner predicate\<close>

definition word_char :: "char \<Rightarrow> bool" where
  "word_char c \<longleftrightarrow> is_ascii_alphanumeric c \<or> c = CHR ''_''"

function sql_tokens :: "string \<Rightarrow> string list" where
  "sql_tokens [] = []"
| "sql_tokens (b # s) =
     (if b = CHR ''='' then ''='' # sql_tokens s
      else if b = CHR '':'' then (b # takeWhile word_char s) # sql_tokens (dropWhile word_char s)
      else if word_char b \<or> b = CHR ''.''
      then (b # takeWhile (\<lambda>c. word_char c \<or> c = CHR ''.'') s) # sql_tokens (dropWhile (\<lambda>c. word_char c \<or> c = CHR ''.'') s)
      else sql_tokens s)"
  by pat_completeness auto
termination
  by (relation "measure length") (auto simp: le_imp_less_Suc length_dropWhile_le)

text \<open>\<open>t.rsplit('.').next()\<close>: what follows the last dot.\<close>

definition is_owner_ref :: "string \<Rightarrow> string \<Rightarrow> bool" where
  "is_owner_ref owner t \<longleftrightarrow> t = owner \<or> last (split_on (CHR ''.'') t) = owner"

fun binds_window :: "string \<Rightarrow> string list \<Rightarrow> bool" where
  "binds_window owner (a # b # c # ts) =
     (b = ''='' \<and> (is_owner_ref owner a \<and> c = '':user_id'' \<or> a = '':user_id'' \<and> is_owner_ref owner c) \<or>
      binds_window owner (b # c # ts))"
| "binds_window owner _ = False"

definition sql_binds_owner_to_user_id :: "string \<Rightarrow> string \<Rightarrow> bool" where
  "sql_binds_owner_to_user_id sql owner_col =
     binds_window (to_ascii_lowercase owner_col) (sql_tokens (to_ascii_lowercase sql))"

section \<open>The tenant's rules\<close>

record tenant_cfg =
  tc_rpcs :: "rpc_row list"
  tc_owner :: "string \<Rightarrow> string option \<times> string option"
  tc_policies :: "string \<Rightarrow> collection_policies"

definition read_owner_field :: "tenant_cfg \<Rightarrow> string \<Rightarrow> string option \<times> string option" where
  "read_owner_field db coll = tc_owner db coll"

definition set_owner_field :: "string \<Rightarrow> string option \<Rightarrow> string option \<Rightarrow> tenant_cfg \<Rightarrow> tenant_cfg" where
  "set_owner_field coll fld scope db = db\<lparr> tc_owner := (tc_owner db)(coll := (fld, scope)) \<rparr>"

definition read_policies :: "tenant_cfg \<Rightarrow> string \<Rightarrow> collection_policies" where
  "read_policies db coll = tc_policies db coll"

definition collection_has_policy :: "tenant_cfg \<Rightarrow> string \<Rightarrow> bool" where
  "collection_has_policy db coll =
     (let p = read_policies db coll
      in cp_select p \<noteq> None \<or> cp_insert p \<noteq> None \<or> cp_update p \<noteq> None \<or> cp_delete p \<noteq> None)"

fun policies_set :: "dml_verb \<Rightarrow> policy option \<Rightarrow> collection_policies \<Rightarrow> collection_policies" where
  "policies_set Select p ps = ps\<lparr> cp_select := p \<rparr>"
| "policies_set Insert p ps = ps\<lparr> cp_insert := p \<rparr>"
| "policies_set Update p ps = ps\<lparr> cp_update := p \<rparr>"
| "policies_set Delete p ps = ps\<lparr> cp_delete := p \<rparr>"

definition write_policy :: "string \<Rightarrow> dml_verb \<Rightarrow> policy option \<Rightarrow> tenant_cfg \<Rightarrow> tenant_cfg" where
  "write_policy coll op p db =
     db\<lparr> tc_policies := (tc_policies db)(coll := policies_set op p (tc_policies db coll)) \<rparr>"

section \<open>The guards\<close>

definition declares_user_id :: "param_spec list \<Rightarrow> bool" where
  "declares_user_id ps = list_ex (\<lambda>p. ps_name p = ''user_id'') ps"

definition guard_table :: "tenant_cfg \<Rightarrow> string \<Rightarrow> bool \<Rightarrow> string \<Rightarrow> (unit, rejection) result" where
  "guard_table db sql has_user_id table =
     (if collection_has_policy db table then Inl (RjAnonPolicy table)
      else case fst (read_owner_field db table) of
          None \<Rightarrow> Inr ()
        | Some owner_col \<Rightarrow>
            if \<not> has_user_id then Inl (RjAnonNoUserId table owner_col)
            else if \<not> sql_binds_owner_to_user_id sql owner_col then Inl (RjAnonUnbound table owner_col)
            else Inr ())"

definition guard_anon_owner_scoped_rpc ::
  "prep_engine \<Rightarrow> tenant_cfg \<Rightarrow> string \<Rightarrow> param_spec list \<Rightarrow> bool \<Rightarrow> rpc_mode \<Rightarrow> (unit, rejection) result" where
  "guard_anon_owner_scoped_rpc sq db sql ps anon_callable mode =
     (if \<not> anon_callable then Inr ()
      else bind_r (referenced_user_tables sq sql mode)
             (\<lambda>referenced. try_for_each (guard_table db sql (declares_user_id ps)) referenced))"

definition guard_anon_owner_scoped_rpc_update ::
  "serde \<Rightarrow> prep_engine \<Rightarrow> tenant_cfg \<Rightarrow> string \<Rightarrow> string option \<Rightarrow> param_spec list option \<Rightarrow> bool option
     \<Rightarrow> (unit, rejection) result" where
  "guard_anon_owner_scoped_rpc_update sd sq db name new_sql new_params new_anon =
     (case rpc_lookup sd (tc_rpcs db) name of
        Inl e \<Rightarrow> Inl (RjRegistry ''rpc lookup failed'' e)
      | Inr None \<Rightarrow> Inr ()
      | Inr (Some stored) \<Rightarrow>
          if sr_kind stored = KQuery then Inr ()
          else guard_anon_owner_scoped_rpc sq db (unwrap_or new_sql (sr_sql stored))
                 (unwrap_or new_params (sr_params stored)) (unwrap_or new_anon (sr_anon_callable stored))
                 (sr_mode stored))"

definition scan_rpcs ::
  "serde \<Rightarrow> tenant_cfg \<Rightarrow> (stored_rpc \<Rightarrow> (unit, rejection) result) \<Rightarrow> (unit, rejection) result" where
  "scan_rpcs sd db check =
     (case rpc_list sd (tc_rpcs db) of
        Inl e \<Rightarrow> Inl (RjRegistry ''rpc scan failed'' e)
      | Inr rpcs \<Rightarrow> try_for_each check rpcs)"

definition guard_owner_scope_change_against_anon_rpcs ::
  "serde \<Rightarrow> prep_engine \<Rightarrow> tenant_cfg \<Rightarrow> string \<Rightarrow> string \<Rightarrow> (unit, rejection) result" where
  "guard_owner_scope_change_against_anon_rpcs sd sq db coll new_owner_field =
     scan_rpcs sd db (\<lambda>rpc.
       if sr_kind rpc = KQuery \<or> \<not> sr_anon_callable rpc then Inr ()
       else bind_r (referenced_user_tables sq (sr_sql rpc) (sr_mode rpc)) (\<lambda>tables.
         if coll \<notin> set tables then Inr ()
         else if declares_user_id (sr_params rpc) \<and> sql_binds_owner_to_user_id (sr_sql rpc) new_owner_field then Inr ()
         else Inl (RjOwnerChange coll (sr_name rpc) new_owner_field)))"

definition guard_policy_change_against_anon_rpcs ::
  "serde \<Rightarrow> prep_engine \<Rightarrow> tenant_cfg \<Rightarrow> string \<Rightarrow> (unit, rejection) result" where
  "guard_policy_change_against_anon_rpcs sd sq db coll =
     scan_rpcs sd db (\<lambda>rpc.
       if sr_kind rpc = KQuery \<or> \<not> sr_anon_callable rpc then Inr ()
       else bind_r (referenced_user_tables sq (sr_sql rpc) (sr_mode rpc)) (\<lambda>tables.
         if coll \<in> set tables then Inl (RjPolicyChange coll (sr_name rpc)) else Inr ()))"

definition guard_clear_against_anon_query_rpcs ::
  "serde \<Rightarrow> tenant_cfg \<Rightarrow> string \<Rightarrow> string \<Rightarrow> (unit, rejection) result" where
  "guard_clear_against_anon_query_rpcs sd db coll what =
     scan_rpcs sd db (\<lambda>rpc.
       if sr_kind rpc \<noteq> KQuery \<or> \<not> sr_anon_callable rpc then Inr ()
       else case sr_query_json rpc of
           None \<Rightarrow> Inr ()
         | Some raw \<Rightarrow>
             (case parse_template (sd_parse_template sd) raw of
                Inl _ \<Rightarrow> Inr ()
              | Inr tpl \<Rightarrow> if qt_collection tpl = coll then Inl (RjGrantActive what coll (sr_name rpc)) else Inr ()))"

definition guard_select_policy_clear :: "serde \<Rightarrow> tenant_cfg \<Rightarrow> string \<Rightarrow> bool \<Rightarrow> (unit, rejection) result" where
  "guard_select_policy_clear sd db coll new_select_policy_present =
     (if new_select_policy_present then Inr ()
      else if cp_select (read_policies db coll) = None then Inr ()
      else guard_clear_against_anon_query_rpcs sd db coll ''the select policy'')"

definition check_new_rpc_shape :: "rpc_kind \<Rightarrow> string \<Rightarrow> rpc_mode \<Rightarrow> bool \<Rightarrow> (unit, rejection) result" where
  "check_new_rpc_shape kind sql mode has_query =
     (case kind of
        KQuery \<Rightarrow>
          if \<not> has_query then Inl (RjKind (''kind='' @ squoted ''query'' @ '' requires a `query` template object''))
          else if trim sql \<noteq> [] then Inl (RjKind (''kind='' @ squoted ''query'' @ '' carries no sql body; its body is `query`''))
          else if mode \<noteq> RpcRead then Inl (RjKind (''kind='' @ squoted ''query'' @ '' is always mode='' @ squoted ''read'' @ '' (a template only reads)''))
          else Inr ()
      | KSql \<Rightarrow> 
          if has_query then Inl (RjKind (''kind='' @ squoted ''sql'' @ '' carries no `query` template; its body is sql''))
          else Inr ())"

text \<open>\<open>schema_of\<close> is the schema cache's load of a collection.\<close>

definition validate_new_query_rpc ::
  "(string \<Rightarrow> (collection_schema option, string) result) \<Rightarrow> query_template \<Rightarrow> param_spec list \<Rightarrow> (unit, rejection) result" where
  "validate_new_query_rpc schema_of tpl specs =
     (if declares_user_id specs then Inl RjUserIdParam
      else if is_protected_collection (qt_collection tpl) then Inl (RjProtected (qt_collection tpl))
      else case schema_of (qt_collection tpl) of
          Inl e \<Rightarrow> Inl (RjText (''schema probe failed: '' @ e))
        | Inr None \<Rightarrow> Inl (RjNoCollection (qt_collection tpl))
        | Inr (Some schema) \<Rightarrow> map_err RjTemplate (validate_template schema tpl specs))"

end
