(* ===== verification/Rpc_Config.thy ===== *)
theory Rpc_Config
  imports Rpc_Guard
begin

text \<open>
  The faces that change stored calls and the row rules of collections, as operations on the
  tenant's configuration, and what holds of it after any sequence of them.
\<close>

section \<open>Saving calls\<close>

datatype face_error =
    FeInvalid rejection
  | FeRegistry registry_error
  | FeHttp nat string

definition face_reject :: "(unit, rejection) result \<Rightarrow> (unit, face_error) result" where
  "face_reject r = map_err FeInvalid r"

record create_params =
  cr_name :: string
  cr_sql :: string
  cr_params :: "param_spec list"
  cr_description :: "string option"
  cr_anon_callable :: "bool option"
  cr_mode :: "rpc_mode option"
  cr_kind :: "rpc_kind option"
  cr_query :: "json option"

record face_env =
  fe_serde :: serde
  fe_prep :: prep_engine
  fe_schema :: "string \<Rightarrow> (collection_schema option, string) result"
  fe_now :: string

definition check_new_rpc ::
  "face_env \<Rightarrow> tenant_cfg \<Rightarrow> rpc_kind \<Rightarrow> string \<Rightarrow> param_spec list \<Rightarrow> bool \<Rightarrow> rpc_mode \<Rightarrow> string option
     \<Rightarrow> (unit, rejection) result" where
  "check_new_rpc env db kind sql ps anon_callable mode query_json =
     (case kind of
        KSql \<Rightarrow> bind_r (validate_rpc_sql (fe_prep env) sql mode)
          (\<lambda>_. guard_anon_owner_scoped_rpc (fe_prep env) db sql ps anon_callable mode)
      | KQuery \<Rightarrow>
          bind_r (map_err RjTemplate (parse_template (sd_parse_template (fe_serde env)) (unwrap_or query_json [])))
            (\<lambda>tpl. validate_new_query_rpc (fe_schema env) tpl ps))"

definition create_rpc :: "face_env \<Rightarrow> create_params \<Rightarrow> tenant_cfg \<Rightarrow> (unit, face_error) result \<times> tenant_cfg" where
  "create_rpc env p db =
     (let mode = unwrap_or (cr_mode p) RpcRead; kind = unwrap_or (cr_kind p) KSql;
          anon_callable = unwrap_or (cr_anon_callable p) False;
          query_json = map_option (sd_print_query (fe_serde env)) (cr_query p);
          sql = (case kind of KQuery \<Rightarrow> [] | KSql \<Rightarrow> cr_sql p)
      in case face_reject (check_new_rpc_shape kind (cr_sql p) mode (cr_query p \<noteq> None)) of
           Inl e \<Rightarrow> (Inl e, db)
         | Inr _ \<Rightarrow>
         (case face_reject (check_new_rpc env db kind sql (cr_params p) anon_callable mode query_json) of
            Inl e \<Rightarrow> (Inl e, db)
          | Inr _ \<Rightarrow>
              (let (res, rows) = registry_create (fe_now env)
                     \<lparr> rc_name = cr_name p, rc_sql = sql, rc_params_json = sd_print_params (fe_serde env) (cr_params p),
                       rc_description = cr_description p, rc_anon_callable = anon_callable, rc_mode = mode,
                       rc_kind = kind, rc_query_json = query_json \<rparr> (tc_rpcs db)
               in (map_err FeRegistry res, db\<lparr> tc_rpcs := rows \<rparr>))))"

record update_params =
  up_name :: string
  up_sql :: "string option"
  up_params :: "param_spec list option"
  up_description :: "string option option"
  up_anon_callable :: "bool option"
  up_mode :: "rpc_mode option"
  up_query :: "json option"

text \<open>The validation an update runs, by the kind of the stored row; \<open>stored\<close> is \<open>lookup(..).ok().flatten()\<close>.\<close>

definition check_updated_rpc ::
  "face_env \<Rightarrow> update_params \<Rightarrow> stored_rpc option \<Rightarrow> string option \<Rightarrow> (unit, rejection) result" where
  "check_updated_rpc env p stored query_json =
     (case (case stored of Some s \<Rightarrow> sr_kind s | None \<Rightarrow> KSql) of
        KSql \<Rightarrow>
          (case up_sql p of
             None \<Rightarrow> Inr ()
           | Some s \<Rightarrow> validate_rpc_sql (fe_prep env) s
               (case up_mode p of Some m \<Rightarrow> m | None \<Rightarrow> (case stored of Some r \<Rightarrow> sr_mode r | None \<Rightarrow> RpcRead)))
      | KQuery \<Rightarrow>
          if query_json \<noteq> None \<or> up_params p \<noteq> None \<or> up_anon_callable p = Some True
          then bind_r (map_err RjTemplate (parse_template (sd_parse_template (fe_serde env))
                        (unwrap_or (or_else query_json (Option.bind stored sr_query_json)) [])))
                 (\<lambda>tpl. validate_new_query_rpc (fe_schema env) tpl
                    (case up_params p of Some ps \<Rightarrow> ps | None \<Rightarrow> (case stored of Some r \<Rightarrow> sr_params r | None \<Rightarrow> [])))
          else Inr ())"

definition update_rpc :: "face_env \<Rightarrow> update_params \<Rightarrow> tenant_cfg \<Rightarrow> (unit, face_error) result \<times> tenant_cfg" where
  "update_rpc env p db =
     (let sd = fe_serde env; query_json = map_option (sd_print_query sd) (up_query p);
          stored = (case rpc_lookup sd (tc_rpcs db) (up_name p) of Inr s \<Rightarrow> s | Inl _ \<Rightarrow> None)
      in case face_reject (check_updated_rpc env p stored query_json) of
           Inl e \<Rightarrow> (Inl e, db)
         | Inr _ \<Rightarrow>
         (case face_reject (guard_anon_owner_scoped_rpc_update sd (fe_prep env) db (up_name p) (up_sql p) (up_params p)
                  (up_anon_callable p)) of
            Inl e \<Rightarrow> (Inl e, db)
          | Inr _ \<Rightarrow>
              (let (res, rows) = registry_update (fe_now env) (up_name p)
                     \<lparr> ru_sql = up_sql p, ru_params_json = map_option (sd_print_params sd) (up_params p),
                       ru_description = up_description p, ru_anon_callable = up_anon_callable p,
                       ru_mode = up_mode p, ru_query_json = query_json \<rparr> (tc_rpcs db)
               in (map_err FeRegistry res, db\<lparr> tc_rpcs := rows \<rparr>))))"

definition delete_rpc :: "string \<Rightarrow> tenant_cfg \<Rightarrow> (unit, face_error) result \<times> tenant_cfg" where
  "delete_rpc name db =
     (let (res, rows) = registry_delete name (tc_rpcs db) in (map_err FeRegistry res, db\<lparr> tc_rpcs := rows \<rparr>))"

section \<open>Changing the rules of a collection\<close>

text \<open>
  The columns of a table and its foreign keys, as \<open>PRAGMA table_info\<close> and
  \<open>PRAGMA foreign_key_list\<close> list them.
\<close>

definition validate_owner_column ::
  "string list \<Rightarrow> (string \<times> string \<times> string) list \<Rightarrow> string \<Rightarrow> (unit, string) result" where
  "validate_owner_column cols fks fld =
     (if fld \<notin> set cols then Inl ''OWNER_FIELD_INVALID_COLUMN''
      else if \<not> list_ex (\<lambda>(ref_t, from_col, to_col). ref_t = ''_system_users'' \<and> from_col = fld \<and> to_col = ''id'') fks
      then Inl ''OWNER_FIELD_NOT_FK''
      else Inr ())"

definition set_owner_field_handler ::
  "face_env \<Rightarrow> auth_ctx \<Rightarrow> string list \<times> (string \<times> string \<times> string) list \<Rightarrow> string \<Rightarrow> string \<Rightarrow> string \<Rightarrow> tenant_cfg
     \<Rightarrow> (unit, face_error) result \<times> tenant_cfg" where
  "set_owner_field_handler env ctx table coll fld read_scope db =
     (if \<not> is_service ctx then (Inl (FeHttp 403 ''SERVICE_ONLY''), db)
      else if read_scope \<noteq> ''own'' \<and> read_scope \<noteq> ''all'' then (Inl (FeHttp 422 ''INVALID_READ_SCOPE''), db)
      else case validate_owner_column (fst table) (snd table) fld of
          Inl code \<Rightarrow> (Inl (FeHttp 409 code), db)
        | Inr _ \<Rightarrow>
            (case face_reject (guard_owner_scope_change_against_anon_rpcs (fe_serde env) (fe_prep env) db coll fld) of
               Inl e \<Rightarrow> (Inl e, db)
             | Inr _ \<Rightarrow> (Inr (), set_owner_field coll (Some fld) (Some read_scope) db)))"

definition clear_owner_field_handler ::
  "face_env \<Rightarrow> auth_ctx \<Rightarrow> string \<Rightarrow> tenant_cfg \<Rightarrow> (unit, face_error) result \<times> tenant_cfg" where
  "clear_owner_field_handler env ctx coll db =
     (if \<not> is_service ctx then (Inl (FeHttp 403 ''SERVICE_ONLY''), db)
      else case (if fst (read_owner_field db coll) \<noteq> None
                 then face_reject (guard_clear_against_anon_query_rpcs (fe_serde env) db coll ''owner_field'')
                 else Inr ()) of
          Inl e \<Rightarrow> (Inl e, db)
        | Inr _ \<Rightarrow> (Inr (), set_owner_field coll None None db))"

definition require_service :: "token_role \<Rightarrow> (unit, face_error) result" where
  "require_service role = (if role = RService then Inr () else Inl (FeHttp 403 ''WRITE_DENIED''))"

fun write_policies ::
  "collection_schema \<Rightarrow> string \<Rightarrow> (dml_verb \<times> policy option) list \<Rightarrow> tenant_cfg \<Rightarrow> (unit, face_error) result \<times> tenant_cfg" where
  "write_policies schema coll [] db = (Inr (), db)"
| "write_policies schema coll ((op, p) # ops) db =
     (case (case p of Some pol \<Rightarrow> is_ok (validate_policy schema op pol) | None \<Rightarrow> True) of
        False \<Rightarrow> (Inl (FeHttp 400 ''POLICY_INVALID''), db)
      | True \<Rightarrow> write_policies schema coll ops (write_policy coll op p db))"

definition put_target :: "face_env \<Rightarrow> token_role \<Rightarrow> string \<Rightarrow> (collection_schema, face_error) result" where
  "put_target env role coll =
     bind_r (require_service role) (\<lambda>_.
       if is_protected_collection coll then Inl (FeHttp 404 ''COLLECTION_NOT_FOUND'')
       else case fe_schema env coll of
           Inl _ \<Rightarrow> Inl (FeHttp 500 ''DB_ERROR'')
         | Inr None \<Rightarrow> Inl (FeHttp 404 ''COLLECTION_NOT_FOUND'')
         | Inr (Some schema) \<Rightarrow> Inr schema)"

definition attaching :: "collection_policies \<Rightarrow> bool" where
  "attaching body \<longleftrightarrow> cp_select body \<noteq> None \<or> cp_insert body \<noteq> None \<or> cp_update body \<noteq> None \<or> cp_delete body \<noteq> None"

definition put_checks ::
  "face_env \<Rightarrow> collection_schema \<Rightarrow> string \<Rightarrow> collection_policies \<Rightarrow> tenant_cfg \<Rightarrow> (unit, face_error) result" where
  "put_checks env schema coll body db =
     bind_r (if attaching body
             then face_reject (guard_policy_change_against_anon_rpcs (fe_serde env) (fe_prep env) db coll)
             else Inr ()) (\<lambda>_.
     bind_r (case cp_select body of
               Some p \<Rightarrow> if is_ok (validate_policy schema Select p) then Inr () else Inl (FeHttp 400 ''POLICY_INVALID'')
             | None \<Rightarrow> Inr ()) (\<lambda>_.
     face_reject (guard_select_policy_clear (fe_serde env) db coll (cp_select body \<noteq> None))))"

definition put_list :: "collection_policies \<Rightarrow> (dml_verb \<times> policy option) list" where
  "put_list body = [(Select, cp_select body), (Insert, cp_insert body), (Update, cp_update body), (Delete, cp_delete body)]"

definition put_policies ::
  "face_env \<Rightarrow> token_role \<Rightarrow> string \<Rightarrow> collection_policies \<Rightarrow> tenant_cfg \<Rightarrow> (unit, face_error) result \<times> tenant_cfg" where
  "put_policies env role coll body db =
     (case bind_r (put_target env role coll) (\<lambda>schema.
             bind_r (put_checks env schema coll body db) (\<lambda>_. Inr schema)) of
        Inl e \<Rightarrow> (Inl e, db)
      | Inr schema \<Rightarrow> write_policies schema coll (put_list body) db)"

definition delete_policy ::
  "face_env \<Rightarrow> token_role \<Rightarrow> string \<Rightarrow> dml_verb \<Rightarrow> tenant_cfg \<Rightarrow> (unit, face_error) result \<times> tenant_cfg" where
  "delete_policy env role coll verb db =
     (case require_service role of
        Inl e \<Rightarrow> (Inl e, db)
      | Inr _ \<Rightarrow>
          (case (if verb = Select then face_reject (guard_select_policy_clear (fe_serde env) db coll False) else Inr ()) of
             Inl e \<Rightarrow> (Inl e, db)
           | Inr _ \<Rightarrow> (Inr (), write_policy coll verb None db)))"

section \<open>Sequences of operations\<close>

datatype cfg_op =
    OCreate create_params
  | OUpdate update_params
  | ODelete string
  | OCalled string token_role
  | OSetOwner auth_ctx "string list \<times> (string \<times> string \<times> string) list" string string string
  | OClearOwner auth_ctx string
  | OPutPolicies token_role string collection_policies
  | ODeletePolicy token_role string dml_verb

fun cfg_apply :: "face_env \<Rightarrow> cfg_op \<Rightarrow> tenant_cfg \<Rightarrow> (unit, face_error) result \<times> tenant_cfg" where
  "cfg_apply env (OCreate p) db = create_rpc env p db"
| "cfg_apply env (OUpdate p) db = update_rpc env p db"
| "cfg_apply env (ODelete name) db = delete_rpc name db"
| "cfg_apply env (OCalled name role) db =
     (Inr (), db\<lparr> tc_rpcs := registry_increment (fe_now env) name role (tc_rpcs db) \<rparr>)"
| "cfg_apply env (OSetOwner ctx table coll fld scope) db = set_owner_field_handler env ctx table coll fld scope db"
| "cfg_apply env (OClearOwner ctx coll) db = clear_owner_field_handler env ctx coll db"
| "cfg_apply env (OPutPolicies role coll body) db = put_policies env role coll body db"
| "cfg_apply env (ODeletePolicy role coll verb) db = delete_policy env role coll verb db"

text \<open>The parameter lists an operation stores.\<close>

fun op_params :: "cfg_op \<Rightarrow> param_spec list list" where
  "op_params (OCreate p) = [cr_params p]"
| "op_params (OUpdate p) = (case up_params p of Some ps \<Rightarrow> [ps] | None \<Rightarrow> [])"
| "op_params _ = []"

definition cfg_run :: "face_env \<Rightarrow> cfg_op list \<Rightarrow> tenant_cfg \<Rightarrow> tenant_cfg" where
  "cfg_run env ops db = fold (\<lambda>op d. snd (cfg_apply env op d)) ops db"

definition cfg_init :: tenant_cfg where
  "cfg_init = \<lparr> tc_rpcs = [], tc_owner = (\<lambda>_. (None, None)), tc_policies = (\<lambda>_. policies_default) \<rparr>"

section \<open>The invariant\<close>

lemma mode_roundtrip [simp]: "mode_from_db_str (mode_as_str m) = m"
  by (cases m) (simp_all add: mode_from_db_str_def)

lemma kind_roundtrip [simp]: "kind_from_db_str (kind_as_str k) = k"
  by (cases k) (simp_all add: kind_from_db_str_def)

lemma db_str_simps [simp]:
  "kind_from_db_str ''sql'' = KSql" "kind_from_db_str ''query'' = KQuery"
  "mode_from_db_str ''read'' = RpcRead" "mode_from_db_str ''write'' = RpcWrite"
  by (simp_all add: kind_from_db_str_def mode_from_db_str_def)

lemma capture_read_only:
  "a \<in> set acts \<Longrightarrow> \<forall>a \<in> set acts. capture_answer False a \<noteq> AuthDeny \<Longrightarrow>
     capture_answer True a \<noteq> AuthDeny \<and> capture_tables True a = capture_tables False a"
  by (auto simp: capture_answer_def capture_tables_def split: auth_action.splits)

lemma capture_statements_mode:
  "capture_statements sq False stmts tables = Inr T \<Longrightarrow> capture_statements sq True stmts tables = Inr T"
proof (induction stmts arbitrary: tables)
  case (Cons stmt stmts)
  then obtain acts where acts: "pe_actions sq stmt = Inr acts" "\<forall>a \<in> set acts. capture_answer False a \<noteq> AuthDeny"
    by (auto simp: prepare_under_ok)
  then have "concat (map (capture_tables True) acts) = concat (map (capture_tables False) acts)"
    using capture_read_only by (intro arg_cong [of _ _ concat] map_cong) auto
  then have "capture_statements sq True (stmt # stmts) tables =
      capture_statements sq True stmts (tables @ concat (map (capture_tables False) acts))"
    using acts capture_read_only [OF _ acts(2)] by (simp add: prepare_under_def list_ex_iff)
  with Cons acts show ?case by (simp add: prepare_under_def list_ex_iff)
qed simp

text \<open>What a body touches does not depend on the mode it is judged under.\<close>

lemma referenced_mode:
  assumes "referenced_user_tables sq sql m = Inr T" "referenced_user_tables sq sql m' = Inr T'"
  shows "T = T'"
proof -
  obtain stmts where s: "split_statements (pe_complete sq) sql = Inr stmts"
    using assms(1) by (auto simp: referenced_user_tables_def)
  with assms have "capture_statements sq (m = RpcWrite) stmts [] = Inr T"
    "capture_statements sq (m' = RpcWrite) stmts [] = Inr T'"
    by (simp_all add: referenced_user_tables_def)
  with capture_statements_mode [of sq stmts "[]"] show ?thesis
    by (cases "m = RpcWrite"; cases "m' = RpcWrite") auto
qed

lemma rows_to_stored_mem:
  "rows_to_stored sd rows = Inr rpcs \<Longrightarrow> r \<in> set rows \<Longrightarrow> \<exists>s \<in> set rpcs. row_to_stored sd r = Inr s"
  by (induction rows arbitrary: rpcs) auto

lemma scan_rpcs_row:
  assumes "scan_rpcs sd db check = Inr ()" "r \<in> set (tc_rpcs db)"
  shows "\<exists>s. row_to_stored sd r = Inr s \<and> check s = Inr ()"
proof -
  obtain rpcs where "rpc_list sd (tc_rpcs db) = Inr rpcs" "try_for_each check rpcs = Inr ()"
    using assms(1) by (auto simp: scan_rpcs_def split: sum.splits)
  with assms(2) rows_to_stored_mem [of sd "sort_key rr_name (tc_rpcs db)" rpcs r] show ?thesis
    by (auto simp: rpc_list_def try_for_each_ok)
qed

abbreviation row_kind :: "rpc_row \<Rightarrow> rpc_kind" where
  "row_kind r \<equiv> kind_from_db_str (rr_kind r)"

abbreviation row_mode :: "rpc_row \<Rightarrow> rpc_mode" where
  "row_mode r \<equiv> mode_from_db_str (rr_mode r)"

definition sql_safe :: "prep_engine \<Rightarrow> tenant_cfg \<Rightarrow> string \<Rightarrow> param_spec list \<Rightarrow> rpc_mode \<Rightarrow> bool" where
  "sql_safe sq db sql ps mode \<longleftrightarrow>
     (\<forall>T t. referenced_user_tables sq sql mode = Inr T \<longrightarrow> t \<in> set T \<longrightarrow>
        guard_table db sql (declares_user_id ps) t = Inr ())"

definition row_ok :: "face_env \<Rightarrow> tenant_cfg \<Rightarrow> rpc_row \<Rightarrow> bool" where
  "row_ok env db r \<longleftrightarrow>
     (\<exists>ps. sd_parse_params (fe_serde env) (rr_params_json r) = Inr ps \<and>
        (row_kind r = KSql \<longrightarrow> rr_anon_callable r \<longrightarrow> sql_safe (fe_prep env) db (rr_sql r) ps (row_mode r))) \<and>
     (case row_kind r of
        KQuery \<Rightarrow> rr_query_json r \<noteq> None \<and> rr_sql r = [] \<and> row_mode r = RpcRead
      | KSql \<Rightarrow> rr_query_json r = None)"

definition cfg_ok :: "face_env \<Rightarrow> tenant_cfg \<Rightarrow> bool" where
  "cfg_ok env db \<longleftrightarrow> distinct (map rr_name (tc_rpcs db)) \<and> (\<forall>r \<in> set (tc_rpcs db). row_ok env db r)"

lemma sql_safe_mode: "guard_anon_owner_scoped_rpc sq db sql ps True m = Inr () \<Longrightarrow> sql_safe sq db sql ps m'"
  using referenced_mode [of sq sql m _ m']
  by (fastforce simp: guard_anon_owner_scoped_rpc_def sql_safe_def try_for_each_ok)

lemma sql_safe_rows: "sql_safe sq (db\<lparr> tc_rpcs := rows \<rparr>) = sql_safe sq db"
  by (simp add: sql_safe_def guard_table_def collection_has_policy_def read_policies_def read_owner_field_def fun_eq_iff)

lemma row_ok_rows: "row_ok env (db\<lparr> tc_rpcs := rows \<rparr>) = row_ok env db"
  by (simp add: row_ok_def sql_safe_rows fun_eq_iff)

lemma cfg_ok_init: "cfg_ok env cfg_init"
  by (simp add: cfg_ok_def cfg_init_def)

subsection \<open>Operations on calls\<close>

lemma registry_create_cases:
  "snd (registry_create now c rows) = rows \<or>
   (check_kind_rules (rc_kind c) (rc_sql c) (rc_mode c) \<lparr> qv_after = rc_query_json c, qv_set = rc_query_json c \<rparr> = Inr () \<and>
    rc_name c \<notin> rr_name ` set rows \<and> snd (registry_create now c rows) = rows @ [new_row now c])"
  by (cases "check_kind_rules (rc_kind c) (rc_sql c) (rc_mode c) \<lparr> qv_after = rc_query_json c, qv_set = rc_query_json c \<rparr>")
     (auto simp: registry_create_def list_ex_iff)

lemma create_rpc_cases:
  fixes p db env
  defines "kind \<equiv> unwrap_or (cr_kind p) KSql" and "mode \<equiv> unwrap_or (cr_mode p) RpcRead"
    and "anon \<equiv> unwrap_or (cr_anon_callable p) False" and "qj \<equiv> map_option (sd_print_query (fe_serde env)) (cr_query p)"
  defines "sql \<equiv> case kind of KQuery \<Rightarrow> [] | KSql \<Rightarrow> cr_sql p"
  defines "c \<equiv> \<lparr> rc_name = cr_name p, rc_sql = sql, rc_params_json = sd_print_params (fe_serde env) (cr_params p),
      rc_description = cr_description p, rc_anon_callable = anon, rc_mode = mode, rc_kind = kind, rc_query_json = qj \<rparr>"
  shows "snd (create_rpc env p db) = db \<or>
    (check_new_rpc env db kind sql (cr_params p) anon mode qj = Inr () \<and>
     check_kind_rules kind sql mode \<lparr> qv_after = qj, qv_set = qj \<rparr> = Inr () \<and>
     cr_name p \<notin> rr_name ` set (tc_rpcs db) \<and>
     snd (create_rpc env p db) = db\<lparr> tc_rpcs := tc_rpcs db @ [new_row (fe_now env) c] \<rparr>)"
proof -
  have "snd (create_rpc env p db) = db \<or>
    (check_new_rpc env db kind sql (cr_params p) anon mode qj = Inr () \<and>
     snd (create_rpc env p db) = db\<lparr> tc_rpcs := snd (registry_create (fe_now env) c (tc_rpcs db)) \<rparr>)"
    by (cases "check_new_rpc_shape kind (cr_sql p) mode (cr_query p \<noteq> None)";
        cases "check_new_rpc env db kind sql (cr_params p) anon mode qj")
       (simp_all add: create_rpc_def Let_def face_reject_def kind_def mode_def anon_def qj_def sql_def c_def
          case_prod_beta)
  with registry_create_cases [of "fe_now env" c "tc_rpcs db"] show ?thesis by (auto simp: c_def)
qed

lemma create_ok:
  assumes "cfg_ok env db" "sd_parse_params (fe_serde env) (sd_print_params (fe_serde env) (cr_params p)) = Inr (cr_params p)"
  shows "cfg_ok env (snd (create_rpc env p db))"
proof -
  let ?mode = "unwrap_or (cr_mode p) RpcRead" and ?kind = "unwrap_or (cr_kind p) KSql"
  let ?anon = "unwrap_or (cr_anon_callable p) False" and ?qj = "map_option (sd_print_query (fe_serde env)) (cr_query p)"
  let ?sql = "case ?kind of KQuery \<Rightarrow> [] | KSql \<Rightarrow> cr_sql p"
  consider "snd (create_rpc env p db) = db"
    | "check_new_rpc env db ?kind ?sql (cr_params p) ?anon ?mode ?qj = Inr ()"
      "check_kind_rules ?kind ?sql ?mode \<lparr> qv_after = ?qj, qv_set = ?qj \<rparr> = Inr ()"
      "cr_name p \<notin> rr_name ` set (tc_rpcs db)"
      "snd (create_rpc env p db) = db\<lparr> tc_rpcs := tc_rpcs db @ [new_row (fe_now env)
         \<lparr> rc_name = cr_name p, rc_sql = ?sql, rc_params_json = sd_print_params (fe_serde env) (cr_params p),
           rc_description = cr_description p, rc_anon_callable = ?anon, rc_mode = ?mode, rc_kind = ?kind,
           rc_query_json = ?qj \<rparr>] \<rparr>"
    using create_rpc_cases [of env p db] by blast
  then show ?thesis
  proof cases
    case 2
    have "row_ok env db (new_row (fe_now env)
         \<lparr> rc_name = cr_name p, rc_sql = ?sql, rc_params_json = sd_print_params (fe_serde env) (cr_params p),
           rc_description = cr_description p, rc_anon_callable = ?anon, rc_mode = ?mode, rc_kind = ?kind,
           rc_query_json = ?qj \<rparr>)"
      using 2(1,2) assms(2) sql_safe_mode [of "fe_prep env" db ?sql "cr_params p" ?mode ?mode]
      by (cases ?kind; cases ?anon)
         (simp_all add: row_ok_def new_row_def check_new_rpc_def check_kind_rules_def split: if_splits)
    with assms(1) 2(3,4) show ?thesis by (auto simp: cfg_ok_def row_ok_rows new_row_def)
  qed (use assms(1) in simp)
qed


lemma registry_update_cases:
  fixes now name up rows
  defines "after \<equiv> \<lambda>r. \<lparr> qv_after = or_else (ru_query_json up) (rr_query_json r), qv_set = ru_query_json up \<rparr>"
  shows "snd (registry_update now name up rows) = rows \<or>
    (\<exists>r. find (\<lambda>r. rr_name r = name) rows = Some r \<and>
       check_kind_rules (row_kind r) (unwrap_or (ru_sql up) (rr_sql r)) (unwrap_or (ru_mode up) (row_mode r)) (after r) = Inr () \<and>
       snd (registry_update now name up rows) = map (\<lambda>r. if rr_name r = name then row_update now up r else r) rows)"
proof (cases "find (\<lambda>r. rr_name r = name) rows")
  case (Some r)
  then show ?thesis
    by (cases "check_kind_rules (row_kind r) (unwrap_or (ru_sql up) (rr_sql r)) (unwrap_or (ru_mode up) (row_mode r)) (after r)")
       (auto simp: registry_update_def after_def)
qed (simp add: registry_update_def)

definition update_of :: "face_env \<Rightarrow> update_params \<Rightarrow> rpc_update" where
  "update_of env p =
     \<lparr> ru_sql = up_sql p, ru_params_json = map_option (sd_print_params (fe_serde env)) (up_params p),
       ru_description = up_description p, ru_anon_callable = up_anon_callable p,
       ru_mode = up_mode p, ru_query_json = map_option (sd_print_query (fe_serde env)) (up_query p) \<rparr>"

lemma update_rpc_cases:
  "snd (update_rpc env p db) = db \<or>
   (guard_anon_owner_scoped_rpc_update (fe_serde env) (fe_prep env) db (up_name p) (up_sql p) (up_params p)
      (up_anon_callable p) = Inr () \<and>
    snd (update_rpc env p db) = db\<lparr> tc_rpcs := snd (registry_update (fe_now env) (up_name p) (update_of env p) (tc_rpcs db)) \<rparr>)"
  by (simp add: update_rpc_def Let_def face_reject_def update_of_def case_prod_beta split: sum.splits)

lemma row_update_ok:
  assumes "row_ok env db r" "rr_name r = up_name p" "find (\<lambda>r. rr_name r = up_name p) (tc_rpcs db) = Some r"
    and "\<And>ps. up_params p = Some ps \<Longrightarrow> sd_parse_params (fe_serde env) (sd_print_params (fe_serde env) ps) = Inr ps"
    and "guard_anon_owner_scoped_rpc_update (fe_serde env) (fe_prep env) db (up_name p) (up_sql p) (up_params p)
      (up_anon_callable p) = Inr ()"
    and "check_kind_rules (row_kind r) (unwrap_or (up_sql p) (rr_sql r)) (unwrap_or (up_mode p) (row_mode r))
      \<lparr> qv_after = or_else qj (rr_query_json r), qv_set = qj \<rparr> = Inr ()"
    and "qj = map_option (sd_print_query (fe_serde env)) (up_query p)"
  shows "row_ok env db (row_update now (update_of env p) r)"
proof -
  obtain ps where ps: "sd_parse_params (fe_serde env) (rr_params_json r) = Inr ps" using assms(1) by (auto simp: row_ok_def)
  let ?ps = "unwrap_or (up_params p) ps" and ?r = "row_update now (update_of env p) r"
  have parsed: "sd_parse_params (fe_serde env) (rr_params_json ?r) = Inr ?ps"
    using ps assms(4) by (cases "up_params p") (auto simp: row_update_def update_of_def unwrap_or_def)
  have kind: "row_kind ?r = row_kind r" "rr_sql ?r = unwrap_or (up_sql p) (rr_sql r)"
    "row_mode ?r = unwrap_or (up_mode p) (row_mode r)" "rr_query_json ?r = or_else qj (rr_query_json r)"
    "rr_anon_callable ?r = unwrap_or (up_anon_callable p) (rr_anon_callable r)"
    using assms(7) by (auto simp: row_update_def update_of_def unwrap_or_def split: option.splits)
  have "sql_safe (fe_prep env) db (rr_sql ?r) ?ps (row_mode ?r)"
    if "row_kind ?r = KSql" "rr_anon_callable ?r"
    using assms(3,5) that ps kind
      sql_safe_mode [of "fe_prep env" db "rr_sql ?r" ?ps "row_mode r" "row_mode ?r"]
    by (simp add: guard_anon_owner_scoped_rpc_update_def rpc_lookup_def row_to_stored_def)
  moreover have "case row_kind ?r of
        KQuery \<Rightarrow> rr_query_json ?r \<noteq> None \<and> rr_sql ?r = [] \<and> row_mode ?r = RpcRead
      | KSql \<Rightarrow> rr_query_json ?r = None"
    using assms(1,6) kind by (cases "row_kind r") (auto simp: row_ok_def check_kind_rules_def split: if_splits)
  ultimately show ?thesis using parsed by (simp add: row_ok_def)
qed

lemma update_ok:
  assumes "cfg_ok env db" "\<And>ps. up_params p = Some ps \<Longrightarrow> sd_parse_params (fe_serde env) (sd_print_params (fe_serde env) ps) = Inr ps"
  shows "cfg_ok env (snd (update_rpc env p db))"
  using update_rpc_cases [of env p db]
proof
  assume upd: "guard_anon_owner_scoped_rpc_update (fe_serde env) (fe_prep env) db (up_name p) (up_sql p) (up_params p)
      (up_anon_callable p) = Inr () \<and>
    snd (update_rpc env p db) = db\<lparr> tc_rpcs := snd (registry_update (fe_now env) (up_name p) (update_of env p) (tc_rpcs db)) \<rparr>"
  show ?thesis
    using registry_update_cases [of "fe_now env" "up_name p" "update_of env p" "tc_rpcs db"]
  proof
    assume "\<exists>r. find (\<lambda>r. rr_name r = up_name p) (tc_rpcs db) = Some r \<and>
       check_kind_rules (row_kind r) (unwrap_or (ru_sql (update_of env p)) (rr_sql r))
         (unwrap_or (ru_mode (update_of env p)) (row_mode r))
         \<lparr> qv_after = or_else (ru_query_json (update_of env p)) (rr_query_json r), qv_set = ru_query_json (update_of env p) \<rparr> = Inr () \<and>
       snd (registry_update (fe_now env) (up_name p) (update_of env p) (tc_rpcs db)) =
         map (\<lambda>r. if rr_name r = up_name p then row_update (fe_now env) (update_of env p) r else r) (tc_rpcs db)"
    then obtain r where r: "find (\<lambda>r. rr_name r = up_name p) (tc_rpcs db) = Some r"
      "check_kind_rules (row_kind r) (unwrap_or (up_sql p) (rr_sql r)) (unwrap_or (up_mode p) (row_mode r))
         \<lparr> qv_after = or_else (map_option (sd_print_query (fe_serde env)) (up_query p)) (rr_query_json r),
           qv_set = map_option (sd_print_query (fe_serde env)) (up_query p) \<rparr> = Inr ()"
      "snd (registry_update (fe_now env) (up_name p) (update_of env p) (tc_rpcs db)) =
         map (\<lambda>r. if rr_name r = up_name p then row_update (fe_now env) (update_of env p) r else r) (tc_rpcs db)"
      by (auto simp: update_of_def)
    let ?u = "\<lambda>r. if rr_name r = up_name p then row_update (fe_now env) (update_of env p) r else r"
    have mem: "r \<in> set (tc_rpcs db)" "rr_name r = up_name p" using r(1) by (auto simp: find_Some_iff)
    then have "row_ok env db (row_update (fe_now env) (update_of env p) r)"
      using row_update_ok [OF _ _ r(1) assms(2) _ r(2) refl] upd assms(1) by (simp add: cfg_ok_def)
    moreover have "r' = r" if "r' \<in> set (tc_rpcs db)" "rr_name r' = up_name p" for r'
      using that mem assms(1) by (auto simp: cfg_ok_def distinct_map inj_on_def)
    ultimately have rows: "\<forall>r' \<in> set (map ?u (tc_rpcs db)). row_ok env db r'" using assms(1) by (auto simp: cfg_ok_def)
    have "map rr_name (map ?u (tc_rpcs db)) = map rr_name (tc_rpcs db)" by (auto simp: row_update_def)
    then have "distinct (map rr_name (map ?u (tc_rpcs db)))" using assms(1) by (simp only: cfg_ok_def)
    with rows upd r(3) show ?thesis by (simp only: cfg_ok_def row_ok_rows) simp
  qed (use upd assms(1) in simp)
qed (use assms(1) in simp)


lemma delete_ok: "cfg_ok env db \<Longrightarrow> cfg_ok env (snd (delete_rpc name db))"
  by (auto simp: delete_rpc_def registry_delete_def cfg_ok_def row_ok_rows distinct_map_filter)

lemma count_call_simps [simp]:
  "rr_name (count_call now role r) = rr_name r" "row_ok env db (count_call now role r) = row_ok env db r"
  by (simp_all add: count_call_def row_ok_def split: rpc_kind.splits)

lemma called_ok:
  assumes "cfg_ok env db"
  shows "cfg_ok env (db\<lparr> tc_rpcs := registry_increment now name role (tc_rpcs db) \<rparr>)"
proof -
  have "map rr_name (registry_increment now name role (tc_rpcs db)) = map rr_name (tc_rpcs db)"
    by (auto simp: registry_increment_def)
  then have "distinct (map rr_name (registry_increment now name role (tc_rpcs db)))"
    using assms by (simp only: cfg_ok_def)
  with assms show ?thesis by (auto simp: cfg_ok_def row_ok_rows registry_increment_def)
qed

subsection \<open>Operations on rules\<close>

text \<open>Rules that only loosen keep every row safe; a rule on one collection is what the scan checked.\<close>

lemma cfg_ok_rules:
  assumes "cfg_ok env db" "tc_rpcs db' = tc_rpcs db"
    and "\<And>r ps sql T t. r \<in> set (tc_rpcs db) \<Longrightarrow> row_kind r = KSql \<Longrightarrow> rr_anon_callable r \<Longrightarrow>
      sd_parse_params (fe_serde env) (rr_params_json r) = Inr ps \<Longrightarrow>
      referenced_user_tables (fe_prep env) (rr_sql r) (row_mode r) = Inr T \<Longrightarrow> t \<in> set T \<Longrightarrow>
      guard_table db (rr_sql r) (declares_user_id ps) t = Inr () \<Longrightarrow>
      guard_table db' (rr_sql r) (declares_user_id ps) t = Inr ()"
  shows "cfg_ok env db'"
proof -
  have "row_ok env db' r" if r: "r \<in> set (tc_rpcs db)" for r
  proof -
    have "row_ok env db r" using assms(1) r by (simp add: cfg_ok_def)
    then show ?thesis using assms(3) [OF r] by (auto simp: row_ok_def sql_safe_def)
  qed
  then show ?thesis using assms(1,2) by (simp add: cfg_ok_def)
qed

lemma guard_table_write_policy_None:
  "guard_table db sql u t = Inr () \<Longrightarrow> guard_table (write_policy coll op None db) sql u t = Inr ()"
  by (cases op) (auto simp: guard_table_def collection_has_policy_def read_policies_def write_policy_def
      read_owner_field_def Let_def split: if_splits option.splits)

lemma guard_table_write_policy_other:
  "t \<noteq> coll \<Longrightarrow> guard_table (write_policy coll op p db) sql u t = guard_table db sql u t"
  by (simp add: guard_table_def collection_has_policy_def read_policies_def write_policy_def read_owner_field_def)

lemma write_policy_rpcs [simp]: "tc_rpcs (write_policy coll op p db) = tc_rpcs db"
  by (simp add: write_policy_def)

lemma write_policies_rpcs [simp]: "tc_rpcs (snd (write_policies schema coll ops db)) = tc_rpcs db"
  by (induction ops arbitrary: db) (auto split: bool.splits)

lemma guard_table_write_policies:
  assumes "guard_table db sql u t = Inr ()" "t \<noteq> coll \<or> (\<forall>p \<in> set ops. snd p = None)"
  shows "guard_table (snd (write_policies schema coll ops db)) sql u t = Inr ()"
  using assms
proof (induction ops arbitrary: db)
  case (Cons op ops)
  obtain o' p where op: "op = (o', p)" by fastforce
  have "guard_table (write_policy coll o' p db) sql u t = Inr ()"
    using Cons.prems op guard_table_write_policy_None guard_table_write_policy_other by (cases "t = coll") auto
  with Cons op show ?case by (auto split: bool.splits)
qed simp

lemma guard_owner_ok:
  assumes "cfg_ok env db" "guard_owner_scope_change_against_anon_rpcs (fe_serde env) (fe_prep env) db coll fld = Inr ()"
  shows "cfg_ok env (set_owner_field coll (Some fld) scope db)"
proof (rule cfg_ok_rules [OF assms(1)])
  fix r ps T t
  assume r: "r \<in> set (tc_rpcs db)" "row_kind r = KSql" "rr_anon_callable r"
    "sd_parse_params (fe_serde env) (rr_params_json r) = Inr ps"
    "referenced_user_tables (fe_prep env) (rr_sql r) (row_mode r) = Inr T" "t \<in> set T"
    "guard_table db (rr_sql r) (declares_user_id ps) t = Inr ()"
  from scan_rpcs_row [OF assms(2) [unfolded guard_owner_scope_change_against_anon_rpcs_def] r(1)] r
  have "coll \<notin> set T \<or> declares_user_id ps \<and> sql_binds_owner_to_user_id (rr_sql r) fld"
    by (auto simp: row_to_stored_def split: if_splits)
  with r(6,7) show "guard_table (set_owner_field coll (Some fld) scope db) (rr_sql r) (declares_user_id ps) t = Inr ()"
    by (auto simp: guard_table_def set_owner_field_def read_owner_field_def collection_has_policy_def read_policies_def
        split: if_splits)
qed (simp add: set_owner_field_def)


lemma clear_owner_ok: "cfg_ok env db \<Longrightarrow> cfg_ok env (set_owner_field coll None None db)"
  by (erule cfg_ok_rules)
     (auto simp: set_owner_field_def guard_table_def read_owner_field_def collection_has_policy_def read_policies_def
        split: if_splits)

lemma set_owner_handler_ok: "cfg_ok env db \<Longrightarrow> cfg_ok env (snd (set_owner_field_handler env ctx table coll fld scope db))"
  using guard_owner_ok by (auto simp: set_owner_field_handler_def face_reject_def map_err_eq_Inr [symmetric]
      split: sum.splits)

lemma clear_owner_handler_ok: "cfg_ok env db \<Longrightarrow> cfg_ok env (snd (clear_owner_field_handler env ctx coll db))"
  using clear_owner_ok by (auto simp: clear_owner_field_handler_def split: sum.splits)

lemma write_policies_ok:
  assumes "cfg_ok env db"
    and "(\<exists>p \<in> set ops. snd p \<noteq> None) \<Longrightarrow> guard_policy_change_against_anon_rpcs (fe_serde env) (fe_prep env) db coll = Inr ()"
  shows "cfg_ok env (snd (write_policies schema coll ops db))"
proof (rule cfg_ok_rules [OF assms(1)])
  fix r ps T t
  assume r: "r \<in> set (tc_rpcs db)" "row_kind r = KSql" "rr_anon_callable r"
    "sd_parse_params (fe_serde env) (rr_params_json r) = Inr ps"
    "referenced_user_tables (fe_prep env) (rr_sql r) (row_mode r) = Inr T" "t \<in> set T"
    "guard_table db (rr_sql r) (declares_user_id ps) t = Inr ()"
  have "t \<noteq> coll" if "\<exists>p \<in> set ops. snd p \<noteq> None"
    using scan_rpcs_row [OF assms(2) [OF that, unfolded guard_policy_change_against_anon_rpcs_def] r(1)] r
    by (auto simp: row_to_stored_def split: if_splits)
  then show "guard_table (snd (write_policies schema coll ops db)) (rr_sql r) (declares_user_id ps) t = Inr ()"
    using r(7) by (intro guard_table_write_policies) blast+
qed simp

lemma put_policies_cases:
  "snd (put_policies env role coll body db) = db \<or>
   (\<exists>schema. snd (put_policies env role coll body db) = snd (write_policies schema coll (put_list body) db) \<and>
     (attaching body \<longrightarrow> guard_policy_change_against_anon_rpcs (fe_serde env) (fe_prep env) db coll = Inr ()) \<and>
     guard_select_policy_clear (fe_serde env) db coll (cp_select body \<noteq> None) = Inr ())"
proof (cases "bind_r (put_target env role coll) (\<lambda>schema. bind_r (put_checks env schema coll body db) (\<lambda>_. Inr schema))")
  case (Inr schema)
  then have "put_checks env schema coll body db = Inr ()" by simp
  with Inr show ?thesis
    by (auto simp: put_policies_def put_checks_def face_reject_def split: if_splits)
qed (simp add: put_policies_def)

lemma put_list_attaching: "(\<exists>p \<in> set (put_list body). snd p \<noteq> None) \<longleftrightarrow> attaching body"
  by (auto simp: put_list_def attaching_def)

lemma put_policies_ok:
  assumes "cfg_ok env db" shows "cfg_ok env (snd (put_policies env role coll body db))"
  using put_policies_cases [of env role coll body db]
proof
  assume "\<exists>schema. snd (put_policies env role coll body db) = snd (write_policies schema coll (put_list body) db) \<and>
     (attaching body \<longrightarrow> guard_policy_change_against_anon_rpcs (fe_serde env) (fe_prep env) db coll = Inr ()) \<and>
     guard_select_policy_clear (fe_serde env) db coll (cp_select body \<noteq> None) = Inr ()"
  then show ?thesis using write_policies_ok [OF assms, of "put_list body"] put_list_attaching by metis
qed (use assms in simp)

lemma delete_policy_ok: "cfg_ok env db \<Longrightarrow> cfg_ok env (snd (delete_policy env role coll verb db))"
  using guard_table_write_policy_None
  by (auto simp: delete_policy_def split: sum.splits intro: cfg_ok_rules)

lemma cfg_apply_ok:
  assumes "cfg_ok env db" "\<And>ps. ps \<in> set (op_params op) \<Longrightarrow> sd_parse_params (fe_serde env) (sd_print_params (fe_serde env) ps) = Inr ps"
  shows "cfg_ok env (snd (cfg_apply env op db))"
proof (cases op)
  case (OCreate p)
  with assms create_ok show ?thesis by simp
next
  case (OUpdate p)
  with assms update_ok show ?thesis by simp
qed (use assms(1) delete_ok called_ok set_owner_handler_ok clear_owner_handler_ok put_policies_ok delete_policy_ok
     in simp_all)

section \<open>Grants of stored queries\<close>

lemma calls_keep_rules:
  "tc_owner (snd (create_rpc env p db)) = tc_owner db" "tc_policies (snd (create_rpc env p db)) = tc_policies db"
  "tc_owner (snd (update_rpc env u db)) = tc_owner db" "tc_policies (snd (update_rpc env u db)) = tc_policies db"
  "tc_owner (snd (delete_rpc name db)) = tc_owner db" "tc_policies (snd (delete_rpc name db)) = tc_policies db"
proof -
  show "tc_owner (snd (create_rpc env p db)) = tc_owner db" "tc_policies (snd (create_rpc env p db)) = tc_policies db"
    using create_rpc_cases [of env p db] by (auto simp: Let_def)
  show "tc_owner (snd (update_rpc env u db)) = tc_owner db" "tc_policies (snd (update_rpc env u db)) = tc_policies db"
    using update_rpc_cases [of env u db] by auto
qed (auto simp: delete_rpc_def registry_delete_def)

lemma write_policies_owner: "tc_owner (snd (write_policies schema coll ops db)) = tc_owner db"
  by (induction ops arbitrary: db) (auto simp: write_policy_def split: bool.splits)

lemma write_policies_other:
  "c \<noteq> coll \<Longrightarrow> tc_policies (snd (write_policies schema coll ops db)) c = tc_policies db c"
  by (induction ops arbitrary: db) (auto simp: write_policy_def split: bool.splits)

text \<open>Replacing the set either leaves the stored select policy or writes the new one.\<close>

lemma put_list_select:
  "cp_select (tc_policies (snd (write_policies schema coll (put_list body) db)) coll) \<in>
     {cp_select (tc_policies db coll), cp_select body}"
  by (simp add: put_list_def write_policy_def split: bool.splits)

lemma grant_blocks_clear:
  assumes "r \<in> set (tc_rpcs db)" "row_kind r = KQuery" "rr_anon_callable r" "rr_query_json r = Some raw"
    and "parse_template (sd_parse_template sd) raw = Inr tpl" "qt_collection tpl = coll"
  shows "guard_clear_against_anon_query_rpcs sd db coll what \<noteq> Inr ()"
proof
  assume "guard_clear_against_anon_query_rpcs sd db coll what = Inr ()"
  from scan_rpcs_row [OF this [unfolded guard_clear_against_anon_query_rpcs_def] assms(1)] assms show False
    by (auto simp: row_to_stored_def)
qed

section \<open>Properties\<close>

text \<open>
  C30. The save-time guard on anonymous SQL calls holds whatever is configured later. Start from an empty registry
  and create, update, delete and call stored calls and set and clear owner fields and policies, in any order, each through its
  face and each accepted or refused by it. Then for every anonymously callable SQL call that is stored, and every table its
  preparation reports: the table has no policy, and if it is owner-scoped the call declares \<open>user_id\<close> and its text passes the
  guard's textual test that it equates the owner column with it. So no order of saves gets around the guard; what the guard itself
  can miss (a second table of a join, tables the preparation does not report) it still misses. The assumption is that parsing a
  printed parameter list gives it back, for the lists stored.
\<close>

theorem anon_sql_rpcs_guarded:
  assumes "\<And>ps. ps \<in> set (concat (map op_params ops)) \<Longrightarrow>
      sd_parse_params (fe_serde env) (sd_print_params (fe_serde env) ps) = Inr ps"
    and "db = cfg_run env ops cfg_init" "r \<in> set (tc_rpcs db)" "kind_from_db_str (rr_kind r) = KSql" "rr_anon_callable r"
    and "referenced_user_tables (fe_prep env) (rr_sql r) (mode_from_db_str (rr_mode r)) = Inr tables" "t \<in> set tables"
  shows "\<not> collection_has_policy db t \<and>
    (\<forall>col. fst (read_owner_field db t) = Some col \<longrightarrow>
       (\<exists>ps. sd_parse_params (fe_serde env) (rr_params_json r) = Inr ps \<and> declares_user_id ps) \<and>
       sql_binds_owner_to_user_id (rr_sql r) col)"
proof -
  have "cfg_ok env (cfg_run env ops d)" if "cfg_ok env d" for d
    using that assms(1) by (induction ops arbitrary: d) (auto simp: cfg_run_def cfg_apply_ok)
  then have "row_ok env db r" using cfg_ok_init assms(2,3) by (simp add: cfg_ok_def)
  then obtain ps where "sd_parse_params (fe_serde env) (rr_params_json r) = Inr ps"
    "guard_table db (rr_sql r) (declares_user_id ps) t = Inr ()"
    using assms(4-7) by (auto simp: row_ok_def sql_safe_def)
  then show ?thesis by (auto simp: guard_table_def split: if_splits option.splits)
qed

text \<open>
  While an anonymously callable stored query on a collection exists, no operation removes that collection's select
  policy or its owner field. (A policy may be replaced by another, and the scope of reads changed.)
\<close>

theorem query_grant_not_cleared:
  assumes "r \<in> set (tc_rpcs db)" "kind_from_db_str (rr_kind r) = KQuery" "rr_anon_callable r" "rr_query_json r = Some raw"
    and "parse_template (sd_parse_template (fe_serde env)) raw = Inr tpl" "qt_collection tpl = coll"
    and "db' = snd (cfg_apply env op db)"
  shows "(cp_select (read_policies db coll) \<noteq> None \<longrightarrow> cp_select (read_policies db' coll) \<noteq> None) \<and>
    (fst (read_owner_field db coll) \<noteq> None \<longrightarrow> fst (read_owner_field db' coll) \<noteq> None)"
proof -
  note blocked = grant_blocks_clear [OF assms(1-6)]
  show ?thesis
  proof (cases op)
    case (OSetOwner ctx table c fld scope)
    then show ?thesis
      using assms(7) by (auto simp: set_owner_field_handler_def set_owner_field_def read_policies_def read_owner_field_def
          split: sum.splits)
  next
    case (OClearOwner ctx c)
    then show ?thesis
      using assms(7) blocked by (auto simp: clear_owner_field_handler_def set_owner_field_def read_policies_def
          read_owner_field_def face_reject_def split: sum.splits if_splits)
  next
    case (OPutPolicies role c body)
    have "cp_select (tc_policies db coll) \<noteq> None \<Longrightarrow> cp_select (tc_policies db' coll) \<noteq> None \<and> tc_owner db' = tc_owner db"
      using put_policies_cases [of env role c body db] put_list_select [of _ coll body db] assms(7) OPutPolicies
        write_policies_other [of coll c] blocked
      by (cases "c = coll")
         (fastforce simp: guard_select_policy_clear_def read_policies_def write_policies_owner split: if_splits)+
    moreover have "tc_owner db' = tc_owner db"
      using put_policies_cases [of env role c body db] assms(7) OPutPolicies by (auto simp: write_policies_owner)
    ultimately show ?thesis by (auto simp: read_policies_def read_owner_field_def)
  next
    case (ODeletePolicy role c verb)
    then show ?thesis
      using assms(7) blocked by (cases verb)
        (auto simp: delete_policy_def guard_select_policy_clear_def write_policy_def read_policies_def
          read_owner_field_def face_reject_def split: sum.splits if_splits)
  qed (use assms(7) in \<open>simp_all add: read_policies_def read_owner_field_def calls_keep_rules\<close>)
qed

section \<open>Examples\<close>

definition uid_spec :: param_spec where
  "uid_spec = \<lparr> ps_name = ''user_id'', ps_ty = PText, ps_required = True, ps_default = None \<rparr>"

definition example_serde :: serde where
  "example_serde =
     \<lparr> sd_parse_params = (\<lambda>s. if s = ''uid'' then Inr [uid_spec] else Inr []),
       sd_print_params = (\<lambda>ps. if ps = [] then ''[]'' else ''uid''),
       sd_parse_template = (\<lambda>_. Inr example_template),
       sd_print_query = (\<lambda>_. ''{}'') \<rparr>"

text \<open>Every statement reads the given columns, and nothing else.\<close>

definition reads :: "(string \<times> string) list \<Rightarrow> prep_engine" where
  "reads cols =
     \<lparr> pe_actions = (\<lambda>_. Inr (\<lparr> ac_action = ASelect, ac_accessor = None \<rparr> #
         map (\<lambda>(t, c). \<lparr> ac_action = ARead t c, ac_accessor = None \<rparr>) cols)),
       pe_complete = (\<lambda>_. True), pe_table_list = Inr [] \<rparr>"

definition example_face :: face_env where
  "example_face =
     \<lparr> fe_serde = example_serde, fe_prep = reads [(''notes'', ''title'')],
       fe_schema = (\<lambda>c. Inr (if c = ''notes'' then Some example_schema else None)), fe_now = ''now'' \<rparr>"

definition mine_sql :: string where
  "mine_sql = ''SELECT * FROM notes n WHERE n.owner = :user_id''"

definition example_ops :: "cfg_op list" where
  "example_ops =
     [OSetOwner (Service None) ([''owner''], [(''_system_users'', ''owner'', ''id'')]) ''notes'' ''owner'' ''own'',
      OCreate \<lparr> cr_name = ''mine'', cr_sql = mine_sql, cr_params = [uid_spec], cr_description = None,
                cr_anon_callable = Some True, cr_mode = None, cr_kind = None, cr_query = None \<rparr>]"

lemma example_ops_row:
  "map (\<lambda>r. (rr_kind r, rr_anon_callable r, rr_sql r, rr_mode r)) (tc_rpcs (cfg_run example_face example_ops cfg_init)) =
     [(''sql'', True, mine_sql, ''read'')]"
  "fst (read_owner_field (cfg_run example_face example_ops cfg_init) ''notes'') = Some ''owner''"
  "referenced_user_tables (fe_prep example_face) mine_sql RpcRead = Inr [''notes'']"
  by code_simp+

theorem anon_sql_rpcs_guarded_witness:
  "\<not> collection_has_policy (cfg_run example_face example_ops cfg_init) ''notes'' \<and>
   sql_binds_owner_to_user_id mine_sql ''owner''"
proof -
  obtain r where r: "tc_rpcs (cfg_run example_face example_ops cfg_init) = [r]" "rr_kind r = ''sql''" "rr_anon_callable r"
    "rr_sql r = mine_sql" "rr_mode r = ''read''"
    using example_ops_row(1) by (auto simp: map_eq_Cons_conv)
  have "\<And>ps. ps \<in> set (concat (map op_params example_ops)) \<Longrightarrow>
      sd_parse_params (fe_serde example_face) (sd_print_params (fe_serde example_face) ps) = Inr ps"
    by (simp add: example_ops_def example_face_def example_serde_def)
  from anon_sql_rpcs_guarded [OF this refl, where r = r and tables = "[''notes'']" and t = "''notes''"] r example_ops_row(2,3) show ?thesis
    by simp
qed

definition shared_cfg :: tenant_cfg where
  "shared_cfg = cfg_init\<lparr> tc_owner := (\<lambda>_. (Some ''owner'', Some ''own'')),
     tc_rpcs := [new_row ''now'' \<lparr> rc_name = ''shared'', rc_sql = [], rc_params_json = ''[]'', rc_description = None,
       rc_anon_callable = True, rc_mode = RpcRead, rc_kind = KQuery, rc_query_json = Some ''{}'' \<rparr>] \<rparr>"

theorem query_grant_not_cleared_witness:
  "fst (read_owner_field (snd (cfg_apply example_face (OClearOwner (Service None) ''notes'') shared_cfg)) ''notes'') \<noteq> None"
proof -
  have "parse_template (sd_parse_template (fe_serde example_face)) ''{}'' = Inr example_template"
    "qt_collection example_template = ''notes''" by code_simp+
  then show ?thesis
    using query_grant_not_cleared [of "hd (tc_rpcs shared_cfg)" shared_cfg "''{}''" example_face example_template "''notes''" _
        "OClearOwner (Service None) ''notes''", OF _ _ _ _ _ _ refl]
    by (simp add: shared_cfg_def new_row_def read_owner_field_def)
qed

text \<open>
  Replacing a policy set is not atomic: when a later policy of the set is refused, the earlier
  ones have been written.
\<close>

definition half_bad :: collection_policies where
  "half_bad = policies_default\<lparr>
     cp_select := Some \<lparr> p_using = Some (FLeaf [(''title'', JString ''a'')]), p_check = None \<rparr>,
     cp_update := Some \<lparr> p_using = Some (FLeaf [(''ghost'', JString ''a'')]), p_check = None \<rparr> \<rparr>"

lemma put_policies_half_written:
  "case put_policies example_face RService ''notes'' half_bad cfg_init of
     (res, db) \<Rightarrow> res = Inl (FeHttp 400 ''POLICY_INVALID'') \<and> cp_select (read_policies db ''notes'') \<noteq> None"
  by code_simp

text \<open>
  A body saved in write mode may read a search index: the writable authorizer allows every read
  under the search prefix, and the guard does not look at protected names. The same body is
  refused in read mode.
\<close>

definition index_reader :: prep_engine where
  "index_reader = reads [(''_system_search_fts$notes$ft'', ''title'')]"

definition index_sql :: string where
  "index_sql = ''SELECT title FROM [_system_search_fts$notes$ft]''"

lemma write_rpc_reads_search_index:
  "validate_rpc_sql index_reader index_sql RpcWrite = Inr ()"
  "guard_anon_owner_scoped_rpc index_reader shared_cfg index_sql [] True RpcWrite = Inr ()"
  "validate_rpc_sql index_reader index_sql RpcRead \<noteq> Inr ()"
  by code_simp+

end
