(* ===== verification/History_Capture.thy ===== *)
theory History_Capture
  imports Record_Write
begin

text \<open>
  Record history for arbitrary SQL (\<open>storage/record_history.rs\<close>): the pre-update hook that
  buffers the row changes a script makes, bounded in rows and bytes, and the flush that turns
  the buffer into history rows inside the script's savepoint. SQLite's part is the sequence of
  pre-update calls it makes; a row is the list of its column values in declaration order.
\<close>

section \<open>The buffer\<close>

record capture_limits =
  cl_max_rows :: nat
  cl_max_bytes :: nat

datatype captured_value = CapNull | CapInteger int | CapReal f64 | CapText string | CapBlobLen nat

fun captured_from_ref :: "sqlval \<Rightarrow> captured_value" where
  "captured_from_ref Null = CapNull"
| "captured_from_ref (Integer i) = CapInteger i"
| "captured_from_ref (Real f) = CapReal f"
| "captured_from_ref (Text t) = CapText t"
| "captured_from_ref (Blob b) = CapBlobLen (length b)"

definition value_bytes :: "captured_value \<Rightarrow> nat" where
  "value_bytes v = 8 + (case v of CapText s \<Rightarrow> length s | _ \<Rightarrow> 0)"

definition vals_bytes :: "captured_value list \<Rightarrow> nat" where
  "vals_bytes vals = sum_list (map value_bytes vals)"

record buffered_change =
  bc_table :: string
  bc_op :: history_op
  bc_rowid :: int
  bc_old :: "captured_value list option"
  bc_new :: "captured_value list option"

datatype capture_error = LimitExceeded string | CaptureInternal string

record capture_buffer =
  cb_changes :: "buffered_change list"
  cb_bytes :: nat
  cb_error :: "capture_error option"

definition buffer_default :: capture_buffer where
  "buffer_default = \<lparr> cb_changes = [], cb_bytes = 0, cb_error = None \<rparr>"

definition limit_error :: "string \<Rightarrow> string \<Rightarrow> nat \<Rightarrow> string" where
  "limit_error kind knob mx =
     ''record-history capture exceeded the '' @ kind @ '' of '' @ nat_to_string mx @ '' ('' @ knob @
     ''; 0 = unlimited). Disable audit on the collection (set_audit_enabled) or batch the operation into smaller writes.''"

section \<open>The hook\<close>

text \<open>
  A pre-update call: the column values an accessor gives, or its error, with the row ids and the
  depth of the query that makes the change (0 for the statement itself).
\<close>

type_synonym accessor = "(sqlval list, string) result"

datatype pre_update =
    PreInsert int accessor
  | PreDelete int accessor
  | PreUpdate int accessor int accessor nat
  | PreUnknown

definition copy_values :: "string \<Rightarrow> accessor \<Rightarrow> (captured_value list, string) result" where
  "copy_values what acc = (case acc of Inr vs \<Rightarrow> Inr (map captured_from_ref vs) | Inl e \<Rightarrow> Inl (''preupdate '' @ what @ e))"

abbreviation copy_old :: "accessor \<Rightarrow> (captured_value list, string) result" where "copy_old \<equiv> copy_values ''old''"
abbreviation copy_new :: "accessor \<Rightarrow> (captured_value list, string) result" where "copy_new \<equiv> copy_values ''new''"

definition opt_bytes :: "captured_value list option \<Rightarrow> nat" where
  "opt_bytes vals = (case vals of Some v \<Rightarrow> vals_bytes v | None \<Rightarrow> 0)"

definition change_bytes :: "buffered_change \<Rightarrow> nat" where
  "change_bytes c = opt_bytes (bc_old c) + opt_bytes (bc_new c)"

definition byte_limit_error :: "capture_limits \<Rightarrow> capture_error" where
  "byte_limit_error limits = LimitExceeded (limit_error ''byte limit'' ''DRUST_AUDIT_RPC_CAPTURE_MAX_BYTES'' (cl_max_bytes limits))"

definition row_limit_error :: "capture_limits \<Rightarrow> capture_error" where
  "row_limit_error limits = LimitExceeded (limit_error ''row limit'' ''DRUST_AUDIT_RPC_CAPTURE_MAX_ROWS'' (cl_max_rows limits))"

definition fail :: "capture_error \<Rightarrow> capture_buffer \<Rightarrow> capture_buffer" where
  "fail e g = g\<lparr> cb_error := Some e \<rparr>"

text \<open>\<open>rposition\<close> over the pending changes.\<close>

definition pending :: "string \<Rightarrow> int \<Rightarrow> buffered_change \<Rightarrow> bool" where
  "pending tbl rowid c \<longleftrightarrow> bc_table c = tbl \<and> bc_rowid c = rowid \<and> bc_new c \<noteq> None"

fun rposition :: "('a \<Rightarrow> bool) \<Rightarrow> 'a list \<Rightarrow> nat option" where
  "rposition P [] = None"
| "rposition P (x # xs) =
     (case rposition P xs of Some i \<Rightarrow> Some (Suc i) | None \<Rightarrow> if P x then Some 0 else None)"

definition merge_trigger ::
  "capture_limits \<Rightarrow> nat \<Rightarrow> captured_value list \<Rightarrow> capture_buffer \<Rightarrow> capture_buffer" where
  "merge_trigger limits idx new g =
     (let c = cb_changes g ! idx; next_bytes = cb_bytes g - opt_bytes (bc_new c) + vals_bytes new in
      if cl_max_bytes limits \<noteq> 0 \<and> next_bytes > cl_max_bytes limits then fail (byte_limit_error limits) g
      else g\<lparr> cb_bytes := next_bytes, cb_changes := (cb_changes g)[idx := c\<lparr> bc_new := Some new \<rparr>] \<rparr>)"

definition push_change :: "capture_limits \<Rightarrow> buffered_change \<Rightarrow> capture_buffer \<Rightarrow> capture_buffer" where
  "push_change limits c g =
     (if cl_max_rows limits \<noteq> 0 \<and> length (cb_changes g) \<ge> cl_max_rows limits then fail (row_limit_error limits) g
      else if cl_max_bytes limits \<noteq> 0 \<and> cb_bytes g + change_bytes c > cl_max_bytes limits then fail (byte_limit_error limits) g
      else g\<lparr> cb_bytes := cb_bytes g + change_bytes c, cb_changes := cb_changes g @ [c] \<rparr>)"

definition change_of :: "string \<Rightarrow> pre_update \<Rightarrow> (buffered_change, string) result" where
  "change_of tbl ev =
     (case ev of
        PreInsert rowid new \<Rightarrow> bind_r (copy_new new) (\<lambda>n.
          Inr \<lparr> bc_table = tbl, bc_op = HInsert, bc_rowid = rowid, bc_old = None, bc_new = Some n \<rparr>)
      | PreDelete rowid old \<Rightarrow> bind_r (copy_old old) (\<lambda>o'.
          Inr \<lparr> bc_table = tbl, bc_op = HDelete, bc_rowid = rowid, bc_old = Some o', bc_new = None \<rparr>)
      | PreUpdate _ old rowid new _ \<Rightarrow> bind_r (copy_old old) (\<lambda>o'. bind_r (copy_new new) (\<lambda>n.
          Inr \<lparr> bc_table = tbl, bc_op = HUpdate, bc_rowid = rowid, bc_old = Some o', bc_new = Some n \<rparr>))
      | PreUnknown \<Rightarrow> Inl ''unknown preupdate case'')"

definition buffer_change :: "capture_limits \<Rightarrow> string \<Rightarrow> pre_update \<Rightarrow> capture_buffer \<Rightarrow> capture_buffer" where
  "buffer_change limits tbl ev g =
     (case change_of tbl ev of Inr c \<Rightarrow> push_change limits c g | Inl e \<Rightarrow> fail (CaptureInternal e) g)"

definition capture_hook ::
  "string list \<Rightarrow> capture_limits \<Rightarrow> string \<times> pre_update \<Rightarrow> capture_buffer \<Rightarrow> capture_buffer" where
  "capture_hook audited limits te g =
     (let (tbl, ev) = te in
      if starts_with tbl ''_system_'' \<or> starts_with tbl ''sqlite_'' \<or> tbl \<notin> set audited \<or> cb_error g \<noteq> None then g
      else case ev of
          PreUpdate _ _ rowid new depth \<Rightarrow>
            if depth > 0
            then (case copy_new new of
                    Inl e \<Rightarrow> fail (CaptureInternal e) g
                  | Inr n \<Rightarrow>
                      (case rposition (pending tbl rowid) (cb_changes g) of
                         Some idx \<Rightarrow> merge_trigger limits idx n g
                       | None \<Rightarrow> buffer_change limits tbl ev g))
            else buffer_change limits tbl ev g
        | _ \<Rightarrow> buffer_change limits tbl ev g)"

section \<open>The flush\<close>

definition audited_data_tables :: "tenant_db \<Rightarrow> string list" where
  "audited_data_tables db =
     map fst (filter (\<lambda>(n, t). \<not> starts_with n ''sqlite_'' \<and> \<not> is_protected_collection n \<and>
       s_audit_enabled (ct_schema t)) (db_tables db))"

record table_projection =
  tp_col_names :: "string list"
  tp_vector_names :: "string list"

datatype flush_error = FlushLimit string | FlushDb tx_error

definition internal_error :: "string \<Rightarrow> flush_error" where
  "internal_error msg = FlushDb (TxDb (SqliteFailure 1 (Some msg)))"

definition load_table_projection :: "tenant_db \<Rightarrow> string \<Rightarrow> (table_projection option, flush_error) result" where
  "load_table_projection tx tbl =
     (case describe tx tbl of
        None \<Rightarrow> Inl (internal_error (''record-history flush: no columns for table '' @ tbl))
      | Some t \<Rightarrow>
          if \<not> s_audit_enabled (ct_schema t) then Inr None
          else if s_fields (ct_schema t) = []
          then Inl (internal_error (''record-history flush: no columns for table '' @ tbl))
          else Inr (Some \<lparr> tp_col_names = map f_name (s_fields (ct_schema t)),
                           tp_vector_names = vector_names (ct_schema t) \<rparr>))"

fun captured_json :: "captured_value \<Rightarrow> json" where
  "captured_json CapNull = JNull"
| "captured_json (CapInteger i) = JNumber (jnum_of_int i)"
| "captured_json (CapReal f) = JNumber (Float f)"
| "captured_json (CapText t) = JString t"
| "captured_json (CapBlobLen n) = JObject [(''__blob_bytes'', JNumber (PosInt n))]"

definition project_values ::
  "string \<Rightarrow> captured_value list \<Rightarrow> table_projection \<Rightarrow> (jmap, flush_error) result" where
  "project_values tbl vals proj =
     (if length vals \<noteq> length (tp_col_names proj)
      then Inl (internal_error (''record-history flush: '' @ tbl @ '' captured '' @ nat_to_string (length vals) @
             '' values but has '' @ nat_to_string (length (tp_col_names proj)) @ '' columns''))
      else Inr (foldl (\<lambda>obj (n, v). if n \<in> set (tp_vector_names proj) then obj else jmap_insert n (captured_json v) obj)
             [] (zip (tp_col_names proj) vals)))"

definition project_opt ::
  "string \<Rightarrow> captured_value list option \<Rightarrow> table_projection \<Rightarrow> (jmap option, flush_error) result" where
  "project_opt tbl vals proj =
     (case vals of None \<Rightarrow> Inr None | Some vs \<Rightarrow> bind_r (project_values tbl vs proj) (\<lambda>m. Inr (Some m)))"

text \<open>The projection of a table is the same at every change, so the code's memo is left out.\<close>

fun flush_changes ::
  "sqlite \<Rightarrow> audit_actor \<Rightarrow> buffered_change list \<Rightarrow> tenant_db \<Rightarrow> (nat \<times> tenant_db, flush_error) result" where
  "flush_changes sq actor [] tx = Inr (0, tx)"
| "flush_changes sq actor (ch # chs) tx =
     bind_r (load_table_projection tx (bc_table ch)) (\<lambda>proj.
       case proj of
         None \<Rightarrow> flush_changes sq actor chs tx
       | Some pr \<Rightarrow>
           bind_r (project_opt (bc_table ch) (bc_old ch) pr) (\<lambda>old.
           bind_r (project_opt (bc_table ch) (bc_new ch) pr) (\<lambda>new.
           bind_r (map_err FlushDb (capture sq tx (bc_table ch) (bc_op ch) (bc_rowid ch) old new actor True)) (\<lambda>tx'.
           bind_r (flush_changes sq actor chs tx') (\<lambda>(n, tx''). Inr (Suc n, tx''))))))"

definition flush_captured ::
  "sqlite \<Rightarrow> capture_buffer \<Rightarrow> audit_actor \<Rightarrow> tenant_db \<Rightarrow> (nat \<times> tenant_db, flush_error) result" where
  "flush_captured sq buf actor tx =
     (case cb_error buf of
        Some (LimitExceeded msg) \<Rightarrow> Inl (FlushLimit msg)
      | Some (CaptureInternal msg) \<Rightarrow> Inl (internal_error (''record-history preupdate capture failed: '' @ msg))
      | None \<Rightarrow> flush_changes sq actor (cb_changes buf) tx)"

section \<open>What the buffer says about the rows\<close>

text \<open>The rows of every table, and what a sequence of pre-update calls does to them.\<close>

type_synonym row_store = "string \<Rightarrow> int \<Rightarrow> sqlval list option"

definition put_row :: "row_store \<Rightarrow> string \<Rightarrow> int \<Rightarrow> sqlval list option \<Rightarrow> row_store" where
  "put_row st t i v = st(t := (st t)(i := v))"

fun event_step :: "string \<times> pre_update \<Rightarrow> row_store \<Rightarrow> row_store option" where
  "event_step (t, PreInsert i (Inr new)) st = (if st t i = None then Some (put_row st t i (Some new)) else None)"
| "event_step (t, PreDelete i (Inr old)) st = (if st t i = Some old then Some (put_row st t i None) else None)"
| "event_step (t, PreUpdate i (Inr old) j (Inr new) depth) st =
     (if i = j \<and> st t i = Some old then Some (put_row st t i (Some new)) else None)"
| "event_step _ st = None"

fun run_events :: "(string \<times> pre_update) list \<Rightarrow> row_store \<Rightarrow> row_store option" where
  "run_events [] st = Some st"
| "run_events (e # es) st = Option.bind (event_step e st) (run_events es)"

text \<open>\<open>rposition\<close> finds the last element that satisfies the predicate.\<close>

lemma rposition_None: "rposition P xs = None \<longleftrightarrow> filter P xs = []"
  by (induction xs) (auto split: option.splits)

lemma rposition_Some:
  "rposition P xs = Some k \<Longrightarrow>
    \<exists>as x bs. xs = as @ x # bs \<and> length as = k \<and> P x \<and> filter P bs = []"
proof (induction xs arbitrary: k)
  case (Cons a xs)
  show ?case
  proof (cases "rposition P xs")
    case None
    with Cons.prems show ?thesis
      by (intro exI [of _ "[]"] exI [of _ a] exI [of _ xs]) (auto simp: rposition_None split: if_splits)
  next
    case (Some j)
    from Cons.IH [OF this] obtain as x bs where "xs = as @ x # bs" "length as = j" "P x" "filter P bs = []" by blast
    then show ?thesis using Some Cons.prems
      by (intro exI [of _ "a # as"] exI [of _ x] exI [of _ bs]) auto
  qed
qed simp

text \<open>A list of steps that leads from one value to another, each step from where the last one ended.\<close>

fun chain :: "'a \<Rightarrow> ('a \<times> 'a) list \<Rightarrow> 'a \<Rightarrow> bool" where
  "chain a [] b \<longleftrightarrow> a = b"
| "chain a ((x, y) # r) b \<longleftrightarrow> a = x \<and> chain y r b"

lemma chain_append: "chain a (xs @ ys) b \<longleftrightarrow> (\<exists>m. chain a xs m \<and> chain m ys b)"
  by (induction xs arbitrary: a) auto

lemma chain_map: "chain a xs b \<Longrightarrow> chain (f a) (map (map_prod f f) xs) (f b)"
  by (induction xs arbitrary: a) auto

lemma chain_last: "chain a xs b \<Longrightarrow> xs \<noteq> [] \<Longrightarrow> snd (last xs) = b"
proof (induction xs arbitrary: a)
  case (Cons x xs)
  then show ?case by (cases x; cases xs) auto
qed simp

section \<open>The buffer tells the story of every row\<close>

definition keyed :: "string \<Rightarrow> int \<Rightarrow> buffered_change \<Rightarrow> bool" where
  "keyed t i c \<longleftrightarrow> bc_table c = t \<and> bc_rowid c = i"

definition images :: "buffered_change \<Rightarrow> captured_value list option \<times> captured_value list option" where
  "images c = (bc_old c, bc_new c)"

abbreviation captured_row :: "sqlval list option \<Rightarrow> captured_value list option" where
  "captured_row \<equiv> map_option (map captured_from_ref)"

definition row_story :: "row_store \<Rightarrow> row_store \<Rightarrow> buffered_change list \<Rightarrow> string \<Rightarrow> bool" where
  "row_story st0 st cs t \<longleftrightarrow>
     (\<forall>i. chain (captured_row (st0 t i)) (map images (filter (keyed t i) cs)) (captured_row (st t i)))"

lemma row_story_other:
  assumes "row_story st0 st cs t" "t' \<noteq> t" shows "row_story st0 (put_row st t' i v) cs t"
  using assms by (simp add: row_story_def put_row_def)

lemma row_story_push:
  assumes "row_story st0 st cs t" "bc_table c = t'" "bc_rowid c = i"
    "bc_old c = captured_row (st t' i)" "bc_new c = captured_row v"
  shows "row_story st0 (put_row st t' i v) (cs @ [c]) t"
  using assms by (auto simp: row_story_def chain_append put_row_def keyed_def images_def)

text \<open>A row that exists was last touched by a change with a new image: the pending one.\<close>

lemma pending_is_last:
  assumes "row_story st0 st cs t" "st t i = Some old" "rposition (pending t i) cs = Some k"
  obtains as bs where "cs = as @ (cs ! k) # bs" "length as = k" "keyed t i (cs ! k)" "filter (keyed t i) bs = []"
proof -
  obtain as x bs where cs: "cs = as @ x # bs" "length as = k" "pending t i x" "filter (pending t i) bs = []"
    using rposition_Some [OF assms(3)] by blast
  then have kx: "keyed t i x" "cs ! k = x" by (auto simp: pending_def keyed_def nth_append)
  have "filter (keyed t i) bs = []"
  proof (rule ccontr)
    assume ne: "filter (keyed t i) bs \<noteq> []"
    let ?l = "last (filter (keyed t i) bs)"
    have "snd (last (map images (filter (keyed t i) cs))) = captured_row (st t i)"
      using cs(1) kx by (intro chain_last [OF assms(1) [unfolded row_story_def, THEN spec]]) auto
    moreover have "last (map images (filter (keyed t i) cs)) = images ?l"
      using ne cs(1) kx by (simp add: last_map)
    ultimately have "bc_new ?l \<noteq> None" using assms(2) by (simp add: images_def)
    moreover have "?l \<in> set bs" "keyed t i ?l" using last_in_set [OF ne] by auto
    ultimately show False using cs(4) by (auto simp: filter_empty_conv pending_def keyed_def)
  qed
  with cs kx show ?thesis using that by auto
qed

lemma row_story_merge:
  assumes "row_story st0 st cs t'" "row_story st0 st cs t" "st t' i = Some old" "rposition (pending t' i) cs = Some k"
  shows "row_story st0 (put_row st t' i (Some new)) (cs[k := (cs ! k)\<lparr> bc_new := Some (map captured_from_ref new) \<rparr>]) t"
proof -
  from pending_is_last [OF assms(1,3,4)] obtain as bs where
    cs: "cs = as @ (cs ! k) # bs" "length as = k" "keyed t' i (cs ! k)" "filter (keyed t' i) bs = []" .
  let ?c = "(cs ! k)\<lparr> bc_new := Some (map captured_from_ref new) \<rparr>"
  have upd: "cs[k := ?c] = as @ ?c # bs" using cs(1,2) by (metis list_update_length)
  have key: "keyed u j ?c \<longleftrightarrow> keyed u j (cs ! k)" for u j by (simp add: keyed_def)
  show ?thesis
    unfolding row_story_def
  proof
    fix j
    have prev: "chain (captured_row (st0 t j)) (map images (filter (keyed t j) (as @ (cs ! k) # bs))) (captured_row (st t j))"
      using assms(2) cs(1) by (simp add: row_story_def)
    show "chain (captured_row (st0 t j)) (map images (filter (keyed t j) (cs[k := ?c])))
        (captured_row (put_row st t' i (Some new) t j))"
    proof (cases "t = t' \<and> j = i")
      case True
      then show ?thesis using prev cs(3,4) unfolding upd by (auto simp: key chain_append images_def put_row_def)
    next
      case False
      then have "\<not> keyed t j (cs ! k)" using cs(3) by (auto simp: keyed_def)
      then show ?thesis using prev False unfolding upd by (auto simp: key put_row_def)
    qed
  qed
qed


section \<open>The hook keeps the story\<close>

definition hooked :: "string list \<Rightarrow> string \<Rightarrow> bool" where
  "hooked audited t \<longleftrightarrow> \<not> starts_with t ''_system_'' \<and> \<not> starts_with t ''sqlite_'' \<and> t \<in> set audited"

lemma capture_hook_skip: "\<not> hooked audited (fst e) \<Longrightarrow> capture_hook audited limits e g = g"
  by (auto simp: capture_hook_def hooked_def split: prod.splits)

lemma capture_hook_error: "cb_error g \<noteq> None \<Longrightarrow> capture_hook audited limits e g = g"
  by (auto simp: capture_hook_def split: prod.splits)

lemma push_change_ok:
  "cb_error (push_change limits c g) = None \<Longrightarrow> cb_changes (push_change limits c g) = cb_changes g @ [c]"
  by (auto simp: push_change_def fail_def split: if_splits)

lemma merge_trigger_ok:
  "cb_error (merge_trigger limits k new g) = None \<Longrightarrow>
    cb_changes (merge_trigger limits k new g) = (cb_changes g)[k := (cb_changes g ! k)\<lparr> bc_new := Some new \<rparr>]"
  by (auto simp: merge_trigger_def fail_def Let_def split: if_splits)

lemma event_step_cases:
  assumes "event_step (t, ev) st = Some st'"
  obtains (ins) i new where "ev = PreInsert i (Inr new)" "st t i = None" "st' = put_row st t i (Some new)"
  | (del) i old where "ev = PreDelete i (Inr old)" "st t i = Some old" "st' = put_row st t i None"
  | (upd) i old new depth where "ev = PreUpdate i (Inr old) i (Inr new) depth" "st t i = Some old"
      "st' = put_row st t i (Some new)"
  using assms by (cases "((t, ev), st)" rule: event_step.cases) (auto split: if_splits)

lemmas hook_defs = capture_hook_def hooked_def buffer_change_def change_of_def copy_values_def

text \<open>What a call of the hook adds: a change from the row as it is to the row as it will be.\<close>

lemma capture_hook_cases:
  assumes "event_step (t, ev) st = Some st'" "hooked audited t" "cb_error g = None"
  obtains (push) c v where "st' = put_row st t (bc_rowid c) v" "bc_table c = t"
      "bc_old c = captured_row (st t (bc_rowid c))" "bc_new c = captured_row v"
      "capture_hook audited limits (t, ev) g = push_change limits c g"
  | (merge) i old new k where "st' = put_row st t i (Some new)" "st t i = Some old"
      "rposition (pending t i) (cb_changes g) = Some k"
      "capture_hook audited limits (t, ev) g = merge_trigger limits k (map captured_from_ref new) g"
  using assms(1)
proof (cases rule: event_step_cases)
  case (ins i new)
  with assms show ?thesis
    by (intro push [of "\<lparr> bc_table = t, bc_op = HInsert, bc_rowid = i, bc_old = None,
        bc_new = Some (map captured_from_ref new) \<rparr>" "Some new"]) (auto simp: hook_defs)
next
  case (del i old)
  with assms show ?thesis
    by (intro push [of "\<lparr> bc_table = t, bc_op = HDelete, bc_rowid = i, bc_old = Some (map captured_from_ref old),
        bc_new = None \<rparr>" None]) (auto simp: hook_defs)
next
  case (upd i old new depth)
  let ?c = "\<lparr> bc_table = t, bc_op = HUpdate, bc_rowid = i, bc_old = Some (map captured_from_ref old),
        bc_new = Some (map captured_from_ref new) \<rparr>"
  show ?thesis
  proof (cases "depth > 0 \<and> rposition (pending t i) (cb_changes g) \<noteq> None")
    case True
    then obtain k where "rposition (pending t i) (cb_changes g) = Some k" by auto
    with True upd assms show ?thesis by (intro merge [of i new old k]) (auto simp: hook_defs)
  next
    case False
    with upd assms show ?thesis by (intro push [of ?c "Some new"]) (auto simp: hook_defs split: option.splits)
  qed
qed

lemma capture_hook_story:
  assumes "event_step (t, ev) st = Some st'"
    and story: "\<And>u. hooked audited u \<Longrightarrow> row_story st0 st (cb_changes g) u"
    and ok: "cb_error (capture_hook audited limits (t, ev) g) = None" and u: "hooked audited u"
  shows "row_story st0 st' (cb_changes (capture_hook audited limits (t, ev) g)) u"
proof (cases "hooked audited t")
  case False
  obtain i v where "st' = put_row st t i v" using assms(1) by (cases rule: event_step_cases) auto
  moreover have "t \<noteq> u" using u False by auto
  ultimately show ?thesis using False story [OF u] by (simp add: capture_hook_skip row_story_other)
next
  case True
  have "cb_error g = None" using ok capture_hook_error [of g audited limits "(t, ev)"] by (cases "cb_error g") auto
  with assms(1) True show ?thesis
  proof (cases rule: capture_hook_cases [where limits = limits])
    case (push c v)
    then show ?thesis using row_story_push [OF story [OF u]] ok by (simp add: push_change_ok)
  next
    case (merge i old new k)
    then show ?thesis using row_story_merge [OF story [OF True] story [OF u]] ok by (simp add: merge_trigger_ok)
  qed
qed

text \<open>Once the buffer has an error it keeps it, so a buffer without one never had one.\<close>

lemma fold_hook_error: "cb_error g \<noteq> None \<Longrightarrow> fold (capture_hook audited limits) evs g = g"
  by (induction evs) (auto simp: capture_hook_error)

lemma events_story:
  assumes "run_events evs st = Some st'" "cb_error (fold (capture_hook audited limits) evs g) = None"
    "\<And>u. hooked audited u \<Longrightarrow> row_story st0 st (cb_changes g) u" "hooked audited t"
  shows "row_story st0 st' (cb_changes (fold (capture_hook audited limits) evs g)) t"
  using assms
proof (induction evs arbitrary: st g)
  case (Cons e evs)
  obtain u ev where e: "e = (u, ev)" by (cases e)
  with Cons.prems(1) obtain st2 where st2: "event_step (u, ev) st = Some st2" "run_events evs st2 = Some st'"
    by (auto split: bind_splits)
  have "cb_error (capture_hook audited limits (u, ev) g) = None"
    using Cons.prems(2) e fold_hook_error by fastforce
  with Cons.IH [OF st2(2)] Cons.prems e capture_hook_story [OF st2(1) Cons.prems(3)] show ?case by auto
qed simp

section \<open>The bounds of the buffer\<close>

definition under_limit :: "nat \<Rightarrow> nat \<Rightarrow> bool" where
  "under_limit limit n \<longleftrightarrow> limit = 0 \<or> n \<le> limit"

definition buffer_ok :: "capture_limits \<Rightarrow> capture_buffer \<Rightarrow> bool" where
  "buffer_ok limits g \<longleftrightarrow>
     cb_bytes g = sum_list (map change_bytes (cb_changes g)) \<and>
     under_limit (cl_max_rows limits) (length (cb_changes g)) \<and> under_limit (cl_max_bytes limits) (cb_bytes g)"

lemma sum_list_swap:
  fixes f :: "'a \<Rightarrow> nat"
  assumes "k < length xs"
  shows "sum_list (map f (xs[k := y])) = sum_list (map f xs) - f (xs ! k) + f y \<and> f (xs ! k) \<le> sum_list (map f xs)"
  using assms
proof (induction xs arbitrary: k)
  case (Cons a xs)
  show ?case
  proof (cases k)
    case (Suc m)
    with Cons.IH [of m] Cons.prems show ?thesis by simp
  qed simp
qed simp

lemma buffer_ok_push: "buffer_ok limits g \<Longrightarrow> buffer_ok limits (push_change limits c g)"
  by (auto simp: push_change_def buffer_ok_def under_limit_def fail_def)

lemma buffer_ok_merge:
  assumes "buffer_ok limits g" "rposition (pending t i) (cb_changes g) = Some k"
  shows "buffer_ok limits (merge_trigger limits k new g)"
proof -
  have k: "k < length (cb_changes g)" using rposition_Some [OF assms(2)] by auto
  from sum_list_swap [OF k, of change_bytes "(cb_changes g ! k)\<lparr> bc_new := Some new \<rparr>"] assms(1) show ?thesis
    by (auto simp: merge_trigger_def buffer_ok_def under_limit_def fail_def Let_def change_bytes_def opt_bytes_def)
qed

lemma buffer_ok_hook: "buffer_ok limits g \<Longrightarrow> buffer_ok limits (capture_hook audited limits e g)"
  by (auto simp: capture_hook_def buffer_change_def Let_def fail_def buffer_ok_push buffer_ok_merge
      split: prod.splits pre_update.splits sum.splits option.splits) (auto simp: buffer_ok_def)

lemma buffer_ok_fold: "buffer_ok limits (fold (capture_hook audited limits) evs buffer_default)"
proof -
  have "buffer_ok limits g \<Longrightarrow> buffer_ok limits (fold (capture_hook audited limits) evs g)" for g
    by (induction evs arbitrary: g) (auto simp: buffer_ok_hook)
  moreover have "buffer_ok limits buffer_default" by (simp add: buffer_ok_def buffer_default_def under_limit_def)
  ultimately show ?thesis .
qed

section \<open>The flush writes the story down\<close>

lemma captured_json_ref: "captured_json (captured_from_ref v) = value_ref_to_json v"
  by (cases v) auto

text \<open>A row as the history has it: the JSON object of its columns, the vector columns left out.\<close>

definition row_image :: "collection_schema \<Rightarrow> sqlval list option \<Rightarrow> jmap option" where
  "row_image schema = map_option (\<lambda>vs. materialize_row (vector_names schema) (zip (map f_name (s_fields schema)) vs))"

definition captured_image :: "collection_schema \<Rightarrow> captured_value list option \<Rightarrow> jmap option" where
  "captured_image schema = map_option (\<lambda>vs.
     foldl (\<lambda>obj (n, v). if n \<in> set (vector_names schema) then obj else jmap_insert n (captured_json v) obj) []
       (zip (map f_name (s_fields schema)) vs))"

lemma captured_image_row: "captured_image schema (captured_row row) = row_image schema row"
  by (simp add: captured_image_def row_image_def materialize_row_def zip_map2 foldl_map captured_json_ref
      option.map_comp comp_def case_prod_unfold cong: if_cong)

lemma project_opt_ok:
  assumes "load_table_projection tx t = Inr (Some pr)" "project_opt t vals pr = Inr m" "describe tx t = Some ct"
  shows "m = captured_image (ct_schema ct) vals"
  using assms
  by (auto simp: load_table_projection_def project_opt_def project_values_def captured_image_def Let_def
      split: if_splits option.splits)

text \<open>The rows a flush adds for one audited table are the changes of the table, projected.\<close>

definition history_of :: "string \<Rightarrow> int \<Rightarrow> history_row \<Rightarrow> bool" where
  "history_of t i h \<longleftrightarrow> h_collection h = t \<and> h_record_id h = i"

definition history_images :: "history_row \<Rightarrow> jmap option \<times> jmap option" where
  "history_images h = (h_old h, h_new h)"

lemma flush_changes_adds:
  assumes "flush_changes sq actor chs tx = Inr (n, tx')"
  shows "\<exists>hs. tx' = tx\<lparr> db_history := db_history tx @ hs \<rparr> \<and> length hs = n \<and> n \<le> length chs \<and>
    (\<forall>h \<in> set hs. h_actor h = actor) \<and>
    (\<forall>t i ct. describe tx t = Some ct \<longrightarrow> s_audit_enabled (ct_schema ct) \<longrightarrow>
       map history_images (filter (history_of t i) hs) =
       map (map_prod (captured_image (ct_schema ct)) (captured_image (ct_schema ct)) \<circ> images) (filter (keyed t i) chs))"
  using assms
proof (induction chs arbitrary: tx n)
  case (Cons ch chs)
  show ?case
  proof (cases "load_table_projection tx (bc_table ch)")
    case (Inr proj)
    show ?thesis
    proof (cases proj)
      case None
      with Cons.prems Inr have fl: "flush_changes sq actor chs tx = Inr (n, tx')" by simp
      have "\<not> keyed t i ch" if "describe tx t = Some ct" "s_audit_enabled (ct_schema ct)" for t i ct
        using that Inr None by (auto simp: keyed_def load_table_projection_def split: if_splits)
      with Cons.IH [OF fl] show ?thesis by (auto; fastforce)
    next
      case (Some pr)
      with Cons.prems Inr obtain old new n0 where
        po: "project_opt (bc_table ch) (bc_old ch) pr = Inr old" "project_opt (bc_table ch) (bc_new ch) pr = Inr new"
        and fl: "flush_changes sq actor chs (tx\<lparr> db_history := db_history tx @
            [\<lparr> h_collection = bc_table ch, h_record_id = bc_rowid ch, h_op = history_as_str (bc_op ch),
               h_old = old, h_new = new, h_actor = actor \<rparr>] \<rparr>) = Inr (n0, tx')" "n = Suc n0"
        by (auto simp: capture_def Let_def)
      let ?h = "\<lparr> h_collection = bc_table ch, h_record_id = bc_rowid ch, h_op = history_as_str (bc_op ch),
               h_old = old, h_new = new, h_actor = actor \<rparr>"
      from Cons.IH [OF fl(1)] obtain hs where
        hs: "tx' = tx\<lparr> db_history := db_history tx @ ?h # hs \<rparr>" "length hs = n0" "n0 \<le> length chs"
          "\<forall>h \<in> set hs. h_actor h = actor"
        and rel: "\<And>t i ct. describe tx t = Some ct \<Longrightarrow> s_audit_enabled (ct_schema ct) \<Longrightarrow>
          map history_images (filter (history_of t i) hs) =
          map (map_prod (captured_image (ct_schema ct)) (captured_image (ct_schema ct)) \<circ> images) (filter (keyed t i) chs)"
        by auto
      have img: "history_images ?h = map_prod (captured_image (ct_schema ct)) (captured_image (ct_schema ct)) (images ch)"
        if "describe tx (bc_table ch) = Some ct" for ct
        using project_opt_ok [OF Inr [unfolded Some] po(1) that] project_opt_ok [OF Inr [unfolded Some] po(2) that]
        by (simp add: history_images_def images_def)
      have "map history_images (filter (history_of t i) (?h # hs)) =
          map (map_prod (captured_image (ct_schema ct)) (captured_image (ct_schema ct)) \<circ> images) (filter (keyed t i) (ch # chs))"
        if "describe tx t = Some ct" "s_audit_enabled (ct_schema ct)" for t i ct
        using rel [OF that] img [of ct] that(1) by (auto simp: history_of_def keyed_def)
      with hs fl(2) show ?thesis by (intro exI [of _ "?h # hs"]) auto
    qed
  qed (use Cons.prems in simp)
qed (auto intro: exI [of _ "[]"])

end
