(* ===== verification/Rpc_Exec.thy ===== *)
theory Rpc_Exec
  imports Rpc_Guard History_Capture
begin

text \<open>
  Running stored SQL: the read executor of \<open>query/executor.rs\<close> and the write executor of
  \<open>rpc/exec_write.rs\<close>, which brackets a script between a savepoint, the writable authorizer,
  the history hook and the quota.

  A connection is the database it sees, its stack of savepoints with the database each can
  return to, the authorizer attached to it and the history hook installed on it. SQLite's own
  work is the record \<open>exec_engine\<close>: preparing, the columns of a statement, what running it
  returns and does, and whether the control statements and the hook calls fail.
\<close>

section \<open>Results\<close>

datatype cell = CNull | CInt int | CReal f64 | CText string | CBlob nat

fun cell_to_json :: "cell \<Rightarrow> json" where
  "cell_to_json CNull = JNull"
| "cell_to_json (CInt i) = JNumber (jnum_of_int i)"
| "cell_to_json (CReal f) = JNumber (Float f)"
| "cell_to_json (CText t) = JString t"
| "cell_to_json (CBlob n) = JObject [(''__blob_bytes'', JNumber (PosInt n))]"

fun value_to_cell :: "sqlval \<Rightarrow> cell" where
  "value_to_cell Null = CNull"
| "value_to_cell (Integer i) = CInt i"
| "value_to_cell (Real f) = CReal f"
| "value_to_cell (Text t) = CText t"
| "value_to_cell (Blob b) = CBlob (length b)"

fun type_name :: "sqlval \<Rightarrow> string" where
  "type_name Null = ''null''"
| "type_name (Integer _) = ''integer''"
| "type_name (Real _) = ''real''"
| "type_name (Text _) = ''text''"
| "type_name (Blob _) = ''blob''"

record query_result =
  qr_column_names :: "string list"
  qr_column_types :: "string list"
  qr_rows :: "cell list list"
  qr_truncated :: bool
  qr_sql_hash :: string

datatype exec_error = TooLarge nat nat | Forbidden string | Timeout nat | Sql string

section \<open>Connections\<close>

record conn =
  cn_db :: tenant_db
  cn_savepoints :: "(string \<times> tenant_db) list"
  cn_auth :: "(auth_context \<Rightarrow> authorization) option"
  cn_hook :: "(string list \<times> capture_limits \<times> capture_buffer) option"

text \<open>
  One run of a prepared statement: the rows it returns and the error that follows them, the
  row changes it makes and the database it leaves (when it is run to its end, and when it is
  dropped after the row cap), and the counters of the connection afterwards.
\<close>

record statement_run =
  rn_rows :: "sqlval list list"
  rn_error :: "db_error option"
  rn_effect :: "bool \<Rightarrow> (string \<times> pre_update) list \<times> tenant_db"
  rn_changed :: bool
  rn_changes :: int
  rn_last_rowid :: int

datatype control_stmt = Savepoint string | RollbackTo string | Release string

record exec_engine =
  xe_prep :: prep_engine
  xe_sq :: sqlite
  xe_display :: "db_error \<Rightarrow> string"
  xe_hash :: "string \<Rightarrow> string"
  xe_columns :: "string \<Rightarrow> string list"
  xe_run :: "tenant_db \<Rightarrow> string \<Rightarrow> (string \<rightharpoonup> sqlval) \<Rightarrow> statement_run"
  xe_control :: "control_stmt \<Rightarrow> conn \<Rightarrow> string option"
  xe_install :: "conn \<Rightarrow> string option"
  xe_remove :: "conn \<Rightarrow> string option"
  xe_audited :: "tenant_db \<Rightarrow> string option"

definition attach :: "(auth_context \<Rightarrow> authorization) \<Rightarrow> conn \<Rightarrow> conn" where
  "attach auth c = c\<lparr> cn_auth := Some auth \<rparr>"

definition detach_authorizer :: "conn \<Rightarrow> conn" where
  "detach_authorizer c = c\<lparr> cn_auth := None \<rparr>"

definition prepare_on :: "exec_engine \<Rightarrow> conn \<Rightarrow> string \<Rightarrow> (unit, string) result" where
  "prepare_on e c sql =
     prepare_under (case cn_auth c of Some auth \<Rightarrow> auth | None \<Rightarrow> \<lambda>_. AuthAllow) (xe_prep e) sql"

text \<open>What SAVEPOINT, ROLLBACK TO and RELEASE do to the stack; a name that is not on it is an error.\<close>

fun control_effect :: "control_stmt \<Rightarrow> conn \<Rightarrow> conn option" where
  "control_effect (Savepoint n) c = Some (c\<lparr> cn_savepoints := (n, cn_db c) # cn_savepoints c \<rparr>)"
| "control_effect (RollbackTo n) c =
     (case dropWhile (\<lambda>(m, _). m \<noteq> n) (cn_savepoints c) of
        [] \<Rightarrow> None
      | (m, db) # sps \<Rightarrow> Some (c\<lparr> cn_db := db, cn_savepoints := (m, db) # sps \<rparr>))"
| "control_effect (Release n) c =
     (case dropWhile (\<lambda>(m, _). m \<noteq> n) (cn_savepoints c) of
        [] \<Rightarrow> None
      | _ # sps \<Rightarrow> Some (c\<lparr> cn_savepoints := sps \<rparr>))"

definition savepoint_request :: auth_context where
  "savepoint_request = \<lparr> ac_action = AOther ''Savepoint'', ac_accessor = None \<rparr>"

definition control :: "exec_engine \<Rightarrow> control_stmt \<Rightarrow> conn \<Rightarrow> (unit, string) result \<times> conn" where
  "control e k c =
     (if (case cn_auth c of Some auth \<Rightarrow> auth savepoint_request = AuthDeny | None \<Rightarrow> False) then (Inl ''not authorized'', c)
      else case xe_control e k c of
          Some msg \<Rightarrow> (Inl msg, c)
        | None \<Rightarrow> (case control_effect k c of None \<Rightarrow> (Inl ''no such savepoint'', c) | Some c' \<Rightarrow> (Inr (), c')))"

text \<open>A run's effect on the connection: the hook, when there is one, is called for every row change.\<close>

definition apply_effect :: "statement_run \<Rightarrow> bool \<Rightarrow> conn \<Rightarrow> conn" where
  "apply_effect r to_end c =
     (let (evs, db) = rn_effect r to_end in
      c\<lparr> cn_db := db,
         cn_hook := map_option (\<lambda>(audited, limits, buf). (audited, limits, fold (capture_hook audited limits) evs buf)) (cn_hook c) \<rparr>)"

section \<open>Collecting rows\<close>

definition bound_names :: "(string \<rightharpoonup> bound_value) \<Rightarrow> string \<rightharpoonup> sqlval" where
  "bound_names binds n = (case n of c # k \<Rightarrow> if c = CHR '':'' then map_option to_sql (binds k) else None | [] \<Rightarrow> None)"

definition merge_types :: "string list \<Rightarrow> sqlval list \<Rightarrow> string list" where
  "merge_types types row = map2 (\<lambda>ty v. if ty = ''null'' then type_name v else ty) types row"

text \<open>
  The row loop: at most \<open>cap\<close> rows are kept; when another one comes the loop either reads on
  to the end or stops, and then never sees the error that may follow.
\<close>

definition collect_rows ::
  "exec_engine \<Rightarrow> string \<Rightarrow> nat \<Rightarrow> bool \<Rightarrow> statement_run \<Rightarrow> bool \<times> (query_result, db_error) result" where
  "collect_rows e sql cap drain r =
     (let cols = xe_columns e sql; kept = take cap (rn_rows r); truncated = length (rn_rows r) > cap;
          to_end = (\<not> truncated \<or> drain)
      in (to_end,
          case (if to_end then rn_error r else None) of
            Some err \<Rightarrow> Inl err
          | None \<Rightarrow> Inr \<lparr> qr_column_names = cols,
                          qr_column_types = foldl merge_types (replicate (length cols) ''null'') kept,
                          qr_rows = map (map value_to_cell) kept, qr_truncated = truncated,
                          qr_sql_hash = xe_hash e sql \<rparr>))"

section \<open>The read executor\<close>

definition SQLITE_INTERRUPT :: int where "SQLITE_INTERRUPT = 9"

definition classify_text :: "string \<Rightarrow> exec_error" where
  "classify_text msg =
     (let lc = to_ascii_lowercase msg in
      if list_ex (str_contains lc) [''authoriz'', ''not authorized'', ''prohibited'', ''sqlite_master'',
           ''sqlite_temp_master'', ''sqlite_schema'']
      then Forbidden msg else Sql msg)"

definition classify_read :: "exec_engine \<Rightarrow> nat \<Rightarrow> db_error \<Rightarrow> exec_error" where
  "classify_read e deadline_ms err =
     (case err of
        SqliteFailure code msg \<Rightarrow>
          if code = SQLITE_INTERRUPT then Timeout deadline_ms
          else classify_text (sqlite_error_without_sql (xe_display e) err)
      | _ \<Rightarrow> classify_text (sqlite_error_without_sql (xe_display e) err))"

definition execute_read_query_with_named_inner ::
  "exec_engine \<Rightarrow> nat \<Rightarrow> conn \<Rightarrow> string \<Rightarrow> (string \<rightharpoonup> bound_value) \<Rightarrow> nat \<Rightarrow> (query_result, exec_error) result \<times> conn" where
  "execute_read_query_with_named_inner e deadline_ms c sql binds row_cap =
     (case prepare_on e c sql of
        Inl msg \<Rightarrow> (Inl (classify_text msg), c)
      | Inr _ \<Rightarrow>
          (let r = xe_run e (cn_db c) sql (bound_names binds); (to_end, res) = collect_rows e sql row_cap False r
           in (map_err (classify_read e deadline_ms) res, apply_effect r to_end c)))"

definition execute_read_query_with_named ::
  "exec_engine \<Rightarrow> nat \<Rightarrow> conn \<Rightarrow> string \<Rightarrow> (string \<rightharpoonup> bound_value) \<Rightarrow> nat \<Rightarrow> nat \<Rightarrow> (query_result, exec_error) result \<times> conn" where
  "execute_read_query_with_named e deadline_ms c sql binds row_cap max_sql_bytes =
     (if length sql > max_sql_bytes then (Inl (TooLarge (length sql) max_sql_bytes), c)
      else let (res, c') = execute_read_query_with_named_inner e deadline_ms (attach readonly_authorizer c) sql binds row_cap
           in (res, detach_authorizer c'))"

section \<open>One statement of a script\<close>

record statement_outcome =
  so_rows :: "query_result option"
  so_affected_rows :: int
  so_last_insert_rowid :: "int option"

definition classify_message :: "nat \<Rightarrow> string \<Rightarrow> statement_error" where
  "classify_message i msg =
     (let lc = to_ascii_lowercase msg in
      (plain_error i msg)\<lparr> se_authorizer_denied := str_contains lc ''authoriz'' \<or> str_contains lc ''prohibited'' \<rparr>)"

definition classify :: "exec_engine \<Rightarrow> nat \<Rightarrow> db_error \<Rightarrow> statement_error" where
  "classify e i err = classify_message i (sqlite_error_without_sql (xe_display e) err)"

definition RPC_ROW_CAP :: nat where "RPC_ROW_CAP = 1000"

definition upper_start :: "string \<Rightarrow> string" where
  "upper_start sql = to_ascii_uppercase (trim_start sql)"

definition inserted_rowid :: "string \<Rightarrow> statement_run \<Rightarrow> int option" where
  "inserted_rowid sql r = (if starts_with (upper_start sql) ''INSERT'' then Some (rn_last_rowid r) else None)"

definition is_dml_prefix :: "string \<Rightarrow> bool" where
  "is_dml_prefix sql = list_ex (starts_with (upper_start sql)) [''INSERT'', ''UPDATE'', ''DELETE'']"

definition execute_one ::
  "exec_engine \<Rightarrow> conn \<Rightarrow> string \<Rightarrow> (string \<rightharpoonup> bound_value) \<Rightarrow> nat \<Rightarrow> (statement_outcome, statement_error) result \<times> conn" where
  "execute_one e c sql binds i =
     (case prepare_on e c sql of
        Inl msg \<Rightarrow> (Inl (classify_message i msg), c)
      | Inr _ \<Rightarrow>
          (let r = xe_run e (cn_db c) sql (bound_names binds) in
           if xe_columns e sql = []
           then (case rn_error r of
                   Some err \<Rightarrow> Inl (classify e i err)
                 | None \<Rightarrow> Inr \<lparr> so_rows = None, so_affected_rows = rn_changes r, so_last_insert_rowid = inserted_rowid sql r \<rparr>,
                 apply_effect r True c)
           else let (to_end, res) = collect_rows e sql RPC_ROW_CAP (is_dml_prefix sql) r
                in (bind_r (map_err (classify e i) res) (\<lambda>qr. Inr
                      \<lparr> so_rows = Some qr,
                        so_affected_rows = (if rn_changed r then rn_changes r else int (length (qr_rows qr))),
                        so_last_insert_rowid = inserted_rowid sql r \<rparr>),
                    apply_effect r to_end c)))"

section \<open>A script\<close>

record write_rpc_outcome =
  wo_last_rows :: "query_result option"
  wo_affected_rows :: int
  wo_last_insert_rowid :: "int option"
  wo_statement_count :: nat
  wo_dry_run :: bool

definition outcome_start :: "bool \<Rightarrow> write_rpc_outcome" where
  "outcome_start dry_run =
     \<lparr> wo_last_rows = None, wo_affected_rows = 0, wo_last_insert_rowid = None, wo_statement_count = 0, wo_dry_run = dry_run \<rparr>"

definition add_outcome :: "statement_outcome \<Rightarrow> write_rpc_outcome \<Rightarrow> write_rpc_outcome" where
  "add_outcome o' w =
     w\<lparr> wo_last_rows := (if so_rows o' \<noteq> None then so_rows o' else wo_last_rows w),
        wo_affected_rows := wo_affected_rows w + so_affected_rows o',
        wo_last_insert_rowid := (if so_last_insert_rowid o' \<noteq> None then so_last_insert_rowid o' else wo_last_insert_rowid w) \<rparr>"

fun run_statements ::
  "exec_engine \<Rightarrow> (string \<rightharpoonup> bound_value) \<Rightarrow> string list \<Rightarrow> write_rpc_outcome \<Rightarrow> conn
     \<Rightarrow> write_rpc_outcome \<times> statement_error option \<times> conn" where
  "run_statements e bound [] w c = (w, None, c)"
| "run_statements e bound (stmt # stmts) w c =
     (let w' = w\<lparr> wo_statement_count := Suc (wo_statement_count w) \<rparr> in
      case execute_one e c stmt bound (wo_statement_count w') of
        (Inr o', c') \<Rightarrow> run_statements e bound stmts (add_outcome o' w') c'
      | (Inl err, c') \<Rightarrow> (w', Some err, c'))"

type_synonym write_result = "((write_rpc_outcome, statement_error) result, string) result"

definition RPC_SAVEPOINT :: string where "RPC_SAVEPOINT = ''drust_rpc_v2''"

text \<open>ROLLBACK TO, its error dropped; then RELEASE, whose error replaces the result.\<close>

definition rollback_release :: "exec_engine \<Rightarrow> write_result \<Rightarrow> conn \<Rightarrow> write_result \<times> conn" where
  "rollback_release e res c =
     (let (_, c1) = control e (RollbackTo RPC_SAVEPOINT) c in
      case control e (Release RPC_SAVEPOINT) c1 of
        (Inl rel, c2) \<Rightarrow> (Inl rel, c2)
      | (Inr _, c2) \<Rightarrow> (res, c2))"

definition conn_usage :: "exec_engine \<Rightarrow> conn \<Rightarrow> (u64, db_error) result" where
  "conn_usage e c = usage_on_conn (sq_pages (xe_sq e) (cn_db c)) (sq_files (xe_sq e) (cn_db c))"

definition quota_statement_error :: "nat \<Rightarrow> quota_error \<Rightarrow> statement_error" where
  "quota_statement_error i qe =
     (plain_error i (case qe of TenantQuotaExceeded usage _ limit \<Rightarrow>
        ''TENANT_QUOTA_EXCEEDED: tenant storage usage '' @ nat_to_string (unat usage) @
        ''B would exceed the '' @ nat_to_string (unat limit) @ ''B limit''))\<lparr> se_quota_exceeded := True \<rparr>"

text \<open>How an error of the flush reads; only the capture limits are the caller's to fix.\<close>

definition tx_error_text :: "exec_engine \<Rightarrow> tx_error \<Rightarrow> string" where
  "tx_error_text e err = (case err of TxDb d \<Rightarrow> xe_display e d | _ \<Rightarrow> [])"

definition flush_result :: "exec_engine \<Rightarrow> nat \<Rightarrow> flush_error \<Rightarrow> write_result" where
  "flush_result e i err =
     (case err of
        FlushLimit msg \<Rightarrow> Inr (Inl ((plain_error i msg)\<lparr> se_capture_limit_exceeded := True \<rparr>))
      | FlushDb d \<Rightarrow> Inl (''record-history flush failed: '' @ tx_error_text e d))"

text \<open>The last steps: the quota again on the way to a commit, then the savepoint.\<close>

definition finish_write :: "exec_engine \<Rightarrow> int \<Rightarrow> write_rpc_outcome \<Rightarrow> statement_error option \<Rightarrow> conn \<Rightarrow> write_result \<times> conn" where
  "finish_write e tier w exec_error c =
     (let resolve = (\<lambda>c.
            let c1 = (if exec_error \<noteq> None \<or> wo_dry_run w then snd (control e (RollbackTo RPC_SAVEPOINT) c) else c) in
            case control e (Release RPC_SAVEPOINT) c1 of
              (Inl rel, c2) \<Rightarrow> (Inl rel, c2)
            | (Inr _, c2) \<Rightarrow> (Inr (case exec_error of Some err \<Rightarrow> Inl err | None \<Rightarrow> Inr w), c2))
      in if exec_error = None \<and> \<not> wo_dry_run w
         then (case conn_usage e c of
                 Inl err \<Rightarrow>
                   (Inl (''tenant-quota re-probe failed: '' @ xe_display e err),
                    snd (control e (Release RPC_SAVEPOINT) (snd (control e (RollbackTo RPC_SAVEPOINT) c))))
               | Inr usage \<Rightarrow>
                   (case check_tenant_quota usage 0 tier of
                      Inl qe \<Rightarrow> rollback_release e (Inr (Inl (quota_statement_error (wo_statement_count w) qe))) c
                    | Inr _ \<Rightarrow> resolve c))
         else resolve c)"

text \<open>The script and the flush, on a connection with its savepoint, its authorizer and its hook.\<close>

definition remove_hook :: "exec_engine \<Rightarrow> conn \<Rightarrow> (unit, string) result \<times> conn" where
  "remove_hook e c =
     (case xe_remove e c of Some msg \<Rightarrow> (Inl msg, c) | None \<Rightarrow> (Inr (), c\<lparr> cn_hook := None \<rparr>))"

definition run_script ::
  "exec_engine \<Rightarrow> string \<Rightarrow> (string \<rightharpoonup> bound_value) \<Rightarrow> bool \<Rightarrow> audit_actor \<Rightarrow> int \<Rightarrow> bool \<Rightarrow> conn \<Rightarrow> write_result \<times> conn" where
  "run_script e sql bound dry_run actor tier capturing c =
     (case split_statements (pe_complete (xe_prep e)) sql of
        Inl err \<Rightarrow>
          rollback_release e (Inr (Inl err)) (detach_authorizer (if capturing then snd (remove_hook e c) else c))
      | Inr stmts \<Rightarrow>
          (let (w, exec_error, c1) = run_statements e bound stmts (outcome_start dry_run) c;
               buf = (case cn_hook c1 of Some (_, _, b) \<Rightarrow> b | None \<Rightarrow> buffer_default);
               (removed, c2) = (if capturing then remove_hook e c1 else (Inr (), c1));
               c3 = detach_authorizer c2
           in case removed of
                Inl msg \<Rightarrow> rollback_release e (Inl (''record-history hook removal failed: '' @ msg)) c3
              | Inr _ \<Rightarrow>
                  if exec_error = None \<and> capturing
                  then (case flush_captured (xe_sq e) buf actor (cn_db c3) of
                          Inl err \<Rightarrow> rollback_release e (flush_result e (wo_statement_count w) err) c3
                        | Inr (_, db) \<Rightarrow> finish_write e tier w exec_error (c3\<lparr> cn_db := db \<rparr>))
                  else finish_write e tier w exec_error c3))"

definition install_hook :: "exec_engine \<Rightarrow> string list \<Rightarrow> capture_limits \<Rightarrow> conn \<Rightarrow> (unit, string) result \<times> conn" where
  "install_hook e audited limits c =
     (case xe_install e c of
        Some msg \<Rightarrow> (Inl msg, c)
      | None \<Rightarrow> (Inr (), c\<lparr> cn_hook := Some (audited, limits, buffer_default) \<rparr>))"

definition audited_set :: "exec_engine \<Rightarrow> bool \<Rightarrow> conn \<Rightarrow> (string list, string) result" where
  "audited_set e dry_run c =
     (if dry_run then Inr []
      else case xe_audited e (cn_db c) of Some msg \<Rightarrow> Inl msg | None \<Rightarrow> Inr (audited_data_tables (cn_db c)))"

definition guarded_script ::
  "exec_engine \<Rightarrow> string \<Rightarrow> (string \<rightharpoonup> bound_value) \<Rightarrow> bool \<Rightarrow> audit_actor \<Rightarrow> capture_limits \<Rightarrow> int \<Rightarrow> string list
     \<Rightarrow> search_tables \<Rightarrow> conn \<Rightarrow> write_result \<times> conn" where
  "guarded_script e sql bound dry_run actor limits tier audited search c =
     (let c1 = attach (writable_authorizer search) c in
      if audited = [] then run_script e sql bound dry_run actor tier False c1
      else case install_hook e audited limits c1 of
          (Inl msg, c2) \<Rightarrow>
            rollback_release e (Inl (''record-history hook install failed: '' @ msg)) (detach_authorizer c2)
        | (Inr _, c2) \<Rightarrow> run_script e sql bound dry_run actor tier True c2)"

definition run_write_rpc ::
  "exec_engine \<Rightarrow> string \<Rightarrow> (string \<rightharpoonup> bound_value) \<Rightarrow> bool \<Rightarrow> audit_actor \<Rightarrow> capture_limits \<Rightarrow> int \<Rightarrow> conn
     \<Rightarrow> write_result \<times> conn" where
  "run_write_rpc e sql bound dry_run actor limits tier conn =
     (let c = detach_authorizer conn in
      case conn_usage e c of
        Inl err \<Rightarrow> (Inl (''tenant-quota usage probe failed: '' @ xe_display e err), c)
      | Inr usage \<Rightarrow>
          (case check_tenant_quota usage 0 tier of
             Inl qe \<Rightarrow> (Inr (Inl (quota_statement_error 0 qe)), c)
           | Inr _ \<Rightarrow>
               (case audited_set e dry_run c of
                  Inl msg \<Rightarrow> (Inl (''record-history audited-set precompute failed: '' @ msg), c)
                | Inr audited \<Rightarrow>
                    (case snapshot_search_tables (xe_prep e) of
                       Inl msg \<Rightarrow> (Inl (''search-table classifier precompute failed: '' @ msg), c)
                     | Inr search \<Rightarrow>
                         (case control e (Savepoint RPC_SAVEPOINT) c of
                            (Inl msg, c1) \<Rightarrow> (Inl msg, c1)
                          | (Inr _, c1) \<Rightarrow>
                              guarded_script e sql bound dry_run actor limits tier audited search c1)))))"

section \<open>The bracket\<close>

text \<open>SQLite's part: on a connection without an authorizer the three control statements succeed.\<close>

definition savepoints_work :: "exec_engine \<Rightarrow> bool" where
  "savepoints_work e \<longleftrightarrow> (\<forall>k c. xe_control e k c = None)"

definition bracketed :: "tenant_db \<Rightarrow> (string \<times> tenant_db) list \<Rightarrow> conn \<Rightarrow> bool" where
  "bracketed db sps c \<longleftrightarrow> cn_savepoints c = (RPC_SAVEPOINT, db) # sps"

lemma control_in_bracket:
  assumes "savepoints_work e" "bracketed db sps c" "cn_auth c = None"
  shows "control e (RollbackTo RPC_SAVEPOINT) c = (Inr (), c\<lparr> cn_db := db \<rparr>)"
    and "control e (Release RPC_SAVEPOINT) c = (Inr (), c\<lparr> cn_savepoints := sps \<rparr>)"
  using assms by (cases c; simp add: control_def savepoints_work_def bracketed_def)+

lemma rollback_release_in_bracket:
  assumes "savepoints_work e" "bracketed db sps c" "cn_auth c = None"
  shows "rollback_release e res c = (res, c\<lparr> cn_db := db, cn_savepoints := sps \<rparr>)"
proof -
  have "bracketed db sps (c\<lparr> cn_db := db \<rparr>)" using assms(2) by (simp add: bracketed_def)
  with assms show ?thesis by (simp add: rollback_release_def control_in_bracket [where db = db and sps = sps])
qed

lemma apply_effect_frame [simp]:
  "cn_savepoints (apply_effect r b c) = cn_savepoints c" "cn_auth (apply_effect r b c) = cn_auth c"
  by (simp_all add: apply_effect_def split: prod.splits)

lemma apply_effect_hook [simp]: "cn_hook (apply_effect r b c) = None \<longleftrightarrow> cn_hook c = None"
  by (simp add: apply_effect_def split: prod.splits)

text \<open>A statement runs once, to its end or not, or is refused before it runs.\<close>

lemma execute_one_effect:
  "execute_one e c sql binds i = (res, c') \<Longrightarrow>
    c' = c \<and> (\<exists>err. res = Inl err) \<or> (\<exists>b. c' = apply_effect (xe_run e (cn_db c) sql (bound_names binds)) b c)"
  by (auto simp: execute_one_def Let_def split: sum.splits if_splits prod.splits)

definition same_frame :: "conn \<Rightarrow> conn \<Rightarrow> bool" where
  "same_frame c c' \<longleftrightarrow>
     cn_savepoints c' = cn_savepoints c \<and> cn_auth c' = cn_auth c \<and> (cn_hook c' = None \<longleftrightarrow> cn_hook c = None)"

lemma execute_one_frame: "execute_one e c sql binds i = (res, c') \<Longrightarrow> same_frame c c'"
  by (drule execute_one_effect) (auto simp: same_frame_def)

lemma run_statements_frame:
  "run_statements e bound stmts w c = (w', err, c') \<Longrightarrow> same_frame c c' \<and> wo_dry_run w' = wo_dry_run w"
proof (induction stmts arbitrary: w c)
  case (Cons s ss)
  from Cons.prems show ?case
    by (auto simp: Let_def add_outcome_def same_frame_def dest!: execute_one_frame Cons.IH split: prod.splits sum.splits)
qed (simp add: same_frame_def)

section \<open>How a call ends\<close>

definition quota_met :: "exec_engine \<Rightarrow> int \<Rightarrow> conn \<Rightarrow> bool" where
  "quota_met e tier c \<longleftrightarrow> (\<exists>usage. conn_usage e c = Inr usage \<and> check_tenant_quota usage 0 tier = Inr ())"

text \<open>
  The connection is as it was found but for the database, which is the old one, or the one
  the committed run leaves: it meets the quota, and \<open>good\<close> says what is in it.
\<close>

definition ended ::
  "exec_engine \<Rightarrow> int \<Rightarrow> tenant_db \<Rightarrow> (string \<times> tenant_db) list \<Rightarrow> bool \<Rightarrow> (tenant_db \<Rightarrow> bool) \<Rightarrow> write_result \<times> conn \<Rightarrow> bool" where
  "ended e tier db sps dry_run good rc \<longleftrightarrow>
     (let (r, c) = rc in
      cn_savepoints c = sps \<and> cn_auth c = None \<and> cn_hook c = None \<and>
      (cn_db c = db \<and> (\<forall>o'. r = Inr (Inr o') \<longrightarrow> dry_run) \<or>
       (\<exists>o'. r = Inr (Inr o')) \<and> \<not> dry_run \<and> quota_met e tier c \<and> good (cn_db c)))"

lemma rollback_release_ended:
  assumes "savepoints_work e" "bracketed db sps c" "cn_auth c = None" "cn_hook c = None" "\<And>o'. res \<noteq> Inr (Inr o')"
  shows "ended e tier db sps dry_run good (rollback_release e res c)"
  using assms by (simp add: rollback_release_in_bracket ended_def)

lemma finish_write_ended:
  assumes "savepoints_work e" "bracketed db sps c" "cn_auth c = None" "cn_hook c = None"
    "err = None \<Longrightarrow> \<not> wo_dry_run w \<Longrightarrow> good (cn_db c)"
  shows "ended e tier db sps (wo_dry_run w) good (finish_write e tier w err c)"
proof -
  have b: "bracketed db sps (c\<lparr> cn_db := db \<rparr>)" using assms(2) by (simp add: bracketed_def)
  note here = control_in_bracket [OF assms(1,2,3)] control_in_bracket [OF assms(1) b]
    rollback_release_in_bracket [OF assms(1,2,3)]
  show ?thesis
    using assms(3-)
    by (auto simp: finish_write_def ended_def quota_met_def conn_usage_def Let_def here split: sum.splits option.splits)
qed

text \<open>What a committed script is made of: all its statements ran, and the changes they made were flushed.\<close>

definition script_result ::
  "exec_engine \<Rightarrow> string \<Rightarrow> (string \<rightharpoonup> bound_value) \<Rightarrow> audit_actor \<Rightarrow> bool \<Rightarrow> conn \<Rightarrow> tenant_db \<Rightarrow> bool" where
  "script_result e sql bound actor capturing c db' \<longleftrightarrow>
     (\<exists>stmts w c1. split_statements (pe_complete (xe_prep e)) sql = Inr stmts \<and>
        run_statements e bound stmts (outcome_start False) c = (w, None, c1) \<and>
        (if capturing
         then \<exists>n. flush_captured (xe_sq e) (case cn_hook c1 of Some (_, _, b) \<Rightarrow> b | None \<Rightarrow> buffer_default) actor (cn_db c1) = Inr (n, db')
         else db' = cn_db c1))"

text \<open>Removing the hook succeeds; installing it may fail.\<close>

definition hooks_work :: "exec_engine \<Rightarrow> bool" where
  "hooks_work e \<longleftrightarrow> (\<forall>c. xe_remove e c = None)"

lemma remove_hook_works: "hooks_work e \<Longrightarrow> remove_hook e c = (Inr (), c\<lparr> cn_hook := None \<rparr>)"
  by (simp add: remove_hook_def hooks_work_def)

text \<open>The connection after the hook and the authorizer are gone.\<close>

definition unguard :: "bool \<Rightarrow> conn \<Rightarrow> conn" where
  "unguard capturing c = detach_authorizer (if capturing then c\<lparr> cn_hook := None \<rparr> else c)"

lemma unguard_bare:
  assumes "same_frame c c1" "bracketed db sps c" "capturing \<or> cn_hook c = None"
  shows "bracketed db sps (unguard capturing c1)" "cn_auth (unguard capturing c1) = None"
    "cn_hook (unguard capturing c1) = None" "cn_db (unguard capturing c1) = cn_db c1"
  using assms by (auto simp: unguard_def detach_authorizer_def bracketed_def same_frame_def)

lemma run_script_ended:
  assumes "savepoints_work e" "hooks_work e" "bracketed db sps c" "capturing \<or> cn_hook c = None"
  shows "ended e tier db sps dry_run (script_result e sql bound actor capturing c)
    (run_script e sql bound dry_run actor tier capturing c)"
proof (cases "split_statements (pe_complete (xe_prep e)) sql")
  case (Inl err)
  have "same_frame c c" by (simp add: same_frame_def)
  note bare = unguard_bare [OF this assms(3,4)]
  have "run_script e sql bound dry_run actor tier capturing c = rollback_release e (Inr (Inl err)) (unguard capturing c)"
    using Inl assms(2) by (simp add: run_script_def remove_hook_works unguard_def)
  then show ?thesis using rollback_release_ended [OF assms(1) bare(1-3)] by simp
next
  case (Inr stmts)
  obtain w err c1 where run: "run_statements e bound stmts (outcome_start dry_run) c = (w, err, c1)"
    by (cases "run_statements e bound stmts (outcome_start dry_run) c")
  note frame = run_statements_frame [OF run]
  note bare = unguard_bare [OF frame [THEN conjunct1] assms(3,4)]
  have w: "wo_dry_run w = dry_run" using frame by (simp add: outcome_start_def)
  let ?flush = "flush_captured (xe_sq e) (case cn_hook c1 of Some (_, _, b) \<Rightarrow> b | None \<Rightarrow> buffer_default) actor (cn_db c1)"
  let ?c3 = "unguard capturing c1"
  have script: "run_script e sql bound dry_run actor tier capturing c =
      (if err = None \<and> capturing
       then (case ?flush of
               Inl fe \<Rightarrow> rollback_release e (flush_result e (wo_statement_count w) fe) ?c3
             | Inr (_, d) \<Rightarrow> finish_write e tier w err (?c3\<lparr> cn_db := d \<rparr>))
       else finish_write e tier w err ?c3)"
    using Inr run assms(2)
    by (cases capturing; cases err) (auto simp: run_script_def remove_hook_works unguard_def detach_authorizer_def Let_def split: sum.splits)
  have bd: "bracketed db sps (?c3\<lparr> cn_db := d \<rparr>)" for d using bare(1) by (simp add: bracketed_def)
  have good: "script_result e sql bound actor capturing c d"
    if "err = None" "\<not> wo_dry_run w" "if capturing then \<exists>n. ?flush = Inr (n, d) else d = cn_db c1" for d
    using Inr run that w by (auto simp: script_result_def)
  note finish = finish_write_ended [OF assms(1), of db sps _ _ w, unfolded w]
  show ?thesis
  proof (cases "err = None \<and> capturing")
    case True
    show ?thesis
    proof (cases ?flush)
      case (Inl fe)
      have "flush_result e i fe \<noteq> Inr (Inr o')" for i o' by (simp add: flush_result_def split: flush_error.split)
      with True Inl bare show ?thesis unfolding script by (simp add: rollback_release_ended [OF assms(1)])
    next
      case (Inr nd)
      with True bare bd good [of "snd nd"] w show ?thesis
        unfolding script by (cases nd) (simp add: finish)
    qed
  next
    case False
    then show ?thesis
      unfolding script if_not_P [OF False] using bare good [of "cn_db c1"] w by (intro finish) auto
  qed
qed

definition call_result ::
  "exec_engine \<Rightarrow> string \<Rightarrow> (string \<rightharpoonup> bound_value) \<Rightarrow> audit_actor \<Rightarrow> capture_limits \<Rightarrow> tenant_db \<Rightarrow> tenant_db \<Rightarrow> bool" where
  "call_result e sql bound actor limits db db' \<longleftrightarrow>
     (\<exists>c audited. cn_db c = db \<and> audited = audited_data_tables db \<and>
        cn_hook c = (if audited = [] then None else Some (audited, limits, buffer_default)) \<and>
        script_result e sql bound actor (audited \<noteq> []) c db')"

lemma guarded_script_ended:
  assumes "savepoints_work e" "hooks_work e" "bracketed db sps c" "cn_hook c = None" "cn_db c = db"
    "audited = (if dry_run then [] else audited_data_tables db)"
  shows "ended e tier db sps dry_run (call_result e sql bound actor limits db)
    (guarded_script e sql bound dry_run actor limits tier audited search c)"
proof -
  let ?c1 = "attach (writable_authorizer search) c"
  have b: "bracketed db sps ?c1" using assms(3) by (simp add: bracketed_def attach_def)
  have weaken: "ended e tier db sps dry_run (call_result e sql bound actor limits db) rc"
    if "ended e tier db sps dry_run (script_result e sql bound actor (audited \<noteq> []) c2) rc"
      "cn_db c2 = db" "cn_hook c2 = (if audited = [] then None else Some (audited, limits, buffer_default))" for rc c2
    using that assms(6) by (auto simp: ended_def call_result_def split: if_splits)
  show ?thesis
  proof (cases "audited = []")
    case True
    with run_script_ended [OF assms(1,2) b, of False] assms(4,5) show ?thesis
      by (simp add: guarded_script_def weaken [of ?c1] attach_def)
  next
    case False
    show ?thesis
    proof (cases "xe_install e ?c1")
      case None
      let ?c2 = "?c1\<lparr> cn_hook := Some (audited, limits, buffer_default) \<rparr>"
      have "bracketed db sps ?c2" using b by (simp add: bracketed_def)
      from run_script_ended [OF assms(1,2) this, of True] None False assms(5) show ?thesis
        by (simp add: guarded_script_def install_hook_def weaken [of ?c2] attach_def)
    next
      case (Some msg)
      have "bracketed db sps (detach_authorizer ?c1)" using b by (simp add: bracketed_def detach_authorizer_def)
      with Some False assms(1,4) show ?thesis
        by (simp add: guarded_script_def install_hook_def rollback_release_ended detach_authorizer_def attach_def)
    qed
  qed
qed

lemma run_write_rpc_ended:
  assumes "savepoints_work e" "hooks_work e" "cn_hook c = None"
  shows "ended e tier (cn_db c) (cn_savepoints c) dry_run (call_result e sql bound actor limits (cn_db c))
    (run_write_rpc e sql bound dry_run actor limits tier c)"
proof -
  let ?c = "detach_authorizer c"
  let ?c1 = "?c\<lparr> cn_savepoints := (RPC_SAVEPOINT, cn_db c) # cn_savepoints c \<rparr>"
  have sp: "control e (Savepoint RPC_SAVEPOINT) ?c = (Inr (), ?c1)"
    using assms(1) by (simp add: control_def savepoints_work_def detach_authorizer_def)
  have b: "bracketed (cn_db c) (cn_savepoints c) ?c1" by (simp add: bracketed_def)
  have stop: "ended e tier (cn_db c) (cn_savepoints c) dry_run good (r, ?c)" if "\<And>o'. r \<noteq> Inr (Inr o')" for r good
    using that assms(3) by (simp add: ended_def detach_authorizer_def)
  have go: "ended e tier (cn_db c) (cn_savepoints c) dry_run (call_result e sql bound actor limits (cn_db c))
      (guarded_script e sql bound dry_run actor limits tier audited search ?c1)"
    if "audited_set e dry_run ?c = Inr audited" for audited search
    using that assms(3)
    by (intro guarded_script_ended [OF assms(1,2) b])
      (auto simp: audited_set_def detach_authorizer_def split: if_splits option.splits)
  show ?thesis
    by (auto simp: run_write_rpc_def Let_def sp intro!: stop go split: sum.split)
qed

section \<open>The history of a script\<close>

definition rows_of :: "tenant_db \<Rightarrow> row_store" where
  "rows_of db t i =
     (case describe db t of None \<Rightarrow> None | Some ct \<Rightarrow> map_option (map snd) (map_of (ct_rows ct) i))"

definition schemas_of :: "tenant_db \<Rightarrow> (string \<times> collection_schema) list" where
  "schemas_of db = map (\<lambda>(n, ct). (n, ct_schema ct)) (db_tables db)"

text \<open>
  SQLite's part: a statement reports every row change to the pre-update hook, keeps the row ids,
  and touches neither the schemas nor the history (the authorizer denies it both).
\<close>

definition reports_changes :: "exec_engine \<Rightarrow> bool" where
  "reports_changes e \<longleftrightarrow>
     (\<forall>db sql binds to_end. let (evs, db') = rn_effect (xe_run e db sql binds) to_end in
        run_events evs (rows_of db) = Some (rows_of db') \<and> schemas_of db' = schemas_of db \<and> db_history db' = db_history db)"

lemma run_events_append: "run_events (es @ fs) st = Option.bind (run_events es st) (run_events fs)"
  by (induction es arbitrary: st) (auto split: bind_splits)

definition told :: "conn \<Rightarrow> (string \<times> pre_update) list \<Rightarrow> conn \<Rightarrow> bool" where
  "told c evs c' \<longleftrightarrow>
     run_events evs (rows_of (cn_db c)) = Some (rows_of (cn_db c')) \<and>
     schemas_of (cn_db c') = schemas_of (cn_db c) \<and> db_history (cn_db c') = db_history (cn_db c) \<and>
     cn_hook c' = map_option (\<lambda>(audited, limits, buf). (audited, limits, fold (capture_hook audited limits) evs buf)) (cn_hook c)"

lemma told_trans: "told c es c1 \<Longrightarrow> told c1 fs c2 \<Longrightarrow> told c (es @ fs) c2"
  by (auto simp: told_def run_events_append option.map_comp comp_def case_prod_unfold)

lemma told_refl: "told c [] c"
  by (simp add: told_def case_prod_unfold option.map_ident)

lemma execute_one_told:
  assumes "reports_changes e" "execute_one e c sql binds i = (res, c')"
  obtains evs where "told c evs c'"
proof -
  let ?r = "xe_run e (cn_db c) sql (bound_names binds)"
  have "\<exists>evs. told c evs (apply_effect ?r b c)" for b
    using assms(1) unfolding reports_changes_def
    by (intro exI [of _ "fst (rn_effect ?r b)"]) (auto simp: told_def apply_effect_def case_prod_unfold Let_def)
  with execute_one_effect [OF assms(2)] told_refl [of c] that show ?thesis by auto
qed

lemma run_statements_told:
  assumes "reports_changes e" "run_statements e bound stmts w c = (w', err, c')"
  obtains evs where "told c evs c'"
proof -
  from assms(2) have "\<exists>evs. told c evs c'"
  proof (induction stmts arbitrary: w c)
    case Nil
    then show ?case using told_refl by auto
  next
    case (Cons s ss)
    let ?w = "w\<lparr> wo_statement_count := Suc (wo_statement_count w) \<rparr>"
    obtain res c1 where one: "execute_one e c s bound (wo_statement_count ?w) = (res, c1)"
      by (cases "execute_one e c s bound (wo_statement_count ?w)")
    obtain evs where evs: "told c evs c1" using execute_one_told [OF assms(1) one] .
    show ?case
    proof (cases res)
      case (Inl err')
      with Cons.prems one evs show ?thesis by (auto simp: Let_def)
    next
      case (Inr o')
      with Cons.prems one have "run_statements e bound ss (add_outcome o' ?w) c1 = (w', err, c')" by (simp add: Let_def)
      from Cons.IH [OF this] evs told_trans show ?thesis by blast
    qed
  qed
  with that show ?thesis by auto
qed

lemma describe_schema: "map_option ct_schema (describe db t) = map_of (schemas_of db) t"
  by (simp add: describe_def schemas_of_def map_of_map)

lemma describe_same_schema:
  assumes "schemas_of db' = schemas_of db" "describe db t = Some ct"
  obtains ct' where "describe db' t = Some ct'" "ct_schema ct' = ct_schema ct"
proof -
  have "map_option ct_schema (describe db' t) = Some (ct_schema ct)"
    using assms describe_schema [of db t] describe_schema [of db' t] by simp
  then show ?thesis using that by auto
qed

lemma starts_with_lower: "starts_with t p \<Longrightarrow> starts_with (to_ascii_lowercase t) (to_ascii_lowercase p)"
  by (auto simp: starts_with_def to_ascii_lowercase_def prefix_def)

lemma audited_hooked: "t \<in> set (audited_data_tables db) \<Longrightarrow> hooked (audited_data_tables db) t"
proof -
  have low: "to_ascii_lowercase ''_system_'' = ''_system_''" "to_ascii_lowercase ''sqlite_'' = ''sqlite_''"
    by code_simp+
  assume "t \<in> set (audited_data_tables db)"
  then show ?thesis
    using starts_with_lower [of t "''_system_''"] starts_with_lower [of t "''sqlite_''"]
    by (auto simp: hooked_def audited_data_tables_def is_protected_collection_def low)
qed

lemma audited_described:
  assumes "distinct (map fst (db_tables db))"
  shows "t \<in> set (audited_data_tables db) \<longleftrightarrow>
    (\<exists>ct. describe db t = Some ct \<and> s_audit_enabled (ct_schema ct) \<and> \<not> is_protected_collection t \<and> \<not> starts_with t ''sqlite_'')"
  using assms by (auto simp: audited_data_tables_def describe_def image_iff map_of_eq_Some_iff)

text \<open>The flush of a script's changes, for the tables that are audited.\<close>

lemma flush_tells:
  assumes flush: "flush_captured sq (fold (capture_hook audited limits) evs buffer_default) actor tx = Inr (n, tx')"
    and evs: "run_events evs st0 = Some st1" and audited: "\<And>t. t \<in> set audited \<Longrightarrow> hooked audited t"
  shows "\<exists>hs. tx' = tx\<lparr> db_history := db_history tx @ hs \<rparr> \<and> (\<forall>h \<in> set hs. h_actor h = actor) \<and>
    under_limit (cl_max_rows limits) (length hs) \<and>
    (\<forall>t i ct. t \<in> set audited \<longrightarrow> describe tx t = Some ct \<longrightarrow> s_audit_enabled (ct_schema ct) \<longrightarrow>
       chain (row_image (ct_schema ct) (st0 t i)) (map history_images (filter (history_of t i) hs))
         (row_image (ct_schema ct) (st1 t i)))"
proof -
  let ?buf = "fold (capture_hook audited limits) evs buffer_default"
  have ok: "cb_error ?buf = None" and fl: "flush_changes sq actor (cb_changes ?buf) tx = Inr (n, tx')"
    using flush by (auto simp: flush_captured_def split: option.splits capture_error.splits)
  have story: "row_story st0 st1 (cb_changes ?buf) t" if "t \<in> set audited" for t
    by (rule events_story [OF evs ok _ audited [OF that]]) (simp add: row_story_def buffer_default_def)
  have rows: "chain (row_image sch (st0 t i))
      (map (map_prod (captured_image sch) (captured_image sch) \<circ> images) (filter (keyed t i) (cb_changes ?buf)))
      (row_image sch (st1 t i))" if "t \<in> set audited" for t i sch
    using chain_map [of "captured_row (st0 t i)" "map images (filter (keyed t i) (cb_changes ?buf))"
        "captured_row (st1 t i)" "captured_image sch"] story [OF that]
    by (simp add: row_story_def captured_image_row)
  obtain hs where hs: "tx' = tx\<lparr> db_history := db_history tx @ hs \<rparr>" "length hs = n" "n \<le> length (cb_changes ?buf)"
      "\<forall>h \<in> set hs. h_actor h = actor"
      "\<And>t i ct. describe tx t = Some ct \<Longrightarrow> s_audit_enabled (ct_schema ct) \<Longrightarrow>
       map history_images (filter (history_of t i) hs) =
       map (map_prod (captured_image (ct_schema ct)) (captured_image (ct_schema ct)) \<circ> images) (filter (keyed t i) (cb_changes ?buf))"
    using flush_changes_adds [OF fl] by blast
  have "under_limit (cl_max_rows limits) (length hs)"
    using buffer_ok_fold [of limits audited evs] hs(2,3) by (auto simp: buffer_ok_def under_limit_def)
  with hs rows show ?thesis by (intro exI [of _ hs]) simp
qed

text \<open>What a call leaves in the history, with the rows of the audited tables before and after it.\<close>

definition history_tells :: "audit_actor \<Rightarrow> capture_limits \<Rightarrow> tenant_db \<Rightarrow> tenant_db \<Rightarrow> bool" where
  "history_tells actor limits db db' \<longleftrightarrow>
     (\<exists>hs. db_history db' = db_history db @ hs \<and> (\<forall>h \<in> set hs. h_actor h = actor) \<and>
        under_limit (cl_max_rows limits) (length hs) \<and>
        (\<forall>t \<in> set (audited_data_tables db). \<forall>i. \<exists>schema. map_of (schemas_of db) t = Some schema \<and>
           chain (row_image schema (rows_of db t i)) (map history_images (filter (history_of t i) hs))
             (row_image schema (rows_of db' t i))))"

lemma call_result_told:
  assumes "reports_changes e" "distinct (map fst (db_tables db))" "call_result e sql bound actor limits db db'"
  shows "history_tells actor limits db db'"
proof -
  let ?audited = "audited_data_tables db"
  obtain c stmts w c1 where c: "cn_db c = db" "cn_hook c = (if ?audited = [] then None else Some (?audited, limits, buffer_default))"
    and run: "run_statements e bound stmts (outcome_start False) c = (w, None, c1)"
    and fin: "if ?audited \<noteq> []
         then \<exists>n. flush_captured (xe_sq e) (case cn_hook c1 of Some (_, _, b) \<Rightarrow> b | None \<Rightarrow> buffer_default) actor (cn_db c1) = Inr (n, db')
         else db' = cn_db c1"
    using assms(3) unfolding call_result_def script_result_def by blast
  obtain evs where told: "told c evs c1" using run_statements_told [OF assms(1) run] .
  then have evs: "run_events evs (rows_of db) = Some (rows_of (cn_db c1))"
    and same: "schemas_of (cn_db c1) = schemas_of db" "db_history (cn_db c1) = db_history db"
    using c by (auto simp: told_def)
  show ?thesis
  proof (cases "?audited = []")
    case True
    with fin same show ?thesis by (auto simp: history_tells_def under_limit_def)
  next
    case False
    with fin told c obtain n where
      "flush_captured (xe_sq e) (fold (capture_hook ?audited limits) evs buffer_default) actor (cn_db c1) = Inr (n, db')"
      by (auto simp: told_def)
    from flush_tells [OF this evs audited_hooked] obtain hs where
      hs: "db' = cn_db c1\<lparr> db_history := db_history (cn_db c1) @ hs \<rparr>" "\<forall>h \<in> set hs. h_actor h = actor"
        "under_limit (cl_max_rows limits) (length hs)"
      and rows: "\<And>t i ct. t \<in> set ?audited \<Longrightarrow> describe (cn_db c1) t = Some ct \<Longrightarrow> s_audit_enabled (ct_schema ct) \<Longrightarrow>
        chain (row_image (ct_schema ct) (rows_of db t i)) (map history_images (filter (history_of t i) hs))
          (row_image (ct_schema ct) (rows_of (cn_db c1) t i))"
      by blast
    have after: "rows_of db' = rows_of (cn_db c1)" using hs(1) by (simp add: rows_of_def fun_eq_iff)
    have "\<exists>schema. map_of (schemas_of db) t = Some schema \<and>
        chain (row_image schema (rows_of db t i)) (map history_images (filter (history_of t i) hs))
          (row_image schema (rows_of db' t i))" if t: "t \<in> set ?audited" for t i
    proof -
      obtain ct where ct: "describe db t = Some ct" "s_audit_enabled (ct_schema ct)"
        using t audited_described [OF assms(2)] by auto
      obtain ct' where "describe (cn_db c1) t = Some ct'" "ct_schema ct' = ct_schema ct"
        using describe_same_schema [OF same(1) ct(1)] .
      with rows [OF t this(1), of i] ct describe_schema [of db t, symmetric] after show ?thesis
        by (intro exI [of _ "ct_schema ct"]) simp
    qed
    with hs same(2) show ?thesis by (auto simp: history_tells_def)
  qed
qed

section \<open>What a script may rely on\<close>

text \<open>The laws of SQLite the write executor rests on, and what follows for a call.\<close>

locale script_engine =
  fixes e :: exec_engine
  assumes savepoints: "savepoints_work e"
    and hooks: "hooks_work e"
    and reports: "reports_changes e"
begin

lemma call_ends:
  assumes "cn_hook c = None" "run_write_rpc e sql bound dry_run actor limits tier c = (r, c')"
  shows "ended e tier (cn_db c) (cn_savepoints c) dry_run (call_result e sql bound actor limits (cn_db c)) (r, c')"
  using run_write_rpc_ended [OF savepoints hooks assms(1), of tier dry_run sql bound actor limits] assms(2) by simp

lemma call_told:
  assumes "cn_hook c = None" "distinct (map fst (db_tables (cn_db c)))"
    "run_write_rpc e sql bound False actor limits tier c = (Inr (Inr w), c')"
  shows "history_tells actor limits (cn_db c) (cn_db c')"
  using call_ends [OF assms(1,3)] call_result_told [OF reports assms(2)] by (auto simp: ended_def)

end

text \<open>
  A stored write call is all or nothing on an engine whose savepoints work (\<open>script_engine\<close>: \<open>RELEASE\<close> and \<open>ROLLBACK TO\<close>
  do not fail; the code gives no promise where they do): whatever the script does and wherever it stops, the connection goes back to the pool with its stack of savepoints as it was, no
  authorizer and no history hook; the database is exactly the one before the call unless the call
  reports success and is not a rehearsal, and then its size is within the tenant's quota.
\<close>

theorem write_rpc_atomic:
  assumes "script_engine e" "cn_hook c = None" "run_write_rpc e sql bound dry_run actor limits tier c = (r, c')"
  shows "cn_savepoints c' = cn_savepoints c \<and> cn_auth c' = None \<and> cn_hook c' = None \<and>
    (if (\<exists>w. r = Inr (Inr w)) \<and> \<not> dry_run then quota_met e tier c' else cn_db c' = cn_db c)"
  using script_engine.call_ends [OF assms] by (auto simp: ended_def)

text \<open>
  The history of a committed write call is the story of the rows it changed, on an engine that reports every
  change and changes no rowid (an update that assigns \<open>id\<close> is reported under the new rowid only, and leaves the
  old one without an entry): it is
  appended to the history, within the limit on rows, every entry names the caller, and for
  every row of an audited table the entries lead, old image to new image without a gap, from the
  row as it was before the call to the row as it is after it.
\<close>

theorem write_rpc_history:
  assumes "script_engine e" "cn_hook c = None" "distinct (map fst (db_tables (cn_db c)))"
    "run_write_rpc e sql bound False actor limits tier c = (Inr (Inr w), c')"
  shows "\<exists>hs. db_history (cn_db c') = db_history (cn_db c) @ hs \<and> (\<forall>h \<in> set hs. h_actor h = actor) \<and>
    under_limit (cl_max_rows limits) (length hs) \<and>
    (\<forall>t \<in> set (audited_data_tables (cn_db c)). \<forall>i. \<exists>schema. map_of (schemas_of (cn_db c)) t = Some schema \<and>
       chain (row_image schema (rows_of (cn_db c) t i)) (map history_images (filter (history_of t i) hs))
         (row_image schema (rows_of (cn_db c') t i)))"
  using script_engine.call_told [OF assms] by (simp add: history_tells_def)

section \<open>An engine that inserts a row\<close>

definition inserted_row :: db_row where
  "inserted_row = [(''title'', Text ''u1''), (''views'', Integer 5)]"

definition ref_effect :: "tenant_db \<Rightarrow> (string \<times> pre_update) list \<times> tenant_db" where
  "ref_effect db =
     (case describe db ''notes'' of
        None \<Rightarrow> ([], db)
      | Some ct \<Rightarrow>
          if map_of (ct_rows ct) 7 = None
          then ([(''notes'', PreInsert 7 (Inr (map snd inserted_row)))], put_rows db ''notes'' ((7, inserted_row) # ct_rows ct))
          else ([], db))"

definition ref_engine :: exec_engine where
  "ref_engine =
     \<lparr> xe_prep = \<lparr> pe_actions = (\<lambda>_. Inr [\<lparr> ac_action = AInsert ''notes'', ac_accessor = None \<rparr>]),
                   pe_complete = (\<lambda>_. True), pe_table_list = Inr [] \<rparr>,
       xe_sq = ref_sqlite, xe_display = (\<lambda>_. ''error''), xe_hash = id, xe_columns = (\<lambda>_. []),
       xe_run = (\<lambda>db _ _. \<lparr> rn_rows = [], rn_error = None, rn_effect = (\<lambda>_. ref_effect db), rn_changed = True,
                            rn_changes = 1, rn_last_rowid = 7 \<rparr>),
       xe_control = (\<lambda>_ _. None), xe_install = (\<lambda>_. None), xe_remove = (\<lambda>_. None), xe_audited = (\<lambda>_. None) \<rparr>"

lemma schemas_put_rows: "schemas_of (put_rows db coll rows) = schemas_of db"
  by (simp add: schemas_of_def put_rows_def case_prod_unfold)

lemma ref_effect_reported:
  "run_events (fst (ref_effect db)) (rows_of db) = Some (rows_of (snd (ref_effect db))) \<and>
   schemas_of (snd (ref_effect db)) = schemas_of db \<and> db_history (snd (ref_effect db)) = db_history db"
proof (cases "describe db ''notes''")
  case (Some ct)
  have "rows_of (put_rows db ''notes'' ((7, r) # ct_rows ct)) = put_row (rows_of db) ''notes'' 7 (Some (map snd r))" for r
    using Some by (auto simp: rows_of_def describe_put_rows put_row_def fun_eq_iff)
  moreover have "db_history (put_rows db ''notes'' rows) = db_history db" for rows by (simp add: put_rows_def)
  moreover have "rows_of db ''notes'' i = map_option (map snd) (map_of (ct_rows ct) i)" for i using Some by (simp add: rows_of_def)
  ultimately show ?thesis using Some by (simp add: ref_effect_def schemas_put_rows)
qed (simp add: ref_effect_def)

interpretation refx: script_engine ref_engine
proof
  show "reports_changes ref_engine"
    using ref_effect_reported by (simp add: reports_changes_def ref_engine_def case_prod_unfold)
qed (simp_all add: savepoints_work_def hooks_work_def ref_engine_def)

definition example_conn :: conn where
  "example_conn = \<lparr> cn_db = example_db, cn_savepoints = [], cn_auth = None, cn_hook = None \<rparr>"

definition example_limits :: capture_limits where
  "example_limits = \<lparr> cl_max_rows = 10, cl_max_bytes = 0 \<rparr>"

definition example_call :: "bool \<Rightarrow> write_result \<times> conn" where
  "example_call dry_run =
     run_write_rpc ref_engine ''INSERT INTO notes VALUES (7, 1, 5);'' Map.empty dry_run actor_service example_limits 1 example_conn"

lemma example_call_runs:
  "(case fst (example_call False) of Inr (Inr _) \<Rightarrow> True | _ \<Rightarrow> False)"
  "(case fst (example_call True) of Inr (Inr _) \<Rightarrow> True | _ \<Rightarrow> False)"
  "map h_record_id (db_history (cn_db (snd (example_call False)))) = [7]"
  by code_simp+

theorem write_rpc_atomic_witness:
  "\<exists>w c'. example_call True = (Inr (Inr w), c') \<and> cn_db c' = example_db \<and> cn_auth c' = None \<and> cn_savepoints c' = []"
proof -
  obtain r c' where run: "example_call True = (r, c')" by (cases "example_call True")
  with example_call_runs(2) obtain w where "r = Inr (Inr w)" by (auto split: sum.splits)
  with write_rpc_atomic [OF refx.script_engine_axioms _ run [unfolded example_call_def]] run show ?thesis
    by (simp add: example_conn_def)
qed

theorem write_rpc_history_witness:
  "\<exists>w c' h schema. example_call False = (Inr (Inr w), c') \<and> db_history (cn_db c') = [h] \<and> h_record_id h = 7 \<and>
     h_actor h = actor_service \<and> map_of (schemas_of example_db) ''notes'' = Some schema \<and>
     chain (row_image schema None) (map history_images (filter (history_of ''notes'' 7) [h]))
       (row_image schema (rows_of (cn_db c') ''notes'' 7))"
proof -
  obtain r c' where run: "example_call False = (r, c')" by (cases "example_call False")
  with example_call_runs(1) obtain w where w: "r = Inr (Inr w)" by (auto split: sum.splits)
  from example_call_runs(3) run obtain h where h: "db_history (cn_db c') = [h]" "h_record_id h = 7" by auto
  have ex: "cn_hook example_conn = None" "distinct (map fst (db_tables (cn_db example_conn)))" "cn_db example_conn = example_db"
    "db_history example_db = []"
    by (simp_all add: example_conn_def example_db_def)
  have au: "''notes'' \<in> set (audited_data_tables example_db)" "rows_of example_db ''notes'' 7 = None" by code_simp+
  from write_rpc_history [OF refx.script_engine_axioms ex(1,2) run [unfolded example_call_def w]] h(1) ex(3,4)
  have "h_actor h = actor_service" "\<forall>t \<in> set (audited_data_tables example_db). \<forall>i. \<exists>schema.
      map_of (schemas_of example_db) t = Some schema \<and>
      chain (row_image schema (rows_of example_db t i)) (map history_images (filter (history_of t i) [h]))
        (row_image schema (rows_of (cn_db c') t i))"
    by auto
  with h au run w show ?thesis by metis
qed

end
