(* ===== verification/Rpc_Call.thy ===== *)
theory Rpc_Call
  imports Rpc_Exec
begin

text \<open>
  Calling a stored procedure: the template arm of \<open>rpc/exec_query.rs\<close> and the REST handler of
  \<open>rpc/handler.rs\<close> with its three arms (template, read SQL, write SQL). The rows of the registry
  are read once to choose the arm and, in the read arm, a second time to run it; both snapshots
  are arguments. The call counter is bumped by a task of its own after the reply and is
  the last component of the result.
\<close>

section \<open>Replies\<close>

text \<open>A message is its text or the typed error whose rendering it is.\<close>

datatype rpc_message =
    MsgPlain string
  | MsgParam param_error
  | MsgTemplate template_error
  | MsgBuild list_error
  | MsgRegistry registry_error
  | MsgStatement statement_error
  | MsgExec exec_error

datatype rpc_reply =
    RpcError nat string rpc_message
  | RpcResponse response
  | RpcOk json

definition param_reply :: "param_error \<Rightarrow> rpc_reply" where
  "param_reply e =
     (case e of
        Missing _ \<Rightarrow> RpcError 400 ''PARAM_MISSING'' (MsgParam e)
      | TypeMismatch _ _ _ \<Rightarrow> RpcError 400 ''PARAM_TYPE_MISMATCH'' (MsgParam e)
      | Unknown _ \<Rightarrow> RpcError 400 ''PARAM_UNKNOWN'' (MsgParam e)
      | BadParamsJson _ \<Rightarrow> RpcError 500 ''PARAM_BAD_STORED'' (MsgParam e))"

definition map_template_err :: "template_error \<Rightarrow> rpc_reply" where
  "map_template_err e =
     (case e of
        NotScalar p \<Rightarrow> RpcError 400 ''RPC_PARAM_NOT_SCALAR'' (MsgTemplate e)
      | Arg pe \<Rightarrow> param_reply pe
      | _ \<Rightarrow> RpcError 409 ''RPC_QUERY_STALE'' (MsgTemplate e))"

section \<open>The template arm\<close>

fun caller_id :: "auth_ctx \<Rightarrow> string option" where
  "caller_id (User uid _) = Some uid"
| "caller_id Anon = None"
| "caller_id (Service _) = None"

definition call_filter :: "query_template \<Rightarrow> jmap \<Rightarrow> string option \<Rightarrow> (filter_ast option, template_error) result" where
  "call_filter tpl args auth_id =
     (case qt_filter tpl of
        Some f \<Rightarrow> bind_r (substitute_to_filter_ast f args auth_id) (\<lambda>a. Inr (Some a))
      | None \<Rightarrow> Inr None)"

definition list_reply :: "reader \<Rightarrow> (list_page, list_core_error) result \<Rightarrow> (list_page, rpc_reply) result" where
  "list_reply rd res =
     (case res of
        Inr p \<Rightarrow> Inr p
      | Inl NoSuchCollection \<Rightarrow> Inl (RpcError 409 ''RPC_QUERY_STALE'' (MsgPlain ''collection no longer exists''))
      | Inl (Build e) \<Rightarrow>
          if e = PageRangeInvalid then Inl (RpcResponse (map_list_error PageRangeInvalid))
          else Inl (RpcError 409 ''RPC_QUERY_STALE'' (MsgBuild e))
      | Inl (Http resp) \<Rightarrow> Inl (RpcResponse resp)
      | Inl (Db e) \<Rightarrow> Inl (RpcResponse (db_error_response (rd_display rd) e)))"

definition user_id_param_text :: string where
  "user_id_param_text =
     ''this kind='' @ squoted ''query'' @ '' rpc declares a caller-suppliable '' @ squoted ''user_id'' @
     '' param, which a template never binds from the caller'' @ [CHR 0x27] @ ''s token '' @ em_dash @
     '' recreate it using the {'' @ [dquote] @ ''$auth'' @ [dquote] @ '':'' @ [dquote] @ ''id'' @ [dquote] @ ''} operand''"

definition run_query_rpc ::
  "serde \<Rightarrow> reader \<Rightarrow> auth_ctx \<Rightarrow> stored_rpc \<Rightarrow> jmap \<Rightarrow> u32 option \<Rightarrow> u32 option \<Rightarrow> (list_page, rpc_reply) result" where
  "run_query_rpc sd rd ctx stored body page per_page =
     (if declares_user_id (sr_params stored)
      then Inl (RpcError 409 ''RPC_KIND_INVALID'' (MsgPlain user_id_param_text))
      else
        bind_r (map_err (\<lambda>e. RpcError 409 ''RPC_QUERY_STALE'' (MsgTemplate e))
                  (parse_template (sd_parse_template sd) (unwrap_or (sr_query_json stored) []))) (\<lambda>tpl.
        bind_r (map_err map_template_err (resolve_args (sr_params stored) body)) (\<lambda>args.
        bind_r (map_err map_template_err (call_filter tpl args (caller_id ctx))) (\<lambda>flt.
          list_reply rd (run_structured_list_rpc_grant rd ctx (qt_collection tpl) (template_request tpl flt page per_page))))))"

section \<open>Outcomes\<close>

datatype rpc_outcome =
    OutOk query_result
  | OutWrite write_rpc_outcome
  | OutQuery list_page
  | OutNotFound
  | OutAnonDenied
  | OutWriteRoleDenied
  | OutUserIdBindingRequired
  | OutParam param_error
  | OutExec exec_error
  | OutStatementFailed statement_error
  | OutTxCommitFailed string
  | OutRegistry registry_error

definition rows_json :: "query_result \<Rightarrow> jmap" where
  "rows_json qr =
     [(''column_names'', JArray (map JString (qr_column_names qr))),
      (''rows'', JArray (map (\<lambda>row. JArray (map cell_to_json row)) (qr_rows qr))),
      (''row_count'', JNumber (PosInt (length (qr_rows qr)))),
      (''truncated'', JBool (qr_truncated qr))]"

definition no_rows :: query_result where
  "no_rows = \<lparr> qr_column_names = [], qr_column_types = [], qr_rows = [], qr_truncated = False, qr_sql_hash = [] \<rparr>"

definition write_json :: "write_rpc_outcome \<Rightarrow> json" where
  "write_json w = JObject (
     rows_json (unwrap_or (wo_last_rows w) no_rows) @
     [(''affected_rows'', JNumber (jnum_of_int (wo_affected_rows w))),
      (''last_insert_rowid'', case wo_last_insert_rowid w of Some i \<Rightarrow> JNumber (jnum_of_int i) | None \<Rightarrow> JNull),
      (''statement_count'', JNumber (PosInt (wo_statement_count w)))] @
     (if wo_dry_run w then [(''dry_run'', JBool True), (''would_commit'', JBool True)] else []))"

definition page_json :: "list_page \<Rightarrow> json" where
  "page_json p = JObject
     [(''records'', JArray (map JObject (lp_records p))),
      (''total'', JNumber (jnum_of_int (lp_total p))),
      (''page'', JNumber (PosInt (unat (lp_page p)))),
      (''perPage'', JNumber (PosInt (unat (lp_per_page p))))]"

definition statement_code :: "statement_error \<Rightarrow> string" where
  "statement_code e =
     (if se_quota_exceeded e then ''TENANT_QUOTA_EXCEEDED''
      else if se_capture_limit_exceeded e then ''CAPTURE_LIMIT_EXCEEDED''
      else if se_authorizer_denied e then ''INVALID_SQL_FOR_MODE''
      else ''RPC_STATEMENT_FAILED'')"

definition statement_status :: "statement_error \<Rightarrow> nat" where
  "statement_status e = (if se_quota_exceeded e then 507 else if se_capture_limit_exceeded e then 409 else 400)"

definition exec_reply :: "exec_error \<Rightarrow> rpc_reply" where
  "exec_reply e =
     (case e of
        TooLarge _ _ \<Rightarrow> RpcError 413 ''QUERY_TOO_LARGE'' (MsgExec e)
      | Forbidden _ \<Rightarrow> RpcError 403 ''QUERY_FORBIDDEN'' (MsgExec e)
      | Timeout _ \<Rightarrow> RpcError 408 ''QUERY_TIMEOUT'' (MsgExec e)
      | Sql _ \<Rightarrow> RpcError 400 ''SQL_ERROR'' (MsgExec e))"

definition registry_reply :: "registry_error \<Rightarrow> rpc_reply" where
  "registry_reply e =
     (case e of
        RegNotFound _ \<Rightarrow> RpcError 404 ''RPC_NOT_FOUND'' (MsgRegistry e)
      | BadParams _ \<Rightarrow> RpcError 500 ''PARAM_BAD_STORED'' (MsgRegistry e)
      | AlreadyExists _ \<Rightarrow> RpcError 500 ''DB_ERROR'' (MsgRegistry e)
      | KindInvalid _ \<Rightarrow> RpcError 400 ''RPC_KIND_INVALID'' (MsgRegistry e))"

definition outcome_to_response :: "rpc_outcome \<Rightarrow> string \<Rightarrow> rpc_reply" where
  "outcome_to_response o' name =
     (case o' of
        OutOk qr \<Rightarrow> RpcOk (JObject (rows_json qr))
      | OutQuery p \<Rightarrow> RpcOk (page_json p)
      | OutWrite w \<Rightarrow> RpcOk (write_json w)
      | OutNotFound \<Rightarrow> RpcError 404 ''RPC_NOT_FOUND'' (MsgPlain (''no such rpc: '' @ name))
      | OutAnonDenied \<Rightarrow> RpcError 403 ''ANON_DENIED'' (MsgPlain (''anon role cannot call rpc '' @ squoted name))
      | OutWriteRoleDenied \<Rightarrow> RpcError 403 ''RPC_DENIED'' (MsgPlain (''role cannot call rpc '' @ squoted name))
      | OutUserIdBindingRequired \<Rightarrow>
          RpcError 403 ''USER_ID_BINDING_REQUIRED''
            (MsgPlain '':user_id binding requires a user token (anon cannot call this RPC)'')
      | OutParam e \<Rightarrow> param_reply e
      | OutExec e \<Rightarrow> exec_reply e
      | OutStatementFailed e \<Rightarrow> RpcError (statement_status e) (statement_code e) (MsgStatement e)
      | OutTxCommitFailed msg \<Rightarrow> RpcError 500 ''TX_COMMIT_FAILED'' (MsgPlain msg)
      | OutRegistry e \<Rightarrow> registry_reply e)"

text \<open>The three successes bump the counter of the caller's role.\<close>

definition counts :: "rpc_outcome \<Rightarrow> bool" where
  "counts o' = (case o' of OutOk _ \<Rightarrow> True | OutQuery _ \<Rightarrow> True | OutWrite _ \<Rightarrow> True | _ \<Rightarrow> False)"

section \<open>The handler\<close>

definition MAX_ROWS :: nat where "MAX_ROWS = 1000"
definition MAX_BYTES :: nat where "MAX_BYTES = 1048576"

record dry_run_qs =
  dq_dry_run :: "bool option"
  dq_page :: "string option"
  dq_per_page :: "string option"

definition parse_page_param :: "string option \<Rightarrow> (u32 option, unit) result" where
  "parse_page_param raw =
     (case raw of
        None \<Rightarrow> Inr None
      | Some s \<Rightarrow>
          if trim s = [] then Inr None
          else (case parse_unsigned 32 (trim s) of Some n \<Rightarrow> Inr (Some (of_nat n)) | None \<Rightarrow> Inl ()))"

record rpc_host =
  rh_engine :: exec_engine
  rh_serde :: serde
  rh_reader :: reader
  rh_deadline_ms :: nat
  rh_limits :: capture_limits
  rh_tier :: int

definition body_map :: "json option \<Rightarrow> jmap option" where
  "body_map body =
     (case body of None \<Rightarrow> Some [] | Some JNull \<Rightarrow> Some [] | Some (JObject m) \<Rightarrow> Some m | Some _ \<Rightarrow> None)"

definition may_call :: "auth_ctx \<Rightarrow> stored_rpc \<Rightarrow> bool" where
  "may_call ctx stored \<longleftrightarrow> is_service ctx \<or> sr_anon_callable stored"

text \<open>The parameter \<open>user_id\<close>: taken from the token of a user, refused to the anonymous caller.\<close>

definition bind_user_id :: "auth_ctx \<Rightarrow> stored_rpc \<Rightarrow> jmap \<Rightarrow> (jmap, rpc_outcome) result" where
  "bind_user_id ctx stored body =
     (case ctx of
        User uid _ \<Rightarrow>
          Inr (if declares_user_id (sr_params stored) then jmap_insert ''user_id'' (JString uid) body else body)
      | Anon \<Rightarrow> if declares_user_id (sr_params stored) then Inl OutUserIdBindingRequired else Inr body
      | Service _ \<Rightarrow> Inr body)"

definition call_query_arm ::
  "rpc_host \<Rightarrow> auth_ctx \<Rightarrow> stored_rpc \<Rightarrow> dry_run_qs \<Rightarrow> jmap \<Rightarrow> (rpc_outcome, rpc_reply) result" where
  "call_query_arm h ctx stored qs body =
     (if \<not> may_call ctx stored then Inr OutAnonDenied
      else if unwrap_or (dq_dry_run qs) False
      then Inl (RpcError 400 ''RPC_KIND_INVALID''
             (MsgPlain (''dry_run is not supported on kind='' @ squoted ''query'' @ '' (a template only reads)'')))
      else case (parse_page_param (dq_page qs), parse_page_param (dq_per_page qs)) of
          (Inr p, Inr pp) \<Rightarrow>
            bind_r (run_query_rpc (rh_serde h) (rh_reader h) ctx stored body p pp) (\<lambda>pg. Inr (OutQuery pg))
        | _ \<Rightarrow> Inl (RpcResponse (map_list_error PageRangeInvalid)))"

definition call_read_arm ::
  "rpc_host \<Rightarrow> auth_ctx \<Rightarrow> rpc_row list \<Rightarrow> string \<Rightarrow> jmap \<Rightarrow> conn \<Rightarrow> rpc_outcome \<times> conn" where
  "call_read_arm h ctx rows name body rc =
     (case rpc_lookup (rh_serde h) rows name of
        Inl e \<Rightarrow> (OutRegistry e, rc)
      | Inr None \<Rightarrow> (OutNotFound, rc)
      | Inr (Some stored) \<Rightarrow>
          if \<not> may_call ctx stored then (OutAnonDenied, rc)
          else (case bind_user_id ctx stored body of
                  Inl o' \<Rightarrow> (o', rc)
                | Inr body' \<Rightarrow>
                    (case validate_and_bind (sr_params stored) body' of
                       Inl e \<Rightarrow> (OutParam e, rc)
                     | Inr bound \<Rightarrow>
                         (let (res, rc') = execute_read_query_with_named (rh_engine h) (rh_deadline_ms h) rc (sr_sql stored)
                                bound MAX_ROWS MAX_BYTES
                          in (case res of Inr qr \<Rightarrow> OutOk qr | Inl e \<Rightarrow> OutExec e, rc')))))"

definition call_write_arm ::
  "rpc_host \<Rightarrow> auth_ctx \<Rightarrow> stored_rpc \<Rightarrow> bool \<Rightarrow> jmap \<Rightarrow> conn \<Rightarrow> rpc_outcome \<times> conn" where
  "call_write_arm h ctx stored dry_run body wc =
     (if \<not> may_call ctx stored then (OutWriteRoleDenied, wc)
      else case bind_user_id ctx stored body of
          Inl o' \<Rightarrow> (o', wc)
        | Inr body' \<Rightarrow>
            (case validate_and_bind (sr_params stored) body' of
               Inl e \<Rightarrow> (OutParam e, wc)
             | Inr bound \<Rightarrow>
                 if length (sr_sql stored) > MAX_BYTES then (OutExec (TooLarge (length (sr_sql stored)) MAX_BYTES), wc)
                 else (case run_write_rpc (rh_engine h) (sr_sql stored) bound dry_run (actor_from_auth_ctx ctx)
                              (rh_limits h) (rh_tier h) wc of
                         (Inr (Inr w), wc') \<Rightarrow> (OutWrite w, wc')
                       | (Inr (Inl e), wc') \<Rightarrow> (OutStatementFailed e, wc')
                       | (Inl msg, wc') \<Rightarrow> (OutTxCommitFailed msg, wc'))))"

text \<open>The connections of a pool: the writer, and the reader the read arm borrows.\<close>

record rpc_conns =
  rp_writer :: conn
  rp_reader :: conn

definition call_arms ::
  "rpc_host \<Rightarrow> auth_ctx \<Rightarrow> rpc_row list \<Rightarrow> rpc_row list \<Rightarrow> string \<Rightarrow> dry_run_qs \<Rightarrow> jmap \<Rightarrow> rpc_conns
     \<Rightarrow> (rpc_outcome, rpc_reply) result \<times> rpc_conns" where
  "call_arms h ctx rows rows2 name qs body cs =
     (case rpc_lookup (rh_serde h) rows name of
        Inl e \<Rightarrow> (Inr (OutRegistry e), cs)
      | Inr None \<Rightarrow> (Inr OutNotFound, cs)
      | Inr (Some stored) \<Rightarrow>
          if sr_kind stored = KQuery then (call_query_arm h ctx stored qs body, cs)
          else (case sr_mode stored of
                  RpcRead \<Rightarrow>
                    (let (o', c) = call_read_arm h ctx rows2 name body (rp_reader cs) in (Inr o', cs\<lparr> rp_reader := c \<rparr>))
                | RpcWrite \<Rightarrow>
                    (let (o', c) = call_write_arm h ctx stored (unwrap_or (dq_dry_run qs) False) body (rp_writer cs)
                     in (Inr o', cs\<lparr> rp_writer := c \<rparr>))))"

definition call_rpc ::
  "rpc_host \<Rightarrow> auth_ctx \<Rightarrow> rpc_row list \<Rightarrow> rpc_row list \<Rightarrow> string \<Rightarrow> dry_run_qs \<Rightarrow> json option \<Rightarrow> rpc_conns
     \<Rightarrow> rpc_reply \<times> rpc_conns \<times> bool" where
  "call_rpc h ctx rows rows2 name qs body cs =
     (case body_map body of
        None \<Rightarrow> (RpcError 400 ''BAD_BODY'' (MsgPlain ''request body must be a JSON object''), cs, False)
      | Some m \<Rightarrow>
          (case call_arms h ctx rows rows2 name qs m cs of
             (Inl reply, cs') \<Rightarrow> (reply, cs', False)
           | (Inr o', cs') \<Rightarrow> (outcome_to_response o' name, cs', counts o')))"

section \<open>Identity\<close>

lemma jmap_insert_twice: "jmap_insert k v (jmap_insert k w m) = jmap_insert k v m"
  by (induction m) auto

lemma bind_user_id_insert:
  "declares_user_id (sr_params stored) \<Longrightarrow> ctx = User uid h \<or> ctx = Anon \<Longrightarrow>
    bind_user_id ctx stored (jmap_insert ''user_id'' v m) = bind_user_id ctx stored m"
  by (auto simp: bind_user_id_def jmap_insert_twice)

text \<open>The parameter a user's SQL call binds is the id of the token.\<close>

lemma bind_params_other: "bind_params specs body bound = Inr b \<Longrightarrow> \<not> declares_user_id specs \<Longrightarrow> b ''user_id'' = bound ''user_id''"
  by (induction specs arbitrary: bound) (auto simp: declares_user_id_def)

lemma bind_params_user_id:
  assumes "bind_params specs body bound = Inr b" "declares_user_id specs" "map_of body ''user_id'' = Some (JString uid)"
  shows "b ''user_id'' = Some (BText uid)"
  using assms
proof (induction specs arbitrary: bound)
  case (Cons spec specs)
  show ?case
  proof (cases "declares_user_id specs")
    case True
    with Cons show ?thesis by auto
  next
    case False
    with Cons.prems have "ps_name spec = ''user_id''" by (auto simp: declares_user_id_def)
    with Cons.prems(1,3) have "bind_params specs body (bound(''user_id'' \<mapsto> BText uid)) = Inr b"
      by (auto simp: arg_value_def coerce_def Let_def split: if_splits)
    from bind_params_other [OF this False] show ?thesis by simp
  qed
qed (simp add: declares_user_id_def)

lemma user_bound:
  assumes "bind_user_id (User uid h) stored body = Inr body'" "declares_user_id (sr_params stored)"
    "validate_and_bind (sr_params stored) body' = Inr bound"
  shows "bound ''user_id'' = Some (BText uid)"
  using assms by (auto simp: bind_user_id_def validate_and_bind_def map_of_jmap_insert intro: bind_params_user_id)

text \<open>What an SQL call of a caller other than the service has passed before its statement runs.\<close>

definition admitted :: "auth_ctx \<Rightarrow> stored_rpc \<Rightarrow> (string \<rightharpoonup> bound_value) \<Rightarrow> bool" where
  "admitted ctx stored bound \<longleftrightarrow>
     sr_anon_callable stored \<and>
     (declares_user_id (sr_params stored) \<longrightarrow> (\<exists>uid h. ctx = User uid h \<and> bound ''user_id'' = Some (BText uid)))"

lemma bound_admitted:
  assumes "\<not> is_service ctx" "may_call ctx stored" "bind_user_id ctx stored body = Inr body'"
    "validate_and_bind (sr_params stored) body' = Inr bound"
  shows "admitted ctx stored bound"
proof (cases ctx)
  case (User uid h)
  with assms user_bound [of uid h stored body body' bound] show ?thesis
    by (auto simp: admitted_def may_call_def)
qed (use assms in \<open>auto simp: admitted_def may_call_def bind_user_id_def split: if_splits\<close>)

lemma refusal_is_not_success: "bind_user_id ctx stored body = Inl o' \<Longrightarrow> o' = OutUserIdBindingRequired"
  by (auto simp: bind_user_id_def split: auth_ctx.splits if_splits)

lemma read_arm_admits:
  assumes "\<not> is_service ctx" "call_read_arm h ctx rows name body rc = (OutOk qr, rc')"
  obtains stored bound where "rpc_lookup (rh_serde h) rows name = Inr (Some stored)" "admitted ctx stored bound"
    "execute_read_query_with_named (rh_engine h) (rh_deadline_ms h) rc (sr_sql stored) bound MAX_ROWS MAX_BYTES = (Inr qr, rc')"
proof -
  from assms(2) obtain stored body' bound where b: "rpc_lookup (rh_serde h) rows name = Inr (Some stored)"
    "may_call ctx stored" "bind_user_id ctx stored body = Inr body'" "validate_and_bind (sr_params stored) body' = Inr bound"
    "execute_read_query_with_named (rh_engine h) (rh_deadline_ms h) rc (sr_sql stored) bound MAX_ROWS MAX_BYTES = (Inr qr, rc')"
    by (auto simp: call_read_arm_def Let_def dest: refusal_is_not_success
        split: sum.splits option.splits if_splits prod.splits)
  from that [OF b(1) bound_admitted [OF assms(1) b(2-4)] b(5)] show ?thesis .
qed

lemma write_arm_admits:
  assumes "\<not> is_service ctx" "call_write_arm h ctx stored dry_run body wc = (o', wc')" "wc' \<noteq> wc \<or> (\<exists>w. o' = OutWrite w)"
  obtains bound r where "admitted ctx stored bound"
    "run_write_rpc (rh_engine h) (sr_sql stored) bound dry_run (actor_from_auth_ctx ctx) (rh_limits h) (rh_tier h) wc = (r, wc')"
proof -
  from assms(2,3) obtain body' bound where b: "may_call ctx stored" "bind_user_id ctx stored body = Inr body'"
    "validate_and_bind (sr_params stored) body' = Inr bound"
    "wc' = snd (run_write_rpc (rh_engine h) (sr_sql stored) bound dry_run (actor_from_auth_ctx ctx) (rh_limits h) (rh_tier h) wc)"
    by (auto simp: call_write_arm_def dest: refusal_is_not_success split: sum.splits if_splits prod.splits)
  from that [OF bound_admitted [OF assms(1) b(1-3)]] b(4) show ?thesis by (metis prod.collapse)
qed

text \<open>
  C31. An end user's SQL call cannot choose whose id it runs under. For a stored call that
  declares the parameter \<open>user_id\<close>, the reply and the state of both connections are the same
  whatever the body says of \<open>user_id\<close>, for a user and for the anonymous caller, even if the
  registry changes between the two look-ups of the read arm.
\<close>

theorem rpc_user_id_not_from_body:
  assumes "\<not> is_service ctx" "rpc_lookup (rh_serde h) rows name = Inr (Some stored)" "sr_kind stored = KSql"
    "declares_user_id (sr_params stored)"
    "rpc_lookup (rh_serde h) rows2 name = Inr (Some stored2)" "declares_user_id (sr_params stored2)"
  shows "call_rpc h ctx rows rows2 name qs (Some (JObject (jmap_insert ''user_id'' v m))) cs =
    call_rpc h ctx rows rows2 name qs (Some (JObject m)) cs"
proof -
  have "bind_user_id ctx s (jmap_insert ''user_id'' v m) = bind_user_id ctx s m" if "declares_user_id (sr_params s)" for s
    using bind_user_id_insert [OF that] assms(1) by (cases ctx) auto
  with assms show ?thesis
    by (simp add: call_rpc_def body_map_def call_arms_def call_read_arm_def call_write_arm_def cong: rpc_mode.case_cong)
qed

text \<open>
  C32. A caller other than the service changes data through a stored call only where the
  author allowed it: when a call by a user or by the anonymous caller leaves the writer's
  connection changed, or replies to a write, it was a write-mode SQL call granted to such
  callers, and its \<open>user_id\<close>, if it declares one, was bound to the id of a user's token.
\<close>

theorem rpc_write_admitted:
  assumes "\<not> is_service ctx" "call_rpc h ctx rows rows2 name qs body cs = (reply, cs', bumped)"
    "rp_writer cs' \<noteq> rp_writer cs"
  shows "\<exists>stored bound r. rpc_lookup (rh_serde h) rows name = Inr (Some stored) \<and> sr_kind stored = KSql \<and>
    sr_mode stored = RpcWrite \<and> admitted ctx stored bound \<and>
    run_write_rpc (rh_engine h) (sr_sql stored) bound (unwrap_or (dq_dry_run qs) False) (actor_from_auth_ctx ctx)
      (rh_limits h) (rh_tier h) (rp_writer cs) = (r, rp_writer cs')"
proof -
  obtain m o' where "call_arms h ctx rows rows2 name qs m cs = (o', cs')"
    using assms(2,3) by (auto simp: call_rpc_def split: option.splits sum.splits prod.splits)
  with assms(3) obtain stored o'' where s: "rpc_lookup (rh_serde h) rows name = Inr (Some stored)" "sr_kind stored = KSql"
    "sr_mode stored = RpcWrite"
    "call_write_arm h ctx stored (unwrap_or (dq_dry_run qs) False) m (rp_writer cs) = (o'', rp_writer cs')"
    by (auto simp: call_arms_def split: sum.splits option.splits if_splits rpc_mode.splits prod.splits)
       (metis rpc_kind.exhaust)+
  from write_arm_admits [OF assms(1) s(4)] assms(3) s(1-3) show ?thesis by blast
qed

section \<open>A template that still fits is never stale\<close>

lemma coerce_err: "coerce spec v = Inl e \<Longrightarrow> \<exists>n ty got. e = TypeMismatch n ty got"
  by (auto simp: coerce_def Let_def split: json.splits param_type.splits option.splits if_splits)

lemma arg_value_err: "arg_value spec body = Inl e \<Longrightarrow> e = Missing (ps_name spec)"
  by (auto simp: arg_value_def split: option.splits bool.splits)

lemma resolve_args_err:
  assumes "resolve_args specs args = Inl e" "map_template_err e = RpcError status code msg"
  shows "status = 400"
proof -
  have "check_args specs args = Inl e" using assms(1) by (auto simp: resolve_args_def result_Inl)
  then have "(\<exists>k. e = NotScalar k) \<or> (\<exists>k. e = Arg (Unknown k)) \<or> (\<exists>k. e = Arg (Missing k)) \<or>
      (\<exists>n ty got. e = Arg (TypeMismatch n ty got))"
    unfolding check_args_def check_known_params_def
    by (fastforce simp: result_Inl dest!: try_for_each_err coerce_err arg_value_err split: if_splits)
  with assms(2) show ?thesis by (auto simp: map_template_err_def param_reply_def)
qed

lemma build_with_clauses:
  assumes "build_structured_list_sql schema (template_request tpl flt0 None None) None None = Inr r0"
    "case flt of None \<Rightarrow> True | Some a \<Rightarrow> \<exists>r. compile schema a = Inr r"
    "build_structured_list_sql schema (template_request tpl flt page per_page) owner policy = Inl e"
  shows "e = PageRangeInvalid"
proof -
  obtain w where "build_where_clause schema flt owner policy = Inr w"
    using assms(2) by (auto simp: build_where_clause_def Let_def case_prod_unfold split: option.splits)
  with assms(1,3) show ?thesis
    by (auto simp: build_structured_list_sql_def template_request_def result_Inl page_window_def Let_def case_prod_unfold
        split: if_splits)
qed

text \<open>
  A stored template call does not go stale while its collection still fits it: if the template passes
  save-time validation against the schema the reader serves now, its parameter names are distinct, none of them is \<open>user_id\<close>, and no
  parameter stands inside a full-text operand, then the only error of its own the call can answer with is a complaint about
  the arguments, never a 409; everything else is the list pipeline's reply under the caller's identity. Without the last two
  conditions it can answer 409: see \<open>null_fts_query_goes_stale\<close> below and the guard on \<open>user_id\<close>.
\<close>

theorem fitting_template_never_stale:
  assumes "\<not> declares_user_id (sr_params stored)"
    "parse_template (sd_parse_template sd) (unwrap_or (sr_query_json stored) []) = Inr tpl"
    "rd_schema rd (qt_collection tpl) = Inr (Some schema)"
    "validate_template schema tpl (sr_params stored) = Inr ()"
    "\<And>f. qt_filter tpl = Some f \<Longrightarrow> fts_closed f" "distinct (map ps_name (sr_params stored))"
    "run_query_rpc sd rd ctx stored body page per_page = Inl (RpcError status code msg)"
  shows "status = 400 \<and> (\<exists>e. resolve_args (sr_params stored) body = Inl e \<and> map_template_err e = RpcError status code msg)"
proof (cases "resolve_args (sr_params stored) body")
  case (Inl e)
  with assms(1,2,7) have "map_template_err e = RpcError status code msg" by (auto simp: run_query_rpc_def)
  with resolve_args_err [OF Inl] Inl show ?thesis by blast
next
  case (Inr args)
  obtain flt where flt: "call_filter tpl args (caller_id ctx) = Inr flt"
    "case flt of None \<Rightarrow> True | Some a \<Rightarrow> \<exists>r. compile schema a = Inr r"
  proof (cases "qt_filter tpl")
    case (Some f)
    with validated_template_compiles [OF assms(4) Some assms(5) [OF Some] assms(6) Inr, of "caller_id ctx"] that show ?thesis
      by (auto simp: call_filter_def)
  qed (use that [of None] in \<open>auto simp: call_filter_def\<close>)
  obtain flt0 r0 where dry: "build_structured_list_sql schema (template_request tpl flt0 None None) None None = Inr r0"
    and open_coll: "\<not> is_protected_collection (qt_collection tpl)"
    using assms(4) by (auto simp: validate_template_def split: if_splits)
  let ?run = "run_structured_list_rpc_grant rd ctx (qt_collection tpl) (template_request tpl flt page per_page)"
  have "list_reply rd ?run = Inl (RpcError status code msg)"
    using assms(1,2,7) Inr flt(1) by (simp add: run_query_rpc_def)
  moreover have "load_schema rd (qt_collection tpl) = Inr schema"
    using assms(3) open_coll by (simp add: load_schema_def)
  ultimately have False
    using build_with_clauses [OF dry flt(2)]
    by (auto simp: list_reply_def run_structured_list_rpc_grant_def run_structured_list_inner_def result_Inl case_prod_unfold
        split: sum.splits list_core_error.splits if_splits)
  then show ?thesis ..
qed

section \<open>Examples\<close>

definition user_id_spec :: param_spec where
  "user_id_spec = \<lparr> ps_name = ''user_id'', ps_ty = PText, ps_required = True, ps_default = None \<rparr>"

definition call_serde :: serde where
  "call_serde =
     \<lparr> sd_parse_params = (\<lambda>s. if s = ''u'' then Inr [user_id_spec] else Inr example_specs), sd_print_params = (\<lambda>_. []),
       sd_parse_template = (\<lambda>_. Inr example_template), sd_print_query = (\<lambda>_. []) \<rparr>"

definition example_reader :: reader where
  "example_reader =
     \<lparr> rd_schema = (\<lambda>_. Inr (Some example_schema)), rd_query = (\<lambda>_ _. Inr ([], [])), rd_count = (\<lambda>_ _. Inr 0),
       rd_display = (\<lambda>_. ''error'') \<rparr>"

definition example_host :: rpc_host where
  "example_host =
     \<lparr> rh_engine = ref_engine, rh_serde = call_serde, rh_reader = example_reader, rh_deadline_ms = 5000,
       rh_limits = example_limits, rh_tier = 1 \<rparr>"

definition example_rpc :: rpc_row where
  "example_rpc = new_row ''now''
     \<lparr> rc_name = ''add'', rc_sql = ''INSERT INTO notes VALUES (7, 1, 5)'', rc_params_json = ''u'', rc_description = None,
       rc_anon_callable = True, rc_mode = RpcWrite, rc_kind = KSql, rc_query_json = None \<rparr>"

definition example_conns :: rpc_conns where
  "example_conns = \<lparr> rp_writer = example_conn, rp_reader = example_conn \<rparr>"

definition no_qs :: dry_run_qs where
  "no_qs = \<lparr> dq_dry_run = None, dq_page = None, dq_per_page = None \<rparr>"

definition example_stored :: stored_rpc where
  "example_stored =
     \<lparr> sr_name = ''add'', sr_sql = ''INSERT INTO notes VALUES (7, 1, 5)'', sr_params = [user_id_spec], sr_anon_callable = True,
       sr_mode = RpcWrite, sr_kind = KSql, sr_query_json = None \<rparr>"

lemma example_lookup: "rpc_lookup (rh_serde example_host) [example_rpc] ''add'' = Inr (Some example_stored)"
  by (simp add: rpc_lookup_def row_to_stored_def example_host_def call_serde_def example_rpc_def new_row_def example_stored_def
      mode_from_db_str_def kind_from_db_str_def)

theorem rpc_user_id_not_from_body_witness:
  "call_rpc example_host (User ''u1'' ''hash'') [example_rpc] [example_rpc] ''add'' no_qs
     (Some (JObject [(''user_id'', JString ''victim'')])) example_conns =
   call_rpc example_host (User ''u1'' ''hash'') [example_rpc] [example_rpc] ''add'' no_qs (Some (JObject [])) example_conns"
proof -
  have "sr_kind example_stored = KSql" "declares_user_id (sr_params example_stored)"
    by (simp_all add: example_stored_def declares_user_id_def user_id_spec_def)
  with rpc_user_id_not_from_body [OF _ example_lookup _ _ example_lookup, of "User ''u1'' ''hash''" no_qs "JString ''victim''" "[]"
      example_conns] show ?thesis by simp
qed

definition example_write :: "write_result \<times> conn" where
  "example_write = run_write_rpc ref_engine ''INSERT INTO notes VALUES (7, 1, 5)'' [''user_id'' \<mapsto> BText ''u1''] False
     (actor_from_auth_ctx (User ''u1'' ''hash'')) example_limits 1 example_conn"

lemma example_write_records: "map h_record_id (db_history (cn_db (snd example_write))) = [7]"
  by code_simp

lemma example_write_call:
  "rp_writer (fst (snd (call_rpc example_host (User ''u1'' ''hash'') [example_rpc] [example_rpc] ''add'' no_qs None example_conns))) =
   snd example_write"
proof -
  have bound: "validate_and_bind [user_id_spec] [(''user_id'', JString ''u1'')] = Inr [''user_id'' \<mapsto> BText ''u1'']"
    by (simp add: validate_and_bind_def check_known_params_def arg_value_def coerce_def user_id_spec_def)
  have "declares_user_id [user_id_spec]" by (simp add: declares_user_id_def user_id_spec_def)
  with bound have arm: "snd (call_write_arm example_host (User ''u1'' ''hash'') example_stored False [] example_conn) = snd example_write"
    by (simp add: call_write_arm_def bind_user_id_def may_call_def example_stored_def example_write_def example_host_def
        MAX_BYTES_def split: prod.splits sum.splits)
  have "unwrap_or (dq_dry_run no_qs) False = False" "rp_writer example_conns = example_conn"
    "sr_kind example_stored = KSql" "sr_mode example_stored = RpcWrite"
    by (simp_all add: no_qs_def unwrap_or_def example_conns_def example_stored_def)
  with arm show ?thesis
    by (simp add: call_rpc_def body_map_def call_arms_def example_lookup case_prod_unfold split: sum.splits)
qed

theorem rpc_write_admitted_witness:
  "\<exists>reply cs' bumped bound. call_rpc example_host (User ''u1'' ''hash'') [example_rpc] [example_rpc] ''add'' no_qs None
       example_conns = (reply, cs', bumped) \<and>
     rp_writer cs' \<noteq> rp_writer example_conns \<and> bound ''user_id'' = Some (BText ''u1'') \<and>
     admitted (User ''u1'' ''hash'') example_stored bound"
proof -
  let ?call = "call_rpc example_host (User ''u1'' ''hash'') [example_rpc] [example_rpc] ''add'' no_qs None example_conns"
  obtain reply cs' bumped where run: "?call = (reply, cs', bumped)" by (cases ?call)
  have "rp_writer cs' \<noteq> rp_writer example_conns"
    using example_write_call example_write_records run by (auto simp: example_conns_def example_conn_def example_db_def)
  moreover have "declares_user_id (sr_params example_stored)"
    by (simp add: example_stored_def declares_user_id_def user_id_spec_def)
  ultimately show ?thesis
    using rpc_write_admitted [OF _ run] run by (auto simp: example_lookup admitted_def)
qed

definition template_rpc :: stored_rpc where
  "template_rpc =
     \<lparr> sr_name = ''find'', sr_sql = [], sr_params = example_specs, sr_anon_callable = True, sr_mode = RpcRead, sr_kind = KQuery,
       sr_query_json = Some [] \<rparr>"

text \<open>
  A parameter as the query of a full-text operand is accepted when the template is saved, and null is a value of every
  parameter; the operand then has no query text, and the call blames the template.
\<close>

definition fts_template :: query_template where
  "fts_template = example_template\<lparr> qt_filter := Some (JObject [(''$fts'', JObject
     [(''index'', JString ''ft''), (''query'', JObject [(''$param'', JString ''pat'')])])]) \<rparr>"

theorem null_fts_query_goes_stale:
  "validate_template example_schema fts_template [hd example_specs] = Inr () \<and>
   (case run_query_rpc (call_serde\<lparr> sd_parse_template := \<lambda>_. Inr fts_template \<rparr>) example_reader Anon
      (template_rpc\<lparr> sr_params := [hd example_specs] \<rparr>) [(''pat'', JNull)] None None of
      Inl (RpcError st code _) \<Rightarrow> st = 409 \<and> code = ''RPC_QUERY_STALE''
    | _ \<Rightarrow> False)"
  by code_simp

theorem fitting_template_never_stale_witness:
  "\<exists>e. run_query_rpc call_serde example_reader Anon template_rpc [] None None = Inl (RpcError 400 ''PARAM_MISSING'' (MsgParam (Missing ''pat''))) \<and>
     resolve_args (sr_params template_rpc) [] = Inl e"
proof -
  have run: "run_query_rpc call_serde example_reader Anon template_rpc [] None None =
      Inl (RpcError 400 ''PARAM_MISSING'' (MsgParam (Missing ''pat'')))"
    by code_simp
  have here: "\<not> declares_user_id (sr_params template_rpc)"
    "parse_template (sd_parse_template call_serde) (unwrap_or (sr_query_json template_rpc) []) = Inr example_template"
    "rd_schema example_reader (qt_collection example_template) = Inr (Some example_schema)"
    by code_simp+
  have closed: "fts_closed f" if "qt_filter example_template = Some f" for f
  proof -
    have "fts_closed (the (qt_filter example_template))" by code_simp
    with that show ?thesis by simp
  qed
  have "validate_template example_schema example_template (sr_params template_rpc) = Inr ()"
    "distinct (map ps_name (sr_params template_rpc))"
    by (simp add: template_rpc_def example_validated) (simp add: template_rpc_def example_specs_def)
  from fitting_template_never_stale [OF here this(1) closed this(2) run] run show ?thesis by blast
qed

end
