(* ===== verification/Egress.thy ===== *)
theory Egress
  imports Record_Write "HOL-Library.Word"
begin

text \<open>
  Where a tenant's traffic may go: the allowlist of origins (\<open>tenant/egress.rs\<close>, \<open>tenant/egress_config.rs\<close>),
  the addresses nothing is sent to (\<open>tenant/webhook_resolver.rs\<close>) and the outbound call of the functions
  (\<open>http_fetch\<close> of \<open>functions/runtime.rs\<close>). The URL parser of the crate \<open>url\<close>, the parser of an
  address, DNS and the HTTP client are parameters.
\<close>

unbundle bit_operations_syntax

section \<open>Origins\<close>

datatype egress_system = Webhook | Function

fun system_as_str :: "egress_system \<Rightarrow> string" where
  "system_as_str Webhook = ''webhook''"
| "system_as_str Function = ''function''"

definition system_parse :: "string \<Rightarrow> egress_system option" where
  "system_parse s = (if s = ''webhook'' then Some Webhook else if s = ''function'' then Some Function else None)"

record egress_entry =
  ee_system :: egress_system
  ee_uri :: string

text \<open>\<open>s.split_once("://")\<close> and \<open>s.rsplit_once(':')\<close>.\<close>

fun split_scheme :: "string \<Rightarrow> (string \<times> string) option" where
  "split_scheme [] = None"
| "split_scheme (c # s) =
     (if prefix ''://'' (c # s) then Some ([], drop 3 (c # s))
      else map_option (\<lambda>(a, b). (c # a, b)) (split_scheme s))"

definition rsplit_colon :: "string \<Rightarrow> (string \<times> string) option" where
  "rsplit_colon s =
     (if CHR '':'' \<in> set s
      then let p = rev (takeWhile (\<lambda>c. c \<noteq> CHR '':'') (rev s)) in Some (take (length s - length p - 1) s, p)
      else None)"

definition split_port :: "string \<Rightarrow> (string \<times> nat option, unit) result" where
  "split_port authority =
     (case rsplit_colon authority of
        None \<Rightarrow> Inr (authority, None)
      | Some (h, p) \<Rightarrow>
          if p \<noteq> [] \<and> list_all is_digit p
          then (case parse_unsigned 16 p of Some n \<Rightarrow> Inr (h, Some n) | None \<Rightarrow> Inl ())
          else Inl ())"

definition default_port :: "string \<Rightarrow> nat \<Rightarrow> bool" where
  "default_port scheme p \<longleftrightarrow> scheme = ''http'' \<and> p = 80 \<or> scheme = ''https'' \<and> p = 443"

definition origin_text :: "string \<Rightarrow> string \<Rightarrow> nat option \<Rightarrow> string" where
  "origin_text scheme host port =
     scheme @ ''://'' @ host @
     (case port of Some p \<Rightarrow> if default_port scheme p then [] else '':'' @ nat_to_string p | None \<Rightarrow> [])"

definition normalize_origin :: "string \<Rightarrow> (string, unit) result" where
  "normalize_origin raw =
     (case split_scheme (trim raw) of
        None \<Rightarrow> Inl ()
      | Some (scheme0, rest) \<Rightarrow>
          let scheme = to_ascii_lowercase scheme0;
              authority = takeWhile (\<lambda>c. c \<notin> set ''/?#'') rest
          in
          if scheme \<noteq> ''http'' \<and> scheme \<noteq> ''https'' then Inl ()
          else if authority = [] then Inl ()
          else if CHR ''@'' \<in> set authority then Inl ()
          else bind_r (split_port authority) (\<lambda>(host, port).
            if host = [] then Inl ()
            else Inr (origin_text scheme (to_ascii_lowercase host) port)))"

section \<open>Addresses\<close>

datatype ip_addr =
    V4 "8 word" "8 word" "8 word" "8 word"
  | V6 "16 word" "16 word" "16 word" "16 word" "16 word" "16 word" "16 word" "16 word"

text \<open>\<open>Ipv6Addr::to_ipv4_mapped\<close>: the octets of \<open>::ffff:a.b.c.d\<close>.\<close>

fun to_ipv4_mapped :: "ip_addr \<Rightarrow> ip_addr option" where
  "to_ipv4_mapped (V6 s0 s1 s2 s3 s4 s5 s6 s7) =
     (if s0 = 0 \<and> s1 = 0 \<and> s2 = 0 \<and> s3 = 0 \<and> s4 = 0 \<and> s5 = 0xffff
      then Some (V4 (ucast (drop_bit 8 s6)) (ucast s6) (ucast (drop_bit 8 s7)) (ucast s7)) else None)"
| "to_ipv4_mapped (V4 _ _ _ _) = None"

fun private_v4 :: "ip_addr \<Rightarrow> bool" where
  "private_v4 (V4 a b c d) \<longleftrightarrow>
     a = 10 \<or> (a = 172 \<and> b AND 0xf0 = 16) \<or> (a = 192 \<and> b = 168) \<or> a = 127 \<or> (a = 169 \<and> b = 254) \<or> a = 0 \<or>
     (a = 100 \<and> b AND 0xc0 = 0x40)"
| "private_v4 (V6 _ _ _ _ _ _ _ _) \<longleftrightarrow> False"

fun is_private_ip :: "ip_addr \<Rightarrow> bool" where
  "is_private_ip (V4 a b c d) \<longleftrightarrow> private_v4 (V4 a b c d)"
| "is_private_ip (V6 s0 s1 s2 s3 s4 s5 s6 s7) \<longleftrightarrow>
     (s0 = 0 \<and> s1 = 0 \<and> s2 = 0 \<and> s3 = 0 \<and> s4 = 0 \<and> s5 = 0 \<and> s6 = 0 \<and> s7 = 1) \<or>
     (s0 = 0 \<and> s1 = 0 \<and> s2 = 0 \<and> s3 = 0 \<and> s4 = 0 \<and> s5 = 0 \<and> s6 = 0 \<and> s7 = 0) \<or>
     s0 AND 0xfe00 = 0xfc00 \<or> s0 AND 0xffc0 = 0xfe80 \<or> (s0 = 0x2001 \<and> s1 = 0x0db8) \<or>
     (case to_ipv4_mapped (V6 s0 s1 s2 s3 s4 s5 s6 s7) of Some v4 \<Rightarrow> private_v4 v4 | None \<Rightarrow> False)"

text \<open>
  The network as the code sees it: the host text of a parsed URL, the parser of an address, and the
  answer of DNS, which may differ from one look-up to the next.
\<close>

record url_lib =
  ul_host :: "string \<Rightarrow> string option"
  ul_port :: "string \<Rightarrow> nat option"
  ul_scheme :: "string \<Rightarrow> string option"
  ul_parse_ip :: "string \<Rightarrow> ip_addr option"

text \<open>\<open>strip_prefix('[').and_then(strip_suffix(']')).unwrap_or(host)\<close>.\<close>

definition unbracket :: "string \<Rightarrow> string" where
  "unbracket h = (if 2 \<le> length h \<and> hd h = CHR ''['' \<and> last h = CHR '']'' then butlast (tl h) else h)"

definition literal_ip :: "url_lib \<Rightarrow> string \<Rightarrow> ip_addr option" where
  "literal_ip ul host = ul_parse_ip ul (unbracket host)"

definition origin_host_is_private_ip :: "url_lib \<Rightarrow> string \<Rightarrow> bool" where
  "origin_host_is_private_ip ul origin =
     (case ul_host ul origin of
        None \<Rightarrow> False
      | Some host \<Rightarrow> (case literal_ip ul host of Some ip \<Rightarrow> is_private_ip ip | None \<Rightarrow> False))"

text \<open>
  \<open>to_socket_addrs\<close>: a literal address is itself, everything else is looked up. Of what comes back
  the public addresses are kept, and without any the look-up fails.
\<close>

definition to_socket_addrs :: "url_lib \<Rightarrow> (string \<Rightarrow> ip_addr list option) \<Rightarrow> string \<Rightarrow> ip_addr list option" where
  "to_socket_addrs ul dns host = (case ul_parse_ip ul host of Some ip \<Rightarrow> Some [ip] | None \<Rightarrow> dns host)"

definition resolve_public :: "url_lib \<Rightarrow> (string \<Rightarrow> ip_addr list option) \<Rightarrow> string \<Rightarrow> (ip_addr list, unit) result" where
  "resolve_public ul dns host =
     (case to_socket_addrs ul dns host of
        None \<Rightarrow> Inl ()
      | Some addrs \<Rightarrow>
          let public = filter (\<lambda>ip. \<not> is_private_ip ip) addrs in if public = [] then Inl () else Inr public)"

definition webhook_loopback_allowed :: "bool \<Rightarrow> bool \<Rightarrow> bool" where
  "webhook_loopback_allowed is_debug env_set \<longleftrightarrow> is_debug \<or> env_set"

section \<open>The allowlist\<close>

definition entry_of_json :: "json \<Rightarrow> egress_entry option" where
  "entry_of_json v =
     Option.bind (as_object v) (\<lambda>m.
     Option.bind (Option.bind (Option.bind (map_of m ''system'') as_str) system_parse) (\<lambda>sys.
     Option.bind (Option.bind (map_of m ''uri'') as_str) (\<lambda>uri.
       Some \<lparr> ee_system = sys, ee_uri = uri \<rparr>)))"

definition parse_allowlist :: "(string \<Rightarrow> json option) \<Rightarrow> string \<Rightarrow> egress_entry list" where
  "parse_allowlist from_str text =
     (case Option.bind (from_str text) as_array of None \<Rightarrow> [] | Some vs \<Rightarrow> List.map_filter entry_of_json vs)"

definition check_egress :: "(string \<Rightarrow> json option) \<Rightarrow> string \<Rightarrow> egress_system \<Rightarrow> string \<Rightarrow> bool" where
  "check_egress from_str text sys origin =
     (case normalize_origin origin of
        Inl _ \<Rightarrow> False
      | Inr target \<Rightarrow>
          list_ex (\<lambda>e. ee_system e = sys \<and> normalize_origin (ee_uri e) = Inr target) (parse_allowlist from_str text))"

record egress_tenant =
  et_id :: string
  et_deleted :: bool
  et_allowlist :: "string option"

text \<open>The database may be unreadable (\<open>None\<close>).\<close>

definition read_egress_allowlist :: "egress_tenant list option \<Rightarrow> string \<Rightarrow> string" where
  "read_egress_allowlist meta tenant =
     (case Option.bind meta (find (\<lambda>t. et_id t = tenant)) of
        Some t \<Rightarrow> unwrap_or (et_allowlist t) ''[]''
      | None \<Rightarrow> ''[]'')"

definition try_read_live_egress_allowlist :: "egress_tenant list option \<Rightarrow> string \<Rightarrow> (string option, unit) result" where
  "try_read_live_egress_allowlist meta tenant =
     (case meta of
        None \<Rightarrow> Inl ()
      | Some ts \<Rightarrow>
          Inr (map_option (\<lambda>t. unwrap_or (et_allowlist t) ''[]'') (find (\<lambda>t. et_id t = tenant \<and> \<not> et_deleted t) ts)))"

section \<open>Configuration\<close>

definition DEFAULT_MAX_ENTRIES :: nat where "DEFAULT_MAX_ENTRIES = 50"

definition max_entries :: "string option \<Rightarrow> nat" where
  "max_entries var =
     (case Option.bind var (parse_unsigned 64) of Some n \<Rightarrow> if n > 0 then n else DEFAULT_MAX_ENTRIES | None \<Rightarrow> DEFAULT_MAX_ENTRIES)"

record raw_egress_entry =
  re_system :: string
  re_uri :: string

datatype egress_config_error = BadOrigin string | BadSystem string | TooMany nat

fun config_code :: "egress_config_error \<Rightarrow> string" where
  "config_code (BadOrigin _) = ''EGRESS_BAD_ORIGIN''"
| "config_code (BadSystem _) = ''EGRESS_BAD_SYSTEM''"
| "config_code (TooMany _) = ''EGRESS_TOO_MANY''"

definition validate_entry :: "url_lib \<Rightarrow> raw_egress_entry \<Rightarrow> (egress_entry, egress_config_error) result" where
  "validate_entry ul e =
     (case system_parse (re_system e) of
        None \<Rightarrow> Inl (BadSystem (re_system e))
      | Some sys \<Rightarrow>
          (case normalize_origin (re_uri e) of
             Inl _ \<Rightarrow> Inl (BadOrigin (re_uri e))
           | Inr origin \<Rightarrow>
               if sys = Function \<and> origin_host_is_private_ip ul origin then Inl (BadOrigin (re_uri e))
               else Inr \<lparr> ee_system = sys, ee_uri = origin \<rparr>))"

fun validate_each :: "url_lib \<Rightarrow> raw_egress_entry list \<Rightarrow> (egress_entry list, egress_config_error) result" where
  "validate_each ul [] = Inr []"
| "validate_each ul (e # es) =
     bind_r (validate_entry ul e) (\<lambda>x. bind_r (validate_each ul es) (\<lambda>xs. Inr (x # xs)))"

definition validate_entries :: "url_lib \<Rightarrow> nat \<Rightarrow> raw_egress_entry list \<Rightarrow> (egress_entry list, egress_config_error) result" where
  "validate_entries ul limit entries =
     (if length entries > limit then Inl (TooMany (length entries)) else validate_each ul entries)"

text \<open>The serialised entry, field by field in the order of the struct.\<close>

definition entry_json :: "egress_entry \<Rightarrow> json" where
  "entry_json e = JObject [(''system'', JString (system_as_str (ee_system e))), (''uri'', JString (ee_uri e))]"

definition store_allowlist :: "egress_tenant list \<Rightarrow> string \<Rightarrow> string \<Rightarrow> egress_tenant list" where
  "store_allowlist ts tenant stored =
     map (\<lambda>t. if et_id t = tenant \<and> \<not> et_deleted t then t\<lparr> et_allowlist := Some stored \<rparr> else t) ts"

text \<open>
  The reply and the state: the tenants, and the versions of their lists. The outcome of the statement
  is a parameter; the version moves only after it.
\<close>

datatype egress_reply = EgressBody string | EgressRefused nat string

definition bump_version :: "(string \<Rightarrow> nat) \<Rightarrow> string \<Rightarrow> string \<Rightarrow> nat" where
  "bump_version versions tenant = versions(tenant := versions tenant + 1)"

definition set_allowlist ::
  "url_lib \<Rightarrow> nat \<Rightarrow> (json \<Rightarrow> string) \<Rightarrow> (unit, db_error) result \<Rightarrow> egress_tenant list \<times> (string \<Rightarrow> nat) \<Rightarrow> string \<Rightarrow> raw_egress_entry list
     \<Rightarrow> egress_reply \<times> egress_tenant list \<times> (string \<Rightarrow> nat)" where
  "set_allowlist ul limit to_string wrote st tenant entries =
     (case validate_entries ul limit entries of
        Inl e \<Rightarrow> (EgressRefused 400 (config_code e), st)
      | Inr normalized \<Rightarrow>
          let stored = to_string (JArray (map entry_json normalized)) in
          case wrote of
            Inl _ \<Rightarrow> (EgressRefused 500 ''DB_ERROR'', st)
          | Inr _ \<Rightarrow> (EgressBody stored, store_allowlist (fst st) tenant stored, bump_version (snd st) tenant))"

definition get_allowlist :: "egress_tenant list option \<Rightarrow> string \<Rightarrow> egress_reply" where
  "get_allowlist meta tenant = EgressBody (read_egress_allowlist meta tenant)"

definition allowlist_body :: "(string \<Rightarrow> json option) \<Rightarrow> string \<Rightarrow> json" where
  "allowlist_body from_str stored = JObject [(''entries'', unwrap_or (from_str stored) (JArray []))]"

fun egress_response :: "(string \<Rightarrow> json option) \<Rightarrow> egress_reply \<Rightarrow> (json, nat \<times> string) result" where
  "egress_response from_str (EgressBody stored) = Inr (allowlist_body from_str stored)"
| "egress_response from_str (EgressRefused status code) = Inl (status, code)"

definition put_egress_allowlist where
  "put_egress_allowlist from_str ul limit to_string wrote st tenant entries =
     (let (reply, st') = set_allowlist ul limit to_string wrote st tenant entries in (egress_response from_str reply, st'))"

definition get_egress_allowlist where
  "get_egress_allowlist from_str meta tenant = egress_response from_str (get_allowlist meta tenant)"

section \<open>Fetching from a function\<close>

text \<open>
  An HTTP client without redirects dials the address of a literal host, and otherwise one of those the
  pinned resolver gives it.
\<close>

definition dial :: "url_lib \<Rightarrow> (string \<Rightarrow> ip_addr list option) \<Rightarrow> string \<Rightarrow> ip_addr list" where
  "dial ul dns url =
     (case ul_host ul url of
        None \<Rightarrow> []
      | Some host \<Rightarrow>
          (case literal_ip ul host of
             Some ip \<Rightarrow> [ip]
           | None \<Rightarrow> (case resolve_public ul dns host of Inr ips \<Rightarrow> ips | Inl _ \<Rightarrow> [])))"

definition is_forbidden_fetch_header :: "string \<Rightarrow> bool" where
  "is_forbidden_fetch_header name \<longleftrightarrow>
     name \<in> {''connection'', ''keep-alive'', ''proxy-authenticate'', ''proxy-authorization'', ''te'', ''trailer'',
       ''transfer-encoding'', ''upgrade'', ''host'', ''content-length''}"

datatype fetch_refusal =
  FBadOrigin | FPrivate | FNotAllowlisted | FMethod string | FPath | FBadUrl | FAltersHost | FRateLimited

record fetch_request =
  fr_method :: string
  fr_url :: string
  fr_headers :: "(string \<times> string) list"
  fr_body :: string

text \<open>The allowlist is read once per invocation and kept.\<close>

record http_fetch_state =
  hf_allowlist :: string
  hf_resolved :: bool

definition fetch_allowlist :: "egress_tenant list option \<Rightarrow> string \<Rightarrow> http_fetch_state \<Rightarrow> http_fetch_state" where
  "fetch_allowlist meta tenant st =
     (if hf_resolved st then st
      else \<lparr> hf_allowlist = read_egress_allowlist meta tenant, hf_resolved = True \<rparr>)"

definition FETCH_METHODS :: "string list" where
  "FETCH_METHODS = [''GET'', ''POST'', ''PUT'', ''PATCH'', ''DELETE'', ''HEAD'']"

definition http_fetch ::
  "url_lib \<Rightarrow> (string \<Rightarrow> json option) \<Rightarrow> egress_tenant list option \<Rightarrow> bool \<Rightarrow> string \<Rightarrow> http_fetch_state \<Rightarrow> string \<Rightarrow> string \<Rightarrow> string \<Rightarrow> string
     \<Rightarrow> (string \<times> string) list \<Rightarrow> (fetch_request, fetch_refusal) result \<times> http_fetch_state" where
  "http_fetch ul from_str meta in_budget tenant st origin0 path meth body headers =
     (case normalize_origin origin0 of
        Inl _ \<Rightarrow> (Inl FBadOrigin, st)
      | Inr origin \<Rightarrow>
          if origin_host_is_private_ip ul origin then (Inl FPrivate, st)
          else
            let st' = fetch_allowlist meta tenant st; m = to_ascii_uppercase meth; url = origin @ path in
            if \<not> check_egress from_str (hf_allowlist st') Function origin then (Inl FNotAllowlisted, st')
            else if m \<notin> set FETCH_METHODS then (Inl (FMethod m), st')
            else if path \<noteq> [] \<and> \<not> starts_with path ''/'' then (Inl FPath, st')
            else (case normalize_origin url of
                Inl _ \<Rightarrow> (Inl FBadUrl, st')
              | Inr dialed \<Rightarrow>
                  if dialed \<noteq> origin then (Inl FAltersHost, st')
                  else if \<not> in_budget then (Inl FRateLimited, st')
                  else (Inr \<lparr> fr_method = m, fr_url = url,
                          fr_headers = filter (\<lambda>(k, _). \<not> is_forbidden_fetch_header (to_ascii_lowercase k)) headers,
                          fr_body = body \<rparr>, st')))"

section \<open>Normal origins\<close>

definition plain_char :: "char \<Rightarrow> bool" where
  "plain_char c \<longleftrightarrow> is_ascii_alphanumeric c \<or> c \<in> set ''-._''"

definition plain_host :: "string \<Rightarrow> bool" where
  "plain_host h \<longleftrightarrow> h \<noteq> [] \<and> list_all plain_char h"

text \<open>Printable ASCII is never trimmed.\<close>

definition graphic :: "char \<Rightarrow> bool" where
  "graphic c \<longleftrightarrow> 33 \<le> byte c \<and> byte c \<le> 126"

lemma ws_len_graphic: "graphic c \<Longrightarrow> ws_len (c # s) = 0"
  by (auto simp: ws_len_def graphic_def split: list.splits)

lemma trim_start_graphic: "graphic c \<Longrightarrow> trim_start (c # s) = c # s"
  by (simp add: trim_start.simps ws_len_graphic)

lemma trim_end_graphic: "list_all graphic s \<Longrightarrow> trim_end (s @ p) = s @ trim_end p"
  by (induction s) (auto simp: blank_def trim_start_graphic)

lemma trim_graphic: "list_all graphic s \<Longrightarrow> s \<noteq> [] \<Longrightarrow> trim (s @ p) = s @ trim_end p"
  by (cases s) (simp_all add: trim_def trim_start_graphic trim_end_graphic [of "_ # _", simplified])

lemma plain_char_lower: "plain_char c \<Longrightarrow> plain_char (ascii_lower c)"
  by (auto simp: plain_char_def is_ascii_alphanumeric_def is_ascii_alphabetic_def ascii_lower_def byte_def)

lemma plain_char_graphic: "plain_char c \<Longrightarrow> graphic c"
  by (auto simp: plain_char_def is_ascii_alphanumeric_def is_ascii_alphabetic_def graphic_def byte_def)

lemma plain_char_not: "plain_char c \<Longrightarrow> c \<notin> set ''/?#@:''"
  by (auto simp: plain_char_def is_ascii_alphanumeric_def is_ascii_alphabetic_def byte_def)

lemma ascii_lower_idem: "ascii_lower (ascii_lower c) = ascii_lower c"
  by (auto simp: ascii_lower_def byte_def)

lemma split_scheme_known:
  assumes "scheme \<in> {''http'', ''https''}"
  shows "split_scheme (scheme @ ''://'' @ rest) = Some (scheme, rest)"
  using assms by auto

lemma rsplit_colon_port: "CHR '':'' \<notin> set p \<Longrightarrow> rsplit_colon (h @ CHR '':'' # p) = Some (h, p)"
proof -
  assume p: "CHR '':'' \<notin> set p"
  then have "takeWhile (\<lambda>c. c \<noteq> CHR '':'') (rev p @ CHR '':'' # rev h) = rev p"
    by (subst takeWhile_append2) auto
  then show ?thesis by (simp add: rsplit_colon_def Let_def)
qed

lemma parse_port: "p < 65536 \<Longrightarrow> parse_unsigned 16 (nat_to_string p) = Some p"
  using nat_to_string_digits [of p] is_digit_not_sign
  by (cases "nat_to_string p") (auto simp: parse_unsigned_def)

lemma digits_plain: "list_all is_digit s \<Longrightarrow> list_all plain_char s"
  by (auto simp: list_all_iff plain_char_def is_ascii_alphanumeric_def is_digit_def)

lemma plain_colon: "list_all plain_char s \<Longrightarrow> CHR '':'' \<notin> set s"
  using plain_char_not by (fastforce simp: list_all_iff)

text \<open>The authority of a normal origin: a plain host and the port, unless it is the default.\<close>

definition authority_text :: "string \<Rightarrow> string \<Rightarrow> nat option \<Rightarrow> string" where
  "authority_text scheme host port =
     host @ (case port of Some p \<Rightarrow> if default_port scheme p then [] else '':'' @ nat_to_string p | None \<Rightarrow> [])"

lemma split_port_authority:
  assumes "plain_host host" "\<And>p. port = Some p \<Longrightarrow> p < 65536"
  shows "split_port (authority_text scheme host port) =
    Inr (host, case port of Some p \<Rightarrow> if default_port scheme p then None else Some p | None \<Rightarrow> None)"
proof -
  have "CHR '':'' \<notin> set host" using assms(1) plain_colon by (simp add: plain_host_def)
  then have none: "rsplit_colon host = None" by (simp add: rsplit_colon_def)
  have "rsplit_colon (host @ CHR '':'' # nat_to_string p) = Some (host, nat_to_string p)" for p
    using plain_colon digits_plain nat_to_string_digits by (blast intro: rsplit_colon_port)
  with none show ?thesis
    using assms(2) nat_to_string_digits parse_port by (auto simp: split_port_def authority_text_def split: option.splits)
qed

lemma authority_chars:
  assumes "plain_host host"
  shows "list_all (\<lambda>c. plain_char c \<or> c = CHR '':'') (authority_text scheme host port)"
  using assms nat_to_string_digits digits_plain by (auto simp: authority_text_def plain_host_def list_all_iff split: option.splits) blast

lemma normalize_plain:
  assumes scheme: "scheme \<in> {''http'', ''https''}" and host: "plain_host host" "to_ascii_lowercase host = host"
    and port: "\<And>p. port = Some p \<Longrightarrow> p < 65536" and path: "path = [] \<or> prefix ''/'' path"
  shows "normalize_origin (origin_text scheme host port @ path) = Inr (origin_text scheme host port)"
proof -
  let ?a = "authority_text scheme host port"
  have o: "origin_text scheme host port = scheme @ ''://'' @ ?a" by (simp add: origin_text_def authority_text_def)
  note chars = authority_chars [OF host(1), of scheme port]
  have no: "c \<notin> set ''/?#@''" if "c \<in> set ?a" for c
  proof -
    from chars that have "plain_char c \<or> c = CHR '':''" by (auto simp: list_all_iff)
    with plain_char_not [of c] show ?thesis by auto
  qed
  have "graphic (CHR '':'')" by (simp add: graphic_def byte_def)
  then have "list_all graphic ?a" using chars plain_char_graphic by (auto simp: list_all_iff)
  moreover have "list_all graphic (scheme @ ''://'')" using scheme by (auto simp: graphic_def byte_def)
  ultimately have tr: "trim (origin_text scheme host port @ path) = scheme @ ''://'' @ ?a @ trim_end path"
    using trim_graphic [of "scheme @ ''://'' @ ?a" path] o by simp
  from path have "trim_end path = [] \<or> prefix ''/'' (trim_end path)"
    using trim_end_graphic [of "''/''"] by (auto simp: prefix_def graphic_def byte_def)
  then have tw: "takeWhile (\<lambda>c. c \<notin> set ''/?#'') (?a @ trim_end path) = ?a"
  proof -
    assume t: "trim_end path = [] \<or> prefix ''/'' (trim_end path)"
    have "takeWhile (\<lambda>c. c \<notin> set ''/?#'') (?a @ trim_end path) = ?a @ takeWhile (\<lambda>c. c \<notin> set ''/?#'') (trim_end path)"
      using no by (intro takeWhile_append2) auto
    with t show ?thesis by (auto simp: prefix_def)
  qed
  have ne: "?a \<noteq> []" "host \<noteq> []" using host(1) by (auto simp: plain_host_def authority_text_def)
  have at: "CHR ''@'' \<notin> set ?a" using no by auto
  have sch: "to_ascii_lowercase scheme = scheme" "\<not> (scheme \<noteq> ''http'' \<and> scheme \<noteq> ''https'')"
    using scheme by (auto simp: to_ascii_lowercase_def ascii_lower_def byte_def)
  let ?p = "case port of Some p \<Rightarrow> if default_port scheme p then None else Some p | None \<Rightarrow> None"
  have sp: "split_port ?a = Inr (host, ?p)" using split_port_authority [OF host(1) port] .
  have "normalize_origin (origin_text scheme host port @ path) = Inr (origin_text scheme host ?p)"
    unfolding normalize_origin_def tr split_scheme_known [OF scheme] option.case prod.case Let_def sch(1) tw sp
    using sch(2) ne at by (simp add: host(2))
  also have "origin_text scheme host ?p = origin_text scheme host port"
    by (auto simp: origin_text_def split: option.splits)
  finally show ?thesis .
qed

section \<open>The forbidden ranges\<close>

text \<open>An address as a number, and the blocks of the documentation as a network and a prefix length.\<close>

definition digits_number :: "nat \<Rightarrow> nat list \<Rightarrow> nat" where
  "digits_number base ds = foldl (\<lambda>n d. n * base + d) 0 ds"

fun ip_number :: "ip_addr \<Rightarrow> nat" where
  "ip_number (V4 a b c d) = digits_number 256 [unat a, unat b, unat c, unat d]"
| "ip_number (V6 s0 s1 s2 s3 s4 s5 s6 s7) =
     digits_number 65536 [unat s0, unat s1, unat s2, unat s3, unat s4, unat s5, unat s6, unat s7]"

definition in_block :: "nat \<Rightarrow> nat \<Rightarrow> nat \<times> nat \<Rightarrow> bool" where
  "in_block width x block \<longleftrightarrow> x div 2 ^ (width - snd block) = fst block div 2 ^ (width - snd block)"

definition FORBIDDEN_V4 :: "(nat \<times> nat) list" where
  "FORBIDDEN_V4 =
     [(digits_number 256 [10, 0, 0, 0], 8), (digits_number 256 [172, 16, 0, 0], 12), (digits_number 256 [192, 168, 0, 0], 16),
      (digits_number 256 [127, 0, 0, 0], 8), (digits_number 256 [169, 254, 0, 0], 16), (0, 8),
      (digits_number 256 [100, 64, 0, 0], 10)]"

definition FORBIDDEN_V6 :: "(nat \<times> nat) list" where
  "FORBIDDEN_V6 =
     [(1, 128), (0, 128), (digits_number 65536 [0xfc00, 0, 0, 0, 0, 0, 0, 0], 7),
      (digits_number 65536 [0xfe80, 0, 0, 0, 0, 0, 0, 0], 10), (digits_number 65536 [0x2001, 0xdb8, 0, 0, 0, 0, 0, 0], 32)]"

definition MAPPED :: "nat \<times> nat" where
  "MAPPED = (digits_number 65536 [0, 0, 0, 0, 0, 0xffff, 0, 0], 96)"

lemma and_not_mask: "(w :: 'a :: len word) AND NOT (mask n) = push_bit n (drop_bit n w)"
  by (rule bit_word_eqI) (auto simp: bit_simps)

lemma drop_push_drop: "drop_bit n (push_bit n (drop_bit n (w :: 'a :: len word))) = drop_bit n w"
  by (rule bit_word_eqI) (auto simp: bit_simps dest: bit_imp_le_length)

lemma masked_eq:
  assumes "m = NOT (mask n)" "u = push_bit n v" "drop_bit n u = v"
  shows "(w :: 'a :: len word) AND m = u \<longleftrightarrow> unat w div 2 ^ n = unat v"
proof -
  have "w AND m = u \<longleftrightarrow> drop_bit n w = v" by (metis and_not_mask drop_push_drop assms)
  also have "\<dots> \<longleftrightarrow> unat (drop_bit n w) = unat v" by (rule word_unat_eq_iff)
  also have "unat (drop_bit n w) = unat w div 2 ^ n" by (metis unat_drop_bit_eq drop_bit_eq_div)
  finally show ?thesis .
qed

lemma octet_masks:
  "(b :: 8 word) AND 0xf0 = 16 \<longleftrightarrow> unat b div 16 = 1" "b AND 0xc0 = 0x40 \<longleftrightarrow> unat b div 64 = 1"
proof -
  have "(0xf0 :: 8 word) = NOT (mask 4)" "(16 :: 8 word) = push_bit 4 1" "drop_bit 4 (16 :: 8 word) = 1"
    "(0xc0 :: 8 word) = NOT (mask 6)" "(0x40 :: 8 word) = push_bit 6 1" "drop_bit 6 (0x40 :: 8 word) = 1"
    by code_simp+
  from masked_eq [OF this(1-3), of b] masked_eq [OF this(4-6), of b]
  show "b AND 0xf0 = 16 \<longleftrightarrow> unat b div 16 = 1" "b AND 0xc0 = 0x40 \<longleftrightarrow> unat b div 64 = 1" by simp_all
qed

lemma segment_masks:
  "(s :: 16 word) AND 0xfe00 = 0xfc00 \<longleftrightarrow> unat s div 512 = 126" "s AND 0xffc0 = 0xfe80 \<longleftrightarrow> unat s div 64 = 1018"
proof -
  have "(0xfe00 :: 16 word) = NOT (mask 9)" "(0xfc00 :: 16 word) = push_bit 9 126" "drop_bit 9 (0xfc00 :: 16 word) = 126"
    "(0xffc0 :: 16 word) = NOT (mask 6)" "(0xfe80 :: 16 word) = push_bit 6 1018" "drop_bit 6 (0xfe80 :: 16 word) = 1018"
    by code_simp+
  from masked_eq [OF this(1-3), of s] masked_eq [OF this(4-6), of s]
  show "s AND 0xfe00 = 0xfc00 \<longleftrightarrow> unat s div 512 = 126" "s AND 0xffc0 = 0xfe80 \<longleftrightarrow> unat s div 64 = 1018" by simp_all
qed

lemma base_div: "(d :: nat) < base \<Longrightarrow> (n * base + d) div base = n" "d < base \<Longrightarrow> (n * base + d) mod base = d"
  by simp_all

lemma base_eq: "(d :: nat) < base \<Longrightarrow> e < base \<Longrightarrow> n * base + d = m * base + e \<longleftrightarrow> n = m \<and> d = e"
  by (metis base_div)

lemma octet_lt: "unat (a :: 8 word) < 256" using unsigned_less [of a] by simp

lemma segment_lt: "unat (s :: 16 word) < 65536" using unsigned_less [of s] by simp

lemma octet_eq: "(a :: 8 word) = k \<longleftrightarrow> unat a = unat k" by (rule word_unat_eq_iff)

text \<open>The leading bits of a four-octet number.\<close>

lemma v4_prefixes:
  fixes a b c d :: nat
  assumes "a < 256" "b < 256" "c < 256" "d < 256"
  defines "x \<equiv> digits_number 256 [a, b, c, d]"
  shows "x div 2 ^ 24 = a" "x div 2 ^ 16 = a * 256 + b" "x div 2 ^ 20 = a * 16 + b div 16" "x div 2 ^ 22 = a * 4 + b div 64"
proof -
  have x: "x = (a * 256 + b) * 65536 + (c * 256 + d)" by (simp add: x_def digits_number_def)
  have "c * 256 + d < 65536" using assms by simp
  then have d: "x div 65536 = a * 256 + b" unfolding x by (rule base_div)
  then show "x div 2 ^ 16 = a * 256 + b" by simp
  have "x div 2 ^ 24 = x div 65536 div 256" by (simp flip: div_mult2_eq)
  with d assms(2) show "x div 2 ^ 24 = a" by simp
  have "x div 2 ^ 20 = x div 65536 div 16" by (simp flip: div_mult2_eq)
  also have "\<dots> = (b + 16 * (a * 16)) div 16" by (simp add: d algebra_simps)
  finally show "x div 2 ^ 20 = a * 16 + b div 16" by simp
  have "x div 2 ^ 22 = x div 65536 div 64" by (simp flip: div_mult2_eq)
  also have "\<dots> = (b + 64 * (a * 4)) div 64" by (simp add: d algebra_simps)
  finally show "x div 2 ^ 22 = a * 4 + b div 64" by simp
qed

lemma v4_blocks:
  "list_ex (in_block 32 (ip_number (V4 a b c d))) FORBIDDEN_V4 \<longleftrightarrow> private_v4 (V4 a b c d)"
proof -
  define x where "x = ip_number (V4 a b c d)"
  have p: "x div 16777216 = unat a" "x div 65536 = unat a * 256 + unat b" "x div 1048576 = unat a * 16 + unat b div 16"
      "x div 4194304 = unat a * 4 + unat b div 64"
    using v4_prefixes [OF octet_lt octet_lt octet_lt octet_lt, of a b c d] by (simp_all add: x_def)
  have n: "unat a * 256 + unat b = y * 256 + z \<longleftrightarrow> unat a = y \<and> unat b = z" if "z < 256" for y z
    using octet_lt [of b] that by (rule base_eq)
  have m: "unat a * 16 + unat b div 16 = 172 * 16 + 1 \<longleftrightarrow> unat a = 172 \<and> unat b div 16 = 1"
    using octet_lt [of b] by (intro base_eq) simp_all
  have k: "unat a * 4 + unat b div 64 = 100 * 4 + 1 \<longleftrightarrow> unat a = 100 \<and> unat b div 64 = 1"
    using octet_lt [of b] by (intro base_eq) simp_all
  have "in_block 32 x (digits_number 256 [10, 0, 0, 0], 8) \<longleftrightarrow> a = 10" "in_block 32 x (digits_number 256 [127, 0, 0, 0], 8) \<longleftrightarrow> a = 127"
    "in_block 32 x (0, 8) \<longleftrightarrow> a = 0"
    by (simp_all add: in_block_def digits_number_def p octet_eq)
  moreover have "in_block 32 x (digits_number 256 [192, 168, 0, 0], 16) \<longleftrightarrow> a = 192 \<and> b = 168"
    "in_block 32 x (digits_number 256 [169, 254, 0, 0], 16) \<longleftrightarrow> a = 169 \<and> b = 254"
    using n [of 168 192] n [of 254 169] by (simp_all add: in_block_def digits_number_def p octet_eq)
  moreover have "in_block 32 x (digits_number 256 [172, 16, 0, 0], 12) \<longleftrightarrow> a = 172 \<and> b AND 0xf0 = 16"
    using m by (simp add: in_block_def digits_number_def p octet_masks octet_eq [of a])
  moreover have "in_block 32 x (digits_number 256 [100, 64, 0, 0], 10) \<longleftrightarrow> a = 100 \<and> b AND 0xc0 = 0x40"
    using k by (simp add: in_block_def digits_number_def p octet_masks octet_eq [of a])
  ultimately show ?thesis unfolding FORBIDDEN_V4_def x_def [symmetric] by simp
qed

text \<open>The leading bits of an eight-segment number.\<close>

lemma digits_snoc: "digits_number base (ds @ [d]) = digits_number base ds * base + d"
  by (simp add: digits_number_def)

lemma digits_bound: "list_all (\<lambda>d. d < base) ds \<Longrightarrow> digits_number base ds < base ^ length ds"
proof (induction ds rule: rev_induct)
  case (snoc d ds)
  then have "digits_number base ds + 1 \<le> base ^ length ds" "d < base" by auto
  then have "digits_number base ds * base + d < (digits_number base ds + 1) * base" by simp
  also have "\<dots> \<le> base ^ length ds * base" using \<open>digits_number base ds + 1 \<le> base ^ length ds\<close> by (rule mult_le_mono1)
  finally show ?case by (simp add: digits_snoc mult.commute)
qed (simp add: digits_number_def)

lemma digits_append: "digits_number base (ds @ es) = digits_number base ds * base ^ length es + digits_number base es"
proof (induction es rule: rev_induct)
  case (snoc e es)
  have "digits_number base (ds @ es @ [e]) = (digits_number base (ds @ es)) * base + e"
    using digits_snoc [of base "ds @ es" e] by simp
  also have "\<dots> = digits_number base ds * base ^ length (es @ [e]) + digits_number base (es @ [e])"
    by (simp add: snoc.IH digits_snoc algebra_simps)
  finally show ?case .
qed (simp add: digits_number_def)

lemma digits_div: "list_all (\<lambda>d. d < base) es \<Longrightarrow> digits_number base (ds @ es) div base ^ length es = digits_number base ds"
  unfolding digits_append by (rule base_div) (rule digits_bound)

lemma digits_mod: "list_all (\<lambda>d. d < base) es \<Longrightarrow> digits_number base (ds @ es) mod base ^ length es = digits_number base es"
  unfolding digits_append by (rule base_div) (rule digits_bound)

lemma digits_inj:
  "length ds = length es \<Longrightarrow> list_all (\<lambda>d. d < base) ds \<Longrightarrow> list_all (\<lambda>d. d < base) es \<Longrightarrow>
     digits_number base ds = digits_number base es \<longleftrightarrow> ds = es"
proof (induction ds arbitrary: es rule: rev_induct)
  case (snoc d ds)
  then obtain e es' where es: "es = es' @ [e]" by (cases es rule: rev_cases) auto
  with snoc show ?case by (simp add: digits_snoc base_eq)
qed simp

abbreviation segments :: "16 word \<Rightarrow> 16 word \<Rightarrow> 16 word \<Rightarrow> 16 word \<Rightarrow> 16 word \<Rightarrow> 16 word \<Rightarrow> 16 word \<Rightarrow> 16 word \<Rightarrow> nat list" where
  "segments s0 s1 s2 s3 s4 s5 s6 s7 \<equiv> [unat s0, unat s1, unat s2, unat s3, unat s4, unat s5, unat s6, unat s7]"

lemma v6_prefixes:
  fixes s0 s1 s2 s3 s4 s5 s6 s7
  defines "x \<equiv> ip_number (V6 s0 s1 s2 s3 s4 s5 s6 s7)"
  shows "x div 2 ^ 121 = unat s0 div 512" "x div 2 ^ 118 = unat s0 div 64" "x div 2 ^ 96 = unat s0 * 65536 + unat s1"
    "x div 2 ^ 32 = digits_number 65536 [unat s0, unat s1, unat s2, unat s3, unat s4, unat s5]"
    "x mod 2 ^ 32 = digits_number 65536 [unat s6, unat s7]"
proof -
  note b = segment_lt
  have x: "x = digits_number 65536 ([unat s0] @ [unat s1, unat s2, unat s3, unat s4, unat s5, unat s6, unat s7])"
    "x = digits_number 65536 ([unat s0, unat s1] @ [unat s2, unat s3, unat s4, unat s5, unat s6, unat s7])"
    "x = digits_number 65536 ([unat s0, unat s1, unat s2, unat s3, unat s4, unat s5] @ [unat s6, unat s7])"
    by (simp_all add: x_def)
  have "x div 65536 ^ 7 = unat s0"
    using digits_div [of 65536 "[unat s1, unat s2, unat s3, unat s4, unat s5, unat s6, unat s7]" "[unat s0]"] b
    unfolding x(1) by (simp add: digits_number_def [of _ "[_]"])
  moreover have "x div 2 ^ 121 = x div 65536 ^ 7 div 512" "x div 2 ^ 118 = x div 65536 ^ 7 div 64" by (simp_all flip: div_mult2_eq)
  ultimately show "x div 2 ^ 121 = unat s0 div 512" "x div 2 ^ 118 = unat s0 div 64" by simp_all
  show "x div 2 ^ 96 = unat s0 * 65536 + unat s1"
    using digits_div [of 65536 "[unat s2, unat s3, unat s4, unat s5, unat s6, unat s7]" "[unat s0, unat s1]"] b
    unfolding x(2) by (simp add: digits_number_def [of _ "[_, _]"])
  show "x div 2 ^ 32 = digits_number 65536 [unat s0, unat s1, unat s2, unat s3, unat s4, unat s5]"
    "x mod 2 ^ 32 = digits_number 65536 [unat s6, unat s7]"
    using digits_div [of 65536 "[unat s6, unat s7]" "[unat s0, unat s1, unat s2, unat s3, unat s4, unat s5]"]
      digits_mod [of 65536 "[unat s6, unat s7]" "[unat s0, unat s1, unat s2, unat s3, unat s4, unat s5]"] b
    unfolding x(3) by simp_all
qed

lemma unat_high: "unat (drop_bit 8 (s :: 16 word)) = unat s div 256"
proof -
  have "unat (drop_bit 8 s) = unat s div 2 ^ 8" by (metis unat_drop_bit_eq drop_bit_eq_div)
  then show ?thesis by simp
qed

lemma mapped_number:
  assumes "to_ipv4_mapped (V6 s0 s1 s2 s3 s4 s5 s6 s7) = Some v4"
  shows "ip_number v4 = ip_number (V6 s0 s1 s2 s3 s4 s5 s6 s7) mod 2 ^ 32"
proof -
  have "unat s div 256 mod 256 = unat s div 256" "unat s div 256 * 256 + unat s mod 256 = unat s" for s :: "16 word"
    using segment_lt [of s] by (simp_all add: less_mult_imp_div_less)
  note s = this
  from assms have v4: "v4 = V4 (ucast (drop_bit 8 s6)) (ucast s6) (ucast (drop_bit 8 s7)) (ucast s7)" by (auto split: if_splits)
  have "ip_number v4 = ((unat s6 div 256 * 256 + unat s6 mod 256) * 256 + unat s7 div 256) * 256 + unat s7 mod 256"
    unfolding v4 ip_number.simps digits_number_def by (simp add: unsigned_ucast_eq take_bit_eq_mod unat_high s(1) del: div_mult_mod_eq mod_div_mult_eq)
  also have "\<dots> = unat s6 * 65536 + (unat s7 div 256 * 256 + unat s7 mod 256)" by (simp only: s(2)) simp
  finally show ?thesis unfolding v6_prefixes(5) s(2) by (simp add: digits_number_def)
qed

lemma zero_segments:
  "digits_number 65536 (segments s0 s1 s2 s3 s4 s5 s6 s7) = k \<longleftrightarrow>
     s0 = 0 \<and> s1 = 0 \<and> s2 = 0 \<and> s3 = 0 \<and> s4 = 0 \<and> s5 = 0 \<and> s6 = 0 \<and> unat s7 = k" if "k < 65536"
proof -
  have "k = digits_number 65536 [0, 0, 0, 0, 0, 0, 0, k]" by (simp add: digits_number_def)
  then show ?thesis
    using digits_inj [of "segments s0 s1 s2 s3 s4 s5 s6 s7" "[0, 0, 0, 0, 0, 0, 0, k]" 65536] segment_lt that
    by (simp add: unat_eq_0)
qed

lemma mapped_block:
  "in_block 128 (ip_number (V6 s0 s1 s2 s3 s4 s5 s6 s7)) MAPPED \<longleftrightarrow> to_ipv4_mapped (V6 s0 s1 s2 s3 s4 s5 s6 s7) \<noteq> None"
proof -
  have "fst MAPPED div 2 ^ 32 = digits_number 65536 [0, 0, 0, 0, 0, 65535]" "snd MAPPED = 96"
    by (simp_all add: MAPPED_def digits_number_def)
  then have "in_block 128 (ip_number (V6 s0 s1 s2 s3 s4 s5 s6 s7)) MAPPED \<longleftrightarrow>
      digits_number 65536 [unat s0, unat s1, unat s2, unat s3, unat s4, unat s5] = digits_number 65536 [0, 0, 0, 0, 0, 65535]"
    unfolding in_block_def by (simp only: v6_prefixes(4)) (simp add: v6_prefixes(4) [simplified])
  also have "\<dots> \<longleftrightarrow> [unat s0, unat s1, unat s2, unat s3, unat s4, unat s5] = [0, 0, 0, 0, 0, 65535]"
    using segment_lt by (intro digits_inj) simp_all
  finally show ?thesis by (simp add: unat_eq_0 word_unat_eq_iff [of s5])
qed

lemma v6_blocks:
  "list_ex (in_block 128 (ip_number (V6 s0 s1 s2 s3 s4 s5 s6 s7))) FORBIDDEN_V6 \<longleftrightarrow>
     (s0 = 0 \<and> s1 = 0 \<and> s2 = 0 \<and> s3 = 0 \<and> s4 = 0 \<and> s5 = 0 \<and> s6 = 0 \<and> s7 = 1) \<or>
     (s0 = 0 \<and> s1 = 0 \<and> s2 = 0 \<and> s3 = 0 \<and> s4 = 0 \<and> s5 = 0 \<and> s6 = 0 \<and> s7 = 0) \<or>
     s0 AND 0xfe00 = 0xfc00 \<or> s0 AND 0xffc0 = 0xfe80 \<or> (s0 = 0x2001 \<and> s1 = 0x0db8)"
proof -
  define x where "x = ip_number (V6 s0 s1 s2 s3 s4 s5 s6 s7)"
  note p = v6_prefixes [of s0 s1 s2 s3 s4 s5 s6 s7, folded x_def]
  have "x = digits_number 65536 (segments s0 s1 s2 s3 s4 s5 s6 s7)" by (simp add: x_def)
  then have "in_block 128 x (1, 128) \<longleftrightarrow> s0 = 0 \<and> s1 = 0 \<and> s2 = 0 \<and> s3 = 0 \<and> s4 = 0 \<and> s5 = 0 \<and> s6 = 0 \<and> s7 = 1"
    "in_block 128 x (0, 128) \<longleftrightarrow> s0 = 0 \<and> s1 = 0 \<and> s2 = 0 \<and> s3 = 0 \<and> s4 = 0 \<and> s5 = 0 \<and> s6 = 0 \<and> s7 = 0"
    using zero_segments [of 1 s0 s1 s2 s3 s4 s5 s6 s7] zero_segments [of 0 s0 s1 s2 s3 s4 s5 s6 s7]
    by (simp_all add: in_block_def word_unat_eq_iff [of s7])
  moreover have "in_block 128 x (digits_number 65536 [0xfc00, 0, 0, 0, 0, 0, 0, 0], 7) \<longleftrightarrow> s0 AND 0xfe00 = 0xfc00"
    using p(1) by (simp add: in_block_def digits_number_def segment_masks)
  moreover have "in_block 128 x (digits_number 65536 [0xfe80, 0, 0, 0, 0, 0, 0, 0], 10) \<longleftrightarrow> s0 AND 0xffc0 = 0xfe80"
    using p(2) by (simp add: in_block_def digits_number_def segment_masks)
  moreover have "in_block 128 x (digits_number 65536 [0x2001, 0xdb8, 0, 0, 0, 0, 0, 0], 32) \<longleftrightarrow> s0 = 0x2001 \<and> s1 = 0x0db8"
    using p(3) base_eq [OF segment_lt [of s1], of "0xdb8" "unat s0" "0x2001"]
    by (simp add: in_block_def digits_number_def word_unat_eq_iff [of s0] word_unat_eq_iff [of s1])
  ultimately show ?thesis unfolding FORBIDDEN_V6_def x_def [symmetric] by simp
qed

text \<open>
  C39. The addresses nothing is sent to are exactly the documented blocks. An IPv4 address is refused if
  and only if it lies in 10/8, 172.16/12, 192.168/16, 127/8, 169.254/16, 0/8 or 100.64/10; an IPv6 address if
  and only if it is the loopback or the unspecified address, lies in fc00::/7, fe80::/10 or 2001:db8::/32, or
  is an IPv4-mapped address (::ffff:0:0/96) whose last 32 bits are a refused IPv4 address.
\<close>

theorem forbidden_ranges_exact:
  "is_private_ip ip \<longleftrightarrow>
     (case ip of
        V4 _ _ _ _ \<Rightarrow> list_ex (in_block 32 (ip_number ip)) FORBIDDEN_V4
      | V6 _ _ _ _ _ _ _ _ \<Rightarrow> list_ex (in_block 128 (ip_number ip)) FORBIDDEN_V6 \<or>
          in_block 128 (ip_number ip) MAPPED \<and> list_ex (in_block 32 (ip_number ip mod 2 ^ 32)) FORBIDDEN_V4)"
proof (cases ip)
  case (V4 a b c d)
  then show ?thesis using v4_blocks [of a b c d] by (simp del: ip_number.simps private_v4.simps)
next
  case (V6 s0 s1 s2 s3 s4 s5 s6 s7)
  let ?m = "to_ipv4_mapped (V6 s0 s1 s2 s3 s4 s5 s6 s7)"
  have "(case ?m of Some v4 \<Rightarrow> private_v4 v4 | None \<Rightarrow> False) \<longleftrightarrow>
      in_block 128 (ip_number ip) MAPPED \<and> list_ex (in_block 32 (ip_number ip mod 2 ^ 32)) FORBIDDEN_V4"
  proof (cases ?m)
    case None
    then show ?thesis using mapped_block [of s0 s1 s2 s3 s4 s5 s6 s7] V6 by (simp del: ip_number.simps to_ipv4_mapped.simps)
  next
    case (Some v4)
    then obtain a b c d where v4: "v4 = V4 a b c d" by (auto split: if_splits)
    from mapped_number [OF Some] have "list_ex (in_block 32 (ip_number ip mod 2 ^ 32)) FORBIDDEN_V4 \<longleftrightarrow> private_v4 v4"
      unfolding V6 using v4_blocks [of a b c d] by (simp only: v4)
    then show ?thesis using mapped_block [of s0 s1 s2 s3 s4 s5 s6 s7] V6 Some by (simp del: ip_number.simps to_ipv4_mapped.simps)
  qed
  then show ?thesis
    unfolding V6 ip_addr.case v6_blocks is_private_ip.simps by (simp only: disj_assoc)
qed

section \<open>What a stored list grants\<close>

text \<open>The host of a raw origin is made of letters, digits, dots, dashes and underscores.\<close>

definition plain_uri :: "string \<Rightarrow> bool" where
  "plain_uri raw \<longleftrightarrow>
     (case split_scheme (trim raw) of
        None \<Rightarrow> False
      | Some (_, rest) \<Rightarrow>
          (case split_port (takeWhile (\<lambda>c. c \<notin> set ''/?#'') rest) of Inr (h, _) \<Rightarrow> plain_host h | Inl _ \<Rightarrow> False))"

lemma parse_unsigned_bound: "parse_unsigned w p = Some n \<Longrightarrow> n < 2 ^ w"
  by (auto simp: parse_unsigned_def Let_def split: if_splits)

lemma split_port_bound: "split_port a = Inr (h, Some n) \<Longrightarrow> n < 65536"
  using parse_unsigned_bound [of 16] by (auto simp: split_port_def split: option.splits if_splits)

lemma plain_host_lower: "plain_host h \<Longrightarrow> plain_host (to_ascii_lowercase h)"
  using plain_char_lower by (auto simp: plain_host_def to_ascii_lowercase_def list_all_iff)

lemma lowercase_idem: "to_ascii_lowercase (to_ascii_lowercase s) = to_ascii_lowercase s"
  by (simp add: to_ascii_lowercase_def ascii_lower_idem)

lemma normalize_parts:
  assumes "normalize_origin raw = Inr out" "plain_uri raw"
  obtains scheme host port where "scheme \<in> {''http'', ''https''}" "plain_host host" "to_ascii_lowercase host = host"
    "\<And>p. port = Some p \<Longrightarrow> p < 65536" "out = origin_text scheme host port"
proof -
  from assms(1) obtain scheme0 rest where s: "split_scheme (trim raw) = Some (scheme0, rest)"
    by (auto simp: normalize_origin_def split: option.splits)
  let ?a = "takeWhile (\<lambda>c. c \<notin> set ''/?#'') rest"
  from assms(1) s obtain h port where p: "split_port ?a = Inr (h, port)"
    by (auto simp: normalize_origin_def Let_def split: if_splits sum.splits)
  have h: "plain_host h" using assms(2) s p by (simp add: plain_uri_def)
  have out: "to_ascii_lowercase scheme0 \<in> {''http'', ''https''}"
    "out = origin_text (to_ascii_lowercase scheme0) (to_ascii_lowercase h) port"
    using assms(1) unfolding normalize_origin_def s option.case prod.case Let_def p by (auto split: if_splits)
  from that [OF out(1) plain_host_lower [OF h] lowercase_idem _ out(2)] split_port_bound p show ?thesis by blast
qed

lemma normalize_idem: "normalize_origin raw = Inr out \<Longrightarrow> plain_uri raw \<Longrightarrow> normalize_origin out = Inr out"
  by (erule normalize_parts, assumption) (use normalize_plain [where path = "[]"] in force)

lemma system_roundtrip [simp]: "system_parse (system_as_str s) = Some s"
  by (cases s) (simp_all add: system_parse_def)

lemma entry_roundtrip [simp]: "entry_of_json (entry_json e) = Some e"
  by (simp add: entry_of_json_def entry_json_def)

lemma parse_stored:
  "from_str (to_string (JArray (map entry_json es))) = Some (JArray (map entry_json es)) \<Longrightarrow>
     parse_allowlist from_str (to_string (JArray (map entry_json es))) = es"
  by (simp add: parse_allowlist_def map_filter_map_filter) (simp add: List.map_filter_def comp_def)

lemma validate_each_list: "validate_each ul es = Inr ns \<Longrightarrow> list_all2 (\<lambda>e n. validate_entry ul e = Inr n) es ns"
  by (induction es arbitrary: ns) (auto simp: split: sum.splits)

definition grants :: "raw_egress_entry \<Rightarrow> egress_system \<Rightarrow> string \<Rightarrow> bool" where
  "grants e sys origin \<longleftrightarrow>
     system_parse (re_system e) = Some sys \<and>
     (\<exists>out. normalize_origin (re_uri e) = Inr out \<and> normalize_origin origin = Inr out)"

lemma entry_grants:
  assumes "validate_entry ul e = Inr n" "plain_uri (re_uri e)"
  shows "ee_system n = sys \<and> normalize_origin (ee_uri n) = Inr target \<longleftrightarrow>
    system_parse (re_system e) = Some sys \<and> normalize_origin (re_uri e) = Inr target"
  using assms normalize_idem by (auto simp: validate_entry_def split: option.splits sum.splits if_splits)

lemma list_all2_ex_iff:
  assumes "list_all2 R xs ys" "\<And>x y. x \<in> set xs \<Longrightarrow> R x y \<Longrightarrow> P x \<longleftrightarrow> Q y"
  shows "(\<exists>x\<in>set xs. P x) \<longleftrightarrow> (\<exists>y\<in>set ys. Q y)"
  using assms by (induction rule: list_all2_induct) auto

lemma find_stored_list:
  "find (\<lambda>t. et_id t = k \<and> \<not> et_deleted t) (store_allowlist ts tenant stored) =
     map_option (\<lambda>t. if et_id t = tenant \<and> \<not> et_deleted t then t\<lparr> et_allowlist := Some stored \<rparr> else t)
       (find (\<lambda>t. et_id t = k \<and> \<not> et_deleted t) ts)"
  unfolding store_allowlist_def by (induction ts) auto

text \<open>
  C38. What an administrator submits is what is granted. When a list of entries is accepted for a live
  tenant, the gate that reads the stored text back lets traffic of a system out to an origin if and only if
  one of the submitted entries names that system and the same origin, however either of them is spelled
  (case, default port, path); the list of no other tenant changes, and the version of this tenant's list
  moves. No entry of a function points at a literal private address. (The stored list parses back to what was printed,
  and the submitted origins are plain: a scheme, a host of letters, digits, dots, hyphens and underscores, so no IPv6 literal, and perhaps a port.)
\<close>

theorem egress_list_grants_exactly:
  assumes serde: "\<And>es. validate_entries ul limit entries = Inr es \<Longrightarrow>
      from_str (to_string (JArray (map entry_json es))) = Some (JArray (map entry_json es))"
    and accepted: "set_allowlist ul limit to_string wrote (ts, versions) tenant entries = (EgressBody stored, ts', versions')"
    and live: "find (\<lambda>t. et_id t = tenant \<and> \<not> et_deleted t) ts = Some t"
    and plain: "list_all (\<lambda>e. plain_uri (re_uri e)) entries"
  shows "try_read_live_egress_allowlist (Some ts') tenant = Inr (Some stored) \<and>
    (\<forall>sys origin. check_egress from_str stored sys origin \<longleftrightarrow> list_ex (\<lambda>e. grants e sys origin) entries) \<and>
    (\<forall>other. other \<noteq> tenant \<longrightarrow>
       try_read_live_egress_allowlist (Some ts') other = try_read_live_egress_allowlist (Some ts) other) \<and>
    versions' tenant = versions tenant + 1 \<and>
    list_all (\<lambda>e. ee_system e = Function \<longrightarrow> \<not> origin_host_is_private_ip ul (ee_uri e)) (parse_allowlist from_str stored)"
proof -
  from accepted obtain ns where ns: "validate_entries ul limit entries = Inr ns"
    and st: "stored = to_string (JArray (map entry_json ns))" "ts' = store_allowlist ts tenant stored"
      "versions' = bump_version versions tenant"
    by (auto simp: set_allowlist_def Let_def split: sum.splits)
  have parsed: "parse_allowlist from_str stored = ns" unfolding st(1) by (rule parse_stored) (rule serde [OF ns])
  have all: "list_all2 (\<lambda>e n. validate_entry ul e = Inr n) entries ns"
    using ns by (auto simp: validate_entries_def split: if_splits dest: validate_each_list)
  have t: "et_id t = tenant" "\<not> et_deleted t" using live by (auto simp: find_Some_iff)
  have "try_read_live_egress_allowlist (Some ts') tenant = Inr (Some stored)"
    unfolding st(2) using live t by (simp add: try_read_live_egress_allowlist_def find_stored_list unwrap_or_def)
  moreover have "try_read_live_egress_allowlist (Some ts') other = try_read_live_egress_allowlist (Some ts) other"
    if "other \<noteq> tenant" for other using that
    unfolding st(2) by (auto simp: try_read_live_egress_allowlist_def find_stored_list option.map_comp find_Some_iff intro!: option.map_cong)
  moreover have "versions' tenant = versions tenant + 1" by (simp add: st(3) bump_version_def)
  moreover have "list_all (\<lambda>e. ee_system e = Function \<longrightarrow> \<not> origin_host_is_private_ip ul (ee_uri e)) (parse_allowlist from_str stored)"
    unfolding parsed using all
    by (induction rule: list_all2_induct) (auto simp: validate_entry_def split: option.splits sum.splits if_splits)
  moreover have "check_egress from_str stored sys origin \<longleftrightarrow> list_ex (\<lambda>e. grants e sys origin) entries" for sys origin
  proof (cases "normalize_origin origin")
    case (Inr target)
    have "(\<exists>e\<in>set entries. grants e sys origin) \<longleftrightarrow> (\<exists>n\<in>set ns. ee_system n = sys \<and> normalize_origin (ee_uri n) = Inr target)"
      using all by (rule list_all2_ex_iff) (use Inr plain entry_grants in \<open>auto simp: grants_def list_all_iff\<close>)
    then show ?thesis by (simp add: check_egress_def parsed Inr list_ex_iff)
  qed (simp add: check_egress_def grants_def list_ex_iff)
  ultimately show ?thesis by blast
qed

definition example_url_lib :: url_lib where
  "example_url_lib =
     \<lparr> ul_host = (\<lambda>u. if starts_with u ''https://api.example.com'' then Some ''api.example.com'' else None),
       ul_port = (\<lambda>_. None), ul_scheme = (\<lambda>_. None),
       ul_parse_ip = (\<lambda>h. if h = ''10.0.0.8'' then Some (V4 10 0 0 8) else None) \<rparr>"

definition example_entries :: "raw_egress_entry list" where
  "example_entries = [\<lparr> re_system = ''function'', re_uri = ''HTTPS://API.example.com:443/v1'' \<rparr>]"

definition example_list :: json where
  "example_list = JArray [JObject [(''system'', JString ''function''), (''uri'', JString ''https://api.example.com'')]]"

definition example_egress :: "egress_tenant list" where
  "example_egress = [\<lparr> et_id = ''acme'', et_deleted = False, et_allowlist = None \<rparr>]"

lemmas egress_example = example_url_lib_def example_entries_def example_list_def example_egress_def

lemma trim_all_graphic: "list_all graphic s \<Longrightarrow> s \<noteq> [] \<Longrightarrow> trim s = s"
  using trim_graphic [of s "[]"] by simp

lemma example_split:
  "split_scheme (trim ''HTTPS://API.example.com:443/v1'') = Some (''HTTPS'', ''API.example.com:443/v1'')"
  "split_port ''API.example.com:443'' = Inr (''API.example.com'', Some 443)"
proof -
  show "split_scheme (trim ''HTTPS://API.example.com:443/v1'') = Some (''HTTPS'', ''API.example.com:443/v1'')"
    by (subst trim_all_graphic) (simp_all add: graphic_def byte_def)
  have "parse_unsigned 16 ''443'' = Some 443" by (simp add: parse_unsigned_def is_digit_def digits_value_def byte_def)
  then show "split_port ''API.example.com:443'' = Inr (''API.example.com'', Some 443)"
    using rsplit_colon_port [of "''443''" "''API.example.com''"] by (simp add: split_port_def is_digit_def byte_def)
qed

lemma example_origin:
  "normalize_origin ''HTTPS://API.example.com:443/v1'' = Inr ''https://api.example.com''"
  "normalize_origin ''https://api.example.com'' = Inr ''https://api.example.com''"
  "normalize_origin ''https://api.example.com/v1/items'' = Inr ''https://api.example.com''"
proof -
  have t: "origin_text ''https'' ''api.example.com'' None = ''https://api.example.com''" by (simp add: origin_text_def)
  have h: "plain_host ''api.example.com''" "to_ascii_lowercase ''api.example.com'' = ''api.example.com''"
    by (simp_all add: plain_host_def plain_char_def is_ascii_alphanumeric_def is_ascii_alphabetic_def to_ascii_lowercase_def ascii_lower_def byte_def)
  show "normalize_origin ''https://api.example.com'' = Inr ''https://api.example.com''"
    using normalize_plain [of "''https''" "''api.example.com''" None "[]", OF _ h] t by simp
  show "normalize_origin ''https://api.example.com/v1/items'' = Inr ''https://api.example.com''"
    using normalize_plain [of "''https''" "''api.example.com''" None "''/v1/items''", OF _ h] t by simp
  show "normalize_origin ''HTTPS://API.example.com:443/v1'' = Inr ''https://api.example.com''"
    unfolding normalize_origin_def example_split(1) option.case prod.case Let_def
    by (simp add: example_split(2) origin_text_def default_port_def to_ascii_lowercase_def ascii_lower_def byte_def char_of_def bit_Suc_0_iff bit_1_iff bit_iff_odd)
qed

lemma example_plain: "plain_uri ''HTTPS://API.example.com:443/v1''"
  by (simp add: plain_uri_def example_split plain_host_def plain_char_def is_ascii_alphanumeric_def is_ascii_alphabetic_def byte_def)

lemma example_entries_validated:
  "validate_entries example_url_lib 50 example_entries = Inr [\<lparr> ee_system = Function, ee_uri = ''https://api.example.com'' \<rparr>]"
  by (simp add: validate_entries_def validate_entry_def example_entries_def example_origin system_parse_def
      origin_host_is_private_ip_def literal_ip_def unbracket_def example_url_lib_def starts_with_def)

theorem egress_list_grants_exactly_witness:
  "check_egress (\<lambda>s. if s = ''T'' then Some example_list else None) ''T'' Function ''https://api.example.com''"
proof -
  let ?f = "\<lambda>s. if s = ''T'' then Some example_list else None"
  let ?r = "(EgressBody ''T'', [\<lparr> et_id = ''acme'', et_deleted = False, et_allowlist = Some ''T'' \<rparr>], bump_version (\<lambda>_. 0) ''acme'')"
  have 1: "?f ((\<lambda>_. ''T'') (JArray (map entry_json es))) = Some (JArray (map entry_json es))"
    if "validate_entries example_url_lib 50 example_entries = Inr es" for es
    using that by (simp add: example_entries_validated entry_json_def example_list_def) (auto simp: entry_json_def)
  have 2: "set_allowlist example_url_lib 50 (\<lambda>_. ''T'') (Inr ()) (example_egress, \<lambda>_. 0) ''acme'' example_entries = ?r"
    by (simp add: set_allowlist_def example_entries_validated Let_def store_allowlist_def example_egress_def)
  have 3: "find (\<lambda>t. et_id t = ''acme'' \<and> \<not> et_deleted t) example_egress = Some (hd example_egress)"
    by (simp add: example_egress_def)
  have 4: "list_all (\<lambda>e. plain_uri (re_uri e)) example_entries" by (simp add: example_entries_def example_plain)
  have "list_ex (\<lambda>e. grants e Function ''https://api.example.com'') example_entries"
    by (simp add: example_entries_def grants_def system_parse_def example_origin)
  then show ?thesis using egress_list_grants_exactly [where from_str = ?f and to_string = "\<lambda>_. ''T''", OF 1 2 3 4] by blast
qed

section \<open>Where a fetch goes\<close>

lemma resolve_public_public: "Inr ips = resolve_public ul dns host \<Longrightarrow> ip \<in> set ips \<Longrightarrow> \<not> is_private_ip ip"
  by (auto simp: resolve_public_def Let_def split: option.splits if_splits)

lemma dial_public:
  assumes "ul_host ul url = ul_host ul origin" "\<not> origin_host_is_private_ip ul origin" "ip \<in> set (dial ul dns url)"
  shows "\<not> is_private_ip ip"
  using assms resolve_public_public by (auto simp: dial_def origin_host_is_private_ip_def split: option.splits sum.splits)

text \<open>
  C34. A function reaches nothing but its allowlist. Whatever origin, path, method and headers the guest
  passes, a request that \<open>http_fetch\<close> sends goes to an allowlisted origin of the system \<open>function\<close>
  followed by the path, which cannot have moved the request to another origin; it carries no header that sets the host,
  the length or the connection, uses one of six methods, and whatever DNS answers at the moment of the dial the client connects
  to no private address. A second fetch of the invocation is judged by the list the first one read. (The URL parser finds the same
  host in an origin with a path as in the origin alone.)
\<close>

theorem fetch_stays_on_allowlist:
  assumes sent: "http_fetch ul from_str meta in_budget tenant st origin path meth body headers = (Inr req, st')"
    and url_parser: "\<And>out. normalize_origin origin = Inr out \<Longrightarrow> path = [] \<or> prefix ''/'' path \<Longrightarrow>
      ul_host ul (out @ path) = ul_host ul out"
  shows "(\<exists>e out. e \<in> set (parse_allowlist from_str (hf_allowlist st')) \<and> ee_system e = Function \<and>
      normalize_origin origin = Inr out \<and> normalize_origin (ee_uri e) = normalize_origin out \<and>
      fr_url req = out @ path \<and> normalize_origin (fr_url req) = Inr out) \<and>
    list_all (\<lambda>(k, _). \<not> is_forbidden_fetch_header (to_ascii_lowercase k)) (fr_headers req) \<and>
    fr_method req \<in> set FETCH_METHODS \<and>
    (\<forall>dns. list_all (\<lambda>ip. \<not> is_private_ip ip) (dial ul dns (fr_url req))) \<and>
    st' = fetch_allowlist meta tenant st \<and> fetch_allowlist meta' tenant st' = st'"
proof -
  from sent obtain out where out: "normalize_origin origin = Inr out" by (auto simp: http_fetch_def split: sum.splits)
  note sent = sent [unfolded http_fetch_def out sum.case Let_def]
  from sent have "\<not> origin_host_is_private_ip ul out" and st': "st' = fetch_allowlist meta tenant st"
    and allowed: "check_egress from_str (hf_allowlist st') Function out" and path: "path = [] \<or> prefix ''/'' path"
    and meth: "fr_method req \<in> set FETCH_METHODS" and url: "fr_url req = out @ path" "normalize_origin (out @ path) = Inr out"
    and hs: "fr_headers req = filter (\<lambda>(k, _). \<not> is_forbidden_fetch_header (to_ascii_lowercase k)) headers"
    by (auto simp: starts_with_def split: if_splits sum.splits)
  moreover from allowed obtain e where "e \<in> set (parse_allowlist from_str (hf_allowlist st'))" "ee_system e = Function"
    "normalize_origin (ee_uri e) = normalize_origin out"
    by (auto simp: check_egress_def list_ex_iff split: sum.splits)
  moreover have "fetch_allowlist meta' tenant st' = st'" by (simp add: st' fetch_allowlist_def)
  moreover have "list_all (\<lambda>ip. \<not> is_private_ip ip) (dial ul dns (fr_url req))" for dns
    unfolding url list_all_iff using dial_public [OF url_parser [OF out path]] calculation(1) by blast
  ultimately show ?thesis using out by (auto simp: list_all_iff)
qed

definition example_fetch :: fetch_request where
  "example_fetch = \<lparr> fr_method = ''GET'', fr_url = ''https://api.example.com/v1/items'', fr_headers = [(''Accept'', ''*'')], fr_body = [] \<rparr>"

theorem fetch_stays_on_allowlist_witness:
  "list_all (\<lambda>ip. \<not> is_private_ip ip) (dial example_url_lib (\<lambda>_. Some [V4 10 0 0 8, V4 8 8 8 8]) (fr_url example_fetch))"
proof -
  let ?f = "\<lambda>s. if s = ''T'' then Some example_list else None"
  let ?st = "\<lparr> hf_allowlist = ''T'', hf_resolved = True \<rparr>"
  have "parse_allowlist ?f ''T'' = [\<lparr> ee_system = Function, ee_uri = ''https://api.example.com'' \<rparr>]"
    by (simp add: parse_allowlist_def example_list_def entry_of_json_def system_parse_def List.map_filter_def)
  then have "check_egress ?f ''T'' Function ''https://api.example.com''"
    by (simp add: check_egress_def example_origin)
  moreover have "to_ascii_uppercase ''get'' = ''GET''" by code_simp
  moreover have "\<not> origin_host_is_private_ip example_url_lib ''https://api.example.com''"
    by (simp add: origin_host_is_private_ip_def literal_ip_def unbracket_def example_url_lib_def starts_with_def)
  moreover have "\<not> is_forbidden_fetch_header (to_ascii_lowercase ''Accept'')" "is_forbidden_fetch_header (to_ascii_lowercase ''Host'')"
    by code_simp+
  ultimately have 1: "http_fetch example_url_lib ?f None True ''acme'' ?st ''https://api.example.com'' ''/v1/items'' ''get'' []
      [(''Host'', ''evil''), (''Accept'', ''*'')] = (Inr example_fetch, ?st)"
    by (simp add: http_fetch_def example_origin Let_def fetch_allowlist_def FETCH_METHODS_def starts_with_def example_fetch_def)
  have 2: "ul_host example_url_lib (out @ ''/v1/items'') = ul_host example_url_lib out"
    if "normalize_origin ''https://api.example.com'' = Inr out" for out
    using that by (simp add: example_origin) (auto simp: example_url_lib_def starts_with_def)
  from fetch_stays_on_allowlist [OF 1 2] show ?thesis by blast
qed

section \<open>Two gaps\<close>

text \<open>
  A literal IPv6 origin on the default port is stored without its port, and what is stored is then no origin: its last colon is taken for
  that of a port. Such an entry is accepted and never matches anything.
\<close>

lemma ipv6_origins:
  "normalize_origin ''https://[2606::1]:443'' = Inr ''https://[2606::1]''"
  "normalize_origin ''https://[2606::1]'' = Inl ()"
proof -
  have t: "split_scheme (trim ''https://[2606::1]:443'') = Some (''https'', ''[2606::1]:443'')"
    "split_scheme (trim ''https://[2606::1]'') = Some (''https'', ''[2606::1]'')"
    by (subst trim_all_graphic; simp add: graphic_def byte_def)+
  have "parse_unsigned 16 ''443'' = Some 443" by (simp add: parse_unsigned_def is_digit_def digits_value_def byte_def)
  then have p: "split_port ''[2606::1]:443'' = Inr (''[2606::1]'', Some 443)"
    using rsplit_colon_port [of "''443''" "''[2606::1]''"] by (simp add: split_port_def is_digit_def byte_def)
  have p2: "split_port ''[2606::1]'' = Inl ()"
    using rsplit_colon_port [of "''1]''" "''[2606:''"] by (simp add: split_port_def is_digit_def byte_def)
  show "normalize_origin ''https://[2606::1]:443'' = Inr ''https://[2606::1]''"
    unfolding normalize_origin_def t(1) option.case prod.case Let_def
    by (simp add: p origin_text_def default_port_def to_ascii_lowercase_def ascii_lower_def byte_def)
  show "normalize_origin ''https://[2606::1]'' = Inl ()"
    unfolding normalize_origin_def t(2) option.case prod.case Let_def
    by (simp add: p2 to_ascii_lowercase_def ascii_lower_def byte_def)
qed

lemma ipv6_entry_grants_nothing:
  assumes "parse_allowlist from_str text = [\<lparr> ee_system = sys, ee_uri = ''https://[2606::1]'' \<rparr>]"
  shows "\<not> check_egress from_str text sys' origin"
  using assms by (auto simp: check_egress_def ipv6_origins split: sum.splits)

text \<open>
  The list of a function is read whatever the tenant's state: a soft-deleted tenant keeps what it had, while the read for live
  traffic denies it everything.
\<close>

lemma deleted_tenant_fetches:
  assumes "ts = [\<lparr> et_id = tenant, et_deleted = True, et_allowlist = Some l \<rparr>]"
  shows "hf_allowlist (fetch_allowlist (Some ts) tenant \<lparr> hf_allowlist = ''[]'', hf_resolved = False \<rparr>) = l \<and>
    try_read_live_egress_allowlist (Some ts) tenant = Inr None"
  by (simp add: assms fetch_allowlist_def read_egress_allowlist_def try_read_live_egress_allowlist_def unwrap_or_def)

end
