(* ===== verification/File_Path.thy ===== *)
theory File_Path
  imports Prelude
begin

text \<open>
  The grammar of logical file paths and policy prefixes, \<open>storage/file_path.rs\<close>, and the
  upper bound of a prefix's range. A prefix is matched by a range of byte strings, never by
  LIKE: the properties below are what makes that equivalent to \<open>starts_with\<close>.
\<close>

definition MAX_PATH_BYTES :: nat where "MAX_PATH_BYTES = 512"
definition MAX_SEGMENT_BYTES :: nat where "MAX_SEGMENT_BYTES = 255"

definition is_forbidden_control :: "char \<Rightarrow> bool" where
  "is_forbidden_control c = (byte c < 32 \<or> byte c = 127)"

text \<open>\<open>{:04X}\<close> of a control character: its code is below 128, two hexadecimal digits.\<close>

definition hex_digit :: "nat \<Rightarrow> char" where
  "hex_digit n = (if n < 10 then char_of (48 + n) else char_of (55 + n))"

definition hex4 :: "nat \<Rightarrow> string" where
  "hex4 n = map hex_digit [n div 4096 mod 16, n div 256 mod 16, n div 16 mod 16, n mod 16]"

definition check_segment :: "string \<Rightarrow> (unit, string) result" where
  "check_segment seg =
     (if seg = [] then Inl (''path must not contain an empty segment ('' @ squoted ''//'' @ '')'')
      else if length seg > MAX_SEGMENT_BYTES then
        Inl (''path segment is '' @ nat_to_string (length seg) @ '' bytes, over the '' @
             nat_to_string MAX_SEGMENT_BYTES @ '' byte limit'')
      else if seg = ''.'' \<or> seg = ''..'' then
        Inl (''path must not contain a '' @ squoted ''.'' @ '' or '' @ squoted ''..'' @ '' segment'')
      else case find is_forbidden_control seg of
          Some c \<Rightarrow> Inl (''path must not contain control character U+'' @ hex4 (byte c))
        | None \<Rightarrow> Inr ())"

definition validate_file_path :: "string \<Rightarrow> (unit, string) result" where
  "validate_file_path path =
     (if path = [] then Inl ''path must not be empty (omit the field instead)''
      else if length path > MAX_PATH_BYTES then
        Inl (''path is '' @ nat_to_string (length path) @ '' bytes, over the '' @
             nat_to_string MAX_PATH_BYTES @ '' byte limit'')
      else if starts_with path ''/'' then Inl (''path must not start with '' @ squoted ''/'')
      else if ends_with path ''/'' then Inl (''path must not end with '' @ squoted ''/'')
      else try_for_each check_segment (split_on (CHR ''/'') path))"

definition validate_file_prefix :: "string \<Rightarrow> (unit, string) result" where
  "validate_file_prefix p =
     (if p = [] then Inr ()
      else if length p > MAX_PATH_BYTES then
        Inl (''prefix is '' @ nat_to_string (length p) @ '' bytes, over the '' @
             nat_to_string MAX_PATH_BYTES @ '' byte limit'')
      else if \<not> ends_with p ''/'' then Inl (''a non-empty prefix must end with '' @ squoted ''/'')
      else if butlast p = [] then Inl (''the root prefix is '' @ squoted [] @ '' (empty), not '' @ squoted ''/'')
      else map_err (replace_str ''path'' ''prefix'') (validate_file_path (butlast p)))"

definition prefix_upper_bound :: "string \<Rightarrow> string" where
  "prefix_upper_bound p =
     (if p = [] then []
      else let bytes = butlast p @ [char_of ((byte (last p) + 1) mod 256)]
           in if is_utf8 bytes then bytes else p)"

section \<open>Lemmas\<close>

lemma check_segment_ok:
  "check_segment seg = Inr () \<longleftrightarrow> 1 \<le> length seg \<and> length seg \<le> MAX_SEGMENT_BYTES \<and>
     seg \<noteq> ''.'' \<and> seg \<noteq> ''..'' \<and> list_all (\<lambda>c. \<not> is_forbidden_control c) seg"
proof -
  have "find is_forbidden_control seg = None \<longleftrightarrow> list_all (\<lambda>c. \<not> is_forbidden_control c) seg"
    by (auto simp: find_None_iff list_all_iff)
  then show ?thesis
    by (auto simp: check_segment_def Suc_le_eq split: option.splits)
qed

lemma starts_with_slash: "starts_with path ''/'' \<Longrightarrow> [] \<in> set (split_on (CHR ''/'') path)"
  by (cases path) (auto simp: starts_with_def)

lemma ends_with_slash: "ends_with path ''/'' \<Longrightarrow> [] \<in> set (split_on (CHR ''/'') path)"
proof -
  assume "ends_with path ''/''"
  then obtain b where "path = b @ CHR ''/'' # []" by (auto simp: ends_with_def suffix_def)
  then show ?thesis by (simp add: split_on_append)
qed

lemma byte_ascii_append:
  assumes "byte c < 128" "b \<noteq> []"
  shows "utf8_seq (b @ [c]) = utf8_seq b"
proof -
  have nc: "\<not> cont (byte c)" using assms(1) by (simp add: cont_def)
  obtain x1 b1 where b: "b = x1 # b1" using assms(2) by (cases b) auto
  show ?thesis
  proof (cases b1)
    case Nil
    then show ?thesis using nc b assms(1) by (auto simp: utf8_seq_def)
  next
    case (Cons x2 b2)
    note c1 = this
    show ?thesis
    proof (cases b2)
      case Nil
      then show ?thesis using nc b c1 by (auto simp: utf8_seq_def)
    next
      case (Cons x3 b3)
      then show ?thesis using nc b c1 by (cases b3) (auto simp: utf8_seq_def)
    qed
  qed
qed

lemma utf8_seq_le: "utf8_seq s \<le> length s"
proof -
  consider "s = []" | a where "s = [a]" | a b where "s = [a, b]" | a b c where "s = [a, b, c]"
    | a b c d r where "s = a # b # c # d # r"
    by (metis list.exhaust)
  then show ?thesis by cases (auto simp: utf8_seq_def)
qed

lemma is_utf8_ascii_append: "byte c < 128 \<Longrightarrow> is_utf8 (b @ [c]) = is_utf8 b"
proof (induction b rule: is_utf8.induct)
  case (1 b)
  show ?case
  proof (cases "b = []")
    case True
    have one: "utf8_seq [c] = 1" using 1(2) by (simp add: utf8_seq_def)
    have "is_utf8 [c]" using is_utf8.simps [of "[c]"] by (simp add: one is_utf8.simps [of "[]"])
    with True show ?thesis by (simp add: is_utf8.simps [of "[]"])
  next
    case False
    then show ?thesis
      using 1 byte_ascii_append [of c b] utf8_seq_le [of b] is_utf8.simps [of b] is_utf8.simps [of "b @ [c]"]
      by (cases "utf8_seq b = 0") simp_all
  qed
qed

lemma prefix_upper_bound_slash:
  assumes "is_utf8 (b @ ''/'')"
  shows "prefix_upper_bound (b @ ''/'') = b @ ''0''"
proof -
  have e: "char_of (Suc (byte (CHR ''/''))) = CHR ''0''" by code_simp
  have "is_utf8 (b @ ''0'')"
    using assms is_utf8_ascii_append [of "CHR ''/''" b] is_utf8_ascii_append [of "CHR ''0''" b]
    by (simp add: byte_def)
  then show ?thesis by (simp add: prefix_upper_bound_def e Let_def)
qed

lemma char_between: "CHR ''/'' < c \<Longrightarrow> c < CHR ''0'' \<Longrightarrow> False"
  by (simp add: less_char_def)

lemma range_slash:
  "b @ ''/'' \<le> s \<and> s < b @ ''0'' \<longleftrightarrow> prefix (b @ ''/'') s"
proof (induction b arbitrary: s)
  case Nil
  show ?case
  proof (cases s)
    case (Cons a l)
    have "CHR ''/'' < a \<and> a < CHR ''0'' \<longleftrightarrow> False" using char_between by blast
    moreover have "CHR ''/'' < CHR ''0''" "CHR ''/'' \<noteq> CHR ''0''" by (simp_all add: less_char_def)
    ultimately show ?thesis unfolding Cons by (simp only: append_Nil Cons_le_Cons Cons_less_Cons
        Nil_le_Cons Nil_less_Cons Cons_prefix_Cons Nil_prefix not_less_Nil) blast
  qed simp
next
  case (Cons c b)
  show ?case
  proof (cases s)
    case (Cons a l)
    with Cons.IH [of l] show ?thesis by (simp only: append_Cons Cons_le_Cons Cons_less_Cons Cons_prefix_Cons)
        (metis order.asym less_irrefl)
  qed simp
qed

lemma prefix_range_bounds:
  assumes "is_utf8 p" "p \<noteq> []" "validate_file_prefix p = Inr ()"
  shows "p \<le> s \<and> s < prefix_upper_bound p \<longleftrightarrow> prefix p s"
proof -
  from assms obtain b where p: "p = b @ ''/''"
    by (auto simp: validate_file_prefix_def ends_with_def suffix_def split: if_splits)
  with assms(1) show ?thesis
    using range_slash [of b s] prefix_upper_bound_slash [of b] by simp
qed

section \<open>Properties\<close>

text \<open>
  A path is accepted exactly when it is the \<open>/\<close>-separated sequence of one or more clean
  segments and at most 512 bytes long; a clean segment has 1 to 255 bytes, is neither \<open>.\<close> nor
  \<open>..\<close>, and holds no control character. In particular no accepted path can climb out of its
  folder.
\<close>

theorem file_path_grammar:
  "validate_file_path path = Inr () \<longleftrightarrow>
     length path \<le> 512 \<and>
     (\<forall>seg \<in> set (split_on (CHR ''/'') path). 1 \<le> length seg \<and> length seg \<le> 255 \<and> seg \<noteq> ''.'' \<and> seg \<noteq> ''..'' \<and>
        list_all (\<lambda>c. \<not> is_forbidden_control c) seg)"
proof -
  have segs: "try_for_each check_segment (split_on (CHR ''/'') path) = Inr () \<longleftrightarrow>
      (\<forall>seg \<in> set (split_on (CHR ''/'') path). 1 \<le> length seg \<and> length seg \<le> 255 \<and> seg \<noteq> ''.'' \<and> seg \<noteq> ''..'' \<and>
        list_all (\<lambda>c. \<not> is_forbidden_control c) seg)" (is "?l \<longleftrightarrow> ?segs")
    by (simp only: try_for_each_ok check_segment_ok MAX_SEGMENT_BYTES_def)
  have "\<not> ?segs" if "path = [] \<or> starts_with path ''/'' \<or> ends_with path ''/''"
  proof -
    have "[] \<in> set (split_on (CHR ''/'') path)"
      using that starts_with_slash [of path] ends_with_slash [of path] by auto
    then show ?thesis by fastforce
  qed
  then show ?thesis
    unfolding validate_file_path_def MAX_PATH_BYTES_def segs [symmetric] by (cases "length path \<le> 512") (auto simp: check_segment_ok)
qed

theorem file_path_grammar_witness:
  "validate_file_path ''avatars/u1.png'' = Inr () \<and> validate_file_path ''a/../b'' \<noteq> Inr ()"
proof -
  have "list_all (\<lambda>c. \<not> is_forbidden_control c) ''avatars'' \<and> list_all (\<lambda>c. \<not> is_forbidden_control c) ''u1.png''"
    by code_simp
  then show ?thesis
    using file_path_grammar [of "''avatars/u1.png''"] file_path_grammar [of "''a/../b''"] by simp
qed

text \<open>
  The range of a prefix is the prefix: for every non-empty prefix the registry accepts, a
  path lies between the prefix and its upper bound, in the byte order SQLite's BINARY
  collation uses, if and only if it starts with the prefix; the folder \<open>avatars\<close> never takes in
  its sibling \<open>avatarss\<close>.
\<close>

theorem prefix_range_exact:
  assumes "is_utf8 p" "p \<noteq> []" "validate_file_prefix p = Inr ()"
  shows "p \<le> path \<and> path < prefix_upper_bound p \<longleftrightarrow> starts_with path p"
  unfolding starts_with_def using assms by (rule prefix_range_bounds)

theorem prefix_range_exact_witness:
  "''avatars/'' \<le> ''avatars/u1.png'' \<and> ''avatars/u1.png'' < prefix_upper_bound ''avatars/'' \<and>
   \<not> ''avatarss/u1.png'' < prefix_upper_bound ''avatars/''"
proof -
  have u: "is_utf8 ''avatars/''" and v: "validate_file_prefix ''avatars/'' = Inr ()" by code_simp+
  have "''avatars/'' \<le> ''avatarss/u1.png''" by simp
  then show ?thesis
    using prefix_range_exact [OF u _ v, of "''avatars/u1.png''"] prefix_range_exact [OF u _ v, of "''avatarss/u1.png''"]
    by (simp add: starts_with_def)
qed

end
