(* ===== verification/File_Policy.thy ===== *)
theory File_Policy
  imports Read_Path File_Path
begin

text \<open>
  The prefix policies on files, \<open>storage/file_policy.rs\<close>: the registry and its validation,
  the decision on a single file, and the same decision compiled to the WHERE clause of the
  file list. The registry table is the list of its rows; \<open>serde_json\<close>'s text parser and printer
  are the parameters \<open>from_str\<close> and \<open>to_string\<close>.
\<close>

section \<open>Rules and errors\<close>

record file_policy_row =
  fp_prefix :: string
  fp_owner_scoped :: bool
  fp_public_read :: bool
  fp_select :: "filter_ast option"
  fp_delete :: "filter_ast option"
  fp_public_upload_roles :: "string list option"

datatype file_policy_error =
    PrefixInvalid string
  | OpenRequiresFlag
  | OperandUnsupported policy_error
  | FpNotFound string
  | PublicUploadRolesEmpty
  | PublicUploadRolesBad string

fun file_policy_code :: "file_policy_error \<Rightarrow> string" where
  "file_policy_code (PrefixInvalid _) = ''FILE_POLICY_PREFIX_INVALID''"
| "file_policy_code OpenRequiresFlag = ''FILE_POLICY_OPEN_REQUIRES_FLAG''"
| "file_policy_code (OperandUnsupported _) = ''FILE_POLICY_OPERAND_UNSUPPORTED''"
| "file_policy_code (FpNotFound _) = ''FILE_POLICY_NOT_FOUND''"
| "file_policy_code PublicUploadRolesEmpty = ''FILE_POLICY_INVALID''"
| "file_policy_code (PublicUploadRolesBad _) = ''FILE_POLICY_INVALID''"

definition PUBLIC_UPLOAD_ROLES_ALLOWED :: "string list" where
  "PUBLIC_UPLOAD_ROLES_ALLOWED = [''anon'', ''user'']"

definition file_field :: "string \<Rightarrow> string \<Rightarrow> field" where
  "file_field name sql_type =
     \<lparr> f_name = name, f_sql_type = sql_type, f_nullable = True, f_pk = False, f_default_value = None,
       f_foreign_key = None, f_description = None, f_constraints = None \<rparr>"

definition file_policy_schema :: collection_schema where
  "file_policy_schema =
     \<lparr> s_name = ''_system_files'',
       s_fields = [file_field ''path'' ''TEXT'', file_field ''uploader'' ''TEXT'', file_field ''key'' ''TEXT'',
         file_field ''visibility'' ''TEXT'', file_field ''content_type'' ''TEXT'', file_field ''original_name'' ''TEXT'',
         file_field ''size_bytes'' ''INTEGER'', file_field ''uploaded_at'' ''TEXT''],
       s_indices = [], s_row_count = 0, s_anon_caps = [], s_user_caps = [], s_owner_field = None,
       s_read_scope = None, s_vector_fields = [], s_fts_indexes = [], s_realtime_enabled = False,
       s_audit_enabled = False, s_description = None, s_policies = policies_default \<rparr>"

definition canonical_public_upload_roles ::
  "string list option \<Rightarrow> (string list option, file_policy_error) result" where
  "canonical_public_upload_roles roles =
     (case roles of
        None \<Rightarrow> Inr None
      | Some rs \<Rightarrow>
          if rs = [] then Inl PublicUploadRolesEmpty
          else (case find (\<lambda>r. r \<notin> set PUBLIC_UPLOAD_ROLES_ALLOWED) rs of
              Some bad \<Rightarrow> Inl (PublicUploadRolesBad bad)
            | None \<Rightarrow> Inr (Some (filter (\<lambda>a. a \<in> set rs) PUBLIC_UPLOAD_ROLES_ALLOWED))))"

definition validate_file_clause :: "dml_verb \<Rightarrow> filter_ast option \<Rightarrow> (unit, file_policy_error) result" where
  "validate_file_clause op clause =
     (case clause of
        None \<Rightarrow> Inr ()
      | Some ast \<Rightarrow>
          map_err OperandUnsupported
            (validate_policy file_policy_schema op \<lparr> p_using = Some ast, p_check = None \<rparr>))"

definition validate_file_policy :: "file_policy_row \<Rightarrow> (unit, file_policy_error) result" where
  "validate_file_policy row =
     bind_r (map_err PrefixInvalid (validate_file_prefix (fp_prefix row))) (\<lambda>_.
     bind_r (canonical_public_upload_roles (fp_public_upload_roles row)) (\<lambda>_.
     if \<not> fp_owner_scoped row \<and> fp_select row = None \<and> \<not> fp_public_read row then Inl OpenRequiresFlag
     else bind_r (validate_file_clause Select (fp_select row)) (\<lambda>_.
          validate_file_clause Delete (fp_delete row))))"

section \<open>Storage\<close>

record stored_policy =
  sp_prefix :: string
  sp_owner_scoped :: int
  sp_public_read :: int
  sp_select_json :: "string option"
  sp_delete_json :: "string option"
  sp_roles :: "string option"

datatype load_error = BadPrefix string string | BadAst nat | BadGrantJson | BadGrant file_policy_error

definition checked_prefix :: "string \<Rightarrow> (string, load_error) result" where
  "checked_prefix p =
     (case validate_file_prefix p of Inr _ \<Rightarrow> Inr p | Inl why \<Rightarrow> Inl (BadPrefix p why))"

definition parse_stored_ast ::
  "(string \<Rightarrow> json option) \<Rightarrow> string option \<Rightarrow> nat \<Rightarrow> (filter_ast option, load_error) result" where
  "parse_stored_ast from_str raw idx =
     (case raw of
        None \<Rightarrow> Inr None
      | Some s \<Rightarrow>
          (case Option.bind (from_str s) ast_of_json of Some a \<Rightarrow> Inr (Some a) | None \<Rightarrow> Inl (BadAst idx)))"

text \<open>\<open>serde_json::from_str::<Vec<String>>\<close>.\<close>

fun strings_of_json :: "json list \<Rightarrow> string list option" where
  "strings_of_json [] = Some []"
| "strings_of_json (j # js) =
     (case (as_str j, strings_of_json js) of (Some s, Some ss) \<Rightarrow> Some (s # ss) | _ \<Rightarrow> None)"

definition parse_stored_grant ::
  "(string \<Rightarrow> json option) \<Rightarrow> string option \<Rightarrow> (string list option, load_error) result" where
  "parse_stored_grant from_str raw =
     (case raw of
        None \<Rightarrow> Inr None
      | Some s \<Rightarrow>
          (case Option.bind (Option.bind (from_str s) as_array) strings_of_json of
             None \<Rightarrow> Inl BadGrantJson
           | Some parsed \<Rightarrow> map_err BadGrant (canonical_public_upload_roles (Some parsed))))"

definition load_row :: "(string \<Rightarrow> json option) \<Rightarrow> stored_policy \<Rightarrow> (file_policy_row, load_error) result" where
  "load_row from_str r =
     bind_r (checked_prefix (sp_prefix r)) (\<lambda>p.
     bind_r (parse_stored_ast from_str (sp_select_json r) 3) (\<lambda>sel.
     bind_r (parse_stored_ast from_str (sp_delete_json r) 4) (\<lambda>del.
     bind_r (parse_stored_grant from_str (sp_roles r)) (\<lambda>roles.
       Inr \<lparr> fp_prefix = p, fp_owner_scoped = (sp_owner_scoped r \<noteq> 0), fp_public_read = (sp_public_read r \<noteq> 0),
             fp_select = sel, fp_delete = del, fp_public_upload_roles = roles \<rparr>))))"

fun load_rows :: "(string \<Rightarrow> json option) \<Rightarrow> stored_policy list \<Rightarrow> (file_policy_row list, load_error) result" where
  "load_rows from_str [] = Inr []"
| "load_rows from_str (r # rs) =
     bind_r (load_row from_str r) (\<lambda>p. bind_r (load_rows from_str rs) (\<lambda>ps. Inr (p # ps)))"

text \<open>\<open>ORDER BY prefix\<close> under BINARY collation; a failing row fails the whole load.\<close>

definition load_file_policies ::
  "(string \<Rightarrow> json option) \<Rightarrow> stored_policy list \<Rightarrow> (file_policy_row list, load_error) result" where
  "load_file_policies from_str table = load_rows from_str (sort_key sp_prefix table)"

definition to_stored :: "(json \<Rightarrow> string) \<Rightarrow> file_policy_row \<Rightarrow> string list option \<Rightarrow> stored_policy" where
  "to_stored to_string row grant =
     \<lparr> sp_prefix = fp_prefix row, sp_owner_scoped = (if fp_owner_scoped row then 1 else 0),
       sp_public_read = (if fp_public_read row then 1 else 0),
       sp_select_json = map_option (to_string \<circ> ast_to_json) (fp_select row),
       sp_delete_json = map_option (to_string \<circ> ast_to_json) (fp_delete row),
       sp_roles = map_option (\<lambda>rs. to_string (JArray (map JString rs))) grant \<rparr>"

text \<open>INSERT ... ON CONFLICT(prefix) DO UPDATE: the prefix is the key of the table.\<close>

fun upsert_stored :: "stored_policy \<Rightarrow> stored_policy list \<Rightarrow> stored_policy list" where
  "upsert_stored r [] = [r]"
| "upsert_stored r (x # xs) = (if sp_prefix x = sp_prefix r then r # xs else x # upsert_stored r xs)"

definition upsert_file_policy ::
  "(json \<Rightarrow> string) \<Rightarrow> stored_policy list \<Rightarrow> file_policy_row \<Rightarrow> (stored_policy list, file_policy_error) result" where
  "upsert_file_policy to_string table row =
     bind_r (canonical_public_upload_roles (fp_public_upload_roles row)) (\<lambda>grant.
       Inr (upsert_stored (to_stored to_string row grant) table))"

definition delete_file_policy :: "stored_policy list \<Rightarrow> string \<Rightarrow> stored_policy list \<times> bool" where
  "delete_file_policy table p =
     (filter (\<lambda>r. sp_prefix r \<noteq> p) table, list_ex (\<lambda>r. sp_prefix r = p) table)"

definition seed_root_policy :: "stored_policy list \<Rightarrow> stored_policy list" where
  "seed_root_policy table =
     (if list_ex (\<lambda>r. sp_prefix r = []) table then table
      else table @ [\<lparr> sp_prefix = [], sp_owner_scoped = 0, sp_public_read = 1, sp_select_json = None,
                      sp_delete_json = None, sp_roles = None \<rparr>])"

definition PUBLIC_UPLOAD_ROLES_ALL_JSON :: string where
  "PUBLIC_UPLOAD_ROLES_ALL_JSON =
     ''['' @ [dquote] @ ''anon'' @ [dquote] @ '','' @ [dquote] @ ''user'' @ [dquote] @ '']''"

definition grant_root_public_upload :: "stored_policy list \<Rightarrow> stored_policy list \<times> bool" where
  "grant_root_public_upload table =
     (let hit = (\<lambda>r. sp_prefix r = [] \<and> sp_roles r = None)
      in (map (\<lambda>r. if hit r then r\<lparr> sp_roles := Some PUBLIC_UPLOAD_ROLES_ALL_JSON \<rparr> else r) table,
          list_ex hit table))"

section \<open>The decision on one file\<close>

text \<open>\<open>iter().max_by_key(f)\<close>: the last element of greatest key.\<close>

fun max_by_key :: "('a \<Rightarrow> nat) \<Rightarrow> 'a list \<Rightarrow> 'a option" where
  "max_by_key f [] = None"
| "max_by_key f (x # xs) =
     (case max_by_key f xs of None \<Rightarrow> Some x | Some y \<Rightarrow> if f x > f y then Some x else Some y)"

definition longest_match :: "file_policy_row list \<Rightarrow> string option \<Rightarrow> file_policy_row option" where
  "longest_match policies path =
     (case path of
        None \<Rightarrow> find (\<lambda>p. fp_prefix p = []) policies
      | Some s \<Rightarrow> max_by_key (\<lambda>p. length (fp_prefix p)) (filter (\<lambda>p. starts_with s (fp_prefix p)) policies))"

datatype file_access = Read | DeleteAccess

definition caller_is_uploader :: "jmap \<Rightarrow> auth_ctx \<Rightarrow> bool" where
  "caller_is_uploader row auth =
     (case user_id auth of
        Some uid \<Rightarrow> Option.bind (map_of row ''uploader'') as_str = Some uid
      | None \<Rightarrow> False)"

definition compile_file_clause :: "filter_ast \<Rightarrow> policy_ctx \<Rightarrow> (string \<times> sqlval list) option" where
  "compile_file_clause ast ctx =
     (case compile_policy_using file_policy_schema ast ctx of Inr c \<Rightarrow> Some c | Inl _ \<Rightarrow> None)"

definition authorize_file ::
  "regex \<Rightarrow> file_policy_row list \<Rightarrow> jmap \<Rightarrow> auth_ctx \<Rightarrow> file_access \<Rightarrow> bool" where
  "authorize_file rx policies row auth access =
     (case longest_match policies (Option.bind (map_of row ''path'') as_str) of
        None \<Rightarrow> caller_is_uploader row auth
      | Some p \<Rightarrow>
          if \<not> fp_owner_scoped p \<and> fp_select p = None \<and> \<not> fp_public_read p then False
          else if fp_owner_scoped p \<and> \<not> caller_is_uploader row auth then False
          else (case (case access of Read \<Rightarrow> fp_select p | DeleteAccess \<Rightarrow> or_else (fp_delete p) (fp_select p)) of
              None \<Rightarrow> True
            | Some ast \<Rightarrow>
                (let ctx = from_auth auth in
                 if compile_file_clause ast ctx = None then False
                 else eval_policy rx ast row ctx)))"

section \<open>The same decision as SQL\<close>

definition prefix_range_sql :: "string \<Rightarrow> sqlval list \<Rightarrow> string \<times> sqlval list" where
  "prefix_range_sql p binds =
     (''('' @ q ''path'' @ '' >= ? AND '' @ q ''path'' @ '' < ?)'', binds @ [Text p, Text (prefix_upper_bound p)])"

fun prefix_ranges_sql :: "string list \<Rightarrow> sqlval list \<Rightarrow> string list \<times> sqlval list" where
  "prefix_ranges_sql [] binds = ([], binds)"
| "prefix_ranges_sql (p # ps) binds =
     (let (s, b) = prefix_range_sql p binds; (ss, b') = prefix_ranges_sql ps b in (s # ss, b'))"

definition owner_sql :: "auth_ctx \<Rightarrow> sqlval list \<Rightarrow> string \<times> sqlval list" where
  "owner_sql auth binds =
     (''('' @ q ''uploader'' @ '' = ?)'',
      binds @ [case user_id auth of Some i \<Rightarrow> Text i | None \<Rightarrow> Null])"

definition decision_sql :: "file_policy_row \<Rightarrow> auth_ctx \<Rightarrow> sqlval list \<Rightarrow> string \<times> sqlval list" where
  "decision_sql p auth binds =
     (if \<not> fp_owner_scoped p \<and> fp_select p = None \<and> \<not> fp_public_read p then (''(0=1)'', binds)
      else
        let compiled = map_option (\<lambda>ast. compile_file_clause ast (from_auth auth)) (fp_select p) in
        if compiled = Some None then (''(0=1)'', binds)
        else
          let (parts1, b1) = (if fp_owner_scoped p
                 then (let (s, b) = owner_sql auth binds in ([s], b)) else ([], binds));
              (parts, b2) = (case Option.bind compiled id of
                 Some (frag, cb) \<Rightarrow> (parts1 @ [''('' @ frag @ '')''], b1 @ cb)
               | None \<Rightarrow> (parts1, b1))
          in if parts = [] then (''(1=1)'', b2) else (''('' @ join '' AND '' parts @ '')'', b2))"

text \<open>The stable order of the arms: deepest first, then by name.\<close>

definition filed_policies :: "file_policy_row list \<Rightarrow> file_policy_row list" where
  "filed_policies policies =
     sort_key (\<lambda>p. - int (length (fp_prefix p)))
       (sort_key fp_prefix (filter (\<lambda>p. fp_prefix p \<noteq> []) policies))"

definition deeper_than :: "string \<Rightarrow> file_policy_row list \<Rightarrow> string list" where
  "deeper_than p filed =
     map fp_prefix (filter (\<lambda>d. length (fp_prefix d) > length p \<and> starts_with (fp_prefix d) p) filed)"

fun file_arms ::
  "file_policy_row list \<Rightarrow> auth_ctx \<Rightarrow> file_policy_row list \<Rightarrow> sqlval list \<Rightarrow> string list \<times> sqlval list" where
  "file_arms filed auth [] binds = ([], binds)"
| "file_arms filed auth (p # ps) binds =
     (let (range, b1) = prefix_range_sql (fp_prefix p) binds;
          (deeper, b2) = prefix_ranges_sql (deeper_than (fp_prefix p) filed) b1;
          (dec, b3) = decision_sql p auth b2;
          arm = ''('' @ join '' AND '' ([range] @ map (\<lambda>r. ''NOT '' @ r) deeper @ [dec]) @ '')'';
          (arms, b4) = file_arms filed auth ps b3
      in (arm # arms, b4))"

definition build_file_list_filter :: "file_policy_row list \<Rightarrow> auth_ctx \<Rightarrow> string \<times> sqlval list" where
  "build_file_list_filter policies auth =
     (let filed = filed_policies policies;
          (arms, b1) = file_arms filed auth filed [];
          (unmatched, b2) =
            (if filed = [] then (''1=1'', b1)
             else let (ranges, b) = prefix_ranges_sql (map fp_prefix filed) b1
                  in (''('' @ q ''path'' @ '' IS NULL OR NOT ('' @ join '' OR '' ranges @ ''))'', b));
          (dec, b3) =
            (case find (\<lambda>p. fp_prefix p = []) policies of
               Some rt \<Rightarrow> decision_sql rt auth b2
             | None \<Rightarrow> owner_sql auth b2)
      in (''('' @ join '' OR '' (arms @ [''('' @ unmatched @ '' AND '' @ dec @ '')'']) @ '')'', b3))"

section \<open>The expression behind the list filter\<close>

definition be_and :: "bound_expr list \<Rightarrow> bound_expr" where
  "be_and ps = (SAnd (map fst ps), concat (map snd ps))"

definition be_or :: "bound_expr list \<Rightarrow> bound_expr" where
  "be_or ps = (SOr (map fst ps), concat (map snd ps))"

definition be_not :: "bound_expr \<Rightarrow> bound_expr" where
  "be_not p = (SNot (fst p), snd p)"

definition be_ok :: "bound_expr \<Rightarrow> bool" where
  "be_ok p \<longleftrightarrow> length (snd p) = params (fst p)"

lemma be_ok_and [simp]: "(\<forall>p \<in> set ps. be_ok p) \<Longrightarrow> be_ok (be_and ps)"
  and be_ok_or [simp]: "(\<forall>p \<in> set ps. be_ok p) \<Longrightarrow> be_ok (be_or ps)"
  and be_ok_not [simp]: "be_ok (be_not p) = be_ok p"
  by (auto simp: be_ok_def be_and_def be_or_def be_not_def length_concat comp_def cong: map_cong)

definition range_be :: "string \<Rightarrow> bound_expr" where
  "range_be p = be_and [(SCmp ''path'' OpGte, [Text p]), (SCmp ''path'' OpLt, [Text (prefix_upper_bound p)])]"

definition owner_be :: "auth_ctx \<Rightarrow> bound_expr" where
  "owner_be auth = be_and [(SCmp ''uploader'' OpEq, [case user_id auth of Some i \<Rightarrow> Text i | None \<Rightarrow> Null])]"

definition decision_be :: "file_policy_row \<Rightarrow> auth_ctx \<Rightarrow> bound_expr" where
  "decision_be p auth =
     (if \<not> fp_owner_scoped p \<and> fp_select p = None \<and> \<not> fp_public_read p then be_and [(SZeroEqOne, [])]
      else if \<exists>ast. fp_select p = Some ast \<and> compile_file_clause ast (from_auth auth) = None
        then be_and [(SZeroEqOne, [])]
      else let parts = (if fp_owner_scoped p then [owner_be auth] else []) @
                 (case fp_select p of None \<Rightarrow> [] | Some ast \<Rightarrow> [be_and [policy_expr (from_auth auth) ast]])
           in if parts = [] then be_and [(SOneEqOne, [])] else be_and parts)"

definition arm_be :: "file_policy_row list \<Rightarrow> auth_ctx \<Rightarrow> file_policy_row \<Rightarrow> bound_expr" where
  "arm_be filed auth p =
     be_and ([range_be (fp_prefix p)] @ map (be_not \<circ> range_be) (deeper_than (fp_prefix p) filed) @ [decision_be p auth])"

definition unmatched_be :: "file_policy_row list \<Rightarrow> bound_expr" where
  "unmatched_be filed =
     (if filed = [] then (SOneEqOne, [])
      else be_or [(SIsNull ''path'' False, []), be_not (be_or (map (range_be \<circ> fp_prefix) filed))])"

definition root_be :: "file_policy_row list \<Rightarrow> auth_ctx \<Rightarrow> bound_expr" where
  "root_be policies auth =
     (case find (\<lambda>p. fp_prefix p = []) policies of Some rt \<Rightarrow> decision_be rt auth | None \<Rightarrow> owner_be auth)"

definition file_list_be :: "file_policy_row list \<Rightarrow> auth_ctx \<Rightarrow> bound_expr" where
  "file_list_be policies auth =
     (let filed = filed_policies policies
      in be_or (map (arm_be filed auth) filed @ [be_and [unmatched_be filed, root_be policies auth]]))"

lemma render_be_and: "render (fst (be_and ps)) = ''('' @ join '' AND '' (map (render \<circ> fst) ps) @ '')''"
  and render_be_or: "render (fst (be_or ps)) = ''('' @ join '' OR '' (map (render \<circ> fst) ps) @ '')''"
  and render_be_not: "render (fst (be_not p)) = ''NOT '' @ render (fst p)"
  by (simp_all add: be_and_def be_or_def be_not_def comp_def)

lemma snd_be: "snd (be_and ps) = concat (map snd ps)" "snd (be_or ps) = concat (map snd ps)" "snd (be_not p) = snd p"
  by (simp_all add: be_and_def be_or_def be_not_def)

lemmas be_text = render_be_and render_be_or render_be_not snd_be

lemma prefix_range_sql_be: "prefix_range_sql p binds = (render (fst (range_be p)), binds @ snd (range_be p))"
  by (simp add: prefix_range_sql_def range_be_def be_text)

lemma prefix_ranges_sql_be:
  "prefix_ranges_sql ps binds = (map (render \<circ> fst \<circ> range_be) ps, binds @ concat (map (snd \<circ> range_be) ps))"
  by (induction ps arbitrary: binds) (simp_all add: prefix_range_sql_be)

lemma owner_sql_be: "owner_sql auth binds = (render (fst (owner_be auth)), binds @ snd (owner_be auth))"
  by (simp add: owner_sql_def owner_be_def be_text)

lemma compile_file_clause_be:
  "compile_file_clause ast ctx =
     (if policy_accepts file_policy_schema ctx ast \<and> ast_height ast \<le> MAX_FILTER_DEPTH
      then Some (render (fst (policy_expr ctx ast)), snd (policy_expr ctx ast)) else None)"
proof (cases "compile_policy_using file_policy_schema ast ctx")
  case (Inl e)
  then have "\<not> (policy_accepts file_policy_schema ctx ast \<and> ast_height ast \<le> MAX_FILTER_DEPTH)"
    using compile_policy_using_iff [of file_policy_schema ast ctx] by auto
  with Inl show ?thesis by (simp add: compile_file_clause_def)
next
  case (Inr c)
  obtain sql b where c: "c = (sql, b)" by (cases c)
  with Inr have "policy_accepts file_policy_schema ctx ast \<and> ast_height ast \<le> MAX_FILTER_DEPTH \<and>
      sql = render (fst (policy_expr ctx ast)) \<and> b = snd (policy_expr ctx ast)"
    by (simp add: compile_policy_using_iff)
  with Inr c show ?thesis by (simp add: compile_file_clause_def)
qed

lemma decision_sql_be: "decision_sql p auth binds = (render (fst (decision_be p auth)), binds @ snd (decision_be p auth))"
proof (cases "fp_select p")
  case None
  then show ?thesis
    by (auto simp: decision_sql_def decision_be_def Let_def be_text owner_sql_be)
next
  case (Some ast)
  then show ?thesis
    by (auto simp: decision_sql_def decision_be_def Let_def be_text owner_sql_be compile_file_clause_be)
qed

lemma file_arms_be:
  "file_arms filed auth ps binds =
     (map (render \<circ> fst \<circ> arm_be filed auth) ps, binds @ concat (map (snd \<circ> arm_be filed auth) ps))"
  by (induction ps arbitrary: binds)
     (simp_all add: prefix_range_sql_be prefix_ranges_sql_be decision_sql_be arm_be_def be_text comp_def)

lemma build_file_list_filter_be:
  "build_file_list_filter policies auth =
     (render (fst (file_list_be policies auth)), snd (file_list_be policies auth))"
proof -
  have dec: "(case find (\<lambda>p. fp_prefix p = []) policies of Some rt \<Rightarrow> decision_sql rt auth b
      | None \<Rightarrow> owner_sql auth b) = (render (fst (root_be policies auth)), b @ snd (root_be policies auth))" for b
    by (simp add: root_be_def decision_sql_be owner_sql_be split: option.splits)
  show ?thesis
    by (auto simp: build_file_list_filter_def Let_def file_arms_be prefix_ranges_sql_be dec file_list_be_def
        unmatched_be_def be_text comp_def)
qed

lemma be_ok_range [simp]: "be_ok (range_be p)"
  and be_ok_owner [simp]: "be_ok (owner_be auth)"
  by (auto simp: be_ok_def be_and_def range_be_def owner_be_def)

lemma be_ok_policy [simp]: "be_ok (policy_expr ctx ast)"
  by (simp add: be_ok_def policy_expr_params)

lemma be_ok_const [simp]: "be_ok (SZeroEqOne, [])" "be_ok (SOneEqOne, [])" "be_ok (SIsNull c neg, [])"
  by (simp_all add: be_ok_def)

lemma be_ok_decision [simp]: "be_ok (decision_be p auth)"
  by (auto simp: decision_be_def Let_def split: option.splits)

lemma be_ok_arm [simp]: "be_ok (arm_be filed auth p)"
  by (auto simp: arm_be_def intro!: be_ok_and)

lemma be_ok_root [simp]: "be_ok (root_be policies auth)"
  by (simp add: root_be_def split: option.splits)

lemma be_ok_unmatched [simp]: "be_ok (unmatched_be filed)"
  by (auto simp: unmatched_be_def intro!: be_ok_or)

section \<open>Longest match\<close>

lemma max_by_key_None: "max_by_key f xs = None \<longleftrightarrow> xs = []"
  by (cases xs) (auto split: option.splits)

lemma max_by_key_Some:
  "max_by_key f xs = Some x \<Longrightarrow> x \<in> set xs \<and> (\<forall>y \<in> set xs. f y \<le> f x)"
proof (induction xs arbitrary: x)
  case (Cons a xs)
  show ?case
  proof (cases "max_by_key f xs")
    case None
    with Cons.prems show ?thesis by (simp add: max_by_key_None)
  next
    case (Some y)
    with Cons.prems Cons.IH [OF Some] show ?thesis by (auto split: if_splits)
  qed
qed simp

lemma prefix_same_length: "prefix a s \<Longrightarrow> prefix b s \<Longrightarrow> length a = length b \<Longrightarrow> a = b"
  by (auto simp: prefix_def)

lemma longest_match_iff:
  assumes "distinct (map fp_prefix policies)"
  shows "longest_match policies (Some s) = Some p \<longleftrightarrow>
    p \<in> set policies \<and> prefix (fp_prefix p) s \<and>
    (\<forall>d \<in> set policies. prefix (fp_prefix d) s \<longrightarrow> length (fp_prefix d) \<le> length (fp_prefix p))"
    (is "?l = ?r")
proof
  assume ?l
  then show ?r
    using max_by_key_Some [of "\<lambda>p. length (fp_prefix p)" "filter (\<lambda>p. starts_with s (fp_prefix p)) policies" p]
    by (auto simp: longest_match_def starts_with_def)
next
  assume r: ?r
  then have "filter (\<lambda>p. starts_with s (fp_prefix p)) policies \<noteq> []"
    by (auto simp: filter_empty_conv starts_with_def)
  then obtain m where m: "longest_match policies (Some s) = Some m"
    by (cases "longest_match policies (Some s)") (auto simp: longest_match_def max_by_key_None)
  from max_by_key_Some [OF m [unfolded longest_match_def option.case(2)]] r
  have "m \<in> set policies" "prefix (fp_prefix m) s" "length (fp_prefix m) = length (fp_prefix p)"
    by (auto simp: starts_with_def le_antisym)
  with r have "fp_prefix m = fp_prefix p" using prefix_same_length by blast
  with assms r \<open>m \<in> set policies\<close> have "m = p" by (auto simp: distinct_map inj_on_def)
  with m show ?l by simp
qed

section \<open>Truth of the pieces\<close>

text \<open>
  A rule as the registry holds it after validation: a legal prefix, and a clause that, if it
  compiles at all, compares like with like. A hand-written clause that does not compile is
  allowed: both faces deny it. A rule is sound for the list when its clause is \<open>comparable\<close> too,
  which validation does not check.
\<close>

definition file_policy_checked :: "file_policy_row \<Rightarrow> bool" where
  "file_policy_checked p \<longleftrightarrow> is_utf8 (fp_prefix p) \<and> validate_file_prefix (fp_prefix p) = Inr () \<and>
     (case fp_select p of None \<Rightarrow> True
      | Some ast \<Rightarrow> compile_file_clause ast (from_auth Anon) \<noteq> None \<longrightarrow>
          check_operand_classes_inner file_policy_schema False ast = Inr ())"

definition file_policy_sound :: "file_policy_row \<Rightarrow> bool" where
  "file_policy_sound p \<longleftrightarrow> is_utf8 (fp_prefix p) \<and> validate_file_prefix (fp_prefix p) = Inr () \<and>
     (case fp_select p of None \<Rightarrow> True
      | Some ast \<Rightarrow> compile_file_clause ast (from_auth Anon) \<noteq> None \<longrightarrow>
          check_operand_classes_inner file_policy_schema False ast = Inr () \<and> comparable ast)"

lemma checked_comparable_sound:
  "file_policy_checked p \<Longrightarrow> (\<And>ast. fp_select p = Some ast \<Longrightarrow> comparable ast) \<Longrightarrow> file_policy_sound p"
  by (auto simp: file_policy_checked_def file_policy_sound_def split: option.splits)

definition file_decision :: "regex \<Rightarrow> file_policy_row \<Rightarrow> jmap \<Rightarrow> auth_ctx \<Rightarrow> bool" where
  "file_decision rx p row auth \<longleftrightarrow>
     (fp_owner_scoped p \<or> fp_select p \<noteq> None \<or> fp_public_read p) \<and>
     (fp_owner_scoped p \<longrightarrow> caller_is_uploader row auth) \<and>
     (case fp_select p of None \<Rightarrow> True
      | Some ast \<Rightarrow> compile_file_clause ast (from_auth auth) \<noteq> None \<and> eval_policy rx ast row (from_auth auth))"

lemma authorize_file_read:
  "authorize_file rx policies row auth Read =
     (case longest_match policies (Option.bind (map_of row ''path'') as_str) of
        None \<Rightarrow> caller_is_uploader row auth | Some p \<Rightarrow> file_decision rx p row auth)"
  by (auto simp: authorize_file_def file_decision_def Let_def split: option.splits)

lemma file_columns:
  assumes "row_typed file_policy_schema row" "c = ''path'' \<or> c = ''uploader''"
  shows "row_value row c = (case Option.bind (map_of row c) as_str of Some s \<Rightarrow> Text s | None \<Rightarrow> Null)"
proof -
  have "policy_validate_field file_policy_schema ''path'' = Inr ()" "field_class file_policy_schema ''path'' = Some ''text''"
    "policy_validate_field file_policy_schema ''uploader'' = Inr ()" "field_class file_policy_schema ''uploader'' = Some ''text''"
    by code_simp+
  then have "class_fits (Some ''text'') (row_value row c)"
    using row_typed_column [OF assms(1), of c] assms(2) by auto
  then show ?thesis
    by (cases "map_of row c") (auto simp: row_value_def split: json.splits option.splits elim: as_str.elims)
qed

lemma compile_file_clause_caller:
  "compile_file_clause ast (from_auth a) = None \<longleftrightarrow> compile_file_clause ast (from_auth b) = None"
  using policy_accepts_cong [of "from_auth a" "from_auth b" file_policy_schema ast]
  by (simp add: compile_file_clause_be from_auth_def)

context sqlite_engine
begin

lemma eval_be_and:
  "ps \<noteq> [] \<Longrightarrow> \<forall>p \<in> set ps. be_ok p \<Longrightarrow>
     eval (fst (be_and ps)) (snd (be_and ps)) r = tri_all (map (\<lambda>p. eval (fst p) (snd p) r) ps)"
  using eval_and_map [of ps snd fst r] by (simp add: be_and_def be_ok_def)

lemma eval_be_or:
  "ps \<noteq> [] \<Longrightarrow> \<forall>p \<in> set ps. be_ok p \<Longrightarrow>
     eval (fst (be_or ps)) (snd (be_or ps)) r = tri_any (map (\<lambda>p. eval (fst p) (snd p) r) ps)"
  using eval_or_map [of ps snd fst r] by (simp add: be_or_def be_ok_def)

lemma eval_be_not: "be_ok p \<Longrightarrow> eval (fst (be_not p)) (snd (be_not p)) r = tri_not (eval (fst p) (snd p) r)"
  by (simp add: be_not_def be_ok_def eval_not)

lemmas eval_be = eval_be_and eval_be_or eval_be_not

lemma cmp_be_ok [simp]: "be_ok (SCmp c op, [v])"
  by (simp add: be_ok_def)

lemma eval_range_null: "r ''path'' = Null \<Longrightarrow> eval (fst (range_be p)) (snd (range_be p)) r = TUnknown"
  by (simp add: range_be_def eval_be_and eval_cmp_null tri_simps)

lemma eval_range_text:
  assumes "r ''path'' = Text s" "is_utf8 p" "p \<noteq> []" "validate_file_prefix p = Inr ()"
  shows "eval (fst (range_be p)) (snd (range_be p)) r = tri_from_bool (prefix p s)"
proof -
  have ge: "eval (SCmp ''path'' OpGte) [Text p] r = tri_from_bool (p \<le> s)"
    using assms(1) eval_cmp [of OpGte r "''path''" "Text p"] by (cases "p \<le> s") (auto simp: cmp_def)
  have lt: "eval (SCmp ''path'' OpLt) [Text (prefix_upper_bound p)] r = tri_from_bool (s < prefix_upper_bound p)"
    using assms(1) eval_cmp [of OpLt r "''path''" "Text (prefix_upper_bound p)"] by (auto simp: cmp_def)
  have "p \<le> s \<and> s < prefix_upper_bound p \<longleftrightarrow> prefix p s"
    using prefix_range_bounds [OF assms(2-4)] .
  then show ?thesis
    by (auto simp: range_be_def eval_be_and ge lt tri_all_def tri_from_bool_def)
qed

end

lemma filed_policies_set: "set (filed_policies policies) = {p \<in> set policies. fp_prefix p \<noteq> []}"
  by (auto simp: filed_policies_def)

lemma deeper_than_set:
  "set (deeper_than p filed) =
     {fp_prefix d | d. d \<in> set filed \<and> length p < length (fp_prefix d) \<and> prefix p (fp_prefix d)}"
  by (auto simp: deeper_than_def starts_with_def)

context sqlite_engine
begin

lemma eval_owner_be:
  assumes "row_typed file_policy_schema row"
  shows "eval (fst (owner_be auth)) (snd (owner_be auth)) (row_value row) = TTrue \<longleftrightarrow> caller_is_uploader row auth"
proof (cases "user_id auth")
  case None
  then show ?thesis by (simp add: owner_be_def eval_be_and eval_cmp_null caller_is_uploader_def tri_simps)
next
  case (Some uid)
  note up = file_columns [OF assms, of "''uploader''"]
  show ?thesis
  proof (cases "Option.bind (map_of row ''uploader'') as_str")
    case None
    then show ?thesis
      using Some up by (simp add: owner_be_def eval_be_and eval_cmp_null caller_is_uploader_def tri_simps)
  next
    case (Some s)
    then have "eval (SCmp ''uploader'' OpEq) [Text uid] (row_value row) = tri_from_bool (s = uid)"
      using up eval_cmp [of OpEq "row_value row" "''uploader''" "Text uid"] by (auto simp: cmp_Equal)
    with Some \<open>user_id auth = Some uid\<close> show ?thesis
      by (auto simp: owner_be_def eval_be_and caller_is_uploader_def tri_all_TTrue)
  qed
qed

lemma eval_clause_be:
  assumes "file_policy_sound p" "fp_select p = Some ast" "compile_file_clause ast (from_auth auth) \<noteq> None"
    and "row_typed file_policy_schema row" "regex_like rx"
  shows "eval (fst (policy_expr (from_auth auth) ast)) (snd (policy_expr (from_auth auth) ast)) (row_value row) = TTrue
    \<longleftrightarrow> eval_policy rx ast row (from_auth auth)"
proof -
  have "compile_file_clause ast (from_auth Anon) \<noteq> None"
    using assms(3) compile_file_clause_caller [of ast auth Anon] by simp
  then have cl: "check_operand_classes_inner file_policy_schema False ast = Inr ()" "comparable ast"
    using assms(1,2) by (auto simp: file_policy_sound_def)
  have "eval (fst (policy_expr (from_auth auth) ast)) (snd (policy_expr (from_auth auth) ast)) (row_value row) =
      eval_node rx ast row (from_auth auth) 0"
    using assms(3-5) cl
    by (intro eval_node_agree) (auto simp: compile_file_clause_be from_auth_def split: if_splits)
  then show ?thesis by (simp add: eval_policy_def)
qed

lemma eval_decision_be:
  assumes "file_policy_sound p" "row_typed file_policy_schema row" "regex_like rx"
  shows "eval (fst (decision_be p auth)) (snd (decision_be p auth)) (row_value row) = TTrue \<longleftrightarrow>
    file_decision rx p row auth"
proof -
  have const: "eval (fst (be_and [(SZeroEqOne, [])])) (snd (be_and [(SZeroEqOne, [])])) r \<noteq> TTrue"
    "eval (fst (be_and [(SOneEqOne, [])])) (snd (be_and [(SOneEqOne, [])])) r = TTrue" for r
    by (simp_all add: eval_be_and eval_false eval_true tri_simps)
  show ?thesis
  proof (cases "fp_select p")
    case None
    then show ?thesis
      using eval_owner_be [OF assms(2), of auth]
      by (auto simp: decision_be_def file_decision_def Let_def eval_be_and tri_all_TTrue eval_false eval_true)
  next
    case (Some ast)
    show ?thesis
    proof (cases "compile_file_clause ast (from_auth auth) = None")
      case True
      with Some show ?thesis by (simp add: decision_be_def file_decision_def const)
    next
      case False
      with Some show ?thesis
        using eval_owner_be [OF assms(2), of auth] eval_clause_be [OF assms(1) Some False assms(2,3)]
        by (auto simp: decision_be_def file_decision_def Let_def eval_be_and tri_all_TTrue)
    qed
  qed
qed

lemma eval_root_be:
  assumes "\<forall>p \<in> set policies. file_policy_sound p" "row_typed file_policy_schema row" "regex_like rx"
  shows "eval (fst (root_be policies auth)) (snd (root_be policies auth)) (row_value row) = TTrue \<longleftrightarrow>
    (case find (\<lambda>p. fp_prefix p = []) policies of None \<Rightarrow> caller_is_uploader row auth
     | Some p \<Rightarrow> file_decision rx p row auth)"
proof (cases "find (\<lambda>p. fp_prefix p = []) policies")
  case None
  then show ?thesis using eval_owner_be [OF assms(2)] by (simp add: root_be_def)
next
  case (Some p)
  then have "file_policy_sound p" using assms(1) by (auto simp: find_Some_iff)
  with Some show ?thesis using eval_decision_be [OF _ assms(2,3)] by (simp add: root_be_def)
qed

lemma eval_ranges_text:
  assumes "r ''path'' = Text s" "\<forall>p \<in> set filed. file_policy_sound p \<and> fp_prefix p \<noteq> []" "p \<in> fp_prefix ` set filed"
  shows "eval (fst (range_be p)) (snd (range_be p)) r = tri_from_bool (prefix p s)"
  using assms by (intro eval_range_text) (auto simp: file_policy_sound_def)

lemma eval_unmatched_text:
  assumes "r ''path'' = Text s" "\<forall>p \<in> set filed. file_policy_sound p \<and> fp_prefix p \<noteq> []"
  shows "eval (fst (unmatched_be filed)) (snd (unmatched_be filed)) r = TTrue \<longleftrightarrow>
    (\<forall>p \<in> set filed. \<not> prefix (fp_prefix p) s)"
proof (cases "filed = []")
  case False
  have "map (\<lambda>p. eval (fst (range_be (fp_prefix p))) (snd (range_be (fp_prefix p))) r) filed =
      map (\<lambda>p. tri_from_bool (prefix (fp_prefix p) s)) filed"
    using eval_ranges_text [of r s filed] assms by simp
  then have "eval (fst (be_or (map (range_be \<circ> fp_prefix) filed))) (snd (be_or (map (range_be \<circ> fp_prefix) filed))) r =
      tri_any (map (\<lambda>p. tri_from_bool (prefix (fp_prefix p) s)) filed)"
    using False by (simp add: eval_be_or comp_def cong: map_cong)
  moreover have fin: "tri_any (map (\<lambda>p. tri_from_bool (prefix (fp_prefix p) s)) filed) = TFalse \<longleftrightarrow>
      (\<forall>p \<in> set filed. \<not> prefix (fp_prefix p) s)"
    by (auto simp: tri_any_def tri_from_bool_def)
  moreover have "be_ok (be_or (map (range_be \<circ> fp_prefix) filed))" by (rule be_ok_or) auto
  ultimately have "eval (fst (unmatched_be filed)) (snd (unmatched_be filed)) r =
      tri_any [TFalse, tri_not (tri_any (map (\<lambda>p. tri_from_bool (prefix (fp_prefix p) s)) filed))]"
    using False assms(1) by (simp add: unmatched_be_def eval_be_or eval_be_not eval_is_null)
  with fin show ?thesis
    by (cases "tri_any (map (\<lambda>p. tri_from_bool (prefix (fp_prefix p) s)) filed)") (auto simp: tri_any_TTrue)
qed (simp add: unmatched_be_def eval_true)

lemma eval_arm_text:
  assumes "r ''path'' = Text s" "\<forall>p \<in> set filed. file_policy_sound p \<and> fp_prefix p \<noteq> []" "p \<in> set filed"
  shows "eval (fst (arm_be filed auth p)) (snd (arm_be filed auth p)) r = TTrue \<longleftrightarrow>
    prefix (fp_prefix p) s \<and>
    (\<forall>d \<in> set filed. length (fp_prefix p) < length (fp_prefix d) \<longrightarrow> \<not> prefix (fp_prefix d) s) \<and>
    eval (fst (decision_be p auth)) (snd (decision_be p auth)) r = TTrue"
proof -
  have deeper: "(\<forall>d \<in> set (deeper_than (fp_prefix p) filed). \<not> prefix d s) \<longleftrightarrow>
      (\<forall>d \<in> set filed. length (fp_prefix p) < length (fp_prefix d) \<longrightarrow> \<not> prefix (fp_prefix d) s)"
    if "prefix (fp_prefix p) s"
    unfolding deeper_than_set using prefix_length_prefix [OF that] by (auto dest: less_imp_le)
  have deep: "set (deeper_than (fp_prefix p) filed) \<subseteq> fp_prefix ` set filed" by (auto simp: deeper_than_set)
  have "eval (fst (arm_be filed auth p)) (snd (arm_be filed auth p)) r = TTrue \<longleftrightarrow>
      eval (fst (range_be (fp_prefix p))) (snd (range_be (fp_prefix p))) r = TTrue \<and>
      (\<forall>d \<in> set (deeper_than (fp_prefix p) filed). eval (fst (range_be d)) (snd (range_be d)) r = TFalse) \<and>
      eval (fst (decision_be p auth)) (snd (decision_be p auth)) r = TTrue"
    by (auto simp: arm_be_def eval_be_and eval_be_not tri_all_TTrue)
  also have "eval (fst (range_be (fp_prefix p))) (snd (range_be (fp_prefix p))) r = TTrue \<longleftrightarrow> prefix (fp_prefix p) s"
    using eval_ranges_text [of r s filed "fp_prefix p"] assms by simp
  also have "(\<forall>d \<in> set (deeper_than (fp_prefix p) filed). eval (fst (range_be d)) (snd (range_be d)) r = TFalse) \<longleftrightarrow>
      (\<forall>d \<in> set (deeper_than (fp_prefix p) filed). \<not> prefix d s)"
  proof (rule ball_cong [OF refl])
    fix d
    assume "d \<in> set (deeper_than (fp_prefix p) filed)"
    then show "eval (fst (range_be d)) (snd (range_be d)) r = TFalse \<longleftrightarrow> \<not> prefix d s"
      using eval_ranges_text [of r s filed d] assms(1,2) deep by auto
  qed
  finally show ?thesis
    using deeper by blast
qed

end

lemma longest_match_None:
  "longest_match policies (Some s) = None \<longleftrightarrow> (\<forall>p \<in> set policies. \<not> prefix (fp_prefix p) s)"
  by (auto simp: longest_match_def max_by_key_None filter_empty_conv starts_with_def)

lemma longest_match_root:
  assumes "distinct (map fp_prefix policies)" "\<forall>p \<in> set (filed_policies policies). \<not> prefix (fp_prefix p) s"
  shows "longest_match policies (Some s) = find (\<lambda>p. fp_prefix p = []) policies"
proof (cases "find (\<lambda>p. fp_prefix p = []) policies")
  case None
  then have "\<forall>p \<in> set policies. fp_prefix p \<noteq> []" by (simp add: find_None_iff)
  with assms(2) have "longest_match policies (Some s) = None" by (simp add: longest_match_None filed_policies_set)
  with None show ?thesis by simp
next
  case (Some p)
  then have "p \<in> set policies" "fp_prefix p = []" by (auto simp: find_Some_iff)
  then show ?thesis
    using Some assms(2) longest_match_iff [OF assms(1), of s p] by (auto simp: filed_policies_set)
qed

lemma longest_match_filed:
  assumes "distinct (map fp_prefix policies)" "p \<in> set (filed_policies policies)"
  shows "longest_match policies (Some s) = Some p \<longleftrightarrow> prefix (fp_prefix p) s \<and>
    (\<forall>d \<in> set (filed_policies policies). length (fp_prefix p) < length (fp_prefix d) \<longrightarrow> \<not> prefix (fp_prefix d) s)"
proof -
  have "(\<forall>d \<in> set policies. prefix (fp_prefix d) s \<longrightarrow> length (fp_prefix d) \<le> length (fp_prefix p)) \<longleftrightarrow>
      (\<forall>d \<in> set (filed_policies policies). length (fp_prefix p) < length (fp_prefix d) \<longrightarrow> \<not> prefix (fp_prefix d) s)"
    by (auto simp: filed_policies_set not_less [symmetric] simp del: not_less)
  then show ?thesis
    using assms longest_match_iff [OF assms(1), of s p] by (auto simp: filed_policies_set)
qed

context sqlite_engine
begin

lemma eval_be_and_TTrue:
  "ps \<noteq> [] \<Longrightarrow> \<forall>p \<in> set ps. be_ok p \<Longrightarrow>
     eval (fst (be_and ps)) (snd (be_and ps)) r = TTrue \<longleftrightarrow> (\<forall>p \<in> set ps. eval (fst p) (snd p) r = TTrue)"
  by (simp add: eval_be_and tri_all_TTrue)

lemma eval_be_or_TTrue:
  "ps \<noteq> [] \<Longrightarrow> \<forall>p \<in> set ps. be_ok p \<Longrightarrow>
     eval (fst (be_or ps)) (snd (be_or ps)) r = TTrue \<longleftrightarrow> (\<exists>p \<in> set ps. eval (fst p) (snd p) r = TTrue)"
  by (simp add: eval_be_or tri_any_TTrue image_iff) (metis)

lemma eval_file_list_arms:
  "eval (fst (file_list_be policies auth)) (snd (file_list_be policies auth)) r = TTrue \<longleftrightarrow>
     (\<exists>p \<in> set (filed_policies policies).
        eval (fst (arm_be (filed_policies policies) auth p)) (snd (arm_be (filed_policies policies) auth p)) r = TTrue) \<or>
     (eval (fst (unmatched_be (filed_policies policies))) (snd (unmatched_be (filed_policies policies))) r = TTrue \<and>
      eval (fst (root_be policies auth)) (snd (root_be policies auth)) r = TTrue)"
proof -
  have ok: "be_ok (be_and [unmatched_be (filed_policies policies), root_be policies auth])" by (rule be_ok_and) simp
  show ?thesis
    using ok by (simp add: file_list_be_def Let_def eval_be_or_TTrue eval_be_and_TTrue ball_Un bex_Un) auto
qed

lemma eval_file_list_null:
  assumes "r ''path'' = Null"
  shows "eval (fst (file_list_be policies auth)) (snd (file_list_be policies auth)) r = TTrue \<longleftrightarrow>
    eval (fst (root_be policies auth)) (snd (root_be policies auth)) r = TTrue"
proof -
  have arm: "eval (fst (arm_be filed auth p)) (snd (arm_be filed auth p)) r \<noteq> TTrue" for filed p
    using assms by (simp add: arm_be_def eval_be_and_TTrue eval_range_null ball_Un)
  have "be_ok (be_or (map (range_be \<circ> fp_prefix) filed))" for filed by (rule be_ok_or) auto
  then have "eval (fst (unmatched_be filed)) (snd (unmatched_be filed)) r = TTrue" for filed
    using assms by (simp add: unmatched_be_def eval_true eval_be_or_TTrue eval_is_null)
  with arm show ?thesis by (simp add: eval_file_list_arms)
qed

lemma eval_file_list_text:
  assumes path: "r ''path'' = Text s" and sound: "\<forall>p \<in> set policies. file_policy_sound p"
    and dist: "distinct (map fp_prefix policies)"
  shows "eval (fst (file_list_be policies auth)) (snd (file_list_be policies auth)) r = TTrue \<longleftrightarrow>
    (case longest_match policies (Some s) of
       None \<Rightarrow> eval (fst (owner_be auth)) (snd (owner_be auth)) r = TTrue
     | Some p \<Rightarrow> eval (fst (decision_be p auth)) (snd (decision_be p auth)) r = TTrue)"
proof -
  let ?filed = "filed_policies policies"
  have f: "\<forall>p \<in> set ?filed. file_policy_sound p \<and> fp_prefix p \<noteq> []" using sound by (simp add: filed_policies_set)
  have arm: "eval (fst (arm_be ?filed auth p)) (snd (arm_be ?filed auth p)) r = TTrue \<longleftrightarrow>
      longest_match policies (Some s) = Some p \<and> eval (fst (decision_be p auth)) (snd (decision_be p auth)) r = TTrue"
    if "p \<in> set ?filed" for p
    using eval_arm_text [of r s ?filed p auth] path f that longest_match_filed [OF dist that] by simp
  have un: "eval (fst (unmatched_be ?filed)) (snd (unmatched_be ?filed)) r = TTrue \<longleftrightarrow>
      (\<forall>p \<in> set ?filed. \<not> prefix (fp_prefix p) s)"
    using eval_unmatched_text [of r s ?filed] path f by simp
  show ?thesis
  proof (cases "\<forall>p \<in> set ?filed. \<not> prefix (fp_prefix p) s")
    case True
    with longest_match_filed [OF dist] have "longest_match policies (Some s) \<noteq> Some p" if "p \<in> set ?filed" for p
      using that by blast
    then have "\<not> (\<exists>p \<in> set ?filed. eval (fst (arm_be ?filed auth p)) (snd (arm_be ?filed auth p)) r = TTrue)"
      using arm by blast
    with True un show ?thesis
      using longest_match_root [OF dist True] unfolding eval_file_list_arms root_be_def
      by (auto split: option.splits)
  next
    case False
    then obtain m where m: "longest_match policies (Some s) = Some m"
      using longest_match_None [of policies s] by (cases "longest_match policies (Some s)") (auto simp: filed_policies_set)
    with False longest_match_iff [OF dist, of s m] have "m \<in> set ?filed"
      by (auto simp: filed_policies_set)
    with m False un arm show ?thesis unfolding eval_file_list_arms by auto
  qed
qed

lemma file_list_exact:
  assumes "regex_like rx" "\<forall>p \<in> set policies. file_policy_sound p"
    "distinct (map fp_prefix policies)" "row_typed file_policy_schema row"
  shows "eval (fst (file_list_be policies auth)) (snd (file_list_be policies auth)) (row_value row) = TTrue \<longleftrightarrow>
    authorize_file rx policies row auth Read"
proof (cases "Option.bind (map_of row ''path'') as_str")
  case None
  then have "row_value row ''path'' = Null" using file_columns [OF assms(4), of "''path''"] by simp
  with None show ?thesis
    using eval_file_list_null eval_root_be [OF assms(2,4,1)]
    by (simp add: authorize_file_read longest_match_def)
next
  case (Some s)
  then have path: "row_value row ''path'' = Text s" using file_columns [OF assms(4), of "''path''"] by simp
  show ?thesis
  proof (cases "longest_match policies (Some s)")
    case None
    with Some show ?thesis
      using eval_file_list_text [where r = "row_value row" and s = s, OF path assms(2,3)] eval_owner_be [OF assms(4)]
      by (simp add: authorize_file_read)
  next
    case (Some p)
    then have "file_policy_sound p" using assms(2) longest_match_iff [OF assms(3)] by blast
    with Some \<open>_ = Some s\<close> show ?thesis
      using eval_file_list_text [where r = "row_value row" and s = s, OF path assms(2,3)]
        eval_decision_be [OF _ assms(4,1)]
      by (simp add: authorize_file_read)
  qed
qed

end

section \<open>The registry\<close>

lemma or_else_eq_Some: "or_else a b = Some x \<longleftrightarrow> a = Some x \<or> (a = None \<and> b = Some x)"
  by (cases a) auto

lemma ast_json_roundtrip:
  "ast_of_json j = Some a \<Longrightarrow> ast_of_json (ast_to_json a) = Some a"
  "asts_of_json js = Some as \<Longrightarrow> asts_of_json (map ast_to_json as) = Some as"
proof (induction j and js arbitrary: a and as rule: ast_of_json_asts_of_json.induct)
  case (1 m)
  show ?case
  proof (cases a)
    case (FAnd bs)
    with "1.prems" obtain xs where "map_of m ''and'' = Some (JArray xs)" "asts_of_json xs = Some bs"
      by (auto simp: or_else_eq_Some split: option.splits json.splits)
    with "1.IH"(1) FAnd show ?thesis by simp
  next
    case (FOr bs)
    with "1.prems" obtain xs where "map_of m ''or'' = Some (JArray xs)" "asts_of_json xs = Some bs"
      by (auto simp: or_else_eq_Some split: option.splits json.splits)
    with "1.IH"(2) FOr show ?thesis by simp
  next
    case (FNot b)
    with "1.prems" obtain i where "map_of m ''not'' = Some i" "ast_of_json i = Some b"
      by (auto simp: or_else_eq_Some split: option.splits json.splits)
    with "1.IH"(3) FNot show ?thesis by simp
  next
    case (FLeaf n)
    with "1.prems" have "n = m" by (auto simp: or_else_eq_Some)
    with FLeaf "1.prems" show ?thesis by simp
  qed
qed (auto split: option.splits)

lemma load_rows_iff:
  "load_rows from_str rs = Inr ps \<longleftrightarrow> list_all2 (\<lambda>r p. load_row from_str r = Inr p) rs ps"
proof (induction rs arbitrary: ps)
  case (Cons r rs)
  then show ?case by (cases "load_row from_str r"; cases "load_rows from_str rs") (auto simp: list_all2_Cons1)
qed auto

lemma load_row_prefix: "load_row from_str r = Inr p \<Longrightarrow> fp_prefix p = sp_prefix r"
  by (auto simp: load_row_def checked_prefix_def split: sum.splits)

lemma load_rows_prefixes:
  "list_all2 (\<lambda>r p. load_row from_str r = Inr p) rs ps \<Longrightarrow> map fp_prefix ps = map sp_prefix rs"
  by (induction rule: list_all2_induct) (auto dest: load_row_prefix)

lemma load_rows_set:
  "list_all2 (\<lambda>r p. load_row from_str r = Inr p) rs ps \<Longrightarrow> set ps = {p. \<exists>r \<in> set rs. load_row from_str r = Inr p}"
  by (induction rule: list_all2_induct) auto

lemma load_rows_ok:
  "list_all2 (\<lambda>r p. load_row from_str r = Inr p) rs ps \<Longrightarrow> \<forall>r \<in> set rs. is_ok (load_row from_str r)"
  by (induction rule: list_all2_induct) auto

lemma load_file_policies_Inr:
  assumes "load_file_policies from_str table = Inr ps"
  shows "set ps = {p. \<exists>r \<in> set table. load_row from_str r = Inr p}"
    and "sorted (map fp_prefix ps)" and "distinct (map fp_prefix ps) \<longleftrightarrow> distinct (map sp_prefix table)"
    and "\<forall>r \<in> set table. is_ok (load_row from_str r)"
proof -
  have l: "list_all2 (\<lambda>r p. load_row from_str r = Inr p) (sort_key sp_prefix table) ps"
    using assms by (simp add: load_file_policies_def load_rows_iff)
  show "set ps = {p. \<exists>r \<in> set table. load_row from_str r = Inr p}" using load_rows_set [OF l] by simp
  show "sorted (map fp_prefix ps)" using load_rows_prefixes [OF l] by simp
  show "distinct (map fp_prefix ps) \<longleftrightarrow> distinct (map sp_prefix table)"
    unfolding load_rows_prefixes [OF l] by (simp add: distinct_map)
  have "\<forall>r \<in> set (sort_key sp_prefix table). is_ok (load_row from_str r)" using load_rows_ok [OF l] .
  then show "\<forall>r \<in> set table. is_ok (load_row from_str r)" by simp
qed

lemma load_file_policies_ok:
  assumes "\<forall>r \<in> set table. is_ok (load_row from_str r)"
  shows "\<exists>ps. load_file_policies from_str table = Inr ps"
proof -
  have "\<exists>ps. load_rows from_str rs = Inr ps" if "\<forall>r \<in> set rs. is_ok (load_row from_str r)" for rs
    using that by (induction rs) (auto simp: is_ok_iff)
  with assms show ?thesis by (simp add: load_file_policies_def)
qed

lemma upsert_stored_set:
  "distinct (map sp_prefix table) \<Longrightarrow>
     set (upsert_stored r table) = insert r {x \<in> set table. sp_prefix x \<noteq> sp_prefix r} \<and>
     distinct (map sp_prefix (upsert_stored r table))"
  by (induction table) (auto simp: image_iff)

lemma canonical_Some:
  assumes "canonical_public_upload_roles (Some rs) = Inr grant"
  shows "grant = Some (filter (\<lambda>a. a \<in> set rs) PUBLIC_UPLOAD_ROLES_ALLOWED) \<and> rs \<noteq> [] \<and>
    set rs \<subseteq> set PUBLIC_UPLOAD_ROLES_ALLOWED"
proof (cases "find (\<lambda>r. r \<notin> set PUBLIC_UPLOAD_ROLES_ALLOWED) rs")
  case None
  then have "set rs \<subseteq> set PUBLIC_UPLOAD_ROLES_ALLOWED" by (auto simp: find_None_iff)
  with None assms show ?thesis
    by (simp add: canonical_public_upload_roles_def split: if_splits)
next
  case (Some bad)
  with assms show ?thesis by (simp add: canonical_public_upload_roles_def split: if_splits)
qed

lemma canonical_None [simp]: "canonical_public_upload_roles None = Inr None"
  by (simp add: canonical_public_upload_roles_def)

lemma canonical_SomeI:
  assumes "rs \<noteq> []" "set rs \<subseteq> set PUBLIC_UPLOAD_ROLES_ALLOWED"
  shows "canonical_public_upload_roles (Some rs) = Inr (Some (filter (\<lambda>a. a \<in> set rs) PUBLIC_UPLOAD_ROLES_ALLOWED))"
proof -
  have "find (\<lambda>r. r \<notin> set PUBLIC_UPLOAD_ROLES_ALLOWED) rs = None" using assms(2) by (auto simp: find_None_iff)
  with assms(1) show ?thesis by (simp add: canonical_public_upload_roles_def)
qed

lemma canonical_idem:
  assumes "canonical_public_upload_roles rs = Inr grant"
  shows "canonical_public_upload_roles grant = Inr grant"
proof (cases rs)
  case (Some r)
  let ?f = "filter (\<lambda>a. a \<in> set r) PUBLIC_UPLOAD_ROLES_ALLOWED"
  from assms Some have g: "grant = Some ?f" "r \<noteq> []" "set r \<subseteq> set PUBLIC_UPLOAD_ROLES_ALLOWED"
    using canonical_Some by blast+
  then have "set ?f = set r" by auto
  moreover from this g(2) have "?f \<noteq> []" by (metis set_empty)
  ultimately show ?thesis using g canonical_SomeI [of ?f] by (simp add: Int_absorb1)
qed (use assms in simp)

lemma strings_of_json_map: "strings_of_json (map JString ss) = Some ss"
  by (induction ss) simp_all

text \<open>The JSON documents an upsert prints into the row.\<close>

definition stored_jsons :: "file_policy_row \<Rightarrow> string list option \<Rightarrow> json list" where
  "stored_jsons row grant =
     map ast_to_json (case_option [] (\<lambda>a. [a]) (fp_select row) @ case_option [] (\<lambda>a. [a]) (fp_delete row)) @
     case_option [] (\<lambda>rs. [JArray (map JString rs)]) grant"

text \<open>A clause that was parsed from JSON, as every clause that reaches the registry is.\<close>

definition from_request :: "filter_ast option \<Rightarrow> bool" where
  "from_request clause \<longleftrightarrow>
     (case clause of None \<Rightarrow> True | Some a \<Rightarrow> ast_of_json (ast_to_json a) = Some a)"

lemma from_request_parsed: "ast_of_json j = Some a \<Longrightarrow> from_request (Some a)"
  by (auto simp: from_request_def dest: ast_json_roundtrip)

lemma load_row_to_stored:
  assumes "validate_file_policy row = Inr ()" "canonical_public_upload_roles (fp_public_upload_roles row) = Inr grant"
    and "\<forall>j \<in> set (stored_jsons row grant). from_str (to_string j) = Some j"
    and "from_request (fp_select row)" "from_request (fp_delete row)"
  shows "load_row from_str (to_stored to_string row grant) = Inr (row\<lparr> fp_public_upload_roles := grant \<rparr>)"
proof -
  have "checked_prefix (fp_prefix row) = Inr (fp_prefix row)"
    using assms(1) by (auto simp: validate_file_policy_def checked_prefix_def split: sum.splits)
  moreover have "parse_stored_ast from_str (map_option (to_string \<circ> ast_to_json) (fp_select row)) i = Inr (fp_select row)"
    "parse_stored_ast from_str (map_option (to_string \<circ> ast_to_json) (fp_delete row)) i = Inr (fp_delete row)" for i
    using assms(3-5) by (auto simp: parse_stored_ast_def from_request_def stored_jsons_def split: option.splits)
  moreover have "parse_stored_grant from_str (map_option (\<lambda>rs. to_string (JArray (map JString rs))) grant) = Inr grant"
    using assms(3) canonical_idem [OF assms(2)]
    by (cases grant) (auto simp: parse_stored_grant_def stored_jsons_def strings_of_json_map)
  ultimately show ?thesis by (simp add: load_row_def to_stored_def)
qed

text \<open>What the upsert endpoint accepts satisfies the assumption of the list filter.\<close>

lemma validated_file_policy_checked:
  assumes "validate_file_policy p = Inr ()" "is_utf8 (fp_prefix p)"
  shows "file_policy_checked p"
proof -
  have "check_operand_classes_inner file_policy_schema False ast = Inr ()" if "fp_select p = Some ast" for ast
    using assms(1) that
      validate_policy_using [of file_policy_schema Select "\<lparr> p_using = Some ast, p_check = None \<rparr>" ast]
    by (auto simp: validate_file_policy_def validate_file_clause_def split: if_splits)
  with assms show ?thesis
    by (auto simp: file_policy_checked_def validate_file_policy_def split: option.splits)
qed

section \<open>Properties\<close>

definition example_file_policies :: "file_policy_row list" where
  "example_file_policies =
     [\<lparr> fp_prefix = [], fp_owner_scoped = False, fp_public_read = True, fp_select = None, fp_delete = None,
        fp_public_upload_roles = None \<rparr>,
      \<lparr> fp_prefix = ''u/'', fp_owner_scoped = True, fp_public_read = False,
        fp_select = Some (FLeaf [(''visibility'', JString ''public'')]), fp_delete = None,
        fp_public_upload_roles = Some [''user''] \<rparr>]"

definition example_file_row :: jmap where
  "example_file_row =
     [(''path'', JString ''u/a''), (''uploader'', JString ''u1''), (''visibility'', JString ''public'')]"

text \<open>
  C4. The list of files and the check on a single file agree: for every caller, every registry of rules
  that passed validation, with distinct prefixes and with SELECT clauses that are \<open>comparable\<close> (no LIKE with a numeric
  literal, numeric literals below 2^53), and every stored file row whose columns hold values of their classes
  with integers below 2^53 (\<open>row_typed\<close>), the WHERE clause that the list endpoint builds renders an expression that
  SQLite finds true of the row, under the parameters bound with it, exactly when \<open>authorize_file\<close> allows the
  caller to read that file; in particular the longest prefix decides in both. \<open>rx\<close> is any regular expression
  engine with the documented behaviour of \<open>regex_engine\<close>.
\<close>

theorem file_list_lockstep:
  assumes "sqlite_engine eval" "regex_engine rx" "\<forall>p \<in> set policies. file_policy_checked p"
    and "\<forall>p \<in> set policies. \<forall>ast. fp_select p = Some ast \<longrightarrow> comparable ast"
    and "distinct (map fp_prefix policies)" "row_typed file_policy_schema row"
  shows "\<exists>e. fst (build_file_list_filter policies auth) = render e \<and>
    (eval e (snd (build_file_list_filter policies auth)) (row_value row) = TTrue \<longleftrightarrow>
       authorize_file rx policies row auth Read)"
proof -
  have "\<forall>p \<in> set policies. file_policy_sound p" using assms(3,4) checked_comparable_sound by blast
  from sqlite_engine.file_list_exact [OF assms(1) regex_engine_like [OF assms(2)] this assms(5,6), of auth]
  show ?thesis by (auto simp: build_file_list_filter_be)
qed

theorem file_list_lockstep_witness:
  "(\<exists>e. fst (build_file_list_filter example_file_policies (User ''u1'' ''h'')) = render e \<and>
     ref_eval e (snd (build_file_list_filter example_file_policies (User ''u1'' ''h''))) (row_value example_file_row) = TTrue) \<and>
   (\<exists>e. fst (build_file_list_filter example_file_policies (User ''u2'' ''h'')) = render e \<and>
     ref_eval e (snd (build_file_list_filter example_file_policies (User ''u2'' ''h''))) (row_value example_file_row) \<noteq> TTrue)"
proof -
  have "\<forall>p \<in> set example_file_policies. file_policy_checked p"
    "distinct (map fp_prefix example_file_policies)" "row_typed file_policy_schema example_file_row"
    "authorize_file like_rx example_file_policies example_file_row (User ''u1'' ''h'') Read"
    "\<not> authorize_file like_rx example_file_policies example_file_row (User ''u2'' ''h'') Read"
    by code_simp+
  moreover have "\<forall>p \<in> set example_file_policies. \<forall>ast. fp_select p = Some ast \<longrightarrow> comparable ast"
    by (simp add: example_file_policies_def numeric_like_def body_operands_def)
  ultimately show ?thesis
    using file_list_lockstep [OF ref.sqlite_engine_axioms like_rx_engine, of example_file_policies example_file_row] by blast
qed

text \<open>
  C26. Writing a rule and reading the registry back: when the registry loads and a validated
  rule is upserted, the registry loads again, and holds that rule (with its upload grant in
  canonical order) in place of any rule of the same prefix and every other rule unchanged,
  still one per prefix and in prefix order.
\<close>

theorem file_registry_roundtrip:
  assumes "validate_file_policy row = Inr ()" "canonical_public_upload_roles (fp_public_upload_roles row) = Inr grant"
    and "\<forall>j \<in> set (stored_jsons row grant). from_str (to_string j) = Some j"
    and "from_request (fp_select row)" "from_request (fp_delete row)"
    and "load_file_policies from_str table = Inr ps" "distinct (map sp_prefix table)"
  shows "\<exists>table' ps'. upsert_file_policy to_string table row = Inr table' \<and>
    load_file_policies from_str table' = Inr ps' \<and>
    set ps' = insert (row\<lparr> fp_public_upload_roles := grant \<rparr>) {p \<in> set ps. fp_prefix p \<noteq> fp_prefix row} \<and>
    distinct (map fp_prefix ps') \<and> sorted (map fp_prefix ps')"
proof -
  let ?r = "to_stored to_string row grant"
  let ?t = "upsert_stored ?r table"
  have r: "load_row from_str ?r = Inr (row\<lparr> fp_public_upload_roles := grant \<rparr>)" "sp_prefix ?r = fp_prefix row"
    using load_row_to_stored [OF assms(1-5)] by (simp_all add: to_stored_def)
  have t: "set ?t = insert ?r {x \<in> set table. sp_prefix x \<noteq> fp_prefix row}" "distinct (map sp_prefix ?t)"
    using upsert_stored_set [OF assms(7), of ?r] r(2) by simp_all
  have "\<forall>x \<in> set ?t. is_ok (load_row from_str x)"
    using load_file_policies_Inr(4) [OF assms(6)] r(1) t(1) by auto
  then obtain ps' where ps': "load_file_policies from_str ?t = Inr ps'" using load_file_policies_ok by blast
  have "set ps' = insert (row\<lparr> fp_public_upload_roles := grant \<rparr>) {p \<in> set ps. fp_prefix p \<noteq> fp_prefix row}"
    unfolding load_file_policies_Inr(1) [OF ps'] load_file_policies_Inr(1) [OF assms(6)] t(1)
    using r(1) by (auto dest: load_row_prefix) (metis load_row_prefix)
  with ps' load_file_policies_Inr(2,3) [OF ps'] t(2) assms(2) show ?thesis
    by (auto simp: upsert_file_policy_def)
qed

definition example_rule :: file_policy_row where
  "example_rule = \<lparr> fp_prefix = ''u/'', fp_owner_scoped = True, fp_public_read = False,
     fp_select = Some (FLeaf [(''visibility'', JString ''public'')]), fp_delete = None,
     fp_public_upload_roles = Some [''user'', ''anon'', ''user''] \<rparr>"

definition example_print :: "json \<Rightarrow> string" where
  "example_print j = (case j of JArray _ \<Rightarrow> ''roles'' | _ \<Rightarrow> ''clause'')"

definition example_parse :: "string \<Rightarrow> json option" where
  "example_parse s =
     (if s = ''roles'' then Some (JArray [JString ''anon'', JString ''user''])
      else if s = ''clause'' then Some (JObject [(''visibility'', JString ''public'')]) else None)"

theorem file_registry_roundtrip_witness:
  "\<exists>table' ps'. upsert_file_policy example_print (seed_root_policy []) example_rule = Inr table' \<and>
    load_file_policies example_parse table' = Inr ps' \<and> length ps' = 2 \<and>
    example_rule\<lparr> fp_public_upload_roles := Some [''anon'', ''user''] \<rparr> \<in> set ps'"
proof -
  let ?root = "\<lparr> fp_prefix = [], fp_owner_scoped = False, fp_public_read = True, fp_select = None,
    fp_delete = None, fp_public_upload_roles = None \<rparr>"
  let ?rule = "example_rule\<lparr> fp_public_upload_roles := Some [''anon'', ''user''] \<rparr>"
  have v: "validate_file_policy example_rule = Inr ()"
    "canonical_public_upload_roles (fp_public_upload_roles example_rule) = Inr (Some [''anon'', ''user''])"
    "\<forall>j \<in> set (stored_jsons example_rule (Some [''anon'', ''user''])). example_parse (example_print j) = Some j"
    "from_request (fp_select example_rule)" "from_request (fp_delete example_rule)"
    "load_file_policies example_parse (seed_root_policy []) = Inr [?root]"
    "distinct (map sp_prefix (seed_root_policy []))"
    "{p \<in> set [?root]. fp_prefix p \<noteq> fp_prefix example_rule} = {?root}" "?rule \<noteq> ?root"
    by (code_simp | simp add: from_request_def example_rule_def)+
  from file_registry_roundtrip [OF v(1-7)] obtain table' ps' where
    t: "upsert_file_policy example_print (seed_root_policy []) example_rule = Inr table'"
      "load_file_policies example_parse table' = Inr ps'" "distinct (map fp_prefix ps')" "set ps' = {?rule, ?root}"
    unfolding v(8) by blast
  moreover have "length ps' = 2"
    using t(3,4) v(9) distinct_card [of ps'] by (simp add: distinct_map)
  ultimately show ?thesis by auto
qed

end
