(* ===== verification/File_Caps.thy ===== *)
theory File_Caps
  imports Auth_Layer File_Policy
begin

text \<open>
  The gates in front of the file routes: \<open>tenant/file_caps.rs\<close> (the per-verb capabilities and the
  classification of a route by its path), the service gates of \<open>tenant/router.rs\<close>, and the decision
  on publishing an upload, \<open>enforce_upload_visibility\<close> of \<open>storage/files.rs\<close>. The routes are those
  \<open>tenant/mod.rs\<close> mounts behind the layer.
\<close>

section \<open>Capabilities\<close>

datatype file_cap_gate = CapAllow | CapDenyAnon | CapDenyUser

definition check_file_cap :: "token_role \<Rightarrow> tenant_file_caps \<Rightarrow> file_verb \<Rightarrow> file_cap_gate" where
  "check_file_cap role caps verb =
     (case role of
        RService \<Rightarrow> CapAllow
      | RAnon \<Rightarrow> if verb \<in> set (caps_anon caps) then CapAllow else CapDenyAnon
      | RUser \<Rightarrow> if verb \<in> set (caps_user caps) then CapAllow else CapDenyUser)"

text \<open>A refusal is a status, a code and a message.\<close>

datatype gate_answer = GateRefuse nat string string | GateNext

fun file_deny_code :: "file_verb \<Rightarrow> string" where
  "file_deny_code FRead = ''FILE_READ_DENIED''"
| "file_deny_code FList = ''FILE_LIST_DENIED''"
| "file_deny_code FUpload = ''FILE_UPLOAD_DENIED''"
| "file_deny_code FDelete = ''FILE_DELETE_DENIED''"

definition file_cap_denied_response :: "file_cap_gate \<Rightarrow> file_verb \<Rightarrow> gate_answer option" where
  "file_cap_denied_response gate verb =
     (if gate = CapAllow then None
      else Some (GateRefuse 403 (file_deny_code verb) (''bearer lacks file.'' @ file_as_str verb @ '' capability'')))"

section \<open>Routes\<close>

datatype http_method = GET | POST | PATCH | DELETE | HEAD | OPTIONS | OtherMethod string

datatype file_route_gate = Capped file_verb | ServiceOnly

definition path_segments :: "string \<Rightarrow> string list" where
  "path_segments path = filter (\<lambda>s. s \<noteq> []) (split_on (CHR ''/'') path)"

text \<open>What follows the first segment equal to \<open>marker\<close>.\<close>

fun tail_after :: "string \<Rightarrow> string list \<Rightarrow> string list option" where
  "tail_after marker [] = None"
| "tail_after marker (s # ss) = (if s = marker then Some ss else tail_after marker ss)"

definition classify_mode_a :: "http_method \<Rightarrow> string list \<Rightarrow> file_route_gate" where
  "classify_mode_a method tail =
     (if length tail = 0 \<and> method = POST then Capped FUpload
      else if length tail = 0 \<and> method = GET then Capped FList
      else if length tail = 1 \<and> method = GET then Capped FRead
      else if length tail = 1 \<and> method = DELETE then Capped FDelete
      else if length tail = 1 \<and> method = PATCH then ServiceOnly
      else if length tail = 2 \<and> last tail = ''bytes'' \<and> method = GET then Capped FRead
      else ServiceOnly)"

definition classify_mode_b :: "http_method \<Rightarrow> string list \<Rightarrow> file_route_gate" where
  "classify_mode_b method tail =
     (if length tail = 0 \<and> method = POST then Capped FUpload
      else if length tail = 0 then ServiceOnly
      else if length tail = 1 \<and> (method = PATCH \<or> method = HEAD) then Capped FUpload
      else if length tail = 1 \<and> method = DELETE then Capped FDelete
      else ServiceOnly)"

definition classify_file_route :: "http_method \<Rightarrow> string \<Rightarrow> file_route_gate" where
  "classify_file_route method path =
     (let segs = path_segments path in
      case tail_after ''files'' segs of
        Some tail \<Rightarrow> classify_mode_a method tail
      | None \<Rightarrow>
          (case tail_after ''uploads'' segs of
             Some tail \<Rightarrow> classify_mode_b method tail
           | None \<Rightarrow> ServiceOnly))"

text \<open>
  The layer: \<open>role\<close> is that of the \<open>TenantRef\<close> the bearer layer left, and \<open>None\<close> when it left none;
  the two limiters are those of uploads and deletes.
\<close>

definition file_caps_layer ::
  "(string \<Rightarrow> 'ip option) \<Rightarrow> 'ip \<Rightarrow> token_role option \<Rightarrow> tenant_file_caps option \<Rightarrow> http_method \<Rightarrow> string \<Rightarrow> string option \<Rightarrow> int
   \<Rightarrow> 'ip ip_rate_limit \<times> 'ip ip_rate_limit \<Rightarrow> gate_answer \<times> ('ip ip_rate_limit \<times> 'ip ip_rate_limit)" where
  "file_caps_layer parse_ip loopback role caps method path xff now rls =
     (case role of
        None \<Rightarrow> (GateRefuse 403 ''WRITE_DENIED'' ''service key or file capability required'', rls)
      | Some RService \<Rightarrow> (GateNext, rls)
      | Some r \<Rightarrow>
          case classify_file_route method path of
            ServiceOnly \<Rightarrow> (GateRefuse 403 ''WRITE_DENIED'' ''this file operation requires a service key'', rls)
          | Capped verb \<Rightarrow>
              let cs = unwrap_or caps \<lparr> caps_anon = [], caps_user = [] \<rparr> in
              case file_cap_denied_response (check_file_cap r cs verb) verb of
                Some resp \<Rightarrow> (resp, rls)
              | None \<Rightarrow>
                  let limited = (GateRefuse 429 ''RATE_LIMITED_IP'' ''file upload/delete rate limit exceeded; retry shortly'');
                      ip = client_ip parse_ip xff loopback
                  in case verb of
                       FUpload \<Rightarrow>
                         let (ok, rl) = ip_check (fst rls) ip now in (if ok then GateNext else limited, (rl, snd rls))
                     | FDelete \<Rightarrow>
                         let (ok, rl) = ip_check (snd rls) ip now in (if ok then GateNext else limited, (fst rls, rl))
                     | _ \<Rightarrow> (GateNext, rls))"

definition require_service_role :: "token_role \<Rightarrow> (unit, gate_answer) result" where
  "require_service_role role =
     (if role = RAnon \<or> role = RUser
      then Inl (GateRefuse 403 ''WRITE_DENIED'' ''anon/user key cannot write; use a service key'') else Inr ())"

definition require_service_layer :: "token_role option \<Rightarrow> gate_answer" where
  "require_service_layer role =
     (case role of
        Some r \<Rightarrow> (case require_service_role r of Inl resp \<Rightarrow> resp | Inr _ \<Rightarrow> GateNext)
      | None \<Rightarrow> GateRefuse 403 ''WRITE_DENIED'' ''service key required'')"

text \<open>The thirteen routes behind the layer, and what each of them does.\<close>

datatype file_route =
    UploadFile | ListFiles | GetOne | DeleteOne | SetVisibility | StreamBytes | SignUrl
  | TusCreate | TusSessions | TusOptions | TusPatch | TusHead | TusTerminate

fun route_method :: "file_route \<Rightarrow> http_method" where
  "route_method UploadFile = POST" | "route_method ListFiles = GET" | "route_method GetOne = GET"
| "route_method DeleteOne = DELETE" | "route_method SetVisibility = PATCH" | "route_method StreamBytes = GET"
| "route_method SignUrl = POST" | "route_method TusCreate = POST" | "route_method TusSessions = GET"
| "route_method TusOptions = OPTIONS" | "route_method TusPatch = PATCH" | "route_method TusHead = HEAD"
| "route_method TusTerminate = DELETE"

fun route_tail :: "file_route \<Rightarrow> string \<Rightarrow> string list" where
  "route_tail UploadFile _ = [''files'']" | "route_tail ListFiles _ = [''files'']"
| "route_tail GetOne k = [''files'', k]" | "route_tail DeleteOne k = [''files'', k]"
| "route_tail SetVisibility k = [''files'', k]" | "route_tail StreamBytes k = [''files'', k, ''bytes'']"
| "route_tail SignUrl k = [''files'', k, ''sign'']" | "route_tail TusCreate _ = [''uploads'']"
| "route_tail TusSessions _ = [''uploads'']" | "route_tail TusOptions _ = [''uploads'']"
| "route_tail TusPatch k = [''uploads'', k]" | "route_tail TusHead k = [''uploads'', k]"
| "route_tail TusTerminate k = [''uploads'', k]"

definition route_path :: "file_route \<Rightarrow> string \<Rightarrow> string \<Rightarrow> string" where
  "route_path r tenant k = concat (map (\<lambda>s. CHR ''/'' # s) (''t'' # tenant # route_tail r k))"

text \<open>The capability each operation needs, by what it does.\<close>

fun route_gate :: "file_route \<Rightarrow> file_route_gate" where
  "route_gate UploadFile = Capped FUpload" | "route_gate ListFiles = Capped FList"
| "route_gate GetOne = Capped FRead" | "route_gate DeleteOne = Capped FDelete"
| "route_gate SetVisibility = ServiceOnly" | "route_gate StreamBytes = Capped FRead"
| "route_gate SignUrl = ServiceOnly" | "route_gate TusCreate = Capped FUpload"
| "route_gate TusSessions = ServiceOnly" | "route_gate TusOptions = ServiceOnly"
| "route_gate TusPatch = Capped FUpload" | "route_gate TusHead = Capped FUpload"
| "route_gate TusTerminate = Capped FDelete"

section \<open>Publishing an upload\<close>

datatype visibility = Public | Private

datatype upload_caller = UCService | UCUser | UCAnon

fun grant_role :: "upload_caller \<Rightarrow> string option" where
  "grant_role UCService = None"
| "grant_role UCUser = Some ''user''"
| "grant_role UCAnon = Some ''anon''"

fun upload_caller_from_auth :: "auth_ctx \<Rightarrow> upload_caller" where
  "upload_caller_from_auth (Service _) = UCService"
| "upload_caller_from_auth (User _ _) = UCUser"
| "upload_caller_from_auth Anon = UCAnon"

definition publish_grant_lookup_required :: "upload_caller \<Rightarrow> visibility option \<Rightarrow> bool" where
  "publish_grant_lookup_required caller requested \<longleftrightarrow> caller \<noteq> UCService \<and> requested = Some Public"

text \<open>The refusal's detail goes to the log only, so the error is the unit.\<close>

definition enforce_upload_visibility ::
  "upload_caller \<Rightarrow> visibility option \<Rightarrow> visibility \<Rightarrow> string option \<Rightarrow> (file_policy_row list, string) result
   \<Rightarrow> (visibility, unit) result" where
  "enforce_upload_visibility caller requested service_default path policies =
     (if caller = UCService then Inr (unwrap_or requested service_default)
      else if \<not> publish_grant_lookup_required caller requested then Inr Private
      else case grant_role caller of
        None \<Rightarrow> Inl ()
      | Some role \<Rightarrow>
          (case policies of
             Inl _ \<Rightarrow> Inl ()
           | Inr ps \<Rightarrow>
               (case longest_match ps path of
                  None \<Rightarrow> Inl ()
                | Some rule \<Rightarrow>
                    (case fp_public_upload_roles rule of
                       Some roles \<Rightarrow> if role \<in> set roles then Inr Public else Inl ()
                     | None \<Rightarrow> Inl ()))))"

section \<open>What the gates let through\<close>

lemma split_on_free: "c \<notin> set s \<Longrightarrow> split_on c s = [s]"
  by (induction s) auto

lemma split_on_slashed:
  assumes "\<forall>s \<in> set ss. c \<notin> set s" "c \<notin> set p"
  shows "split_on c (p @ concat (map (\<lambda>s. c # s) ss)) = p # ss"
  using assms by (induction ss arbitrary: p) (auto simp: split_on_free split_on_append)

lemma path_segments_route:
  assumes "CHR ''/'' \<notin> set tenant" "CHR ''/'' \<notin> set k" "tenant \<noteq> []" "k \<noteq> []"
  shows "path_segments (route_path r tenant k) = ''t'' # tenant # route_tail r k"
proof -
  have "\<forall>s \<in> set (''t'' # tenant # route_tail r k). CHR ''/'' \<notin> set s \<and> s \<noteq> []"
    using assms by (cases r) auto
  moreover from this have "split_on (CHR ''/'') (route_path r tenant k) = [] # ''t'' # tenant # route_tail r k"
    using split_on_slashed [of "''t'' # tenant # route_tail r k" "CHR ''/''" "[]"] by (simp add: route_path_def)
  ultimately show ?thesis by (simp add: path_segments_def)
qed

lemma classify_route:
  assumes "CHR ''/'' \<notin> set tenant" "CHR ''/'' \<notin> set k" "tenant \<noteq> []" "k \<noteq> []"
    "tenant \<noteq> ''files''" "tenant \<noteq> ''uploads''" "k \<noteq> ''files''"
  shows "classify_file_route (route_method r) (route_path r tenant k) = route_gate r"
  using assms(5-7) unfolding classify_file_route_def path_segments_route [OF assms(1-4)]
  by (cases r) (simp_all add: classify_mode_a_def classify_mode_b_def)

lemma cap_gate_None:
  "file_cap_denied_response (check_file_cap role caps verb) verb = None \<longleftrightarrow>
     role = RService \<or> role = RAnon \<and> verb \<in> set (caps_anon caps) \<or> role = RUser \<and> verb \<in> set (caps_user caps)"
  by (cases role) (auto simp: file_cap_denied_response_def check_file_cap_def)

text \<open>
  A file route runs for a caller without a service key only with the capability for what the
  route does. For every route behind the layer, every tenant other than \<open>files\<close> and \<open>uploads\<close> and
  every key other than \<open>files\<close>: when the layer lets a request through, the caller is service, or
  the route's operation is one of the four verbs and the caller's own capability set has it; and
  without any capability set every other caller is refused.
\<close>

theorem file_route_needs_capability:
  assumes "CHR ''/'' \<notin> set tenant" "CHR ''/'' \<notin> set k" "tenant \<noteq> []" "k \<noteq> []"
    "tenant \<noteq> ''files''" "tenant \<noteq> ''uploads''" "k \<noteq> ''files''"
    and "file_caps_layer parse_ip loopback role caps (route_method r) (route_path r tenant k) xff now rls = (GateNext, rls')"
  shows "role = Some RService \<or>
    (\<exists>verb cs. route_gate r = Capped verb \<and> caps = Some cs \<and>
       (role = Some RAnon \<and> verb \<in> set (caps_anon cs) \<or> role = Some RUser \<and> verb \<in> set (caps_user cs)))"
proof (cases role)
  case None
  with assms(8) show ?thesis by (simp add: file_caps_layer_def)
next
  case (Some ro)
  show ?thesis
  proof (cases "ro = RService")
    case False
    with assms(8) Some classify_route [OF assms(1-7), of r] obtain verb where v: "route_gate r = Capped verb"
      by (cases "route_gate r") (auto simp: file_caps_layer_def split: token_role.splits)
    with assms(8) Some False classify_route [OF assms(1-7), of r]
    have "file_cap_denied_response (check_file_cap ro (unwrap_or caps \<lparr> caps_anon = [], caps_user = [] \<rparr>) verb) verb = None"
      by (cases ro) (auto simp: file_caps_layer_def Let_def file_cap_denied_response_def split: option.splits if_splits)
    with Some False v show ?thesis
      by (cases caps) (auto simp: cap_gate_None unwrap_or_def)
  qed (use Some in simp)
qed

theorem file_route_needs_capability_witness:
  "\<exists>verb cs. route_gate GetOne = Capped verb \<and> Some \<lparr> caps_anon = [FRead], caps_user = [] \<rparr> = Some cs \<and> verb \<in> set (caps_anon cs)"
proof -
  let ?rl = "\<lparr> ip_buckets = [], capacity = 30, ip_window = 60, max_entries = 4096 \<rparr> :: nat ip_rate_limit"
  have "file_caps_layer (\<lambda>_. None) (0 :: nat) (Some RAnon) (Some \<lparr> caps_anon = [FRead], caps_user = [] \<rparr>)
     (route_method GetOne) (route_path GetOne ''t1'' ''k'') None 0 (?rl, ?rl) = (GateNext, (?rl, ?rl))"
    by code_simp
  from file_route_needs_capability [OF _ _ _ _ _ _ _ this] show ?thesis by auto
qed

text \<open>
  The condition on the tenant is needed, although \<open>files\<close> is a legal tenant id: there, the list
  route is taken for the reading of a single file.
\<close>

theorem tenant_named_files_lists_with_read:
  "route_gate ListFiles = Capped FList \<and>
   classify_file_route (route_method ListFiles) (route_path ListFiles ''files'' k) = Capped FRead"
  by (simp add: classify_file_route_def classify_mode_a_def route_path_def path_segments_def)

text \<open>
  Only a grant publishes. An upload by an end user or an anonymous caller becomes public exactly
  when the caller asks for it, the rules can be read, and the rule with the longest prefix of the
  declared path (the root rule when no path is declared) grants its role; a caller that does not ask
  gets a private file, and a service caller always gets what it asks for.
\<close>

theorem publishing_needs_grant:
  "(enforce_upload_visibility UCService requested dflt path policies = Inr (unwrap_or requested dflt)) \<and>
   (caller \<noteq> UCService \<longrightarrow>
      (enforce_upload_visibility caller requested dflt path policies = Inr Public \<longleftrightarrow>
         requested = Some Public \<and>
         (\<exists>ps rule roles role. policies = Inr ps \<and> longest_match ps path = Some rule \<and>
            fp_public_upload_roles rule = Some roles \<and> grant_role caller = Some role \<and> role \<in> set roles)) \<and>
      (requested \<noteq> Some Public \<longrightarrow> enforce_upload_visibility caller requested dflt path policies = Inr Private))"
  by (cases caller) (auto simp: enforce_upload_visibility_def publish_grant_lookup_required_def split: sum.splits option.splits)

theorem publishing_needs_grant_witness:
  "enforce_upload_visibility UCAnon (Some Public) Public (Some ''a/b'') (Inr []) \<noteq> Inr Public \<and>
   enforce_upload_visibility UCAnon None Public (Some ''a/b'') (Inr []) = Inr Private"
  using publishing_needs_grant [of None Public "Some ''a/b''" "Inr []" UCAnon]
    publishing_needs_grant [of "Some Public" Public "Some ''a/b''" "Inr []" UCAnon]
  by (auto simp: longest_match_def)

end
