(* ===== verification/Uploads.thy ===== *)
theory Uploads
  imports File_Caps Quota
begin

text \<open>
  Resumable uploads, \<open>tenant/uploads/\<close>: a session row and a spool file per upload, appended to by
  PATCH requests and moved to the object store when the declared length is reached. The state is
  that of one tenant: the sessions, the rows of \<open>_system_files\<close>, the spool files by token, the objects
  by bucket and key, and the events handed to the functions. Each handler is one step: a PATCH holds the lock of
  its token from the first look at the spool file on, while the session row is read just before the
  lock is taken, so two requests for one token that overlap there are not separated. The outcome of every operation on the disk, the databases and the object
  store is a field of \<open>tus_io\<close>; base64, the MIME table and fresh identifiers are parameters as well.
\<close>

section \<open>Sessions\<close>

record upload_session =
  us_token :: string
  us_tenant_id :: string
  us_key :: string
  us_visibility :: string
  us_original_name :: string
  us_content_type :: "string option"
  us_total_length :: int
  us_expires_at :: string
  us_uploader :: string
  us_path :: "string option"

record stored_file =
  sf_key :: string
  sf_original_name :: string
  sf_content_type :: "string option"
  sf_size_bytes :: int
  sf_disposition :: string
  sf_visibility :: string
  sf_cache_control :: string
  sf_uploader :: string
  sf_path :: "string option"

record tus_world =
  tw_sessions :: "upload_session list"
  tw_files :: "stored_file list"
  tw_spools :: "(string \<times> string) list"
  tw_objects :: "((string \<times> string) \<times> string) list"
  tw_events :: "(string \<times> int) list"

text \<open>\<open>s.splitn(2, ' ')\<close> of an item gives the key and, after the first space, the value.\<close>

definition metadata_item :: "(string \<Rightarrow> string option) \<Rightarrow> string \<Rightarrow> (string \<times> string) list \<Rightarrow> (string \<times> string) list" where
  "metadata_item b64_decode raw out =
     (let item = trim raw in
      if item = [] then out
      else
        let key = trim (takeWhile (\<lambda>c. c \<noteq> CHR '' '') item); rest = dropWhile (\<lambda>c. c \<noteq> CHR '' '') item in
        if key = [] then out
        else case rest of
          [] \<Rightarrow> AList.update key [] out
        | _ # b64 \<Rightarrow>
            (case b64_decode (trim b64) of
               Some bytes \<Rightarrow> if is_utf8 bytes then AList.update key bytes out else out
             | None \<Rightarrow> out))"

definition parse_upload_metadata :: "(string \<Rightarrow> string option) \<Rightarrow> string \<Rightarrow> (string \<times> string) list" where
  "parse_upload_metadata b64_decode raw = fold (metadata_item b64_decode) (split_on (CHR '','') raw) []"

definition is_hexdigit :: "char \<Rightarrow> bool" where
  "is_hexdigit c \<longleftrightarrow> is_digit c \<or> (97 \<le> byte c \<and> byte c \<le> 102) \<or> (65 \<le> byte c \<and> byte c \<le> 70)"

definition is_valid_token :: "string \<Rightarrow> bool" where
  "is_valid_token tok \<longleftrightarrow> length tok = 36 \<and> (\<forall>c \<in> set tok. is_hexdigit c \<or> c = CHR ''-'') \<and>
     (\<forall>(i, b) \<in> set (enumerate 0 tok). if i = 8 \<or> i = 13 \<or> i = 18 \<or> i = 23 then b = CHR ''-'' else b \<noteq> CHR ''-'')"

text \<open>
  \<open>Path::extension\<close>: the last component that is neither empty nor \<open>.\<close>, none for \<open>..\<close>, and in it
  what follows the last dot unless that is the first character.
\<close>

definition path_extension :: "string \<Rightarrow> string option" where
  "path_extension s =
     (let comps = filter (\<lambda>c. c \<noteq> [] \<and> c \<noteq> ''.'') (split_on (CHR ''/'') s) in
      if comps = [] \<or> last comps = ''..'' then None
      else
        let pieces = split_on (CHR ''.'') (last comps) in
        if length pieces = 1 \<or> (length pieces = 2 \<and> hd pieces = []) then None else Some (last pieces))"

definition derive_key :: "string \<Rightarrow> string \<Rightarrow> string" where
  "derive_key uuid original_name =
     (let ext = (case path_extension original_name of
                   Some e \<Rightarrow> if (\<forall>c \<in> set e. is_ascii_alphanumeric c) \<and> length e \<le> 12 then e else ''bin''
                 | None \<Rightarrow> ''bin'')
      in uuid @ ''.'' @ ext)"

text \<open>\<open>insert_session\<close> fails on a token that is taken.\<close>

definition insert_session :: "tus_world \<Rightarrow> upload_session \<Rightarrow> tus_world option" where
  "insert_session w s =
     (if us_token s \<in> us_token ` set (tw_sessions w) then None
      else Some (w\<lparr> tw_sessions := tw_sessions w @ [s] \<rparr>))"

definition get_session :: "tus_world \<Rightarrow> string \<Rightarrow> upload_session option" where
  "get_session w token = find (\<lambda>s. us_token s = token) (tw_sessions w)"

definition delete_session :: "tus_world \<Rightarrow> string \<Rightarrow> tus_world" where
  "delete_session w token = w\<lparr> tw_sessions := filter (\<lambda>s. us_token s \<noteq> token) (tw_sessions w) \<rparr>"

definition count_in_flight :: "tus_world \<Rightarrow> int" where
  "count_in_flight w = int (length (tw_sessions w))"

definition expired_tokens :: "tus_world \<Rightarrow> string \<Rightarrow> upload_session list" where
  "expired_tokens w now = filter (\<lambda>s. us_expires_at s < now) (tw_sessions w)"

definition remove_spool :: "tus_world \<Rightarrow> string \<Rightarrow> tus_world" where
  "remove_spool w token = w\<lparr> tw_spools := AList.delete token (tw_spools w) \<rparr>"

definition spool_len :: "tus_world \<Rightarrow> string \<Rightarrow> int" where
  "spool_len w token = (case map_of (tw_spools w) token of Some bytes \<Rightarrow> int (length bytes) | None \<Rightarrow> 0)"

text \<open>The janitor; a removal that fails is ignored, so each is paired with whether it worked.\<close>

definition sweep_one :: "(string \<Rightarrow> bool) \<Rightarrow> (string \<Rightarrow> bool) \<Rightarrow> upload_session \<Rightarrow> tus_world \<Rightarrow> tus_world" where
  "sweep_one unlinks deletes s w =
     (let w1 = (if unlinks (us_token s) then remove_spool w (us_token s) else w)
      in if deletes (us_token s) then delete_session w1 (us_token s) else w1)"

definition sweep_tenant :: "(string \<Rightarrow> bool) \<Rightarrow> (string \<Rightarrow> bool) \<Rightarrow> bool \<Rightarrow> string \<Rightarrow> tus_world \<Rightarrow> tus_world \<times> nat" where
  "sweep_tenant unlinks deletes listed now w =
     (if \<not> listed then (w, 0)
      else (fold (sweep_one unlinks deletes) (expired_tokens w now) w, length (expired_tokens w now)))"

section \<open>Handlers\<close>

record tus_config =
  tc_max_bytes :: nat
  tc_max_sessions :: nat
  tc_garage :: bool
  tc_b64_decode :: "string \<Rightarrow> string option"
  tc_mime_guess :: "string \<Rightarrow> string option"

record tus_io =
  io_page_bytes :: "(int, db_error) result"
  io_tier :: int
  io_db_ok :: bool
  io_policies :: "(file_policy_row list, string) result"
  io_disk_low :: bool
  io_spool_ok :: bool
  io_insert_ok :: bool
  io_append_ok :: bool
  io_written :: "nat option"
  io_put_ok :: bool
  io_unlinked :: bool
  io_deleted :: bool
  io_token :: string
  io_uuid :: string
  io_expires_at :: string

datatype tus_resp =
    TusErr nat string
  | TusCreated string string
  | TusConflict int
  | TusProbe int int
  | TusNoContent int
  | TusTerminated
  | TusListing "upload_session list"

text \<open>A refusal of the capability gate as an answer.\<close>

definition require_file_cap :: "auth_ctx \<Rightarrow> tenant_file_caps \<Rightarrow> file_verb \<Rightarrow> (unit, tus_resp) result" where
  "require_file_cap ctx caps verb =
     (case file_cap_denied_response (check_file_cap (role_of ctx) caps verb) verb of
        Some (GateRefuse st code _) \<Rightarrow> Inl (TusErr st code)
      | _ \<Rightarrow> Inr ())"

definition session_identity :: "auth_ctx \<Rightarrow> string" where
  "session_identity ctx = (case ctx of Service _ \<Rightarrow> ''service'' | Anon \<Rightarrow> ''anon'' | User uid _ \<Rightarrow> uid)"

definition bearer_owns_session :: "auth_ctx \<Rightarrow> upload_session \<Rightarrow> bool" where
  "bearer_owns_session ctx s \<longleftrightarrow> is_service ctx \<or> session_identity ctx = us_uploader s"

definition files_sum :: "tus_world \<Rightarrow> int" where
  "files_sum w = sum_list (map sf_size_bytes (tw_files w))"

definition tus_usage :: "tus_io \<Rightarrow> tus_world \<Rightarrow> (u64, db_error) result" where
  "tus_usage io w = usage_on_conn (io_page_bytes io) (Inr (files_sum w))"

definition requested_visibility :: "(string \<times> string) list \<Rightarrow> visibility option" where
  "requested_visibility meta =
     (case map_of meta ''visibility'' of
        Some v \<Rightarrow> Some (if v = ''public'' then Public else Private)
      | None \<Rightarrow> None)"

definition visibility_str :: "visibility \<Rightarrow> string" where
  "visibility_str v = (case v of Public \<Rightarrow> ''public'' | Private \<Rightarrow> ''private'')"

definition declared_path :: "(string \<times> string) list \<Rightarrow> (string option, unit) result" where
  "declared_path meta =
     (case map_of meta ''path'' of
        Some p \<Rightarrow> if p = [] then Inr None else (case validate_file_path p of Inr _ \<Rightarrow> Inr (Some p) | Inl _ \<Rightarrow> Inl ())
      | None \<Rightarrow> Inr None)"

text \<open>The session row a creation writes, once every check passed.\<close>

definition new_session ::
  "tus_config \<Rightarrow> tus_io \<Rightarrow> string \<Rightarrow> auth_ctx \<Rightarrow> (string \<times> string) list \<Rightarrow> int \<Rightarrow> string option \<Rightarrow> visibility \<Rightarrow> upload_session" where
  "new_session cfg io tenant ctx meta len path v =
     (let name = unwrap_or (map_of meta ''filename'') ''upload.bin'' in
      \<lparr> us_token = io_token io, us_tenant_id = tenant, us_key = derive_key (io_uuid io) name,
        us_visibility = visibility_str v, us_original_name = name,
        us_content_type = (case map_of meta ''filetype'' of Some t \<Rightarrow> Some t | None \<Rightarrow> tc_mime_guess cfg name),
        us_total_length = len, us_expires_at = io_expires_at io, us_uploader = session_identity ctx, us_path = path \<rparr>)"

definition create_spooled :: "tus_io \<Rightarrow> tus_world \<Rightarrow> upload_session \<Rightarrow> tus_resp \<times> tus_world" where
  "create_spooled io w s =
     (if io_disk_low io then (TusErr 507 ''DISK_FULL'', w)
      else if \<not> io_spool_ok io then (TusErr 500 ''SPOOL_ERROR'', w)
      else
        let w1 = w\<lparr> tw_spools := AList.update (us_token s) [] (tw_spools w) \<rparr> in
        case (if io_insert_ok io then insert_session w1 s else None) of
          None \<Rightarrow> (TusErr 500 ''DB_ERROR'', if io_unlinked io then remove_spool w1 (us_token s) else w1)
        | Some w2 \<Rightarrow> (TusCreated (us_token s) (us_expires_at s), w2))"

definition tus_create ::
  "tus_config \<Rightarrow> tus_io \<Rightarrow> tus_world \<Rightarrow> string \<Rightarrow> auth_ctx \<Rightarrow> tenant_file_caps \<Rightarrow> string option \<Rightarrow> string option
   \<Rightarrow> tus_resp \<times> tus_world" where
  "tus_create cfg io w tenant ctx caps upload_length upload_metadata =
     (case require_file_cap ctx caps FUpload of
        Inl r \<Rightarrow> (r, w)
      | Inr _ \<Rightarrow>
          case Option.bind upload_length parse_i64 of
            None \<Rightarrow> (TusErr 400 ''UPLOAD_LENGTH_REQUIRED'', w)
          | Some len \<Rightarrow>
              if len < 0 then (TusErr 400 ''UPLOAD_LENGTH_REQUIRED'', w)
              else if nat len > tc_max_bytes cfg then (TusErr 413 ''UPLOAD_TOO_LARGE'', w)
              else case tus_usage io w of
                Inl _ \<Rightarrow> (TusErr 500 ''DB_ERROR'', w)
              | Inr u \<Rightarrow>
                  if \<not> is_ok (check_tenant_quota u (u64_of_i64 len) (io_tier io)) then (TusErr 507 ''TENANT_QUOTA_EXCEEDED'', w)
                  else if \<not> io_db_ok io then (TusErr 500 ''DB_ERROR'', w)
                  else if count_in_flight w \<ge> int (tc_max_sessions cfg) then (TusErr 429 ''TOO_MANY_UPLOADS'', w)
                  else
                    let meta = (case upload_metadata of Some m \<Rightarrow> parse_upload_metadata (tc_b64_decode cfg) m | None \<Rightarrow> []) in
                    case declared_path meta of
                      Inl _ \<Rightarrow> (TusErr 400 ''FILE_PATH_INVALID'', w)
                    | Inr path \<Rightarrow>
                        let caller = upload_caller_from_auth ctx; requested = requested_visibility meta;
                            policies = (if publish_grant_lookup_required caller requested then io_policies io else Inr [])
                        in case enforce_upload_visibility caller requested Private path policies of
                             Inl _ \<Rightarrow> (TusErr 403 ''FILE_PUBLIC_UPLOAD_DENIED'', w)
                           | Inr v \<Rightarrow> create_spooled io w (new_session cfg io tenant ctx meta len path v))"

text \<open>The common start of the three handlers on a session: the gate, the token, the row, the owner.\<close>

definition with_session ::
  "tus_io \<Rightarrow> tus_world \<Rightarrow> string \<Rightarrow> string \<Rightarrow> auth_ctx \<Rightarrow> tenant_file_caps \<Rightarrow> file_verb \<Rightarrow> (upload_session, tus_resp) result" where
  "with_session io w tenant token ctx caps verb =
     bind_r (require_file_cap ctx caps verb) (\<lambda>_.
       if \<not> is_valid_token token then Inl (TusErr 404 '''')
       else if \<not> io_db_ok io then Inl (TusErr 500 ''DB_ERROR'')
       else case get_session w token of
         None \<Rightarrow> Inl (TusErr 404 '''')
       | Some s \<Rightarrow>
           if us_tenant_id s \<noteq> tenant then Inl (TusErr 404 '''')
           else if \<not> bearer_owns_session ctx s then Inl (TusErr 404 '''')
           else Inr s)"

definition tus_head :: "tus_io \<Rightarrow> tus_world \<Rightarrow> string \<Rightarrow> string \<Rightarrow> auth_ctx \<Rightarrow> tenant_file_caps \<Rightarrow> tus_resp" where
  "tus_head io w tenant token ctx caps =
     (case with_session io w tenant token ctx caps FUpload of
        Inl r \<Rightarrow> r
      | Inr s \<Rightarrow> TusProbe (spool_len w token) (us_total_length s))"

definition bucket_for :: "visibility \<Rightarrow> string" where
  "bucket_for v = (case v of Public \<Rightarrow> ''public'' | Private \<Rightarrow> ''private'')"

definition compose_key :: "string option \<Rightarrow> string \<Rightarrow> string" where
  "compose_key tenant file_id = (case tenant of None \<Rightarrow> file_id | Some t \<Rightarrow> t @ ''/'' @ file_id)"

definition default_cache_control :: "visibility \<Rightarrow> string" where
  "default_cache_control v = (case v of Public \<Rightarrow> ''public, max-age=86400'' | Private \<Rightarrow> ''private, no-store'')"

definition normalize_content_type_case :: "string \<Rightarrow> string" where
  "normalize_content_type_case raw =
     (let ct = trim raw; essence = takeWhile (\<lambda>c. c \<noteq> CHR '';'') ct; rest = dropWhile (\<lambda>c. c \<noteq> CHR '';'') ct in
      if rest = [] then to_ascii_lowercase ct else to_ascii_lowercase (trim essence) @ rest)"

definition session_visibility :: "upload_session \<Rightarrow> visibility" where
  "session_visibility s = (if us_visibility s = ''public'' then Public else Private)"

definition object_of :: "string \<Rightarrow> upload_session \<Rightarrow> string \<times> string" where
  "object_of tenant s = (bucket_for (session_visibility s), compose_key (Some tenant) (us_key s))"

definition file_of :: "upload_session \<Rightarrow> stored_file" where
  "file_of s =
     \<lparr> sf_key = us_key s, sf_original_name = us_original_name s,
       sf_content_type = map_option normalize_content_type_case (us_content_type s), sf_size_bytes = us_total_length s,
       sf_disposition = ''inline'', sf_visibility = us_visibility s,
       sf_cache_control = default_cache_control (session_visibility s), sf_uploader = us_uploader s, sf_path = us_path s \<rparr>"

text \<open>The row, on the writer: the quota counts the upload once, and the insert ignores a row that is there.\<close>

definition account_file :: "tus_io \<Rightarrow> tus_world \<Rightarrow> upload_session \<Rightarrow> (tus_world, tus_resp) result" where
  "account_file io w s =
     (if \<not> io_insert_ok io then Inl (TusErr 500 ''DB_ERROR'')
      else
        let already = us_key s \<in> sf_key ` set (tw_files w);
            incoming = (if already then 0 else u64_of_i64 (us_total_length s))
        in case tus_usage io w of
             Inl _ \<Rightarrow> Inl (TusErr 500 ''DB_ERROR'')
           | Inr u \<Rightarrow>
               if \<not> is_ok (check_tenant_quota u incoming (io_tier io)) then Inl (TusErr 507 ''TENANT_QUOTA_EXCEEDED'')
               else Inr (if already then w else w\<lparr> tw_files := tw_files w @ [file_of s] \<rparr>))"

definition finalize_and_respond ::
  "tus_config \<Rightarrow> tus_io \<Rightarrow> tus_world \<Rightarrow> string \<Rightarrow> string \<Rightarrow> upload_session \<Rightarrow> int \<Rightarrow> tus_resp \<times> tus_world" where
  "finalize_and_respond cfg io w tenant token s offset =
     (if \<not> tc_garage cfg then (TusErr 503 ''STORAGE_UNCONFIGURED'', w)
      else case account_file io w s of
        Inl r \<Rightarrow> (r, w)
      | Inr w1 \<Rightarrow>
          (case (if io_put_ok io then map_of (tw_spools w1) token else None) of
             None \<Rightarrow> (TusErr 502 ''GARAGE_PUT_FAILED'', w1)
           | Some bytes \<Rightarrow>
               let w2 = w1\<lparr> tw_objects := AList.update (object_of tenant s) bytes (tw_objects w1) \<rparr>;
                   w3 = (if io_unlinked io then remove_spool w2 token else w2);
                   w4 = (if io_deleted io then delete_session w3 token else w3)
               in (TusNoContent offset, w4\<lparr> tw_events := tw_events w4 @ [(us_key s, us_total_length s)] \<rparr>)))"

text \<open>An append that fails may have written part of the chunk.\<close>

definition append_spool :: "tus_io \<Rightarrow> tus_world \<Rightarrow> string \<Rightarrow> string \<Rightarrow> (tus_world, tus_resp \<times> tus_world) result" where
  "append_spool io w token body =
     (case (if io_append_ok io then map_of (tw_spools w) token else None) of
        None \<Rightarrow> Inl (TusErr 404 '''', w)
      | Some bytes \<Rightarrow>
          (case io_written io of
             None \<Rightarrow> Inr (w\<lparr> tw_spools := AList.update token (bytes @ body) (tw_spools w) \<rparr>)
           | Some n \<Rightarrow> Inl (TusErr 500 ''SPOOL_ERROR'', w\<lparr> tw_spools := AList.update token (bytes @ take n body) (tw_spools w) \<rparr>)))"

definition tus_patch ::
  "tus_config \<Rightarrow> tus_io \<Rightarrow> tus_world \<Rightarrow> string \<Rightarrow> string \<Rightarrow> auth_ctx \<Rightarrow> tenant_file_caps \<Rightarrow> string option \<Rightarrow> string
   \<Rightarrow> tus_resp \<times> tus_world" where
  "tus_patch cfg io w tenant token ctx caps upload_offset body =
     (case with_session io w tenant token ctx caps FUpload of
        Inl r \<Rightarrow> (r, w)
      | Inr s \<Rightarrow>
          let cur = spool_len w token; new_off = cur + int (length body) in
          if Option.bind upload_offset parse_i64 \<noteq> Some cur then (TusConflict cur, w)
          else if cur = us_total_length s then finalize_and_respond cfg io w tenant token s cur
          else if new_off > us_total_length s then (TusErr 400 ''UPLOAD_OVERFLOW'', w)
          else case tus_usage io w of
            Inl _ \<Rightarrow> (TusErr 500 ''DB_ERROR'', w)
          | Inr u \<Rightarrow>
              if \<not> is_ok (check_tenant_quota u (u64_of_i64 new_off) (io_tier io)) then (TusErr 507 ''TENANT_QUOTA_EXCEEDED'', w)
              else if io_disk_low io then (TusErr 507 '''', w)
              else case append_spool io w token body of
                Inl (r, w1) \<Rightarrow> (r, w1)
              | Inr w1 \<Rightarrow>
                  if new_off = us_total_length s then finalize_and_respond cfg io w1 tenant token s new_off
                  else (TusNoContent new_off, w1))"

definition tus_terminate ::
  "tus_io \<Rightarrow> tus_world \<Rightarrow> string \<Rightarrow> string \<Rightarrow> auth_ctx \<Rightarrow> tenant_file_caps \<Rightarrow> tus_resp \<times> tus_world" where
  "tus_terminate io w tenant token ctx caps =
     (case with_session io w tenant token ctx caps FDelete of
        Inl r \<Rightarrow> (r, w)
      | Inr s \<Rightarrow>
          let w1 = (if io_unlinked io then remove_spool w token else w);
              w2 = (if io_deleted io then delete_session w1 token else w1)
          in (TusTerminated, w2))"

text \<open>Newest first; the order of sessions of one second is that of the rows.\<close>

definition tus_sessions :: "tus_io \<Rightarrow> tus_world \<Rightarrow> auth_ctx \<Rightarrow> tus_resp" where
  "tus_sessions io w ctx =
     (if \<not> is_service ctx then TusErr 403 ''WRITE_DENIED''
      else if \<not> io_db_ok io then TusErr 500 ''DB_ERROR''
      else TusListing (rev (tw_sessions w)))"

section \<open>Offsets as text\<close>

lemma parse_i64_printed: "n < 2 ^ 63 \<Longrightarrow> parse_i64 (nat_to_string n) = Some (int n)"
  using nat_to_string_digits [of n] is_digit_not_sign
  by (cases "nat_to_string n") (auto simp: parse_i64_def parse_unsigned_def)

section \<open>One file per object, and its size\<close>

text \<open>The runs of one tenant's handlers, with any outcome of every operation below them.\<close>

datatype tus_op =
    OCreate tus_io auth_ctx tenant_file_caps "string option" "string option"
  | OPatch tus_io string auth_ctx tenant_file_caps "string option" string
  | OTerminate tus_io string auth_ctx tenant_file_caps
  | OSweep "string \<Rightarrow> bool" "string \<Rightarrow> bool" bool string

fun tus_apply :: "tus_config \<Rightarrow> string \<Rightarrow> tus_op \<Rightarrow> tus_world \<Rightarrow> tus_world" where
  "tus_apply cfg tenant (OCreate io ctx caps l m) w = snd (tus_create cfg io w tenant ctx caps l m)"
| "tus_apply cfg tenant (OPatch io token ctx caps off body) w = snd (tus_patch cfg io w tenant token ctx caps off body)"
| "tus_apply cfg tenant (OTerminate io token ctx caps) w = snd (tus_terminate io w tenant token ctx caps)"
| "tus_apply cfg tenant (OSweep unlinks deletes listed now) w = fst (sweep_tenant unlinks deletes listed now w)"

text \<open>The identifiers a creation draws are new.\<close>

fun op_fresh :: "tus_op \<Rightarrow> tus_world \<Rightarrow> bool" where
  "op_fresh (OCreate io _ _ _ _) w \<longleftrightarrow> io_token io \<notin> us_token ` set (tw_sessions w) \<and>
     (\<forall>k \<in> us_key ` set (tw_sessions w) \<union> sf_key ` set (tw_files w). \<not> prefix (io_uuid io @ ''.'') k)"
| "op_fresh _ w \<longleftrightarrow> True"

inductive tus_reach :: "tus_config \<Rightarrow> string \<Rightarrow> tus_world \<Rightarrow> bool"
  for cfg :: tus_config and tenant :: string where
  empty: "tus_reach cfg tenant \<lparr> tw_sessions = [], tw_files = [], tw_spools = [], tw_objects = [], tw_events = [] \<rparr>"
| step: "tus_reach cfg tenant w \<Longrightarrow> op_fresh op w \<Longrightarrow> tus_reach cfg tenant (tus_apply cfg tenant op w)"

definition file_object :: "string \<Rightarrow> stored_file \<Rightarrow> string \<times> string" where
  "file_object tenant f =
     (bucket_for (if sf_visibility f = ''public'' then Public else Private), compose_key (Some tenant) (sf_key f))"

definition tus_inv :: "string \<Rightarrow> tus_world \<Rightarrow> bool" where
  "tus_inv tenant w \<longleftrightarrow>
     distinct (map us_token (tw_sessions w)) \<and> distinct (map us_key (tw_sessions w)) \<and> distinct (map sf_key (tw_files w)) \<and>
     (\<forall>s \<in> set (tw_sessions w). 0 \<le> us_total_length s \<and> spool_len w (us_token s) \<le> us_total_length s \<and>
        (\<forall>f \<in> set (tw_files w). sf_key f = us_key s \<longrightarrow> f = file_of s)) \<and>
     (\<forall>x bytes. map_of (tw_objects w) x = Some bytes \<longrightarrow>
        (\<exists>f \<in> set (tw_files w). x = file_object tenant f \<and> sf_size_bytes f = int (length bytes)))"

lemma spool_len_update [simp]:
  "spool_len (w\<lparr> tw_spools := AList.update t b (tw_spools w') \<rparr>) t' =
     (if t' = t then int (length b) else spool_len (w\<lparr> tw_spools := tw_spools w' \<rparr>) t')"
  by (simp add: spool_len_def update_conv)

lemma spool_len_cong: "tw_spools w = tw_spools w' \<Longrightarrow> spool_len w t = spool_len w' t"
  by (simp add: spool_len_def)

lemma spool_len_remove: "spool_len (remove_spool w t) t' = (if t' = t then 0 else spool_len w t')"
  by (simp add: spool_len_def remove_spool_def delete_conv)

lemma spool_len_nonneg: "0 \<le> spool_len w t"
  by (simp add: spool_len_def split: option.split)

lemma object_of_file: "object_of tenant s = file_object tenant (file_of s)"
  by (simp add: object_of_def file_object_def file_of_def session_visibility_def)

lemma with_session_Inr:
  assumes "with_session io w tenant token ctx caps verb = Inr s"
  shows "s \<in> set (tw_sessions w) \<and> us_token s = token \<and> get_session w token = Some s \<and> us_tenant_id s = tenant \<and>
    bearer_owns_session ctx s \<and> io_db_ok io \<and> is_valid_token token \<and> require_file_cap ctx caps verb = Inr ()"
  using assms
  by (cases "require_file_cap ctx caps verb")
    (auto simp: with_session_def get_session_def dest: find_SomeD split: if_splits option.splits)

text \<open>Dropping sessions and emptying spools keep the invariant.\<close>

lemma inv_drop:
  assumes "tus_inv tenant w" "set (tw_sessions w') \<subseteq> set (tw_sessions w)"
    "distinct (map us_token (tw_sessions w'))" "distinct (map us_key (tw_sessions w'))"
    "\<And>t. spool_len w' t \<le> spool_len w t" "tw_files w' = tw_files w" "tw_objects w' = tw_objects w"
  shows "tus_inv tenant w'"
proof -
  have "spool_len w' (us_token s) \<le> us_total_length s" if "s \<in> set (tw_sessions w')" for s
    using assms(1,2) assms(5) [of "us_token s"] that unfolding tus_inv_def by fastforce
  with assms(1-4) show ?thesis unfolding tus_inv_def assms(6,7) by blast
qed

lemma inv_remove: "tus_inv tenant w \<Longrightarrow> tus_inv tenant (remove_spool w t)"
  by (rule inv_drop [of tenant w]) (auto simp: tus_inv_def spool_len_remove spool_len_nonneg, simp_all add: remove_spool_def)

lemma inv_delete: "tus_inv tenant w \<Longrightarrow> tus_inv tenant (delete_session w t)"
  by (rule inv_drop [of tenant w])
    (auto simp: tus_inv_def delete_session_def spool_len_def intro: distinct_map_filter)

lemma inv_cleanup:
  assumes "tus_inv tenant w"
  shows "tus_inv tenant (if a then delete_session (if b then remove_spool w t else w) t' else (if b then remove_spool w t else w))"
  using assms by (simp add: inv_remove inv_delete)

lemma inv_sweep: "tus_inv tenant w \<Longrightarrow> tus_inv tenant (fst (sweep_tenant unlinks deletes listed now w))"
proof -
  have "tus_inv tenant w \<Longrightarrow> tus_inv tenant (fold (sweep_one unlinks deletes) ss w)" for ss
    by (induction ss arbitrary: w) (auto simp: sweep_one_def Let_def inv_remove inv_delete)
  then show "tus_inv tenant w \<Longrightarrow> ?thesis" by (simp add: sweep_tenant_def)
qed

lemma create_spooled_cases:
  "snd (create_spooled io w s) = w \<or> snd (create_spooled io w s) = w\<lparr> tw_spools := AList.update (us_token s) [] (tw_spools w) \<rparr> \<or>
   snd (create_spooled io w s) = remove_spool (w\<lparr> tw_spools := AList.update (us_token s) [] (tw_spools w) \<rparr>) (us_token s) \<or>
   (us_token s \<notin> us_token ` set (tw_sessions w) \<and>
    snd (create_spooled io w s) = w\<lparr> tw_spools := AList.update (us_token s) [] (tw_spools w), tw_sessions := tw_sessions w @ [s] \<rparr>)"
  by (auto simp: create_spooled_def insert_session_def Let_def split: option.splits if_splits)

lemma tus_create_cases:
  assumes "tus_create cfg io w tenant ctx caps l m = (r, w')"
  shows "w' = w \<or> (\<exists>meta len path v. 0 \<le> len \<and> w' = snd (create_spooled io w (new_session cfg io tenant ctx meta len path v)))"
  using assms unfolding tus_create_def Let_def
  by (auto simp: not_less split: sum.splits option.splits if_splits) (metis snd_conv)+

lemma inv_empty_spool: "tus_inv tenant w \<Longrightarrow> tus_inv tenant (w\<lparr> tw_spools := AList.update t [] (tw_spools w) \<rparr>)"
  by (rule inv_drop [of tenant w]) (auto simp: tus_inv_def spool_len_nonneg)

lemma inv_new_session:
  assumes "tus_inv tenant w" "spool_len w (us_token s) = 0" "0 \<le> us_total_length s" "us_token s \<notin> us_token ` set (tw_sessions w)"
    "us_key s \<notin> us_key ` set (tw_sessions w)" "us_key s \<notin> sf_key ` set (tw_files w)"
  shows "tus_inv tenant (w\<lparr> tw_sessions := tw_sessions w @ [s] \<rparr>)"
proof -
  have "spool_len (w\<lparr> tw_sessions := tw_sessions w @ [s] \<rparr>) t = spool_len w t" for t by (simp add: spool_len_def)
  then show ?thesis using assms unfolding tus_inv_def by (auto simp: image_iff)
qed

lemma inv_create:
  assumes "tus_inv tenant w" "op_fresh (OCreate io ctx caps l m) w"
  shows "tus_inv tenant (snd (tus_create cfg io w tenant ctx caps l m))"
proof -
  obtain r w' where "tus_create cfg io w tenant ctx caps l m = (r, w')" by (cases "tus_create cfg io w tenant ctx caps l m")
  with tus_create_cases [OF this] consider (same) "snd (tus_create cfg io w tenant ctx caps l m) = w"
    | (spooled) meta len path v where "0 \<le> len"
        "snd (tus_create cfg io w tenant ctx caps l m) = snd (create_spooled io w (new_session cfg io tenant ctx meta len path v))"
    by auto
  then show ?thesis
  proof cases
  case (spooled meta len path v)
  let ?s = "new_session cfg io tenant ctx meta len path v"
  let ?w = "w\<lparr> tw_spools := AList.update (us_token ?s) [] (tw_spools w) \<rparr>"
  have k: "us_token ?s = io_token io" "prefix (io_uuid io @ ''.'') (us_key ?s)" "us_total_length ?s = len"
    by (simp_all add: new_session_def derive_key_def Let_def)
  with assms(2) have f: "us_key ?s \<notin> us_key ` set (tw_sessions w)" "us_key ?s \<notin> sf_key ` set (tw_files w)"
      "us_token ?s \<notin> us_token ` set (tw_sessions w)"
    by (auto simp: image_iff)
  note i = inv_empty_spool [OF assms(1), of "us_token ?s"]
  have "tus_inv tenant (?w\<lparr> tw_sessions := tw_sessions ?w @ [?s] \<rparr>)"
    by (rule inv_new_session [OF i]) (use f spooled(1) k(3) in simp_all)
  then show ?thesis
    using create_spooled_cases [of io w ?s] i inv_remove [OF i] assms(1) unfolding spooled(2) by auto
  qed (use assms in simp)
qed

lemma distinct_map_eq: "distinct (map f xs) \<Longrightarrow> x \<in> set xs \<Longrightarrow> y \<in> set xs \<Longrightarrow> f x = f y \<Longrightarrow> x = y"
  by (meson distinct_map inj_onD)

lemma inv_unique:
  assumes "tus_inv tenant w" "s \<in> set (tw_sessions w)" "s' \<in> set (tw_sessions w)"
  shows "us_token s = us_token s' \<Longrightarrow> s = s'" and "us_key s = us_key s' \<Longrightarrow> s = s'"
proof -
  have d: "distinct (map us_token (tw_sessions w))" "distinct (map us_key (tw_sessions w))"
    using assms(1) by (simp_all add: tus_inv_def)
  show "us_token s = us_token s' \<Longrightarrow> s = s'" by (rule distinct_map_eq [OF d(1) assms(2,3)])
  show "us_key s = us_key s' \<Longrightarrow> s = s'" by (rule distinct_map_eq [OF d(2) assms(2,3)])
qed

lemma account_file_Inr:
  assumes "account_file io w s = Inr w'"
  shows "w' = (if us_key s \<in> sf_key ` set (tw_files w) then w else w\<lparr> tw_files := tw_files w @ [file_of s] \<rparr>)"
  using assms by (auto simp: account_file_def Let_def split: if_splits sum.splits)

lemma inv_account:
  assumes "tus_inv tenant w" "s \<in> set (tw_sessions w)" "account_file io w s = Inr w'"
  shows "tus_inv tenant w' \<and> file_of s \<in> set (tw_files w') \<and> tw_sessions w' = tw_sessions w \<and> tw_spools w' = tw_spools w \<and>
    tw_objects w' = tw_objects w"
proof (cases "us_key s \<in> sf_key ` set (tw_files w)")
  case True
  with assms account_file_Inr [OF assms(3)] show ?thesis by (auto simp: tus_inv_def)
next
  case False
  have "file_of s = file_of s'" if "s' \<in> set (tw_sessions w)" "us_key s' = us_key s" for s'
    using inv_unique(2) [OF assms(1) that(1) assms(2) that(2)] by simp
  moreover have "spool_len (w\<lparr> tw_files := tw_files w @ [file_of s] \<rparr>) t = spool_len w t" for t by (simp add: spool_len_def)
  moreover have k: "sf_key (file_of s) = us_key s" by (simp add: file_of_def)
  moreover have "distinct (map sf_key (tw_files w @ [file_of s]))" using assms(1) False k by (auto simp: tus_inv_def image_iff)
  ultimately have "tus_inv tenant (w\<lparr> tw_files := tw_files w @ [file_of s] \<rparr>)"
    using assms(1) unfolding tus_inv_def by (simp add: ball_Un)
  with False account_file_Inr [OF assms(3)] show ?thesis by simp
qed

lemma inv_object:
  assumes "tus_inv tenant w" "file_of s \<in> set (tw_files w)" "us_total_length s = int (length bytes)"
  shows "tus_inv tenant (w\<lparr> tw_objects := AList.update (object_of tenant s) bytes (tw_objects w) \<rparr>)"
proof -
  have "spool_len (w\<lparr> tw_objects := x \<rparr>) t = spool_len w t" for x t by (simp add: spool_len_def)
  moreover have "sf_size_bytes (file_of s) = us_total_length s" by (simp add: file_of_def)
  ultimately show ?thesis
    using assms unfolding tus_inv_def by (auto simp: update_conv object_of_file split: if_splits)
qed

lemma inv_events: "tus_inv tenant w \<Longrightarrow> tus_inv tenant (w\<lparr> tw_events := e \<rparr>)"
  by (simp add: tus_inv_def spool_len_def)

lemma inv_finalize:
  assumes "tus_inv tenant w" "s \<in> set (tw_sessions w)" "us_token s = token" "spool_len w token = us_total_length s"
  shows "tus_inv tenant (snd (finalize_and_respond cfg io w tenant token s off))"
proof (cases "tc_garage cfg \<and> is_ok (account_file io w s)")
  case False
  then show ?thesis using assms(1) by (auto simp: finalize_and_respond_def split: sum.splits)
next
  case True
  then obtain w1 where w1: "account_file io w s = Inr w1" by (cases "account_file io w s") auto
  note a = inv_account [OF assms(1,2) w1]
  show ?thesis
  proof (cases "if io_put_ok io then map_of (tw_spools w1) token else None")
    case None
    with True w1 a show ?thesis by (simp add: finalize_and_respond_def)
  next
    case (Some bytes)
    then have "map_of (tw_spools w) token = Some bytes" using a by (auto split: if_splits)
    then have "us_total_length s = int (length bytes)" using assms(4) by (simp add: spool_len_def)
    with a have "tus_inv tenant (w1\<lparr> tw_objects := AList.update (object_of tenant s) bytes (tw_objects w1) \<rparr>)"
      by (intro inv_object) auto
    with True w1 Some show ?thesis
      by (simp add: finalize_and_respond_def Let_def inv_events inv_remove inv_delete)
  qed
qed

lemma append_spool_grows:
  obtains (failed) resp where "append_spool io w token body = Inl (resp, w)"
  | (partly) bytes n resp where "map_of (tw_spools w) token = Some bytes"
      "append_spool io w token body = Inl (resp, w\<lparr> tw_spools := AList.update token (bytes @ take n body) (tw_spools w) \<rparr>)"
  | (whole) bytes where "map_of (tw_spools w) token = Some bytes"
      "append_spool io w token body = Inr (w\<lparr> tw_spools := AList.update token (bytes @ body) (tw_spools w) \<rparr>)"
proof (cases "if io_append_ok io then map_of (tw_spools w) token else None")
  case None
  then show thesis by (intro failed) (simp add: append_spool_def)
next
  case (Some bytes)
  then have "map_of (tw_spools w) token = Some bytes" by (simp split: if_splits)
  with Some show thesis by (cases "io_written io") (auto intro: partly whole simp: append_spool_def)
qed

lemma inv_append:
  assumes "tus_inv tenant w" "map_of (tw_spools w) token = Some bytes" "s \<in> set (tw_sessions w)" "us_token s = token"
    "int (length (bytes @ chunk)) \<le> us_total_length s"
  shows "tus_inv tenant (w\<lparr> tw_spools := AList.update token (bytes @ chunk) (tw_spools w) \<rparr>)"
proof -
  have u: "s' = s" if "s' \<in> set (tw_sessions w)" "us_token s' = token" for s'
    using inv_unique(1) [OF assms(1) that(1) assms(3)] that(2) assms(4) by simp
  let ?w = "w\<lparr> tw_spools := AList.update token (bytes @ chunk) (tw_spools w) \<rparr>"
  have "spool_len ?w (us_token s') \<le> us_total_length s'" if "s' \<in> set (tw_sessions w)" for s'
    using u [OF that] assms(1,5) that by (cases "us_token s' = token") (auto simp: tus_inv_def)
  with assms(1) show ?thesis unfolding tus_inv_def by simp
qed

lemma inv_patch:
  assumes "tus_inv tenant w"
  shows "tus_inv tenant (snd (tus_patch cfg io w tenant token ctx caps off body))"
proof (cases "with_session io w tenant token ctx caps FUpload")
  case (Inl r)
  with assms show ?thesis by (simp add: tus_patch_def)
next
  case (Inr s)
  note s = with_session_Inr [OF Inr]
  let ?new = "spool_len w token + int (length body)"
  show ?thesis
  proof (cases "spool_len w token = us_total_length s \<or> ?new > us_total_length s")
    case True
    with assms Inr s inv_finalize [OF assms, of s token cfg io] show ?thesis by (auto simp: tus_patch_def Let_def)
  next
    case False
    have new: "tus_inv tenant (w\<lparr> tw_spools := AList.update token (bytes @ chunk) (tw_spools w) \<rparr>)"
      if "map_of (tw_spools w) token = Some bytes" "length chunk \<le> length body" for bytes chunk
      by (rule inv_append [OF assms that(1), of s]) (use False s that in \<open>auto simp: spool_len_def\<close>)
    show ?thesis
    proof (cases rule: append_spool_grows [of io w token body])
      case (failed resp)
      with assms Inr False show ?thesis by (auto simp: tus_patch_def Let_def split: sum.splits)
    next
      case (partly bytes n resp)
      with new [of bytes "take n body"] assms Inr False show ?thesis by (auto simp: tus_patch_def Let_def split: sum.splits)
    next
      case (whole bytes)
      let ?w = "w\<lparr> tw_spools := AList.update token (bytes @ body) (tw_spools w) \<rparr>"
      have "spool_len w token = int (length bytes)" using whole(1) by (simp add: spool_len_def)
      then have "spool_len ?w token = ?new" by simp
      then have "tus_inv tenant (snd (finalize_and_respond cfg io ?w tenant token s ?new))" if "?new = us_total_length s"
        using that s new [of bytes body] whole by (intro inv_finalize) auto
      with new [of bytes body] whole assms Inr False show ?thesis by (auto simp: tus_patch_def Let_def split: sum.splits)
    qed
  qed
qed

lemma inv_terminate: "tus_inv tenant w \<Longrightarrow> tus_inv tenant (snd (tus_terminate io w tenant token ctx caps))"
  by (auto simp: tus_terminate_def Let_def inv_remove inv_delete split: sum.splits)

lemma tus_reach_inv: "tus_reach cfg tenant w \<Longrightarrow> tus_inv tenant w"
proof (induction rule: tus_reach.induct)
  case empty
  show ?case by (simp add: tus_inv_def)
next
  case (step w op)
  then show ?case by (cases op) (simp_all add: inv_create inv_patch inv_terminate inv_sweep del: op_fresh.simps)
qed

text \<open>
  C27. The object store holds what the files table says. After any run of creations, appends,
  terminations and sweeps of one tenant, with any failures of the disk, the databases and the object
  store in between, every object has a row of its key in \<open>_system_files\<close>, exactly one, with the
  object's length as its size and the bucket of its visibility, and no spool exceeds the length its
  session declared. (Each creation draws identifiers that are not in use.)
\<close>

theorem uploads_accounted_exactly:
  assumes "tus_reach cfg tenant w"
  shows "(\<forall>x bytes. map_of (tw_objects w) x = Some bytes \<longrightarrow>
      (\<exists>!f. f \<in> set (tw_files w) \<and> compose_key (Some tenant) (sf_key f) = snd x) \<and>
      (\<exists>f \<in> set (tw_files w). file_object tenant f = x \<and> sf_size_bytes f = int (length bytes))) \<and>
    (\<forall>s \<in> set (tw_sessions w). spool_len w (us_token s) \<le> us_total_length s)"
proof -
  note inv = tus_reach_inv [OF assms]
  have "\<exists>!f. f \<in> set (tw_files w) \<and> compose_key (Some tenant) (sf_key f) = snd x" if "map_of (tw_objects w) x = Some bytes" for x bytes
  proof -
    from inv that obtain f where f: "f \<in> set (tw_files w)" "x = file_object tenant f" unfolding tus_inv_def by blast
    moreover have "g = f" if "g \<in> set (tw_files w)" "compose_key (Some tenant) (sf_key g) = compose_key (Some tenant) (sf_key f)" for g
      using inv f(1) that by (auto simp: tus_inv_def compose_key_def distinct_map inj_on_def)
    ultimately show ?thesis by (auto simp: file_object_def)
  qed
  with inv show ?thesis unfolding tus_inv_def by metis
qed

section \<open>Retrying the last step\<close>

lemma check_quota_Inr:
  "is_ok (check_tenant_quota u i tier) \<longleftrightarrow> saturating_add u i \<le> saturating_mul (u64_of_i64 (max tier 1)) QUOTA_TIER_BYTES"
  by (auto simp: check_tenant_quota_def Let_def)

lemma with_session_502: "with_session io w tenant token ctx caps verb \<noteq> Inl (TusErr 502 code)"
proof (cases "require_file_cap ctx caps verb")
  case (Inl r)
  then show ?thesis
    by (auto simp: with_session_def require_file_cap_def file_cap_denied_response_def split: option.splits if_splits gate_answer.splits)
qed (auto simp: with_session_def split: option.splits)

lemma patch_put_failed:
  assumes "tus_patch cfg io w tenant token ctx caps off body = (TusErr 502 ''GARAGE_PUT_FAILED'', w1)"
    and "map_of (tw_spools w) token = Some bytes" "get_session w token = Some s"
  obtains w0 data where "with_session io w tenant token ctx caps FUpload = Inr s" "tc_garage cfg" "account_file io w0 s = Inr w1"
    "tw_sessions w0 = tw_sessions w" "map_of (tw_spools w0) token = Some data" "int (length data) = us_total_length s"
    "data = bytes \<or> data = bytes @ body"
proof -
  have fin: "tc_garage cfg \<and> account_file io w0 s = Inr w1"
    if "finalize_and_respond cfg io w0 tenant token s n = (TusErr 502 ''GARAGE_PUT_FAILED'', w1)" for w0 n
    using that by (auto simp: finalize_and_respond_def Let_def account_file_def split: if_splits sum.splits option.splits)
  obtain s' where s': "with_session io w tenant token ctx caps FUpload = Inr s'"
    using assms(1) with_session_502 [of io w tenant token ctx caps FUpload] by (auto simp: tus_patch_def split: sum.splits)
  then have ws: "with_session io w tenant token ctx caps FUpload = Inr s"
    using assms(3) by (auto simp: with_session_def split: if_splits option.splits)
  let ?cur = "spool_len w token"
  have cur: "?cur = int (length bytes)" using assms(2) by (simp add: spool_len_def)
  consider (full) "?cur = us_total_length s" "finalize_and_respond cfg io w tenant token s ?cur = (TusErr 502 ''GARAGE_PUT_FAILED'', w1)"
    | (sent) w0 where "?cur + int (length body) = us_total_length s" "append_spool io w token body = Inr w0"
        "finalize_and_respond cfg io w0 tenant token s (?cur + int (length body)) = (TusErr 502 ''GARAGE_PUT_FAILED'', w1)"
    using assms(1) ws by (auto simp: tus_patch_def Let_def append_spool_def split: if_splits sum.splits option.splits)
  then show thesis
  proof cases
    case full
    with fin [OF full(2)] ws cur assms(2) show thesis by (intro that [of w bytes]) auto
  next
    case sent
    then have "w0 = w\<lparr> tw_spools := AList.update token (bytes @ body) (tw_spools w) \<rparr>"
      using assms(2) by (auto simp: append_spool_def split: if_splits option.splits)
    with fin [OF sent(3)] ws cur sent(1) show thesis by (intro that [of w0 "bytes @ body"]) (auto simp: update_conv)
  qed
qed

text \<open>
  C28. An upload whose transfer to the object store failed can be completed, and is charged once. When a PATCH
  that brings the last bytes is answered with \<open>GARAGE_PUT_FAILED\<close>, the session stays, the spool holds all the bytes and the file has
  its row. A client that then asks for the offset is told the full length, and when it sends a PATCH at that offset,
  whatever its body, it is told that the upload is complete, the object is stored with the bytes of the spool, and no second row
  is added. For this the operations of the retry have to work, and the usage at that time, in which the file is counted
  already, has to be within the quota: nothing is added to it again. (The spool file exists, and the
  length is a non-negative 64-bit number.)
\<close>

theorem finalize_retry_completes:
  assumes f: "tus_patch cfg io w tenant token ctx caps off body = (TusErr 502 ''GARAGE_PUT_FAILED'', w1)"
    and s: "get_session w token = Some s" "map_of (tw_spools w) token = Some bytes" "us_total_length s < 2 ^ 63"
    and io': "io_db_ok io'" "io_insert_ok io'" "io_put_ok io'" "tus_usage io' w1 = Inr u" "is_ok (check_tenant_quota u 0 (io_tier io'))"
    and r: "tus_patch cfg io' w1 tenant token ctx caps (Some (nat_to_string (nat (spool_len w1 token)))) body' = (resp, w2)"
  shows "tus_head io' w1 tenant token ctx caps = TusProbe (us_total_length s) (us_total_length s) \<and>
    resp = TusNoContent (us_total_length s) \<and> tw_files w2 = tw_files w1 \<and> us_key s \<in> sf_key ` set (tw_files w1) \<and>
    tw_sessions w1 = tw_sessions w \<and>
    (\<exists>data. data \<in> {bytes, bytes @ body} \<and> int (length data) = us_total_length s \<and> map_of (tw_spools w1) token = Some data \<and>
       map_of (tw_objects w2) (object_of tenant s) = Some data)"
proof -
  from patch_put_failed [OF f s(2,1)] obtain w0 data where p: "with_session io w tenant token ctx caps FUpload = Inr s" "tc_garage cfg"
    "account_file io w0 s = Inr w1" "tw_sessions w0 = tw_sessions w" "map_of (tw_spools w0) token = Some data"
    "int (length data) = us_total_length s" "data = bytes \<or> data = bytes @ body" .
  from account_file_Inr [OF p(3)] have w1: "tw_sessions w1 = tw_sessions w" "map_of (tw_spools w1) token = Some data"
    "us_key s \<in> sf_key ` set (tw_files w1)"
    using p(4,5) by (auto simp: file_of_def)
  then have len: "spool_len w1 token = us_total_length s" using p(6) by (simp add: spool_len_def)
  have ws: "with_session io' w1 tenant token ctx caps FUpload = Inr s"
    using p(1) io'(1) w1(1) by (auto simp: with_session_def get_session_def split: if_splits option.splits)
  have "parse_i64 (nat_to_string (nat (us_total_length s))) = Some (us_total_length s)"
    using parse_i64_printed [of "nat (us_total_length s)"] s(3) p(6) by (simp add: nat_less_iff)
  then have fin: "finalize_and_respond cfg io' w1 tenant token s (us_total_length s) = (resp, w2)"
    using r ws len by (simp add: tus_patch_def Let_def)
  have "account_file io' w1 s = Inr w1" using io' w1(3) by (simp add: account_file_def)
  with fin io'(3) p(2) w1(2) have "resp = TusNoContent (us_total_length s) \<and> tw_files w2 = tw_files w1 \<and>
      map_of (tw_objects w2) (object_of tenant s) = Some data"
    by (auto simp: finalize_and_respond_def Let_def remove_spool_def delete_session_def update_conv split: if_splits)
  with p(6,7) w1 ws len show ?thesis by (auto simp: tus_head_def)
qed

section \<open>Resuming\<close>

text \<open>
  A client that follows the protocol: it asks for the offset and sends what follows there, in
  pieces of its choice.
\<close>

definition resume ::
  "tus_config \<Rightarrow> string \<Rightarrow> string \<Rightarrow> auth_ctx \<Rightarrow> tenant_file_caps \<Rightarrow> string \<Rightarrow> tus_io \<times> nat \<Rightarrow> tus_world \<Rightarrow> tus_resp \<times> tus_world" where
  "resume cfg tenant token ctx caps data attempt w =
     (let off = nat (spool_len w token)
      in tus_patch cfg (fst attempt) w tenant token ctx caps (Some (nat_to_string off)) (take (snd attempt) (drop off data)))"

definition stored :: "string \<Rightarrow> upload_session \<Rightarrow> string \<Rightarrow> tus_world \<Rightarrow> bool" where
  "stored tenant s data w \<longleftrightarrow> map_of (tw_objects w) (object_of tenant s) = Some data"

definition uploading :: "string \<Rightarrow> upload_session \<Rightarrow> string \<Rightarrow> tus_world \<Rightarrow> bool" where
  "uploading tenant s data w \<longleftrightarrow> (\<forall>s'. get_session w (us_token s) = Some s' \<longrightarrow> s' = s) \<and>
     (\<forall>bytes. map_of (tw_spools w) (us_token s) = Some bytes \<longrightarrow> prefix bytes data) \<and>
     (stored tenant s data w \<or> get_session w (us_token s) = Some s \<and> map_of (tw_spools w) (us_token s) \<noteq> None)"

lemma get_session_delete: "get_session (delete_session w t) t = None"
  by (auto simp: get_session_def delete_session_def find_None_iff)

lemma prefix_take_drop: "prefix bytes data \<Longrightarrow> prefix (bytes @ take n (take m (drop (length bytes) data))) data"
  by (elim prefixE) (simp add: take_is_prefix)

lemma uploading_finalize:
  assumes "uploading tenant s data w" "spool_len w (us_token s) = int (length data)"
    "finalize_and_respond cfg io w tenant (us_token s) s off = (r, w')"
  shows "uploading tenant s data w' \<and> (\<forall>x. r = TusNoContent x \<longrightarrow> stored tenant s data w') \<and>
    (stored tenant s data w \<longrightarrow> stored tenant s data w')"
proof (cases "tc_garage cfg \<and> is_ok (account_file io w s)")
  case False
  with assms(1,3) show ?thesis
    by (auto simp: finalize_and_respond_def account_file_def Let_def split: sum.splits if_splits)
next
  case True
  then obtain w1 where w1: "account_file io w s = Inr w1" by (cases "account_file io w s") auto
  note a = account_file_Inr [OF w1]
  have u: "uploading tenant s data w1" "stored tenant s data w1 = stored tenant s data w"
    using assms(1) a by (simp_all add: uploading_def stored_def get_session_def)
  show ?thesis
  proof (cases "if io_put_ok io then map_of (tw_spools w1) (us_token s) else None")
    case None
    with True w1 assms(3) u show ?thesis by (auto simp: finalize_and_respond_def)
  next
    case (Some bytes)
    then have "map_of (tw_spools w) (us_token s) = Some bytes" "prefix bytes data"
      using a u by (auto simp: uploading_def split: if_splits)
    with assms(2) have "bytes = data" by (auto simp: spool_len_def prefix_def)
    with True w1 assms(3) Some u show ?thesis
      by (auto simp: finalize_and_respond_def Let_def uploading_def stored_def remove_spool_def delete_session_def
          get_session_def update_conv delete_conv find_None_iff split: if_splits dest: find_SomeD)
  qed
qed


lemma with_session_ok:
  assumes "get_session w token = Some s" "require_file_cap ctx caps verb = Inr ()" "is_valid_token token"
    "us_tenant_id s = tenant" "bearer_owns_session ctx s"
  shows "with_session io w tenant token ctx caps verb = (if io_db_ok io then Inr s else Inl (TusErr 500 ''DB_ERROR''))"
  using assms by (simp add: with_session_def)

lemma uploading_resume:
  assumes u: "uploading tenant s data w" and len: "us_total_length s = int (length data)" "length data < 2 ^ 63"
    and r: "resume cfg tenant (us_token s) ctx caps data attempt w = (r, w')"
  shows "uploading tenant s data w' \<and> (stored tenant s data w \<longrightarrow> stored tenant s data w')"
proof -
  obtain io n where at: "attempt = (io, n)" by (cases attempt)
  let ?off = "spool_len w (us_token s)"
  let ?body = "take n (drop (nat ?off) data)"
  have off: "0 \<le> ?off" "?off \<le> int (length data)"
    using u by (auto simp: spool_len_def uploading_def dest: prefix_length_le split: option.splits)
  then have parsed: "Option.bind (Some (nat_to_string (nat ?off))) parse_i64 = Some ?off"
    using len(2) parse_i64_printed [of "nat ?off"] by simp
  have patch: "tus_patch cfg io w tenant (us_token s) ctx caps (Some (nat_to_string (nat ?off))) ?body = (r, w')"
    using r at by (simp add: resume_def Let_def)
  show ?thesis
  proof (cases "with_session io w tenant (us_token s) ctx caps FUpload")
    case (Inl x)
    with patch u show ?thesis by (simp add: tus_patch_def)
  next
    case (Inr s')
    with with_session_Inr [OF Inr] u have s': "s' = s" by (simp add: uploading_def)
    show ?thesis
    proof (cases "?off = int (length data)")
      case True
      with patch Inr s' parsed len(1) have "finalize_and_respond cfg io w tenant (us_token s) s ?off = (r, w')"
        by (simp add: tus_patch_def Let_def)
      with uploading_finalize [OF u] True show ?thesis by blast
    next
      case False
      have appended: "uploading tenant s data (w\<lparr> tw_spools := AList.update (us_token s) (bytes @ take k ?body) (tw_spools w) \<rparr>) \<and>
          stored tenant s data (w\<lparr> tw_spools := AList.update (us_token s) (bytes @ take k ?body) (tw_spools w) \<rparr>) = stored tenant s data w"
        if "map_of (tw_spools w) (us_token s) = Some bytes" for bytes k
        using u that prefix_take_drop [of bytes data k n]
        by (auto simp: uploading_def stored_def get_session_def update_conv spool_len_def)
      from patch Inr s' parsed len(1) False consider (same) "w' = w"
        | (failed) x where "append_spool io w (us_token s) ?body = Inl (x, w')"
        | (whole) w1 where "append_spool io w (us_token s) ?body = Inr w1"
            "w' = w1 \<or> ?off + int (length ?body) = int (length data) \<and>
               finalize_and_respond cfg io w1 tenant (us_token s) s (?off + int (length ?body)) = (r, w')"
        by (auto simp: tus_patch_def Let_def split: sum.splits if_splits)
      then show ?thesis
      proof cases
        case (failed x)
        from failed u appended show ?thesis
          by (cases rule: append_spool_grows [of io w "us_token s" ?body]) auto
      next
        case (whole w1)
        then obtain bytes where b: "map_of (tw_spools w) (us_token s) = Some bytes"
            "w1 = w\<lparr> tw_spools := AList.update (us_token s) (bytes @ ?body) (tw_spools w) \<rparr>"
          by (cases rule: append_spool_grows [of io w "us_token s" ?body]) auto
        have "take (length ?body) ?body = ?body" by (rule take_all) (rule order_refl)
        from appended [OF b(1), of "length ?body", unfolded this, folded b(2)]
        have a: "uploading tenant s data w1" "stored tenant s data w1 = stored tenant s data w" by blast+
        have "spool_len w1 (us_token s) = ?off + int (length ?body)" using b by (simp add: spool_len_def update_conv)
        with whole(2) uploading_finalize [OF a(1)] a show ?thesis by auto
      qed (use u in simp)
    qed
  qed
qed


lemma uploading_resumes:
  assumes "uploading tenant s data w" "us_total_length s = int (length data)" "length data < 2 ^ 63"
  shows "uploading tenant s data (fold (\<lambda>a x. snd (resume cfg tenant (us_token s) ctx caps data a x)) attempts w)"
  using assms(1)
proof (induction attempts arbitrary: w)
  case (Cons a as)
  obtain r w' where r: "resume cfg tenant (us_token s) ctx caps data a w = (r, w')"
    by (cases "resume cfg tenant (us_token s) ctx caps data a w")
  from Cons.IH [of w'] uploading_resume [OF Cons.prems assms(2,3) r] r show ?case by simp
qed simp

text \<open>An attempt nothing goes wrong in, with the rest of the data in it and room under the quota.\<close>

definition fault_free :: "tus_config \<Rightarrow> tus_io \<Rightarrow> upload_session \<Rightarrow> tus_world \<Rightarrow> bool" where
  "fault_free cfg io s w \<longleftrightarrow> tc_garage cfg \<and> io_db_ok io \<and> \<not> io_disk_low io \<and> io_append_ok io \<and> io_written io = None \<and>
     io_insert_ok io \<and> io_put_ok io \<and>
     (\<exists>u. tus_usage io w = Inr u \<and> is_ok (check_tenant_quota u (u64_of_i64 (us_total_length s)) (io_tier io)))"

lemma quota_without: "is_ok (check_tenant_quota u i tier) \<Longrightarrow> is_ok (check_tenant_quota u 0 tier)"
proof -
  have "u \<le> saturating_add u i" by (simp add: saturating_add_def not_less)
  moreover have "saturating_add u 0 = u" by (simp add: saturating_add_def)
  ultimately show "is_ok (check_tenant_quota u i tier) \<Longrightarrow> ?thesis" unfolding check_quota_Inr by (metis order_trans)
qed

lemma fault_free_finalize:
  assumes "fault_free cfg io s w" "map_of (tw_spools w) token = Some bytes"
  shows "\<exists>w'. finalize_and_respond cfg io w tenant token s off = (TusNoContent off, w') \<and>
    map_of (tw_objects w') (object_of tenant s) = Some bytes \<and> us_key s \<in> sf_key ` set (tw_files w')"
proof -
  obtain u where u: "tus_usage io w = Inr u" "is_ok (check_tenant_quota u (u64_of_i64 (us_total_length s)) (io_tier io))"
    using assms(1) by (auto simp: fault_free_def)
  with quota_without [OF u(2)] assms(1)
  have a: "account_file io w s = Inr (if us_key s \<in> sf_key ` set (tw_files w) then w else w\<lparr> tw_files := tw_files w @ [file_of s] \<rparr>)"
    by (auto simp: account_file_def fault_free_def Let_def)
  show ?thesis
    using assms a
    by (auto simp: finalize_and_respond_def fault_free_def Let_def remove_spool_def delete_session_def update_conv file_of_def)
qed

lemma fault_free_spools: "fault_free cfg io s (w\<lparr> tw_spools := x \<rparr>) = fault_free cfg io s w"
  by (simp add: fault_free_def tus_usage_def files_sum_def)

lemma fault_free_resume:
  assumes u: "uploading tenant s data w" "\<not> stored tenant s data w" and len: "us_total_length s = int (length data)" "length data < 2 ^ 63"
    and c: "require_file_cap ctx caps FUpload = Inr ()" "is_valid_token (us_token s)" "us_tenant_id s = tenant" "bearer_owns_session ctx s"
    and f: "fault_free cfg io s w" "length data \<le> n"
  shows "\<exists>w'. resume cfg tenant (us_token s) ctx caps data (io, n) w = (TusNoContent (int (length data)), w') \<and> stored tenant s data w' \<and>
    us_key s \<in> sf_key ` set (tw_files w')"
proof -
  obtain bytes where b: "map_of (tw_spools w) (us_token s) = Some bytes" "get_session w (us_token s) = Some s" "prefix bytes data"
    using u by (auto simp: uploading_def)
  then obtain rest where rest: "data = bytes @ rest" by (elim prefixE)
  have off: "spool_len w (us_token s) = int (length bytes)" using b(1) by (simp add: spool_len_def)
  have s: "with_session io w tenant (us_token s) ctx caps FUpload = Inr s"
    using with_session_ok [OF b(2) c] f(1) by (simp add: fault_free_def)
  have parsed: "parse_i64 (nat_to_string (length bytes)) = Some (int (length bytes))"
    using len(2) rest by (intro parse_i64_printed) simp
  have body: "take n (drop (length bytes) data) = rest" using f(2) rest by simp
  have r: "resume cfg tenant (us_token s) ctx caps data (io, n) w =
      tus_patch cfg io w tenant (us_token s) ctx caps (Some (nat_to_string (length bytes))) rest"
    by (simp add: resume_def off body)
  let ?w = "w\<lparr> tw_spools := AList.update (us_token s) data (tw_spools w) \<rparr>"
  show ?thesis
  proof (cases "rest = []")
    case True
    with fault_free_finalize [OF f(1) b(1), of tenant "int (length data)"] r s off parsed len(1) rest show ?thesis
      by (auto simp: tus_patch_def Let_def stored_def)
  next
    case False
    have "append_spool io w (us_token s) rest = Inr ?w" using f(1) b(1) rest by (simp add: append_spool_def fault_free_def)
    moreover have "\<exists>w'. finalize_and_respond cfg io ?w tenant (us_token s) s (int (length data)) = (TusNoContent (int (length data)), w') \<and>
        map_of (tw_objects w') (object_of tenant s) = Some data \<and> us_key s \<in> sf_key ` set (tw_files w')"
      using fault_free_finalize [of cfg io s ?w "us_token s" data tenant "int (length data)"] f(1)
      by (simp add: fault_free_spools update_conv)
    moreover have "int (length bytes) + int (length rest) = int (length data)" "int (length bytes) \<noteq> int (length data)"
      using rest False by auto
    ultimately show ?thesis
      using r s off parsed len(1) f(1) by (auto simp: tus_patch_def Let_def stored_def fault_free_def)
  qed
qed

text \<open>
  C29. An upload can be interrupted anywhere and completes with exactly the bytes sent. A client that
  resumes at the offset the server reports, with pieces of any size, over any number of attempts that
  may fail in any way (also in the middle of a write), has at every moment a spool that is a prefix
  of its data or its data in the object store; and as long as it is not stored, the first attempt in
  which nothing fails, with the rest of the data and room under the quota, is answered as complete and
  leaves the object equal to the data, with a row in the files table.
\<close>

theorem upload_resumes_to_completion:
  assumes s: "get_session w (us_token s) = Some s" "map_of (tw_spools w) (us_token s) = Some []"
    and len: "us_total_length s = int (length data)" "length data < 2 ^ 63"
    and c: "require_file_cap ctx caps FUpload = Inr ()" "is_valid_token (us_token s)" "us_tenant_id s = tenant" "bearer_owns_session ctx s"
    and w': "w' = fold (\<lambda>a x. snd (resume cfg tenant (us_token s) ctx caps data a x)) attempts w"
  shows "(stored tenant s data w' \<or>
      get_session w' (us_token s) = Some s \<and> (\<exists>bytes. map_of (tw_spools w') (us_token s) = Some bytes \<and> prefix bytes data)) \<and>
    (\<not> stored tenant s data w' \<and> fault_free cfg io s w' \<and> length data \<le> n \<longrightarrow>
      (\<exists>w''. resume cfg tenant (us_token s) ctx caps data (io, n) w' = (TusNoContent (int (length data)), w'') \<and>
         stored tenant s data w'' \<and> us_key s \<in> sf_key ` set (tw_files w'')))"
proof -
  have "uploading tenant s data w" using s by (simp add: uploading_def)
  from uploading_resumes [OF this len, of cfg ctx caps attempts, folded w'] have u: "uploading tenant s data w'" .
  with fault_free_resume [OF u _ len c] show ?thesis by (auto simp: uploading_def)
qed

lemma parse_unsigned_int [code]:
  "parse_unsigned w s =
     (let d = (if s \<noteq> [] \<and> hd s = CHR ''+'' then tl s else s)
      in if d \<noteq> [] \<and> list_all is_digit d \<and> int (digits_value d) < 2 ^ w then Some (digits_value d) else None)"
proof -
  have "n < 2 ^ w \<longleftrightarrow> int n < 2 ^ w" for n :: nat by (metis of_nat_less_iff of_nat_numeral of_nat_power)
  then show ?thesis by (simp add: parse_unsigned_def)
qed

section \<open>Examples\<close>

definition ex_tus_token :: string where
  "ex_tus_token = ''8f14e45f-ceea-467f-9a36-dcc8f1d0a5b2''"

definition ex_tus_cfg :: tus_config where
  "ex_tus_cfg = \<lparr> tc_max_bytes = 100, tc_max_sessions = 5, tc_garage = True, tc_b64_decode = (\<lambda>_. None), tc_mime_guess = (\<lambda>_. None) \<rparr>"

definition ex_tus_io :: tus_io where
  "ex_tus_io = \<lparr> io_page_bytes = Inr 4096, io_tier = 1, io_db_ok = True, io_policies = Inr [], io_disk_low = False, io_spool_ok = True,
     io_insert_ok = True, io_append_ok = True, io_written = None, io_put_ok = True, io_unlinked = True, io_deleted = True,
     io_token = ex_tus_token, io_uuid = ''u1'', io_expires_at = ''2027'' \<rparr>"

definition ex_tus_start :: tus_world where
  "ex_tus_start = \<lparr> tw_sessions = [], tw_files = [], tw_spools = [], tw_objects = [], tw_events = [] \<rparr>"

definition ex_no_caps :: tenant_file_caps where "ex_no_caps = \<lparr> caps_anon = [], caps_user = [] \<rparr>"

definition ex_tus_created :: tus_world where
  "ex_tus_created = tus_apply ex_tus_cfg ''t1'' (OCreate ex_tus_io (Service None) ex_no_caps (Some ''2'') None) ex_tus_start"

definition ex_session :: upload_session where
  "ex_session = new_session ex_tus_cfg ex_tus_io ''t1'' (Service None) [] 2 None Private"

lemma ex_created:
  "tw_sessions ex_tus_created = [ex_session]" "tw_spools ex_tus_created = [(ex_tus_token, [])]" "us_token ex_session = ex_tus_token"
  "us_total_length ex_session = 2" "us_tenant_id ex_session = ''t1''" "is_valid_token ex_tus_token"
  by code_simp+

definition ex_tus_stored :: tus_world where
  "ex_tus_stored = tus_apply ex_tus_cfg ''t1'' (OPatch ex_tus_io ex_tus_token (Service None) ex_no_caps (Some ''0'') ''hi'') ex_tus_created"

lemma ex_stored_reached: "tus_reach ex_tus_cfg ''t1'' ex_tus_stored"
proof -
  have "tus_reach ex_tus_cfg ''t1'' ex_tus_start" unfolding ex_tus_start_def by (rule tus_reach.empty)
  then have "tus_reach ex_tus_cfg ''t1'' ex_tus_created" unfolding ex_tus_created_def
    by (rule tus_reach.step) (simp add: ex_tus_start_def)
  then show ?thesis unfolding ex_tus_stored_def by (rule tus_reach.step) simp
qed

theorem uploads_accounted_exactly_witness:
  "map_of (tw_objects ex_tus_stored) (''private'', ''t1/u1.bin'') = Some ''hi'' \<and>
   (\<exists>f \<in> set (tw_files ex_tus_stored). file_object ''t1'' f = (''private'', ''t1/u1.bin'') \<and> sf_size_bytes f = int (length ''hi''))"
proof -
  have o: "map_of (tw_objects ex_tus_stored) (''private'', ''t1/u1.bin'') = Some ''hi''" by code_simp
  with uploads_accounted_exactly [OF ex_stored_reached] show ?thesis by blast
qed

definition ex_refused :: tus_io where "ex_refused = ex_tus_io\<lparr> io_put_ok := False \<rparr>"

abbreviation ex_patch :: "tus_io \<Rightarrow> tus_world \<Rightarrow> nat \<Rightarrow> string \<Rightarrow> tus_resp \<times> tus_world" where
  "ex_patch io w n body \<equiv> tus_patch ex_tus_cfg io w ''t1'' ex_tus_token (Service None) ex_no_caps (Some (nat_to_string n)) body"

theorem finalize_retry_completes_witness:
  "\<exists>w1 w2. ex_patch ex_refused ex_tus_created 0 ''hi'' = (TusErr 502 ''GARAGE_PUT_FAILED'', w1) \<and>
     ex_patch ex_tus_io w1 2 [] = (TusNoContent 2, w2) \<and>
     map_of (tw_objects w2) (object_of ''t1'' ex_session) = Some ''hi'' \<and> tw_files w2 = tw_files w1"
proof -
  define w1 where "w1 = snd (ex_patch ex_refused ex_tus_created 0 ''hi'')"
  obtain resp w2 where r: "ex_patch ex_tus_io w1 (nat (spool_len w1 ex_tus_token)) [] = (resp, w2)"
    by (cases "ex_patch ex_tus_io w1 (nat (spool_len w1 ex_tus_token)) []")
  have f: "ex_patch ex_refused ex_tus_created 0 ''hi'' = (TusErr 502 ''GARAGE_PUT_FAILED'', w1)" unfolding w1_def by code_simp
  have u: "tus_usage ex_tus_io w1 = Inr 4098" "is_ok (check_tenant_quota 4098 0 (io_tier ex_tus_io))" "spool_len w1 ex_tus_token = 2"
    unfolding w1_def by code_simp+
  have io: "io_db_ok ex_tus_io" "io_insert_ok ex_tus_io" "io_put_ok ex_tus_io" by (simp_all add: ex_tus_io_def)
  have "get_session ex_tus_created ex_tus_token = Some ex_session" "map_of (tw_spools ex_tus_created) ex_tus_token = Some []"
    "us_total_length ex_session < 2 ^ 63" by (simp_all add: get_session_def ex_created)
  from finalize_retry_completes [OF f this io u(1,2) r] f r u(3) show ?thesis by (auto simp: ex_created)
qed

text \<open>The first attempt breaks off after one byte, the second sends the rest.\<close>

theorem upload_resumes_to_completion_witness:
  "\<exists>w' w''. w' = snd (resume ex_tus_cfg ''t1'' (us_token ex_session) (Service None) ex_no_caps ''hi'' (ex_tus_io\<lparr> io_written := Some 1 \<rparr>, 2) ex_tus_created) \<and>
     \<not> stored ''t1'' ex_session ''hi'' w' \<and>
     resume ex_tus_cfg ''t1'' (us_token ex_session) (Service None) ex_no_caps ''hi'' (ex_tus_io, 2) w' = (TusNoContent (int (length ''hi'')), w'') \<and>
     stored ''t1'' ex_session ''hi'' w''"
proof -
  let ?a = "[(ex_tus_io\<lparr> io_written := Some 1 \<rparr>, 2 :: nat)]"
  define w' where "w' = fold (\<lambda>a x. snd (resume ex_tus_cfg ''t1'' (us_token ex_session) (Service None) ex_no_caps ''hi'' a x)) ?a ex_tus_created"
  have n: "\<not> stored ''t1'' ex_session ''hi'' w'" unfolding w'_def stored_def by code_simp
  have "tus_usage ex_tus_io w' = Inr 4096" "is_ok (check_tenant_quota 4096 (u64_of_i64 (us_total_length ex_session)) (io_tier ex_tus_io))"
    unfolding w'_def by code_simp+
  then have f: "fault_free ex_tus_cfg ex_tus_io ex_session w'"
    by (simp add: fault_free_def) (simp add: ex_tus_cfg_def ex_tus_io_def)
  have c: "require_file_cap (Service None) ex_no_caps FUpload = Inr ()" by code_simp
  have s: "get_session ex_tus_created (us_token ex_session) = Some ex_session" by (simp add: get_session_def ex_created)
  show ?thesis
    using upload_resumes_to_completion [OF s _ _ _ c _ _ _ w'_def, of ex_tus_io 2] n f
    by (auto simp: ex_created w'_def bearer_owns_session_def)
qed

end
