(* ===== verification/Webhooks.thy ===== *)
theory Webhooks
  imports Egress File_Policy Uploads
begin

text \<open>
  Webhooks: which subscriptions an event reaches and how a delivery runs (\<open>tenant/webhook_dispatcher.rs\<close>),
  and how subscriptions are registered (\<open>tenant/webhook_routes.rs\<close>). HMAC, the clock, identifiers, DNS and the
  answers of the subscribers are parameters; the interleaving of the deliveries with changes of the allowlist is a
  step relation.
\<close>

section \<open>Subscriptions and payloads\<close>

record webhook_row =
  wr_id :: int
  wr_collection :: string
  wr_events :: string
  wr_url :: string
  wr_secret :: string
  wr_active :: int
  wr_failure :: "(string \<times> string) option"
  wr_created :: string

text \<open>What the code uses of its surroundings: the parsers, the build and its environment, and HMAC.\<close>

record webhook_io =
  wi_urls :: url_lib
  wi_from_str :: "string \<Rightarrow> json option"
  wi_to_string :: "json \<Rightarrow> string"
  wi_debug :: bool
  wi_env_loopback :: bool
  wi_hmac :: "string \<Rightarrow> string \<Rightarrow> nat list"
  wi_parse_error :: "string \<Rightarrow> string"

definition parse_events :: "webhook_io \<Rightarrow> string \<Rightarrow> string list option" where
  "parse_events io events_json = Option.bind (Option.bind (wi_from_str io events_json) as_array) strings_of_json"

definition events_contains :: "webhook_io \<Rightarrow> string \<Rightarrow> string \<Rightarrow> bool" where
  "events_contains io events_json name =
     (case parse_events io events_json of None \<Rightarrow> False | Some v \<Rightarrow> list_ex (\<lambda>s. s = name) v)"

definition lower_hex :: "nat \<Rightarrow> string" where
  "lower_hex b = map (\<lambda>n. if n < 10 then char_of (48 + n) else char_of (87 + n)) [b div 16 mod 16, b mod 16]"

definition compute_signature :: "webhook_io \<Rightarrow> string \<Rightarrow> string \<Rightarrow> string" where
  "compute_signature io secret body = ''sha256='' @ concat (map lower_hex (wi_hmac io secret body))"

fun event_name :: "event \<Rightarrow> string" where
  "event_name (Created _) = ''created''"
| "event_name (Updated _) = ''updated''"
| "event_name (Deleted _) = ''deleted''"

fun event_record :: "event \<Rightarrow> json" where
  "event_record (Created record) = JObject record"
| "event_record (Updated record) = JObject record"
| "event_record (Deleted i) = JObject [(''id'', JNumber (jnum_of_int i))]"

definition build_payload :: "string \<Rightarrow> string \<Rightarrow> event \<Rightarrow> string \<Rightarrow> string \<Rightarrow> json" where
  "build_payload tenant collection ev delivery_id timestamp =
     JObject [(''tenant'', JString tenant), (''collection'', JString collection), (''event'', JString (event_name ev)),
       (''record'', event_record ev), (''delivery_id'', JString delivery_id), (''timestamp'', JString timestamp)]"

definition LOOPBACK_HOSTS :: "string list" where
  "LOOPBACK_HOSTS = [''127.0.0.1'', ''localhost'', ''::1'', ''[::1]'']"

definition loopback_allowed :: "webhook_io \<Rightarrow> bool" where
  "loopback_allowed io \<longleftrightarrow> webhook_loopback_allowed (wi_debug io) (wi_env_loopback io)"

definition url_host :: "webhook_io \<Rightarrow> string \<Rightarrow> string" where
  "url_host io url = to_ascii_lowercase (unwrap_or (ul_host (wi_urls io) url) [])"

definition is_loopback_dev_url :: "webhook_io \<Rightarrow> string \<Rightarrow> bool" where
  "is_loopback_dev_url io url \<longleftrightarrow>
     ul_scheme (wi_urls io) url \<noteq> None \<and> url_host io url \<in> set LOOPBACK_HOSTS \<and> loopback_allowed io"

definition dispatch_egress_allowed :: "webhook_io \<Rightarrow> string \<Rightarrow> string \<Rightarrow> bool" where
  "dispatch_egress_allowed io allowlist url \<longleftrightarrow>
     is_loopback_dev_url io url \<or> check_egress (wi_from_str io) allowlist Webhook url"

definition registration_egress_allowed :: "webhook_io \<Rightarrow> egress_tenant list option \<Rightarrow> string \<Rightarrow> string \<Rightarrow> bool" where
  "registration_egress_allowed io meta tenant url = dispatch_egress_allowed io (read_egress_allowlist meta tenant) url"

datatype allowlist_read = Live string | Unavailable

fun or_deny_all :: "allowlist_read \<Rightarrow> string" where
  "or_deny_all (Live json) = json"
| "or_deny_all Unavailable = ''[]''"

definition read_tenant_egress_allowlist :: "egress_tenant list option \<Rightarrow> string \<Rightarrow> allowlist_read" where
  "read_tenant_egress_allowlist meta tenant =
     (case try_read_live_egress_allowlist meta tenant of
        Inr (Some json) \<Rightarrow> Live json
      | Inr None \<Rightarrow> Live ''[]''
      | Inl _ \<Rightarrow> Unavailable)"

text \<open>The number of permits: an integer variable of at least one, or the default.\<close>

definition permits_of :: "string option \<Rightarrow> nat \<Rightarrow> nat" where
  "permits_of var least =
     (case Option.bind var (parse_unsigned 64) of Some n \<Rightarrow> if 1 \<le> n then n else least | None \<Rightarrow> least)"

definition delivery_permits :: "string option \<Rightarrow> nat" where "delivery_permits var = permits_of var 64"
definition tenant_delivery_permits :: "string option \<Rightarrow> nat" where "tenant_delivery_permits var = permits_of var 8"

definition list_subscriptions :: "webhook_row list \<Rightarrow> string \<Rightarrow> webhook_row list" where
  "list_subscriptions rows collection = filter (\<lambda>r. wr_collection r = collection \<and> wr_active r = 1) rows"

text \<open>\<open>s.chars().take(n).collect()\<close>: the first characters with their continuation bytes.\<close>

fun take_chars :: "nat \<Rightarrow> string \<Rightarrow> string" where
  "take_chars n [] = []"
| "take_chars n (c # s) =
     (if cont (byte c) then c # take_chars n s
      else case n of 0 \<Rightarrow> [] | Suc m \<Rightarrow> c # take_chars m s)"

definition record_failure :: "string \<Rightarrow> int \<Rightarrow> string \<Rightarrow> webhook_row list \<Rightarrow> webhook_row list" where
  "record_failure now i reason rows =
     map (\<lambda>r. if wr_id r = i then r\<lparr> wr_failure := Some (now, take_chars 200 reason) \<rparr> else r) rows"

section \<open>The fan-out\<close>

text \<open>
  One delivery per subscription and event: the subscription, the event and the version of the
  allowlist read before the list. The subscriptions the list denies are written afterwards.
\<close>

definition matching_events :: "webhook_io \<Rightarrow> event list \<Rightarrow> webhook_row \<Rightarrow> event list" where
  "matching_events io events sub = filter (\<lambda>e. events_contains io (wr_events sub) (event_name e)) events"

definition fan_spawned :: "webhook_io \<Rightarrow> string \<Rightarrow> event list \<Rightarrow> webhook_row list \<Rightarrow> (webhook_row \<times> event) list" where
  "fan_spawned io allowlist events subs =
     concat (map (\<lambda>sub. if dispatch_egress_allowed io allowlist (wr_url sub)
                        then map (Pair sub) (matching_events io events sub) else []) subs)"

definition denied_reason :: "string \<Rightarrow> string" where
  "denied_reason url = ''egress_not_allowlisted: '' @ url"

definition fan_denied :: "webhook_io \<Rightarrow> string \<Rightarrow> event list \<Rightarrow> webhook_row list \<Rightarrow> (int \<times> string) list" where
  "fan_denied io allowlist events subs =
     map (\<lambda>sub. (wr_id sub, denied_reason (wr_url sub)))
       (filter (\<lambda>sub. matching_events io events sub \<noteq> [] \<and> \<not> dispatch_egress_allowed io allowlist (wr_url sub)) subs)"

text \<open>
  The task of \<open>dispatch_many\<close>: is the tenant live, its subscriptions (\<open>None\<close> when they cannot be
  read), the version and then the list. Whether the write of a failure succeeds does not matter to the rest.
\<close>

definition dispatch_many ::
  "webhook_io \<Rightarrow> string \<Rightarrow> (string \<Rightarrow> nat) \<Rightarrow> egress_tenant list option \<Rightarrow> bool \<Rightarrow> bool \<Rightarrow> string \<Rightarrow> string \<Rightarrow> event list \<Rightarrow> webhook_row list
     \<Rightarrow> (webhook_row \<times> event \<times> nat) list \<times> webhook_row list" where
  "dispatch_many io now versions meta live readable tenant collection events rows =
     (if events = [] \<or> \<not> live \<or> \<not> readable then ([], rows)
      else
        let subs = list_subscriptions rows collection in
        if subs = [] then ([], rows)
        else
          let ver = versions tenant; allowlist = or_deny_all (read_tenant_egress_allowlist meta tenant) in
          (map (\<lambda>(sub, ev). (sub, ev, ver)) (fan_spawned io allowlist events subs),
           fold (\<lambda>(i, reason). record_failure now i reason) (fan_denied io allowlist events subs) rows))"

definition dispatch where
  "dispatch io now versions meta live readable tenant collection ev rows =
     dispatch_many io now versions meta live readable tenant collection [ev] rows"

section \<open>One delivery\<close>

definition BACKOFFS :: "nat list" where "BACKOFFS = [0, 1, 5, 30]"

datatype delivery_error =
    NonRetryable nat string
  | Exhausted string nat
  | EgressRevoked string

fun delivery_display :: "delivery_error \<Rightarrow> string" where
  "delivery_display (NonRetryable status body) = ''4xx '' @ nat_to_string status @ '' from subscriber: '' @ body"
| "delivery_display (Exhausted last_error attempts) = ''all '' @ nat_to_string attempts @ '' attempts failed: '' @ last_error"
| "delivery_display (EgressRevoked url) = denied_reason url"

datatype gate_verdict = Pass | Revoked | Skip

definition attempt_gate ::
  "webhook_io \<Rightarrow> string \<Rightarrow> nat \<Rightarrow> string \<Rightarrow> nat \<Rightarrow> (string \<Rightarrow> nat) \<Rightarrow> egress_tenant list option \<Rightarrow> gate_verdict" where
  "attempt_gate io tenant snapshot url idx versions meta =
     (if idx > 0 \<or> snapshot \<noteq> versions tenant
      then (case read_tenant_egress_allowlist meta tenant of
              Live now \<Rightarrow> if dispatch_egress_allowed io now url then Pass else Revoked
            | Unavailable \<Rightarrow> Skip)
      else Pass)"

text \<open>
  The world an attempt meets: the versions and the tenants at the gate, the answer of DNS at the dial,
  whether a client of its own can be built (only a loopback host needs one), and what comes of the request.
\<close>

datatype send_outcome = Replied nat string | NetworkErr string

record attempt_env =
  ae_versions :: "string \<Rightarrow> nat"
  ae_meta :: "egress_tenant list option"
  ae_dns :: "string \<Rightarrow> ip_addr list option"
  ae_build_err :: "string option"
  ae_sent :: send_outcome

record webhook_post =
  wp_url :: string
  wp_headers :: "(string \<times> string) list"
  wp_body :: string
  wp_dialed :: "ip_addr list"

text \<open>The client of a development loopback host has no pinned resolver.\<close>

definition dial_unpinned :: "url_lib \<Rightarrow> (string \<Rightarrow> ip_addr list option) \<Rightarrow> string \<Rightarrow> ip_addr list" where
  "dial_unpinned ul dns url =
     (case ul_host ul url of
        None \<Rightarrow> []
      | Some host \<Rightarrow> (case literal_ip ul host of Some ip \<Rightarrow> [ip] | None \<Rightarrow> unwrap_or (dns host) []))"

definition post_of :: "webhook_io \<Rightarrow> bool \<Rightarrow> webhook_row \<Rightarrow> string \<Rightarrow> string \<Rightarrow> string \<Rightarrow> attempt_env \<Rightarrow> webhook_post" where
  "post_of io loopback row body delivery_id timestamp env =
     \<lparr> wp_url = wr_url row,
       wp_headers = [(''content-type'', ''application/json''), (''x-drust-signature'', compute_signature io (wr_secret row) body),
         (''x-drust-delivery-id'', delivery_id), (''x-drust-timestamp'', timestamp)],
       wp_body = body,
       wp_dialed = (if loopback then dial_unpinned else dial) (wi_urls io) (ae_dns env) (wr_url row) \<rparr>"

definition attempt_text :: "nat \<Rightarrow> string \<Rightarrow> string" where
  "attempt_text idx rest = ''attempt '' @ nat_to_string (idx + 1) @ rest"

fun deliver_attempts ::
  "webhook_io \<Rightarrow> string \<Rightarrow> nat \<Rightarrow> bool \<Rightarrow> webhook_row \<Rightarrow> (attempt_env \<Rightarrow> webhook_post) \<Rightarrow> (nat \<Rightarrow> attempt_env) \<Rightarrow> nat \<Rightarrow> nat list \<Rightarrow> string
     \<Rightarrow> (unit, delivery_error) result \<times> webhook_post list" where
  "deliver_attempts io tenant snapshot loopback row post envs idx [] last_err = (Inl (Exhausted last_err (length BACKOFFS)), [])"
| "deliver_attempts io tenant snapshot loopback row post envs idx (w # ws) last_err =
     (let env = envs idx; continue = deliver_attempts io tenant snapshot loopback row post envs (idx + 1) ws in
      case attempt_gate io tenant snapshot (wr_url row) idx (ae_versions env) (ae_meta env) of
        Revoked \<Rightarrow> (Inl (EgressRevoked (wr_url row)), [])
      | Skip \<Rightarrow> continue (attempt_text idx '' skipped: egress allowlist unreadable'')
      | Pass \<Rightarrow>
          if loopback \<and> ae_build_err env \<noteq> None
          then (Inl (NonRetryable 0 (''client build: '' @ the (ae_build_err env))), [])
          else (case ae_sent env of
             NetworkErr e \<Rightarrow> apsnd (Cons (post env)) (continue (attempt_text idx ('' network err: '' @ e)))
           | Replied status body \<Rightarrow>
               if 200 \<le> status \<and> status < 300 then (Inr (), [post env])
               else if 400 \<le> status \<and> status < 500 then (Inl (NonRetryable status (take_chars 200 body)), [post env])
               else apsnd (Cons (post env)) (continue (attempt_text idx ('' got status '' @ nat_to_string status)))))"

definition deliver_inner ::
  "webhook_io \<Rightarrow> (string \<Rightarrow> ip_addr list option) \<Rightarrow> string \<Rightarrow> nat \<Rightarrow> webhook_row \<Rightarrow> string \<Rightarrow> string \<Rightarrow> string \<Rightarrow> (nat \<Rightarrow> attempt_env)
     \<Rightarrow> (unit, delivery_error) result \<times> webhook_post list" where
  "deliver_inner io dns tenant snapshot row body delivery_id timestamp envs =
     (if ul_scheme (wi_urls io) (wr_url row) = None
      then (Inl (NonRetryable 0 (''url parse: '' @ wi_parse_error io (wr_url row))), [])
      else
        let host = url_host io (wr_url row);
            loopback = host \<in> set LOOPBACK_HOSTS \<and> loopback_allowed io
        in
        if \<not> loopback \<and> resolve_public (wi_urls io) dns host = Inl ()
        then (Inl (NonRetryable 0 ''host_now_private_or_unresolvable''), [])
        else deliver_attempts io tenant snapshot loopback row (post_of io loopback row body delivery_id timestamp) envs 0 BACKOFFS [])"

definition result_label :: "(unit, delivery_error) result \<Rightarrow> string" where
  "result_label outcome =
     (case outcome of
        Inr _ \<Rightarrow> ''success''
      | Inl (NonRetryable status _) \<Rightarrow>
          if status = 0 then ''network'' else if 400 \<le> status \<and> status < 500 then ''4xx'' else ''5xx''
      | Inl (EgressRevoked _) \<Rightarrow> ''egress_denied''
      | Inl (Exhausted last_error _) \<Rightarrow>
          if str_contains last_error ''timeout'' \<or> str_contains last_error ''timed out'' then ''timeout'' else ''network'')"

text \<open>A failure is recorded in the table of a tenant that is still live.\<close>

definition deliver ::
  "webhook_io \<Rightarrow> (string \<Rightarrow> ip_addr list option) \<Rightarrow> string \<Rightarrow> bool \<Rightarrow> string \<Rightarrow> nat \<Rightarrow> webhook_row \<Rightarrow> string \<Rightarrow> string \<Rightarrow> string \<Rightarrow> (nat \<Rightarrow> attempt_env)
     \<Rightarrow> webhook_row list \<Rightarrow> (unit, delivery_error) result \<times> webhook_post list \<times> webhook_row list" where
  "deliver io dns now live tenant snapshot row body delivery_id timestamp envs rows =
     (let (outcome, posts) = deliver_inner io dns tenant snapshot row body delivery_id timestamp envs in
      (outcome, posts,
       case outcome of
         Inr _ \<Rightarrow> rows
       | Inl e \<Rightarrow> if live then record_failure now (wr_id row) (delivery_display e) rows else rows))"

section \<open>What a delivery does\<close>














lemma deliver_attempts_posts:
  "p \<in> set (snd (deliver_attempts io tenant snapshot loopback row post envs idx ws last_err)) \<Longrightarrow> \<exists>env. p = post env"
  by (induction ws arbitrary: idx last_err)
    (auto simp: Let_def split: gate_verdict.splits if_splits send_outcome.splits)

lemma no_public_no_dial:
  assumes "resolve_public ul dns host \<noteq> Inl ()" "ul_parse_ip ul host = Some ip"
  shows "\<not> is_private_ip ip"
  using assms by (auto simp: resolve_public_def to_socket_addrs_def Let_def split: if_splits)

text \<open>
  C35. Without the loopback switch no webhook reaches a private address. Whatever DNS answers before the first
  attempt and at each of the dials (so even when a name is rebound between the check and the dial), no post of a delivery goes to a
  private, loopback or link-local address, be the host of the URL a name or a literal address. (The URL parser gives
  hosts in lower case, and a host in brackets is neither the text of an address nor a name DNS knows.)
\<close>

theorem webhook_dials_public:
  assumes release: "\<not> loopback_allowed io"
    and url_parser: "\<And>h. ul_host (wi_urls io) (wr_url row) = Some h \<Longrightarrow> to_ascii_lowercase h = h"
    and brackets: "\<And>h. ul_host (wi_urls io) (wr_url row) = Some h \<Longrightarrow> unbracket h \<noteq> h \<Longrightarrow>
      ul_parse_ip (wi_urls io) h = None \<and> dns h = None"
    and post: "p \<in> set (snd (deliver_inner io dns tenant snapshot row body delivery_id timestamp envs))"
  shows "wp_url p = wr_url row \<and> list_all (\<lambda>ip. \<not> is_private_ip ip) (wp_dialed p)"
proof -
  let ?ul = "wi_urls io" and ?url = "wr_url row"
  from post release have res: "resolve_public ?ul dns (url_host io ?url) \<noteq> Inl ()"
    and "p \<in> set (snd (deliver_attempts io tenant snapshot False row (post_of io False row body delivery_id timestamp) envs 0 BACKOFFS []))"
    by (auto simp: deliver_inner_def Let_def split: if_splits)
  then obtain env where p: "p = post_of io False row body delivery_id timestamp env" using deliver_attempts_posts by blast
  have "\<not> is_private_ip ip" if ip: "ip \<in> set (dial ?ul (ae_dns env) ?url)" for ip
  proof (cases "ul_host ?ul ?url")
    case None
    with ip show ?thesis by (simp add: dial_def)
  next
    case (Some h)
    have host: "url_host io ?url = h" using url_parser [OF Some] by (simp add: url_host_def Some unwrap_or_def)
    have h: "unbracket h = h"
      using brackets [OF Some] res unfolding host by (cases "unbracket h = h") (simp_all add: resolve_public_def to_socket_addrs_def)
    show ?thesis
    proof (cases "literal_ip ?ul h")
      case None
      with ip Some resolve_public_public show ?thesis by (auto simp: dial_def split: sum.splits)
    next
      case (Some i)
      with ip \<open>ul_host ?ul ?url = Some h\<close> have "ul_parse_ip ?ul h = Some ip" by (simp add: dial_def literal_ip_def h)
      with no_public_no_dial res show ?thesis unfolding host by blast
    qed
  qed
  then show ?thesis by (auto simp: p post_of_def list_all_iff)
qed

text \<open>
  The price of the look-up before the first attempt: the host of a literal IPv6 address keeps its brackets there, which
  no parser of addresses and no resolver takes, so such a subscription is never delivered, although its URL
  passes the check at registration, which looks the bracketed address up together with its port.
\<close>

lemma ipv6_never_delivered:
  assumes "ul_host (wi_urls io) (wr_url row) = Some h" "to_ascii_lowercase h = h" "\<not> loopback_allowed io"
    and "ul_parse_ip (wi_urls io) h = None" "dns h = None"
  shows "snd (deliver_inner io dns tenant snapshot row body delivery_id timestamp envs) = []"
  using assms by (simp add: deliver_inner_def url_host_def unwrap_or_def resolve_public_def to_socket_addrs_def Let_def)

section \<open>Examples\<close>

definition example_hook_io :: webhook_io where
  "example_hook_io =
     \<lparr> wi_urls = example_url_lib\<lparr> ul_scheme := (\<lambda>_. Some ''https'') \<rparr>,
       wi_from_str = (\<lambda>s. if s = ''W'' then Some (JArray [JObject [(''system'', JString ''webhook''), (''uri'', JString ''https://api.example.com'')]])
         else if s = ''E'' then Some (JArray [JString ''deleted'']) else Some (JArray [])),
       wi_to_string = (\<lambda>_. []), wi_debug = False, wi_env_loopback = False, wi_hmac = (\<lambda>_ _. []), wi_parse_error = (\<lambda>_. []) \<rparr>"

definition example_hook :: webhook_row where
  "example_hook = \<lparr> wr_id = 1, wr_collection = ''notes'', wr_events = ''E'', wr_url = ''https://api.example.com/v1/items'', wr_secret = ''s'',
     wr_active = 1, wr_failure = None, wr_created = [] \<rparr>"

definition example_attempts :: "nat \<Rightarrow> attempt_env" where
  "example_attempts k =
     \<lparr> ae_versions = (\<lambda>_. 0), ae_meta = Some [\<lparr> et_id = ''acme'', et_deleted = False, et_allowlist = Some ''W'' \<rparr>],
       ae_dns = (\<lambda>_. Some [V4 10 0 0 8, V4 8 8 8 8]), ae_build_err = None,
       ae_sent = (if k = 0 then NetworkErr ''refused'' else Replied 204 []) \<rparr>"

definition example_names :: "string \<Rightarrow> ip_addr list option" where
  "example_names h = (if h = ''api.example.com'' then Some [V4 8 8 8 8] else None)"

lemma example_hook_facts:
  "ul_scheme (wi_urls example_hook_io) (wr_url example_hook) = Some ''https''"
  "ul_host (wi_urls example_hook_io) (wr_url example_hook) = Some ''api.example.com''"
  "ul_parse_ip (wi_urls example_hook_io) ''api.example.com'' = None"
  "\<not> loopback_allowed example_hook_io" "to_ascii_lowercase ''api.example.com'' = ''api.example.com''"
  "unbracket ''api.example.com'' = ''api.example.com''"
  by (simp_all add: example_hook_io_def example_url_lib_def example_hook_def starts_with_def loopback_allowed_def
      webhook_loopback_allowed_def to_ascii_lowercase_def ascii_lower_def byte_def unbracket_def)

lemma example_hook_allowed:
  "dispatch_egress_allowed example_hook_io ''W'' (wr_url example_hook)"
  "\<not> dispatch_egress_allowed example_hook_io ''[]'' (wr_url example_hook)"
proof -
  have p: "parse_allowlist (wi_from_str example_hook_io) ''W'' = [\<lparr> ee_system = Webhook, ee_uri = ''https://api.example.com'' \<rparr>]"
    "parse_allowlist (wi_from_str example_hook_io) ''[]'' = []"
    by (simp_all add: parse_allowlist_def example_hook_io_def entry_of_json_def system_parse_def List.map_filter_def)
  have "\<not> is_loopback_dev_url example_hook_io (wr_url example_hook)" by (simp add: is_loopback_dev_url_def example_hook_facts)
  with p show "dispatch_egress_allowed example_hook_io ''W'' (wr_url example_hook)"
    "\<not> dispatch_egress_allowed example_hook_io ''[]'' (wr_url example_hook)"
    by (simp_all add: dispatch_egress_allowed_def check_egress_def example_hook_def example_origin)
qed

lemma example_resolves:
  "url_host example_hook_io (wr_url example_hook) = ''api.example.com''"
  "resolve_public (wi_urls example_hook_io) example_names ''api.example.com'' = Inr [V4 8 8 8 8]"
  by (simp_all add: url_host_def example_hook_facts unwrap_or_def resolve_public_def to_socket_addrs_def example_names_def Let_def)

theorem webhook_dials_public_witness:
  "list_all (\<lambda>ip. \<not> is_private_ip ip) (wp_dialed (post_of example_hook_io False example_hook [] [] [] (example_attempts 1)))"
proof -
  have gate: "attempt_gate example_hook_io ''acme'' 0 (wr_url example_hook) k (\<lambda>_. 0)
      (Some [\<lparr> et_id = ''acme'', et_deleted = False, et_allowlist = Some ''W'' \<rparr>]) = Pass" for k
    by (simp add: attempt_gate_def read_tenant_egress_allowlist_def try_read_live_egress_allowlist_def unwrap_or_def
        example_hook_allowed)
  have run: "snd (deliver_inner example_hook_io example_names ''acme'' 0 example_hook [] [] [] example_attempts) =
      map (post_of example_hook_io False example_hook [] [] [] \<circ> example_attempts) [0, 1]"
    by (simp add: deliver_inner_def example_hook_facts example_resolves Let_def BACKOFFS_def example_attempts_def gate)
  then show ?thesis
    using webhook_dials_public [of example_hook_io example_hook example_names "post_of example_hook_io False example_hook [] [] [] (example_attempts 1)"
        "''acme''" 0 "[]" "[]" "[]" example_attempts] example_hook_facts by simp
qed


section \<open>Deliveries while the allowlist changes\<close>

record delivery_task =
  dt_tenant :: string
  dt_url :: string
  dt_snapshot :: nat
  dt_attempt :: nat

text \<open>
  The tenants; the versions; the writes whose version has still to move; the fan-outs that have read the version and not yet
  the list; the deliveries before their next attempt; and the attempts that got past their gate, newest first.
\<close>

record egress_sys =
  gw_tenants :: "egress_tenant list"
  gw_versions :: "string \<Rightarrow> nat"
  gw_unbumped :: "string list"
  gw_fans :: "(string \<times> event list \<times> webhook_row list \<times> nat) list"
  gw_tasks :: "delivery_task list"
  gw_cleared :: "(string \<times> string) list"

definition soft_delete :: "egress_tenant list \<Rightarrow> string \<Rightarrow> egress_tenant list" where
  "soft_delete ts t = map (\<lambda>x. if et_id x = t then x\<lparr> et_deleted := True \<rparr> else x) ts"

text \<open>The list as a fan-out reads it when the read does not fail: nothing is allowed to a deleted tenant.\<close>

definition stored_list :: "egress_sys \<Rightarrow> string \<Rightarrow> string" where
  "stored_list w t = or_deny_all (read_tenant_egress_allowlist (Some (gw_tenants w)) t)"

definition gate_of :: "webhook_io \<Rightarrow> egress_sys \<Rightarrow> delivery_task \<Rightarrow> egress_tenant list option \<Rightarrow> gate_verdict" where
  "gate_of io w d meta = attempt_gate io (dt_tenant d) (dt_snapshot d) (dt_url d) (dt_attempt d) (gw_versions w) meta"

definition next_attempt :: "delivery_task \<Rightarrow> delivery_task list" where
  "next_attempt d = (if dt_attempt d + 1 < length BACKOFFS then [d\<lparr> dt_attempt := dt_attempt d + 1 \<rparr>] else [])"

definition spawn_tasks :: "webhook_io \<Rightarrow> string \<Rightarrow> event list \<Rightarrow> webhook_row list \<Rightarrow> nat \<Rightarrow> egress_tenant list option \<Rightarrow> delivery_task list" where
  "spawn_tasks io t events subs ver meta =
     map (\<lambda>(sub, _). \<lparr> dt_tenant = t, dt_url = wr_url sub, dt_snapshot = ver, dt_attempt = 0 \<rparr>)
       (fan_spawned io (or_deny_all (read_tenant_egress_allowlist meta t)) events subs)"

text \<open>
  The steps. An allowlist is written and then its version moves (\<open>set_allowlist\<close>); a tenant is soft-deleted
  and then its version moves (\<open>soft_delete\<close>); a
  fan-out reads the version, and later the list; a delivery comes to the gate of its next attempt. Any read of
  the database may fail (\<open>None\<close>). After a post the delivery is over or has another attempt.
\<close>

inductive egress_step :: "webhook_io \<Rightarrow> egress_sys \<Rightarrow> egress_sys \<Rightarrow> bool" for io where
  store: "egress_step io w (w\<lparr> gw_tenants := store_allowlist (gw_tenants w) t l, gw_unbumped := t # gw_unbumped w \<rparr>)"
| bump: "gw_unbumped w = ps @ t # qs \<Longrightarrow>
    egress_step io w (w\<lparr> gw_versions := bump_version (gw_versions w) t, gw_unbumped := ps @ qs \<rparr>)"
| delete: "egress_step io w
    (w\<lparr> gw_tenants := soft_delete (gw_tenants w) t, gw_unbumped := t # gw_unbumped w \<rparr>)"
| fan: "egress_step io w (w\<lparr> gw_fans := (t, events, subs, gw_versions w t) # gw_fans w \<rparr>)"
| spawn: "gw_fans w = fs @ (t, events, subs, ver) # gs \<Longrightarrow> meta \<in> {Some (gw_tenants w), None} \<Longrightarrow>
    egress_step io w (w\<lparr> gw_fans := fs @ gs, gw_tasks := gw_tasks w @ spawn_tasks io t events subs ver meta \<rparr>)"
| pass: "gw_tasks w = as @ d # bs \<Longrightarrow> meta \<in> {Some (gw_tenants w), None} \<Longrightarrow> gate_of io w d meta = Pass \<Longrightarrow>
    again \<in> {[], next_attempt d} \<Longrightarrow>
    egress_step io w (w\<lparr> gw_tasks := as @ again @ bs, gw_cleared := (dt_tenant d, dt_url d) # gw_cleared w \<rparr>)"
| skip: "gw_tasks w = as @ d # bs \<Longrightarrow> meta \<in> {Some (gw_tenants w), None} \<Longrightarrow> gate_of io w d meta = Skip \<Longrightarrow>
    egress_step io w (w\<lparr> gw_tasks := as @ next_attempt d @ bs \<rparr>)"
| revoke: "gw_tasks w = as @ d # bs \<Longrightarrow> meta \<in> {Some (gw_tenants w), None} \<Longrightarrow> gate_of io w d meta = Revoked \<Longrightarrow>
    egress_step io w (w\<lparr> gw_tasks := as @ bs \<rparr>)"

text \<open>
  A delivery before its first attempt whose version is still the current one has a URL that the stored
  list allows, unless a write is on its way to the version.
\<close>

definition task_ok :: "webhook_io \<Rightarrow> egress_sys \<Rightarrow> delivery_task \<Rightarrow> bool" where
  "task_ok io w d \<longleftrightarrow>
     dt_snapshot d \<le> gw_versions w (dt_tenant d) \<and>
     (dt_attempt d = 0 \<and> dt_snapshot d = gw_versions w (dt_tenant d) \<and> dt_tenant d \<notin> set (gw_unbumped w) \<longrightarrow>
        dispatch_egress_allowed io (stored_list w (dt_tenant d)) (dt_url d))"

definition egress_inv :: "webhook_io \<Rightarrow> egress_sys \<Rightarrow> bool" where
  "egress_inv io w \<longleftrightarrow>
     list_all (task_ok io w) (gw_tasks w) \<and>
     list_all (\<lambda>(t, _, _, ver). ver \<le> gw_versions w t) (gw_fans w)"

definition idle_sys :: "egress_sys \<Rightarrow> bool" where
  "idle_sys w \<longleftrightarrow> gw_tasks w = [] \<and> gw_fans w = []"

text \<open>What a list read at a gate or by a fan-out allows, the stored one allows.\<close>

lemma read_allowed_stored:
  assumes "wi_from_str io ''[]'' = Some (JArray [])" "meta \<in> {Some (gw_tenants w), None}"
    and "dispatch_egress_allowed io (or_deny_all (read_tenant_egress_allowlist meta t)) url"
  shows "dispatch_egress_allowed io (stored_list w t) url"
proof (cases meta)
  case None
  with assms(1,3) have "is_loopback_dev_url io url"
    by (auto simp: dispatch_egress_allowed_def check_egress_def parse_allowlist_def List.map_filter_def
        read_tenant_egress_allowlist_def try_read_live_egress_allowlist_def split: sum.splits)
  then show ?thesis by (simp add: dispatch_egress_allowed_def)
qed (use assms(2,3) in \<open>simp add: stored_list_def\<close>)

inductive_cases egress_stepE: "egress_step io w w'"

lemma spawn_tasks_in:
  assumes "d \<in> set (spawn_tasks io t events subs ver meta)"
  shows "dt_tenant d = t \<and> dt_snapshot d = ver \<and> dt_attempt d = 0 \<and>
    dispatch_egress_allowed io (or_deny_all (read_tenant_egress_allowlist meta t)) (dt_url d)"
  using assms by (auto simp: spawn_tasks_def fan_spawned_def split: if_splits)

lemma next_attempt_in: "d' \<in> set (next_attempt d) \<Longrightarrow> d' = d\<lparr> dt_attempt := dt_attempt d + 1 \<rparr>"
  by (simp add: next_attempt_def split: if_splits)

lemma live_list_other:
  assumes "\<And>x. et_id (f x) = et_id x" "\<And>x. et_id x \<noteq> t \<Longrightarrow> f x = x" "t' \<noteq> t"
  shows "read_tenant_egress_allowlist (Some (map f ts)) t' = read_tenant_egress_allowlist (Some ts) t'"
proof -
  have "find (\<lambda>x. et_id x = t' \<and> \<not> et_deleted x) (map f ts) = find (\<lambda>x. et_id x = t' \<and> \<not> et_deleted x) ts"
    using assms by (induction ts) auto
  then show ?thesis by (simp add: read_tenant_egress_allowlist_def try_read_live_egress_allowlist_def)
qed

lemma write_other:
  assumes "t' \<noteq> t"
  shows "read_tenant_egress_allowlist (Some (store_allowlist ts t l)) t' = read_tenant_egress_allowlist (Some ts) t'"
    "read_tenant_egress_allowlist (Some (soft_delete ts t)) t' = read_tenant_egress_allowlist (Some ts) t'"
  unfolding store_allowlist_def soft_delete_def using assms by (auto intro!: live_list_other)

lemma task_ok_later: "task_ok io w d \<Longrightarrow> task_ok io w (d\<lparr> dt_attempt := k + 1 \<rparr>)"
  by (simp add: task_ok_def)

lemma task_ok_cong:
  assumes "gw_versions w' = gw_versions w" "gw_unbumped w' = gw_unbumped w" "\<And>t. stored_list w' t = stored_list w t"
  shows "task_ok io w' d \<longleftrightarrow> task_ok io w d"
  by (simp add: task_ok_def assms)

lemma egress_inv_step:
  assumes "egress_step io w w'" "egress_inv io w" "wi_from_str io ''[]'' = Some (JArray [])"
  shows "egress_inv io w'"
  using assms(1)
proof cases
  case (store t l)
  have "task_ok io w' d" if "task_ok io w d" for d
    using that unfolding store by (auto simp: task_ok_def stored_list_def write_other)
  with assms(2) show ?thesis unfolding store by (simp add: egress_inv_def list_all_iff)
next
  case (bump ps t qs)
  have "task_ok io w' d" if "task_ok io w d" for d
    using that unfolding bump(1) by (auto simp: task_ok_def stored_list_def bump_version_def bump(2))
  moreover have "gw_versions w x \<le> gw_versions w' x" for x by (simp add: bump(1) bump_version_def)
  then have "\<forall>(t, _, _, ver)\<in>set (gw_fans w). ver \<le> gw_versions w' t"
    using assms(2) by (fastforce simp: egress_inv_def list_all_iff intro: order_trans)
  ultimately show ?thesis using assms(2) unfolding bump(1) by (simp add: egress_inv_def list_all_iff)
next
  case (delete t)
  have "task_ok io w' d" if "task_ok io w d" for d
    using that unfolding delete by (auto simp: task_ok_def stored_list_def write_other)
  with assms(2) show ?thesis unfolding delete by (simp add: egress_inv_def list_all_iff)
next
  case (fan t events subs)
  have "task_ok io w' d \<longleftrightarrow> task_ok io w d" for d by (rule task_ok_cong) (simp_all add: fan stored_list_def)
  with assms(2) show ?thesis by (simp add: egress_inv_def list_all_iff fan)
next
  case (spawn fs t events subs ver gs meta)
  have same: "task_ok io w' d \<longleftrightarrow> task_ok io w d" for d by (rule task_ok_cong) (simp_all add: spawn stored_list_def)
  have "task_ok io w d" if "d \<in> set (spawn_tasks io t events subs ver meta)" for d
  proof -
    from spawn_tasks_in [OF that] have d: "dt_tenant d = t" "dt_snapshot d = ver" "dt_attempt d = 0"
      "dispatch_egress_allowed io (or_deny_all (read_tenant_egress_allowlist meta t)) (dt_url d)" by auto
    have "ver \<le> gw_versions w t" using assms(2) spawn(2) by (auto simp: egress_inv_def list_all_iff)
    then show ?thesis
      using read_allowed_stored [OF assms(3) spawn(3) d(4)] assms(2) by (simp add: task_ok_def d egress_inv_def)
  qed
  with assms(2) have "\<forall>d\<in>set (gw_tasks w'). task_ok io w d" by (auto simp: egress_inv_def list_all_iff spawn)
  with assms(2) same show ?thesis by (simp add: egress_inv_def list_all_iff spawn)
next
  case (pass as d bs meta again)
  have same: "task_ok io w' d \<longleftrightarrow> task_ok io w d" for d by (rule task_ok_cong) (simp_all add: pass stored_list_def)
  have "\<forall>d'\<in>set again. task_ok io w d'"
    using pass(2,5) assms(2) next_attempt_in task_ok_later by (fastforce simp: egress_inv_def list_all_iff)
  with assms(2) show ?thesis using same pass by (auto simp: egress_inv_def list_all_iff)
next
  case (skip as d bs meta)
  have same: "task_ok io w' d \<longleftrightarrow> task_ok io w d" for d by (rule task_ok_cong) (simp_all add: skip stored_list_def)
  have "\<forall>d'\<in>set (next_attempt d). task_ok io w d'"
    using skip(2) assms(2) next_attempt_in task_ok_later by (fastforce simp: egress_inv_def list_all_iff)
  with assms(2) show ?thesis using same skip by (auto simp: egress_inv_def list_all_iff)
next
  case (revoke as d bs meta)
  have same: "task_ok io w' d \<longleftrightarrow> task_ok io w d" for d by (rule task_ok_cong) (simp_all add: revoke stored_list_def)
  with assms(2) show ?thesis using same revoke by (auto simp: egress_inv_def list_all_iff)
qed

lemma egress_inv_reach:
  assumes "(egress_step io)\<^sup>*\<^sup>* w0 w" "idle_sys w0" "wi_from_str io ''[]'' = Some (JArray [])"
  shows "egress_inv io w"
  using assms(1)
proof (induction rule: rtranclp_induct)
  case base
  with assms(2) show ?case by (simp add: idle_sys_def egress_inv_def)
qed (use egress_inv_step assms(3) in blast)

text \<open>A delivery that reads the list again gets past no gate the stored list closes.\<close>

lemma gate_denied:
  assumes "wi_from_str io ''[]'' = Some (JArray [])" "meta \<in> {Some (gw_tenants w), None}"
    and "\<not> dispatch_egress_allowed io (stored_list w (dt_tenant d)) (dt_url d)"
    and "dt_attempt d > 0 \<or> dt_snapshot d < gw_versions w (dt_tenant d)"
  shows "gate_of io w d meta \<noteq> Pass"
proof -
  have "\<not> dispatch_egress_allowed io (or_deny_all (read_tenant_egress_allowlist meta (dt_tenant d))) (dt_url d)"
    using read_allowed_stored [OF assms(1,2)] assms(3) by blast
  then show ?thesis using assms(4) by (auto simp: gate_of_def attempt_gate_def split: allowlist_read.splits)
qed

text \<open>Every delivery to the URL will read the list again.\<close>

definition rereads :: "string \<Rightarrow> string \<Rightarrow> egress_sys \<Rightarrow> bool" where
  "rereads t u w \<longleftrightarrow>
     list_all (\<lambda>d. dt_tenant d = t \<and> dt_url d = u \<longrightarrow> dt_attempt d > 0 \<or> dt_snapshot d < gw_versions w t) (gw_tasks w)"

lemma next_attempt_later: "d' \<in> set (next_attempt d) \<Longrightarrow> 0 < dt_attempt d'"
  by (auto dest: next_attempt_in)

abbreviation cleared_for :: "string \<Rightarrow> string \<Rightarrow> egress_sys \<Rightarrow> (string \<times> string) list" where
  "cleared_for t u w \<equiv> filter (\<lambda>c. c = (t, u)) (gw_cleared w)"

lemma rereads_step:
  assumes "egress_step io w w'" "egress_inv io w" "wi_from_str io ''[]'' = Some (JArray [])"
    and denied: "\<not> dispatch_egress_allowed io (stored_list w t) u" and r: "rereads t u w"
  shows "rereads t u w' \<and> cleared_for t u w' = cleared_for t u w"
  using assms(1)
proof cases
  case (bump ps t' qs)
  then show ?thesis using r by (auto simp: rereads_def list_all_iff bump_version_def)
next
  case (spawn fs t' events subs ver gs meta)
  have "dt_tenant d \<noteq> t \<or> dt_url d \<noteq> u" if "d \<in> set (spawn_tasks io t' events subs ver meta)" for d
    using spawn_tasks_in [OF that] read_allowed_stored [OF assms(3) spawn(3)] assms(2) denied
    by (auto simp: egress_inv_def)
  then show ?thesis using r by (auto simp: rereads_def list_all_iff spawn)
next
  case (pass as d bs meta again)
  have d: "d \<in> set (gw_tasks w)" by (simp add: pass)
  have "(dt_tenant d, dt_url d) \<noteq> (t, u)"
  proof
    assume e: "(dt_tenant d, dt_url d) = (t, u)"
    with r d have "dt_attempt d > 0 \<or> dt_snapshot d < gw_versions w (dt_tenant d)" by (auto simp: rereads_def list_all_iff)
    with gate_denied [OF assms(3) pass(3)] e denied assms(2) pass(4) show False by (auto simp: egress_inv_def)
  qed
  moreover have "rereads t u w'"
    using r pass(5) by (auto simp: rereads_def list_all_iff pass(1,2) dest: next_attempt_later)
  ultimately show ?thesis by (simp add: pass)
next
  case (skip as d bs meta)
  have "rereads t u w'"
    using r by (auto simp: rereads_def list_all_iff skip(1,2) dest: next_attempt_later)
  then show ?thesis by (simp add: skip)
qed (use r in \<open>auto simp: rereads_def list_all_iff\<close>)

text \<open>
  C36. A revoked origin gets no further attempt. Take any state the system can reach from one without deliveries in which
  every write of a tenant's allowlist, and its soft delete if there was one, has moved the version, and the list (empty for a
  deleted tenant) denies a URL. As long as the list goes on denying it, no delivery to the URL gets
  past its gate any more: neither one that was waiting for a permit when the list changed, nor one between two
  attempts, nor one of a fan-out that had read the version or the list before; whatever fan-outs,
  deletions, writes and failing reads are interleaved. (The printed empty list, \<open>[]\<close>, parses as an empty array.)
\<close>

theorem revoked_origin_gets_no_attempt:
  assumes serde: "wi_from_str io ''[]'' = Some (JArray [])"
    and "idle_sys w0" "(egress_step io)\<^sup>*\<^sup>* w0 w" "t \<notin> set (gw_unbumped w)"
    and "\<not> dispatch_egress_allowed io (stored_list w t) u"
    and later: "(\<lambda>x y. egress_step io x y \<and> \<not> dispatch_egress_allowed io (stored_list y t) u)\<^sup>*\<^sup>* w w'"
  shows "cleared_for t u w' = cleared_for t u w"
proof -
  note inv = egress_inv_reach [OF assms(3,2) serde]
  have "rereads t u w"
    using inv assms(4,5) by (fastforce simp: rereads_def egress_inv_def list_all_iff task_ok_def)
  with later have "egress_inv io w' \<and> rereads t u w' \<and> cleared_for t u w' = cleared_for t u w \<and>
      \<not> dispatch_egress_allowed io (stored_list w' t) u"
  proof (induction rule: rtranclp_induct)
    case (step y z)
    then have "rereads t u z \<and> cleared_for t u z = cleared_for t u y"
      by (intro rereads_step [of io y z]) (auto intro: serde)
    with step egress_inv_step [of io y z] serde show ?case by auto
  qed (use inv assms(5) in simp)
  then show ?thesis by blast
qed

definition ex_sys :: egress_sys where
  "ex_sys = \<lparr> gw_tenants = [\<lparr> et_id = ''acme'', et_deleted = False, et_allowlist = Some ''W'' \<rparr>], gw_versions = (\<lambda>_. 0), gw_unbumped = [],
     gw_fans = [], gw_tasks = [], gw_cleared = [] \<rparr>"

definition ex_task :: delivery_task where
  "ex_task = \<lparr> dt_tenant = ''acme'', dt_url = wr_url example_hook, dt_snapshot = 0, dt_attempt = 0 \<rparr>"

definition ex_waiting :: egress_sys where "ex_waiting = ex_sys\<lparr> gw_tasks := [ex_task] \<rparr>"

definition ex_revoked :: egress_sys where
  "ex_revoked = ex_waiting\<lparr> gw_tenants := [\<lparr> et_id = ''acme'', et_deleted = False, et_allowlist = Some ''[]'' \<rparr>],
     gw_versions := bump_version (\<lambda>_. 0) ''acme'' \<rparr>"

lemma ex_waiting_reached: "(egress_step example_hook_io)\<^sup>*\<^sup>* ex_sys ex_waiting"
proof -
  let ?f = "ex_sys\<lparr> gw_fans := [(''acme'', [Deleted 1], [example_hook], 0)] \<rparr>"
  have "egress_step example_hook_io ex_sys ?f"
    using egress_step.fan [of example_hook_io ex_sys "''acme''" "[Deleted 1]" "[example_hook]"] by (simp add: ex_sys_def)
  moreover have "matching_events example_hook_io [Deleted 1] example_hook = [Deleted 1]"
    by (simp add: matching_events_def events_contains_def parse_events_def example_hook_def example_hook_io_def)
  then have "spawn_tasks example_hook_io ''acme'' [Deleted 1] [example_hook] 0 (Some (gw_tenants ex_sys)) = [ex_task]"
    by (simp add: spawn_tasks_def fan_spawned_def read_tenant_egress_allowlist_def try_read_live_egress_allowlist_def ex_sys_def
        unwrap_or_def example_hook_allowed ex_task_def)
  then have "egress_step example_hook_io ?f ex_waiting"
    using egress_step.spawn [of ?f "[]" "''acme''" "[Deleted 1]" "[example_hook]" 0 "[]" "Some (gw_tenants ex_sys)" example_hook_io]
    by (simp add: ex_waiting_def ex_sys_def)
  ultimately show ?thesis by (meson converse_rtranclp_into_rtranclp r_into_rtranclp)
qed

lemma ex_revoked_reached: "(egress_step example_hook_io)\<^sup>*\<^sup>* ex_sys ex_revoked"
proof -
  let ?s = "ex_waiting\<lparr> gw_tenants := [\<lparr> et_id = ''acme'', et_deleted = False, et_allowlist = Some ''[]'' \<rparr>], gw_unbumped := [''acme''] \<rparr>"
  have "egress_step example_hook_io ex_waiting ?s"
    using egress_step.store [of example_hook_io ex_waiting "''acme''" "''[]''"]
    by (simp add: ex_waiting_def ex_sys_def store_allowlist_def)
  moreover have "egress_step example_hook_io ?s ex_revoked"
    using egress_step.bump [of ?s "[]" "''acme''" "[]" example_hook_io] by (simp add: ex_revoked_def ex_waiting_def ex_sys_def)
  ultimately show ?thesis using ex_waiting_reached by (meson rtranclp.rtrancl_into_rtrancl)
qed

theorem revoked_origin_gets_no_attempt_witness:
  "(\<lambda>x y. egress_step example_hook_io x y \<and> \<not> dispatch_egress_allowed example_hook_io (stored_list y ''acme'') (wr_url example_hook))\<^sup>*\<^sup>*
     ex_revoked (ex_revoked\<lparr> gw_tasks := [] \<rparr>) \<and>
   cleared_for ''acme'' (wr_url example_hook) (ex_revoked\<lparr> gw_tasks := [] \<rparr>) = cleared_for ''acme'' (wr_url example_hook) ex_revoked"
proof -
  let ?w = "ex_revoked\<lparr> gw_tasks := [] \<rparr>"
  have l: "stored_list ex_revoked ''acme'' = ''[]''" "stored_list ?w ''acme'' = ''[]''"
    by (simp_all add: stored_list_def read_tenant_egress_allowlist_def try_read_live_egress_allowlist_def ex_revoked_def unwrap_or_def)
  have "gate_of example_hook_io ex_revoked ex_task (Some (gw_tenants ex_revoked)) = Revoked"
    by (simp add: gate_of_def attempt_gate_def ex_revoked_def ex_task_def bump_version_def read_tenant_egress_allowlist_def
        try_read_live_egress_allowlist_def unwrap_or_def example_hook_allowed)
  then have "egress_step example_hook_io ex_revoked ?w"
    using egress_step.revoke [of ex_revoked "[]" ex_task "[]" "Some (gw_tenants ex_revoked)" example_hook_io]
    by (simp add: ex_revoked_def ex_waiting_def)
  then have later: "(\<lambda>x y. egress_step example_hook_io x y \<and>
      \<not> dispatch_egress_allowed example_hook_io (stored_list y ''acme'') (wr_url example_hook))\<^sup>*\<^sup>* ex_revoked ?w"
    using l(2) example_hook_allowed(2) by (intro r_into_rtranclp) simp
  have "wi_from_str example_hook_io ''[]'' = Some (JArray [])" "idle_sys ex_sys" "''acme'' \<notin> set (gw_unbumped ex_revoked)"
    "\<not> dispatch_egress_allowed example_hook_io (stored_list ex_revoked ''acme'') (wr_url example_hook)"
    using l example_hook_allowed(2)
    by (simp_all add: example_hook_io_def idle_sys_def ex_sys_def ex_revoked_def ex_waiting_def)
  with revoked_origin_gets_no_attempt [OF _ _ ex_revoked_reached _ _ later] later show ?thesis by blast
qed

section \<open>Registration\<close>

definition get_id :: "(string \<times> string) list \<Rightarrow> (int, string) result" where
  "get_id segs =
     (case map_of segs ''id'' of
        None \<Rightarrow> Inl ''missing id''
      | Some raw \<Rightarrow> (case parse_i64 raw of None \<Rightarrow> Inl ''id must be integer'' | Some i \<Rightarrow> Inr i))"

text \<open>
  The look-up of \<open>host:port\<close>: a literal address (an IPv6 one in its brackets) is itself, everything else goes to DNS.
\<close>

definition socket_lookup :: "url_lib \<Rightarrow> (string \<Rightarrow> ip_addr list option) \<Rightarrow> string \<Rightarrow> ip_addr list option" where
  "socket_lookup ul dns host = (case literal_ip ul host of Some ip \<Rightarrow> Some [ip] | None \<Rightarrow> dns host)"

definition check_url :: "webhook_io \<Rightarrow> (string \<Rightarrow> ip_addr list option) \<Rightarrow> string \<Rightarrow> (unit, string) result" where
  "check_url io dns raw =
     (case ul_scheme (wi_urls io) raw of
        None \<Rightarrow> Inl ''url failed to parse''
      | Some scheme \<Rightarrow>
          let host = unwrap_or (ul_host (wi_urls io) raw) [] in
          if scheme = ''http'' \<and> host \<in> set LOOPBACK_HOSTS \<and> loopback_allowed io then Inr ()
          else if scheme \<noteq> ''https'' then Inl ''url must be https://, or http:// with loopback host''
          else (case socket_lookup (wi_urls io) dns host of
              None \<Rightarrow> Inl ''host could not be resolved to an IP''
            | Some resolved \<Rightarrow>
                if resolved = [] then Inl ''host resolved to no IPs''
                else if list_ex is_private_ip resolved then Inl ''url host resolves to a private/loopback/link-local IP''
                else Inr ()))"

definition EVENT_NAMES :: "string list" where "EVENT_NAMES = [''created'', ''updated'', ''deleted'']"

definition check_events :: "string list \<Rightarrow> (unit, string) result" where
  "check_events events =
     (if events = [] then Inl ''events array must be non-empty''
      else if list_all (\<lambda>e. e \<in> set EVENT_NAMES) events then Inr ()
      else Inl ''events must be subset of {created,updated,deleted}'')"

definition webhook_cap :: "string option \<Rightarrow> int" where
  "webhook_cap var = (case Option.bind var parse_i64 of Some n \<Rightarrow> if 1 \<le> n then n else 32 | None \<Rightarrow> 32)"

definition check_registration_cap :: "string option \<Rightarrow> webhook_row list \<Rightarrow> (unit, string) result" where
  "check_registration_cap var rows =
     (if webhook_cap var \<le> int (length rows) then Inl ''WEBHOOK_LIMIT_EXCEEDED'' else Inr ())"

definition generate_secret :: "nat list \<Rightarrow> string" where
  "generate_secret bytes = concat (map lower_hex bytes)"

text \<open>The table with its counter of identifiers, and the surroundings of a handler.\<close>

record webhook_db =
  wd_rows :: "webhook_row list"
  wd_next :: int

record hook_env =
  he_dns :: "string \<Rightarrow> ip_addr list option"
  he_meta :: "egress_tenant list option"
  he_pool :: bool
  he_wrote :: "(unit, db_error) result"
  he_read :: bool
  he_bytes :: "nat list"
  he_now :: string
  he_cap :: "string option"

record webhook_out =
  wo_id :: int
  wo_collection :: string
  wo_events :: "string list"
  wo_url :: string
  wo_secret :: string
  wo_active :: bool
  wo_failure :: "(string \<times> string) option"
  wo_created :: string

datatype webhook_reply =
    HookErr nat string
  | HookCreated int string
  | HookList "webhook_out list"
  | HookRow webhook_out
  | HookGone

text \<open>Four times the character U+25CF, in UTF-8.\<close>

definition MASK :: string where
  "MASK = concat (replicate 4 [char_of (226 :: nat), char_of (151 :: nat), char_of (143 :: nat)])"

definition webhook_out_of :: "webhook_io \<Rightarrow> webhook_row \<Rightarrow> webhook_out" where
  "webhook_out_of io r =
     \<lparr> wo_id = wr_id r, wo_collection = wr_collection r, wo_events = unwrap_or (parse_events io (wr_events r)) [],
       wo_url = wr_url r, wo_secret = MASK, wo_active = (wr_active r \<noteq> 0), wo_failure = wr_failure r, wo_created = wr_created r \<rparr>"

definition hook_create_handler ::
  "webhook_io \<Rightarrow> hook_env \<Rightarrow> string \<Rightarrow> string \<Rightarrow> string list \<Rightarrow> string \<Rightarrow> webhook_db \<Rightarrow> webhook_reply \<times> webhook_db" where
  "hook_create_handler io env tid collection events url db =
     (if check_url io (he_dns env) url \<noteq> Inr () then (HookErr 422 ''INVALID_URL'', db)
      else if check_events events \<noteq> Inr () then (HookErr 422 ''INVALID_EVENTS'', db)
      else if \<not> registration_egress_allowed io (he_meta env) tid url then (HookErr 400 ''EGRESS_NOT_ALLOWLISTED'', db)
      else if \<not> he_pool env then (HookErr 404 ''TENANT_NOT_FOUND'', db)
      else
        let secret = generate_secret (he_bytes env) in
        case check_registration_cap (he_cap env) (wd_rows db) of
          Inl code \<Rightarrow> (HookErr 409 code, db)
        | Inr _ \<Rightarrow>
            (case he_wrote env of
               Inl _ \<Rightarrow> (HookErr 500 ''DB_ERROR'', db)
             | Inr _ \<Rightarrow>
                 (HookCreated (wd_next db) secret,
                  \<lparr> wd_rows = wd_rows db @
                      [\<lparr> wr_id = wd_next db, wr_collection = collection, wr_events = wi_to_string io (JArray (map JString events)),
                         wr_url = url, wr_secret = secret, wr_active = 1, wr_failure = None, wr_created = he_now env \<rparr>],
                    wd_next = wd_next db + 1 \<rparr>)))"

definition hook_list_handler :: "webhook_io \<Rightarrow> hook_env \<Rightarrow> webhook_db \<Rightarrow> webhook_reply" where
  "hook_list_handler io env db =
     (if \<not> he_pool env then HookErr 404 ''TENANT_NOT_FOUND''
      else HookList (if he_read env then map (webhook_out_of io) (rev (sort_key wr_id (wd_rows db))) else []))"

definition fetch_webhook_row :: "webhook_io \<Rightarrow> hook_env \<Rightarrow> int \<Rightarrow> webhook_db \<Rightarrow> webhook_reply" where
  "fetch_webhook_row io env i db =
     (case if he_read env then find (\<lambda>r. wr_id r = i) (wd_rows db) else None of
        Some r \<Rightarrow> HookRow (webhook_out_of io r)
      | None \<Rightarrow> HookErr 404 ''NOT_FOUND'')"

definition hook_get_handler :: "webhook_io \<Rightarrow> hook_env \<Rightarrow> (string \<times> string) list \<Rightarrow> webhook_db \<Rightarrow> webhook_reply" where
  "hook_get_handler io env segs db =
     (case get_id segs of
        Inl _ \<Rightarrow> HookErr 400 ''BAD_REQUEST''
      | Inr i \<Rightarrow> if \<not> he_pool env then HookErr 404 ''TENANT_NOT_FOUND'' else fetch_webhook_row io env i db)"

record patch_body =
  pb_active :: "bool option"
  pb_events :: "string list option"
  pb_url :: "string option"
  pb_secret :: "string option"

text \<open>The three updates of one row.\<close>

definition patched_row :: "webhook_io \<Rightarrow> patch_body \<Rightarrow> webhook_row \<Rightarrow> webhook_row" where
  "patched_row io body r =
     r\<lparr> wr_active := (case pb_active body of Some b \<Rightarrow> if b then 1 else 0 | None \<Rightarrow> wr_active r),
        wr_events := (case pb_events body of Some es \<Rightarrow> wi_to_string io (JArray (map JString es)) | None \<Rightarrow> wr_events r),
        wr_url := unwrap_or (pb_url body) (wr_url r) \<rparr>"

definition hook_patch_handler ::
  "webhook_io \<Rightarrow> hook_env \<Rightarrow> string \<Rightarrow> (string \<times> string) list \<Rightarrow> patch_body \<Rightarrow> webhook_db \<Rightarrow> webhook_reply \<times> webhook_db" where
  "hook_patch_handler io env tid segs body db =
     (if pb_secret body \<noteq> None then (HookErr 422 ''INVALID_PATCH'', db)
      else case get_id segs of
        Inl _ \<Rightarrow> (HookErr 400 ''BAD_REQUEST'', db)
      | Inr i \<Rightarrow>
          if (case pb_url body of Some u \<Rightarrow> check_url io (he_dns env) u \<noteq> Inr () | None \<Rightarrow> False) then (HookErr 422 ''INVALID_URL'', db)
          else if (case pb_url body of Some u \<Rightarrow> \<not> registration_egress_allowed io (he_meta env) tid u | None \<Rightarrow> False)
          then (HookErr 400 ''EGRESS_NOT_ALLOWLISTED'', db)
          else if (case pb_events body of Some es \<Rightarrow> check_events es \<noteq> Inr () | None \<Rightarrow> False) then (HookErr 422 ''INVALID_EVENTS'', db)
          else if \<not> he_pool env then (HookErr 404 ''TENANT_NOT_FOUND'', db)
          else (case he_wrote env of
              Inl _ \<Rightarrow> (HookErr 500 ''DB_ERROR'', db)
            | Inr _ \<Rightarrow>
                let db' = db\<lparr> wd_rows := map (\<lambda>r. if wr_id r = i then patched_row io body r else r) (wd_rows db) \<rparr> in
                if \<not> list_ex (\<lambda>r. wr_id r = i) (wd_rows db') then (HookErr 404 ''NOT_FOUND'', db')
                else (fetch_webhook_row io env i db', db')))"

definition hook_delete_handler :: "hook_env \<Rightarrow> (string \<times> string) list \<Rightarrow> webhook_db \<Rightarrow> webhook_reply \<times> webhook_db" where
  "hook_delete_handler env segs db =
     (case get_id segs of
        Inl _ \<Rightarrow> (HookErr 400 ''BAD_REQUEST'', db)
      | Inr i \<Rightarrow>
          if \<not> he_pool env then (HookErr 404 ''TENANT_NOT_FOUND'', db)
          else (case he_wrote env of
              Inl _ \<Rightarrow> (HookErr 500 ''DB_ERROR'', db)
            | Inr _ \<Rightarrow>
                if list_ex (\<lambda>r. wr_id r = i) (wd_rows db)
                then (HookGone, db\<lparr> wd_rows := filter (\<lambda>r. wr_id r \<noteq> i) (wd_rows db) \<rparr>)
                else (HookErr 404 ''NOT_FOUND'', db)))"

text \<open>What the routes keep: the operations of one tenant's table, with any surroundings.\<close>

datatype hook_op =
    HookCreate hook_env string string "string list" string
  | HookPatch hook_env string "(string \<times> string) list" patch_body
  | HookDelete hook_env "(string \<times> string) list"
  | HookFail string int string

fun hook_apply :: "webhook_io \<Rightarrow> hook_op \<Rightarrow> webhook_db \<Rightarrow> webhook_db" where
  "hook_apply io (HookCreate env tid collection events url) db = snd (hook_create_handler io env tid collection events url db)"
| "hook_apply io (HookPatch env tid segs body) db = snd (hook_patch_handler io env tid segs body db)"
| "hook_apply io (HookDelete env segs) db = snd (hook_delete_handler env segs db)"
| "hook_apply io (HookFail now i reason) db = db\<lparr> wd_rows := record_failure now i reason (wd_rows db) \<rparr>"

fun hook_op_cap :: "hook_op \<Rightarrow> string option \<Rightarrow> bool" where
  "hook_op_cap (HookCreate env _ _ _ _) cap \<longleftrightarrow> he_cap env = cap"
| "hook_op_cap _ cap \<longleftrightarrow> True"

text \<open>A URL a webhook may have: a development loopback host, or \<open>https\<close> with an origin.\<close>

definition hook_url_ok :: "webhook_io \<Rightarrow> string \<Rightarrow> bool" where
  "hook_url_ok io url \<longleftrightarrow>
     is_loopback_dev_url io url \<or>
     ul_scheme (wi_urls io) url = Some ''https'' \<and> (\<exists>out. normalize_origin url = Inr out)"

definition hook_row_ok :: "webhook_io \<Rightarrow> webhook_row \<Rightarrow> bool" where
  "hook_row_ok io r \<longleftrightarrow>
     hook_url_ok io (wr_url r) \<and> wr_active r \<in> {0, 1} \<and>
     (\<exists>es. parse_events io (wr_events r) = Some es \<and> es \<noteq> [] \<and> set es \<subseteq> set EVENT_NAMES) \<and>
     (\<forall>when reason. wr_failure r = Some (when, reason) \<longrightarrow> chars_count reason \<le> 200)"

definition hook_db_ok :: "webhook_io \<Rightarrow> string option \<Rightarrow> webhook_db \<Rightarrow> bool" where
  "hook_db_ok io cap db \<longleftrightarrow>
     list_all (hook_row_ok io) (wd_rows db) \<and> distinct (map wr_id (wd_rows db)) \<and> list_all (\<lambda>r. wr_id r < wd_next db) (wd_rows db) \<and>
     int (length (wd_rows db)) \<le> webhook_cap cap"

lemma take_chars_count: "chars_count (take_chars n s) \<le> n"
  by (induction n s rule: take_chars.induct) (auto simp: chars_count_def cont_def split: nat.splits)

lemma lower_loopback: "h \<in> set LOOPBACK_HOSTS \<Longrightarrow> to_ascii_lowercase h = h"
  by (auto simp: LOOPBACK_HOSTS_def to_ascii_lowercase_def ascii_lower_def byte_def)

lemma admitted_url_ok:
  assumes "check_url io dns url = Inr ()" "registration_egress_allowed io meta tid url"
  shows "hook_url_ok io url"
proof (cases "is_loopback_dev_url io url")
  case False
  have "ul_scheme (wi_urls io) url = Some ''https''"
    using assms(1) False lower_loopback
    by (auto simp: check_url_def is_loopback_dev_url_def url_host_def Let_def split: option.splits if_splits)
  moreover have "\<exists>out. normalize_origin url = Inr out"
    using assms(2) False by (auto simp: registration_egress_allowed_def dispatch_egress_allowed_def check_egress_def split: sum.splits)
  ultimately show ?thesis by (simp add: hook_url_ok_def)
qed (simp add: hook_url_ok_def)

lemma admitted_events:
  assumes "check_events es = Inr ()"
    and "wi_from_str io (wi_to_string io (JArray (map JString es))) = Some (JArray (map JString es))"
  shows "parse_events io (wi_to_string io (JArray (map JString es))) = Some es \<and> es \<noteq> [] \<and> set es \<subseteq> set EVENT_NAMES"
  using assms by (auto simp: check_events_def parse_events_def strings_of_json_map list_all_iff split: if_splits)

lemma webhook_cap_pos: "1 \<le> webhook_cap cap"
  by (auto simp: webhook_cap_def split: option.splits)

lemma map_row_ok:
  assumes "hook_db_ok io cap db" "\<And>r. hook_row_ok io r \<Longrightarrow> hook_row_ok io (f r)" "\<And>r. wr_id (f r) = wr_id r"
  shows "hook_db_ok io cap (db\<lparr> wd_rows := map (\<lambda>r. if wr_id r = i then f r else r) (wd_rows db) \<rparr>)"
proof -
  have "wr_id \<circ> (\<lambda>r. if wr_id r = i then f r else r) = wr_id" using assms(3) by auto
  then show ?thesis using assms by (auto simp: hook_db_ok_def list_all_iff)
qed

lemma hook_apply_ok:
  assumes serde: "\<And>es. check_events es = Inr () \<Longrightarrow> wi_from_str io (wi_to_string io (JArray (map JString es))) = Some (JArray (map JString es))"
    and "hook_db_ok io cap db" "hook_op_cap op cap"
  shows "hook_db_ok io cap (hook_apply io op db)"
proof (cases op)
  case (HookCreate env tid collection events url)
  show ?thesis
  proof (cases "hook_apply io op db = db")
    case False
    then have c: "check_url io (he_dns env) url = Inr ()" "check_events events = Inr ()"
        "registration_egress_allowed io (he_meta env) tid url" "check_registration_cap (he_cap env) (wd_rows db) = Inr ()"
      and db: "hook_apply io op db = \<lparr> wd_rows = wd_rows db @
          [\<lparr> wr_id = wd_next db, wr_collection = collection, wr_events = wi_to_string io (JArray (map JString events)), wr_url = url,
             wr_secret = generate_secret (he_bytes env), wr_active = 1, wr_failure = None, wr_created = he_now env \<rparr>],
        wd_next = wd_next db + 1 \<rparr>"
      by (auto simp: HookCreate hook_create_handler_def Let_def check_registration_cap_def split: sum.splits if_splits)
    from assms(2,3) c(4) admitted_url_ok [OF c(1,3)] admitted_events [OF c(2) serde [OF c(2)]] show ?thesis
      unfolding db by (fastforce simp: hook_db_ok_def hook_row_ok_def list_all_iff HookCreate check_registration_cap_def split: if_splits)
  qed (use assms(2) in simp)
next
  case (HookPatch env tid segs body)
  show ?thesis
  proof (cases "hook_apply io op db = db")
    case False
    then obtain i where db: "hook_apply io op db = db\<lparr> wd_rows := map (\<lambda>r. if wr_id r = i then patched_row io body r else r) (wd_rows db) \<rparr>"
      and u: "case pb_url body of Some u \<Rightarrow> check_url io (he_dns env) u = Inr () \<and> registration_egress_allowed io (he_meta env) tid u | None \<Rightarrow> True"
      and e: "case pb_events body of Some es \<Rightarrow> check_events es = Inr () | None \<Rightarrow> True"
      by (auto simp: HookPatch hook_patch_handler_def Let_def split: sum.splits if_splits option.splits)
    have "hook_row_ok io (patched_row io body r)" if "hook_row_ok io r" for r
      using that u e admitted_url_ok admitted_events [OF _ serde]
      by (auto simp: hook_row_ok_def patched_row_def unwrap_or_def split: option.splits)
    then show ?thesis unfolding db by (intro map_row_ok assms(2)) (simp_all add: patched_row_def)
  qed (use assms(2) in simp)
next
  case (HookDelete env segs)
  have "hook_db_ok io cap (db\<lparr> wd_rows := filter (\<lambda>r. wr_id r \<noteq> i) (wd_rows db) \<rparr>)" for i
  proof -
    have "int (length (filter (\<lambda>r. wr_id r \<noteq> i) (wd_rows db))) \<le> int (length (wd_rows db))" by simp
    also have "\<dots> \<le> webhook_cap cap" using assms(2) by (simp add: hook_db_ok_def)
    finally show ?thesis using assms(2) by (auto simp: hook_db_ok_def list_all_iff distinct_map inj_on_def)
  qed
  with assms(2) show ?thesis by (auto simp: HookDelete hook_delete_handler_def split: sum.splits)
next
  case (HookFail now i reason)
  show ?thesis unfolding HookFail hook_apply.simps record_failure_def
    by (intro map_row_ok assms(2)) (auto simp: hook_row_ok_def take_chars_count)
qed

text \<open>
  The table of webhooks stays well formed. Whatever registrations, changes, deletions and recorded failures are
  applied to it, in any order and with any outcome of the look-ups and statements, its rows have distinct identifiers below the next one,
  are no more than the cap, and each has an \<open>https\<close> URL with an origin (or a development loopback one), at least
  one known event and no unknown one, a flag that is 0 or 1, and a failure reason of at most 200 characters.
\<close>

theorem webhook_table_wellformed:
  assumes serde: "\<And>es. check_events es = Inr () \<Longrightarrow> wi_from_str io (wi_to_string io (JArray (map JString es))) = Some (JArray (map JString es))"
    and "list_all (\<lambda>op. hook_op_cap op cap) ops"
  shows "hook_db_ok io cap (fold (hook_apply io) ops \<lparr> wd_rows = [], wd_next = 1 \<rparr>)"
proof -
  have "hook_db_ok io cap (fold (hook_apply io) ops db)" if "hook_db_ok io cap db" for db
    using assms(2) that
  proof (induction ops arbitrary: db)
    case (Cons op ops)
    with hook_apply_ok [OF serde Cons.prems(2)] show ?case by simp
  qed simp
  moreover have "hook_db_ok io cap \<lparr> wd_rows = [], wd_next = 1 \<rparr>"
    using webhook_cap_pos [of cap] by (simp add: hook_db_ok_def)
  ultimately show ?thesis by blast
qed

lemma filter_spawned_other:
  assumes "\<forall>s\<in>set subs. wr_id s \<noteq> i"
  shows "filter (\<lambda>(s, _). wr_id s = i) (fan_spawned io allowlist events subs) = []"
  using assms by (auto simp: fan_spawned_def filter_empty_conv split: if_splits)

lemma fan_spawned_append: "fan_spawned io allowlist events (xs @ ys) = fan_spawned io allowlist events xs @ fan_spawned io allowlist events ys"
  by (simp add: fan_spawned_def)

text \<open>
  C40. A registered webhook fires for its events and for no others. When a registration is accepted, the table holds a row with the
  identifier and the secret of the reply; a batch of events of the row's collection, while the allowlist allows the URL,
  starts exactly one delivery of the row for each event of a kind it asked for, in their order, and events
  of another collection start none. (The table was well formed, the list of events that was printed parses back, and the
  dispatcher can open the tenant's database and read the table.)
\<close>

theorem registered_hook_fires:
  assumes created: "hook_create_handler io env tid collection events url db = (HookCreated i secret, db')"
    and ok: "hook_db_ok io cap db"
    and serde: "wi_from_str io (wi_to_string io (JArray (map JString events))) = Some (JArray (map JString events))"
    and allowed: "dispatch_egress_allowed io (or_deny_all (read_tenant_egress_allowlist meta tid)) url"
  shows "\<exists>r. r \<in> set (wd_rows db') \<and> wr_id r = i \<and> wr_secret r = secret \<and> wr_url r = url \<and>
    filter (\<lambda>(s, _, _). wr_id s = i) (fst (dispatch_many io now versions meta True True tid collection evs (wd_rows db'))) =
      map (\<lambda>e. (r, e, versions tid)) (filter (\<lambda>e. event_name e \<in> set events) evs) \<and>
    (other \<noteq> collection \<longrightarrow>
      filter (\<lambda>(s, _, _). wr_id s = i) (fst (dispatch_many io now versions meta True True tid other evs (wd_rows db'))) = [])"
proof -
  define r where "r = \<lparr> wr_id = wd_next db, wr_collection = collection, wr_events = wi_to_string io (JArray (map JString events)),
    wr_url = url, wr_secret = generate_secret (he_bytes env), wr_active = 1, wr_failure = None, wr_created = he_now env \<rparr>"
  from created have i: "i = wd_next db" "secret = generate_secret (he_bytes env)" and db': "wd_rows db' = wd_rows db @ [r]"
    by (auto simp: hook_create_handler_def r_def Let_def split: sum.splits if_splits)
  have old: "\<forall>s\<in>set (list_subscriptions (wd_rows db) c). wr_id s \<noteq> i" for c
    using ok by (auto simp: hook_db_ok_def list_all_iff list_subscriptions_def i(1))
  have subs: "list_subscriptions (wd_rows db') c = list_subscriptions (wd_rows db) c @ (if c = collection then [r] else [])" for c
    by (simp add: list_subscriptions_def db' r_def)
  have m: "matching_events io evs r = filter (\<lambda>e. event_name e \<in> set events) evs"
    using serde by (simp add: matching_events_def events_contains_def parse_events_def r_def strings_of_json_map list_ex_iff)
  let ?a = "or_deny_all (read_tenant_egress_allowlist meta tid)"
  have spawned: "fan_spawned io ?a evs [r] = map (Pair r) (filter (\<lambda>e. event_name e \<in> set events) evs)"
    using allowed m by (simp add: fan_spawned_def r_def)
  have shape: "filter (\<lambda>(s, _, _). wr_id s = i) (map (\<lambda>(sub, ev). (sub, ev, v)) xs) =
      map (\<lambda>(sub, ev). (sub, ev, v)) (filter (\<lambda>(s, _). wr_id s = i) xs)" for v :: nat and xs :: "(webhook_row \<times> event) list"
    by (induction xs) auto
  have d: "fst (dispatch_many io now versions meta True True tid c evs (wd_rows db')) =
      map (\<lambda>(sub, ev). (sub, ev, versions tid)) (fan_spawned io ?a evs (list_subscriptions (wd_rows db') c))" for c
    by (auto simp: dispatch_many_def Let_def fan_spawned_def matching_events_def)
  have "filter (\<lambda>(s, _, _). wr_id s = i) (fst (dispatch_many io now versions meta True True tid c evs (wd_rows db'))) =
      (if c = collection then map (\<lambda>e. (r, e, versions tid)) (filter (\<lambda>e. event_name e \<in> set events) evs) else [])" for c
    unfolding d shape subs fan_spawned_append filter_append filter_spawned_other [OF old]
    using spawned i(1) by (simp add: fan_spawned_def r_def comp_def filter_map)
  then show ?thesis using i db' by (intro exI [of _ r]) (auto simp: r_def)
qed

text \<open>A small codec for lists of event names.\<close>

definition event_of_char :: "char \<Rightarrow> string" where
  "event_of_char c = (if c = CHR ''c'' then ''created'' else if c = CHR ''u'' then ''updated'' else ''deleted'')"

definition event_codec_in :: "string \<Rightarrow> json option" where
  "event_codec_in s = Some (JArray (map (\<lambda>c. JString (event_of_char c)) s))"

fun event_codec_out :: "json \<Rightarrow> string" where
  "event_codec_out (JArray js) = map (\<lambda>j. case j of JString s \<Rightarrow> hd s | _ \<Rightarrow> CHR ''d'') js"
| "event_codec_out _ = []"

lemma event_codec:
  assumes "check_events es = Inr ()"
  shows "event_codec_in (event_codec_out (JArray (map JString es))) = Some (JArray (map JString es))"
proof -
  have "event_of_char (hd e) = e" if "e \<in> set es" for e
  proof -
    have "e \<in> set EVENT_NAMES" using assms that by (auto simp: check_events_def list_all_iff split: if_splits)
    then consider "e = ''created''" | "e = ''updated''" | "e = ''deleted''" unfolding EVENT_NAMES_def by auto
    then show ?thesis by cases (simp_all add: event_of_char_def)
  qed
  then show ?thesis by (simp add: event_codec_in_def)
qed

definition codec_io :: webhook_io where
  "codec_io = example_hook_io\<lparr> wi_from_str := event_codec_in, wi_to_string := event_codec_out, wi_debug := True,
     wi_urls := \<lparr> ul_host = (\<lambda>_. Some ''localhost''), ul_port = (\<lambda>_. None), ul_scheme = (\<lambda>_. Some ''http''), ul_parse_ip = (\<lambda>_. None) \<rparr> \<rparr>"

definition codec_env :: hook_env where
  "codec_env = \<lparr> he_dns = (\<lambda>_. None), he_meta = None, he_pool = True, he_wrote = Inr (), he_read = True, he_bytes = [18, 171], he_now = ''now'',
     he_cap = Some ''1'' \<rparr>"

lemma codec_serde:
  "check_events es = Inr () \<Longrightarrow> wi_from_str codec_io (wi_to_string codec_io (JArray (map JString es))) = Some (JArray (map JString es))"
  using event_codec by (simp add: codec_io_def del: event_codec_out.simps)

lemma codec_loopback: "is_loopback_dev_url codec_io url" "check_url codec_io dns url = Inr ()"
proof -
  have l: "loopback_allowed codec_io" by (simp add: loopback_allowed_def webhook_loopback_allowed_def codec_io_def)
  moreover have "to_ascii_lowercase ''localhost'' = ''localhost''" by (simp add: lower_loopback LOOPBACK_HOSTS_def)
  ultimately show "is_loopback_dev_url codec_io url"
    by (simp add: is_loopback_dev_url_def url_host_def codec_io_def unwrap_or_def LOOPBACK_HOSTS_def)
  show "check_url codec_io dns url = Inr ()" using l by (simp add: check_url_def codec_io_def unwrap_or_def LOOPBACK_HOSTS_def)
qed

theorem webhook_table_wellformed_witness:
  "hook_db_ok codec_io (Some ''1'') (fold (hook_apply codec_io)
     [HookCreate codec_env ''acme'' ''notes'' [''created''] ''http://localhost'', HookCreate codec_env ''acme'' ''notes'' [''deleted''] ''http://localhost'']
     \<lparr> wd_rows = [], wd_next = 1 \<rparr>)"
  by (rule webhook_table_wellformed [OF codec_serde]) (simp_all add: codec_env_def)

definition codec_row :: webhook_row where
  "codec_row = \<lparr> wr_id = 1, wr_collection = ''notes'', wr_events = ''c'', wr_url = ''http://localhost'', wr_secret = generate_secret [18, 171],
     wr_active = 1, wr_failure = None, wr_created = ''now'' \<rparr>"

theorem registered_hook_fires_witness:
  "\<exists>r. filter (\<lambda>(s, _, _). wr_id s = 1) (fst (dispatch_many codec_io ''t'' (\<lambda>_. 4) None True True ''acme'' ''notes'' [Created [], Deleted 3]
     [codec_row])) = [(r, Created [], 4)]"
proof -
  let ?db = "\<lparr> wd_rows = [], wd_next = 1 \<rparr>"
  have cap: "webhook_cap (Some ''1'') = 1"
    by (simp add: webhook_cap_def parse_i64_def parse_unsigned_def is_digit_def digits_value_def byte_def)
  have e: "check_events [''created''] = Inr ()" by (simp add: check_events_def EVENT_NAMES_def)
  have "hook_create_handler codec_io codec_env ''acme'' ''notes'' [''created''] ''http://localhost'' ?db =
      (HookCreated 1 (generate_secret [18, 171]), \<lparr> wd_rows = [codec_row], wd_next = 2 \<rparr>)"
    using cap e by (simp add: hook_create_handler_def codec_loopback registration_egress_allowed_def dispatch_egress_allowed_def
        check_registration_cap_def codec_env_def Let_def codec_row_def)
      (simp add: codec_io_def)
  moreover have "hook_db_ok codec_io (Some ''1'') ?db" by (simp add: hook_db_ok_def cap)
  moreover have "wi_from_str codec_io (wi_to_string codec_io (JArray (map JString [''created'']))) = Some (JArray (map JString [''created'']))"
    by (rule codec_serde [OF e])
  moreover have "dispatch_egress_allowed codec_io (or_deny_all (read_tenant_egress_allowlist None ''acme'')) ''http://localhost''"
    by (simp add: dispatch_egress_allowed_def codec_loopback)
  ultimately obtain r where "filter (\<lambda>(s, _, _). wr_id s = 1) (fst (dispatch_many codec_io ''t'' (\<lambda>_. 4) None True True ''acme'' ''notes''
      [Created [], Deleted 3] [codec_row])) = map (\<lambda>e. (r, e, 4)) (filter (\<lambda>e. event_name e \<in> set [''created'']) [Created [], Deleted 3])"
    using registered_hook_fires [where meta = None and now = "''t''" and versions = "\<lambda>_. 4" and evs = "[Created [], Deleted 3]"] by fastforce
  then show ?thesis by auto
qed

end
