(* ===== verification/Spec2Isabelle.thy ===== *)
theory Spec2Isabelle
  imports Batch_Write Room_Ws Rpc_Config Rpc_Call Webhooks
begin

text \<open>
  Verification of drust, a multi-tenant backend over one SQLite database per tenant. A request enters
  through the bearer layer, which turns a token into an identity (service, end user, anonymous);
  the capability sets, the owner column and the row-level policies of a collection then decide what
  that identity may read and write; writes run in one transaction with their history entry and their
  quota check, and are announced on the buses after the commit. Beside the records stand stored
  calls (SQL or query templates an anonymous caller may be allowed to run), files with their own
  policies and resumable uploads, broadcast rooms over web sockets, and webhooks and functions whose outbound
  traffic is confined to an allowlist.

  \<^bold>\<open>Theories and sources\<close> (paths under \<open>src/src/\<close>).

  \<^item> \<open>Prelude\<close>, \<open>Machine_Int\<close>: results, the string functions of Rust the code uses, wrapping and
    saturating 64-bit arithmetic.
  \<^item> \<open>Json\<close>, \<open>Schema\<close>, \<open>Sql\<close>: JSON and SQL values (\<open>serde_json\<close>, \<open>rusqlite::types\<close>); collections, verbs,
    roles, identities and capability sets (\<open>storage/schema.rs\<close>, \<open>auth/middleware.rs\<close>, \<open>tenant/router.rs\<close>);
    the SQL expressions the compilers emit, their text, and the interface \<open>sqlite_engine\<close> of a
    three-valued evaluator, interpreted on a reference evaluator.
  \<^item> \<open>Filter_Compiler\<close>, \<open>Policy\<close>, \<open>List_Builder\<close>: \<open>query/vector_filter.rs\<close>, \<open>query/policy.rs\<close>,
    \<open>query/list_builder.rs\<close>. The filter compiler refines a grammar of accepted filters; the two
    evaluators of a policy agree, LIKE and its translation to a regular expression included (interface
    \<open>regex_engine\<close> of the expressions the code writes); validated policies compile for everybody.
  \<^item> \<open>Read_Path\<close>: \<open>tenant/records_list.rs\<close>, the gate and the statements of the list and aggregate
    handlers, and what their errors may show.
  \<^item> \<open>Quota\<close>, \<open>Vector_Codec\<close>: \<open>storage/quota.rs\<close>, \<open>query/vector_codec.rs\<close>.
  \<^item> \<open>Record_Write\<close>: \<open>mcp/tools/write.rs\<close>, \<open>storage/record_history.rs\<close>, \<open>functions/enforce.rs\<close>; the
    interfaces \<open>sqlite_writer\<close> and \<open>sqlite_keyed\<close> state what the writer relies on, interpreted on a reference database.
    Writes are confined to the caller's rows, allowed and recorded.
  \<^item> \<open>Rest_Records\<close>: \<open>tenant/records.rs\<close> and \<open>query/filter.rs\<close>, the handlers over HTTP. They write what
    the enforcement core writes; the dry run of a delete tells what the delete does; reading one record
    shows what the list shows.
  \<^item> \<open>Batch_Write\<close>: \<open>mcp/tools/batch.rs\<close> and the upsert of \<open>mcp/tools/write.rs\<close>. A batch is its single
    inserts, all or none; an upsert (interface \<open>upsert_engine\<close> of SQLite's comparisons and conflicts, interpreted on a
    reference engine with collations) announces what it committed; that the code's probe agrees with SQLite is proved.
  \<^item> \<open>History_Capture\<close>: the pre-update hook of \<open>storage/record_history.rs\<close>, which turns the row
    changes of a script into history rows.
  \<^item> \<open>Authorizer\<close>, \<open>Rpc_Template\<close>, \<open>Rpc_Registry\<close>, \<open>Rpc_Guard\<close>, \<open>Rpc_Config\<close>, \<open>Rpc_Exec\<close>, \<open>Rpc_Call\<close>:
    \<open>query/authorizer.rs\<close>, \<open>rpc/\<close>, \<open>tenant/rpc_routes.rs\<close>, \<open>tenant/policy_routes.rs\<close> and the owner-field
    operations: the templates and their parameters, the registry, the guards that keep an anonymous
    call confined, the operations that could undo them, the execution of a script in savepoints
    (interface \<open>script_engine\<close>) and the call itself.
  \<^item> \<open>File_Path\<close>, \<open>File_Policy\<close>, \<open>File_Caps\<close>, \<open>Uploads\<close>: \<open>storage/file_path.rs\<close>,
    \<open>storage/file_policy.rs\<close>, \<open>tenant/file_caps.rs\<close>, \<open>storage/files.rs\<close>, \<open>tenant/uploads/\<close>.
  \<^item> \<open>Auth_Cache\<close>, \<open>Auth_Layer\<close>, \<open>Auth_Revocation\<close>: \<open>tenant/auth_cache.rs\<close>, \<open>tenant/router.rs\<close>,
    \<open>auth/user_session.rs\<close>, \<open>auth/bearer.rs\<close>, \<open>auth/admin_token.rs\<close>, \<open>storage/pool.rs\<close> and the handlers of
    \<open>mgmt/\<close> and \<open>tenant/\<close> that take an identity away. The cache is the interface \<open>ttl_cache\<close>; the
    look-up is a step relation whose steps interleave with all other work of the process.
  \<^item> \<open>Room_Policy\<close>, \<open>Room_Bus\<close>, \<open>Room_Ws\<close>: \<open>tenant/rooms/\<close>. Channels and eviction epochs are the
    interfaces \<open>channel_registry\<close> and \<open>eviction_clock\<close>; sockets and the bus form a step relation.
  \<^item> \<open>Egress\<close>: \<open>tenant/egress.rs\<close>, \<open>tenant/egress_config.rs\<close>, \<open>tenant/webhook_resolver.rs\<close> and \<open>http_fetch\<close> of
    \<open>functions/runtime.rs\<close>: origins and the allowlist, the addresses nothing is sent to (as words, against the blocks
    of the standards), and where a fetch of a function can go.
  \<^item> \<open>Webhooks\<close>: \<open>tenant/webhook_dispatcher.rs\<close>, \<open>tenant/webhook_routes.rs\<close>: the fan-out, the delivery with its attempts, the
    registration. Writes of the allowlist, fan-outs and attempts form a step relation in which a revoked origin gets
    no further attempt.
  \<^item> \<open>Rate_Limit\<close>: \<open>safety/rate_limit.rs\<close>, \<open>safety/ip.rs\<close>, refined to an ideal sliding window.

  \<^bold>\<open>State and errors.\<close> Structs are records with the fields of the code, enums are datatypes; a handler
  is a function from the state to its response and the new state. An error is the left side of a
  \<open>result\<close>, so that every early return is a branch. Integers have their width where they can
  overflow (\<open>u32\<close>, \<open>u64\<close> as words, \<open>i64\<close> by \<open>i64_wrap\<close>). Strings are the bytes of their UTF-8.

  \<^bold>\<open>Parameters.\<close> What is not in this repository is an argument: SQLite (the records \<open>reader\<close>, \<open>sqlite\<close>,
  \<open>prep_engine\<close>, \<open>exec_engine\<close> of the calls made on it, constrained where a theorem needs it by the
  interfaces above), the text parser and printer of \<open>serde_json\<close>, \<open>regex_lite\<close>, SHA-256, base64, the
  clock and \<open>chrono\<close>, the URL parser, DNS and the HTTP client, HMAC, the MIME table, random identifiers, and the outcome of every operation on the
  file system and the object store. Each interface is interpreted on a concrete instance, and each
  theorem with hypotheses has a witness at one.

  \<^bold>\<open>Fuel and termination.\<close> No definition runs on fuel: every loop of the code is a structural recursion
  or has a measure (the decimal printer, the statement splitter, the white-space scanners, the digits of a
  binary float), so each model is total.

  \<^bold>\<open>Not modelled.\<close> The management pages and their forms (\<open>mgmt/\<close> other than the revoking handlers), the MCP
  transport and resource listings (\<open>mcp/handler.rs\<close>, \<open>mcp/resources.rs\<close>), the WASM host of the functions
  (\<open>functions/runtime.rs\<close> beyond its outbound call), the cron worker, OAuth, the DDL that creates and migrates
  tables (\<open>storage/schema.rs\<close> beyond the types, \<open>db/migrations.rs\<close>), backups, the object-store client, the
  audit sink, code generation and the build checks: they are mostly calls to external
  libraries, HTML or SQL text without a decision of their own, or run beside the request path.
  A transaction that runs to its end commits: failures of \<open>BEGIN\<close> and \<open>COMMIT\<close> on a tenant's database are
  not modelled. The lemmas on the scripts of stored calls (\<open>Rpc_Exec\<close>) take savepoints that work and
  statements that do not change a rowid; a frame on a room's socket is one step together with its eviction check.
  Log lines, metrics and the wording of most messages are left out of the models.
\<close>

end
